(* ===== verification/Prelude.thy ===== *)
theory Prelude
  imports Main "HOL-Library.List_Lexorder" "HOL-Library.Char_ord"
begin

text \<open>
  Shared vocabulary of the development: Python exceptions as values, computations that
  may raise (\<open>'a res\<close>), computations that also read and change the world outside the
  program (\<open>('w, 'a) io\<close>), insertion-ordered dictionaries, and the text operations the
  sources use (\<open>strip\<close>, \<open>upper\<close>, \<open>lower\<close>, \<open>join\<close>, \<open>startswith\<close>).  Text is modelled as
  \<open>string\<close>; case conversion and white space are those of ASCII text.
\<close>

named_theorems io_simps "evaluation rules for the io combinators"
named_theorems dict_simps "lookup, keys and well-formedness of dictionaries"

section \<open>Exceptions and results\<close>

datatype pyexn =
    ValueError string
  | TypeError string
  | RuntimeError string
  | KeyError string
  | AttributeError string
  | ZeroDivisionError
  | OverflowError
  | OtherError string

type_synonym 'a res = "pyexn + 'a"

definition res_bind :: "'a res \<Rightarrow> ('a \<Rightarrow> 'b res) \<Rightarrow> 'b res" where
  "res_bind m f = (case m of Inl e \<Rightarrow> Inl e | Inr x \<Rightarrow> f x)"

lemma res_bind_simps [simp, io_simps]:
  "res_bind (Inl e) f = Inl e"
  "res_bind (Inr x) f = f x"
  by (simp_all add: res_bind_def)

lemma res_bind_InrE:
  assumes "res_bind m f = Inr y"
  obtains x where "m = Inr x" and "f x = Inr y"
  using assms by (cases m) auto

lemma res_bind_Inr_iff: "res_bind m f = Inr y \<longleftrightarrow> (\<exists>x. m = Inr x \<and> f x = Inr y)"
  by (cases m) auto

lemma res_bind_assoc: "res_bind (res_bind m f) g = res_bind m (\<lambda>x. res_bind (f x) g)"
  by (cases m) auto

text \<open>Running a fallible function over a list stops at the first exception.\<close>

fun res_map :: "('a \<Rightarrow> 'b res) \<Rightarrow> 'a list \<Rightarrow> 'b list res" where
  "res_map f [] = Inr []"
| "res_map f (x # xs) = res_bind (f x) (\<lambda>y. res_bind (res_map f xs) (\<lambda>ys. Inr (y # ys)))"

lemma res_map_Inr_length: "res_map f xs = Inr ys \<Longrightarrow> length ys = length xs"
  by (induction xs arbitrary: ys) (auto simp: res_bind_Inr_iff)

lemma res_map_pure [simp]: "res_map (\<lambda>x. Inr (f x)) xs = Inr (map f xs)"
  by (induction xs) auto

lemma res_map_set:
  "res_map f xs = Inr ys \<Longrightarrow> y \<in> set ys \<Longrightarrow> \<exists>x \<in> set xs. f x = Inr y"
  by (induction xs arbitrary: ys) (auto simp: res_bind_Inr_iff)

text \<open>\<open>for x in xs: state = step(x, state)\<close>, stopping at the first exception.\<close>

fun res_fold :: "('a \<Rightarrow> 's \<Rightarrow> 's res) \<Rightarrow> 'a list \<Rightarrow> 's \<Rightarrow> 's res" where
  "res_fold f [] s = Inr s"
| "res_fold f (x # xs) s = res_bind (f x s) (res_fold f xs)"

lemma res_fold_rule [consumes 1, case_names init step]:
  assumes "res_fold f xs s = Inr s'" and "P [] s"
    and "\<And>ys x zs s s'. xs = ys @ x # zs \<Longrightarrow> P ys s \<Longrightarrow> f x s = Inr s' \<Longrightarrow> P (ys @ [x]) s'"
  shows "P xs s'"
proof -
  have "P (done @ xs) s'" if "res_fold f xs s = Inr s'" "P done s"
    "\<And>ys x zs s s'. done @ xs = ys @ x # zs \<Longrightarrow> P ys s \<Longrightarrow> f x s = Inr s' \<Longrightarrow> P (ys @ [x]) s'"
    for "done" s
    using that
  proof (induction xs arbitrary: "done" s)
    case Nil
    then show ?case by simp
  next
    case (Cons x xs)
    from Cons.prems(1) obtain s1 where s1: "f x s = Inr s1" "res_fold f xs s1 = Inr s'"
      by (auto simp: res_bind_Inr_iff)
    have "P (done @ [x]) s1" using Cons.prems(2,3) s1(1) by blast
    with s1(2) Cons.prems(3) Cons.IH [of s1 "done @ [x]"] show ?case by simp
  qed
  from this [of s "[]"] assms show ?thesis by simp
qed

lemma res_fold_append: "res_fold f (xs @ ys) s = res_bind (res_fold f xs s) (res_fold f ys)"
proof (induction xs arbitrary: s)
  case Nil
  then show ?case by simp
next
  case (Cons x xs)
  then show ?case by (cases "f x s") simp_all
qed

section \<open>Effects\<close>

type_synonym ('w, 'a) io = "'w \<Rightarrow> 'a res \<times> 'w"

definition io_return :: "'a \<Rightarrow> ('w, 'a) io" where
  "io_return x = (\<lambda>w. (Inr x, w))"

definition io_raise :: "pyexn \<Rightarrow> ('w, 'a) io" where
  "io_raise e = (\<lambda>w. (Inl e, w))"

definition io_bind :: "('w, 'a) io \<Rightarrow> ('a \<Rightarrow> ('w, 'b) io) \<Rightarrow> ('w, 'b) io" where
  "io_bind m f = (\<lambda>w. case m w of (Inl e, w') \<Rightarrow> (Inl e, w') | (Inr x, w') \<Rightarrow> f x w')"

definition io_lift :: "'a res \<Rightarrow> ('w, 'a) io" where
  "io_lift r = (\<lambda>w. (r, w))"

text \<open>\<open>try: m  except Exception: h\<close>\<close>

definition io_catch :: "('w, 'a) io \<Rightarrow> (pyexn \<Rightarrow> ('w, 'a) io) \<Rightarrow> ('w, 'a) io" where
  "io_catch m h = (\<lambda>w. case m w of (Inl e, w') \<Rightarrow> h e w' | (Inr x, w') \<Rightarrow> (Inr x, w'))"

lemma io_simps_basic [simp, io_simps]:
  "io_return x w = (Inr x, w)"
  "io_raise e w = (Inl e, w)"
  "io_lift r w = (r, w)"
  by (simp_all add: io_return_def io_raise_def io_lift_def)

lemma io_bind_apply [io_simps]:
  "io_bind m f w = (case m w of (Inl e, w') \<Rightarrow> (Inl e, w') | (Inr x, w') \<Rightarrow> f x w')"
  by (simp add: io_bind_def)

lemma io_bind_eq [simp]:
  "m w = (Inl e, w') \<Longrightarrow> io_bind m f w = (Inl e, w')"
  "m w = (Inr x, w') \<Longrightarrow> io_bind m f w = f x w'"
  by (simp_all add: io_bind_def)

lemma io_bind_return [simp]:
  "io_bind (io_return x) f = f x"
  "io_bind m io_return = m"
  by (auto simp: io_bind_def fun_eq_iff split: prod.splits sum.splits)

lemma io_bind_assoc: "io_bind (io_bind m f) g = io_bind m (\<lambda>x. io_bind (f x) g)"
  by (auto simp: io_bind_def fun_eq_iff split: prod.splits sum.splits)

lemma io_bind_InrE:
  assumes "io_bind m f w = (Inr y, w2)"
  obtains x w1 where "m w = (Inr x, w1)" and "f x w1 = (Inr y, w2)"
  using assms by (auto simp: io_bind_def split: prod.splits sum.splits)

lemma io_catch_apply [io_simps]:
  "io_catch m h w = (case m w of (Inl e, w') \<Rightarrow> h e w' | (Inr x, w') \<Rightarrow> (Inr x, w'))"
  by (simp add: io_catch_def)

text \<open>
  A relation between the world before and after that every step of a program respects is
  respected by the whole program: the rule used for every "this only appends to the
  broker's order log" argument.
\<close>

definition io_keeps :: "('w \<Rightarrow> 'w \<Rightarrow> bool) \<Rightarrow> ('w, 'a) io \<Rightarrow> bool" where
  "io_keeps R m \<longleftrightarrow> (\<forall>w. R w (snd (m w)))"

lemma io_keepsD: "io_keeps R m \<Longrightarrow> m w = (r, w') \<Longrightarrow> R w w'"
  unfolding io_keeps_def by (metis snd_conv)

lemma io_keeps_return [intro]: "reflp R \<Longrightarrow> io_keeps R (io_return x)"
  by (auto simp: io_keeps_def reflp_def)

lemma io_keeps_raise [intro]: "reflp R \<Longrightarrow> io_keeps R (io_raise e)"
  by (auto simp: io_keeps_def reflp_def)

lemma io_keeps_bind [intro]:
  assumes "transp R" and "io_keeps R m" and "\<And>x. io_keeps R (f x)"
  shows "io_keeps R (io_bind m f)"
  unfolding io_keeps_def
proof
  fix w
  obtain r w1 where m: "m w = (r, w1)" by (cases "m w")
  then have 1: "R w w1" using assms(2) by (blast dest: io_keepsD)
  show "R w (snd (io_bind m f w))"
  proof (cases r)
    case (Inl e)
    with m 1 show ?thesis by (simp add: io_bind_def)
  next
    case (Inr x)
    then have "R w1 (snd (f x w1))" using assms(3) by (simp add: io_keeps_def)
    with m 1 Inr assms(1) show ?thesis by (auto simp: io_bind_def elim: transpE)
  qed
qed

section \<open>Insertion-ordered dictionaries\<close>

type_synonym ('k, 'v) dict = "('k \<times> 'v) list"

abbreviation dict_get :: "('k, 'v) dict \<Rightarrow> 'k \<Rightarrow> 'v option" where
  "dict_get \<equiv> map_of"

definition dict_keys :: "('k, 'v) dict \<Rightarrow> 'k list" where
  "dict_keys d = map fst d"

definition dict_values :: "('k, 'v) dict \<Rightarrow> 'v list" where
  "dict_values d = map snd d"

definition dict_ok :: "('k, 'v) dict \<Rightarrow> bool" where
  "dict_ok d \<longleftrightarrow> distinct (dict_keys d)"

text \<open>\<open>d[k] = v\<close>: an existing key keeps its place, a new one goes last.\<close>

fun dict_set :: "('k, 'v) dict \<Rightarrow> 'k \<Rightarrow> 'v \<Rightarrow> ('k, 'v) dict" where
  "dict_set [] k v = [(k, v)]"
| "dict_set ((k', v') # d) k v = (if k' = k then (k, v) # d else (k', v') # dict_set d k v)"

definition dict_get_default :: "('k, 'v) dict \<Rightarrow> 'k \<Rightarrow> 'v \<Rightarrow> 'v" where
  "dict_get_default d k v = (case dict_get d k of None \<Rightarrow> v | Some x \<Rightarrow> x)"

text \<open>\<open>a.update(b)\<close> and dictionary displays: later items win, first position kept.\<close>

definition dict_update :: "('k, 'v) dict \<Rightarrow> ('k, 'v) dict \<Rightarrow> ('k, 'v) dict" where
  "dict_update a b = foldl (\<lambda>d (k, v). dict_set d k v) a b"

lemma dict_get_set [simp, dict_simps]:
  "dict_get (dict_set d k v) = (dict_get d)(k \<mapsto> v)"
  by (induction d k v rule: dict_set.induct) (auto simp: fun_eq_iff)

lemma dict_keys_set [dict_simps]:
  "set (dict_keys (dict_set d k v)) = insert k (set (dict_keys d))"
  by (induction d k v rule: dict_set.induct) (auto simp: dict_keys_def)

lemma dict_set_ok [simp, dict_simps]: "dict_ok d \<Longrightarrow> dict_ok (dict_set d k v)"
proof (induction d k v rule: dict_set.induct)
  case (2 k' v' d k v)
  then show ?case
    using dict_keys_set [of d k v] by (auto simp: dict_ok_def dict_keys_def)
qed (simp add: dict_ok_def dict_keys_def)

lemma dict_get_None_iff: "dict_get d k = None \<longleftrightarrow> k \<notin> set (dict_keys d)"
  by (simp add: dict_keys_def map_of_eq_None_iff)

lemma dict_get_Some_mem: "dict_get d k = Some v \<Longrightarrow> (k, v) \<in> set d"
  by (rule map_of_SomeD)

lemma dict_get_mem: "dict_ok d \<Longrightarrow> (k, v) \<in> set d \<Longrightarrow> dict_get d k = Some v"
  by (simp add: dict_ok_def dict_keys_def)

lemma dict_nil_ok [simp, dict_simps]: "dict_ok []"
  by (simp add: dict_ok_def dict_keys_def)

text \<open>What a dictionary promises its users, and what a client may derive from it.\<close>

locale keyed_store =
  fixes get :: "'d \<Rightarrow> 'k \<Rightarrow> 'v option"
    and put :: "'d \<Rightarrow> 'k \<Rightarrow> 'v \<Rightarrow> 'd"
    and ok :: "'d \<Rightarrow> bool"
  assumes get_put: "get (put d k v) = (get d)(k \<mapsto> v)"
    and ok_put: "ok d \<Longrightarrow> ok (put d k v)"
begin

lemma put_all_get:
  "get (foldl (\<lambda>d (k, v). put d k v) d kvs) = get d ++ map_of (rev kvs)"
proof (induction kvs arbitrary: d)
  case Nil
  then show ?case by simp
next
  case (Cons kv kvs)
  then show ?case
    by (cases kv) (auto simp: get_put map_add_def fun_eq_iff split: option.splits)
qed

lemma put_all_ok: "ok d \<Longrightarrow> ok (foldl (\<lambda>d (k, v). put d k v) d kvs)"
  by (induction kvs arbitrary: d) (auto simp: ok_put)

end

interpretation py_dict: keyed_store dict_get dict_set dict_ok
  by unfold_locales simp_all

lemma dict_get_update: "dict_get (dict_update a b) = dict_get a ++ map_of (rev b)"
  by (simp add: dict_update_def py_dict.put_all_get)

lemma dict_update_ok [dict_simps]: "dict_ok a \<Longrightarrow> dict_ok (dict_update a b)"
  by (simp add: dict_update_def py_dict.put_all_ok)

text \<open>\<open>tuple(dict.fromkeys(xs))\<close>: duplicates dropped, first occurrences kept in order.\<close>

fun fromkeys :: "'a list \<Rightarrow> 'a list" where
  "fromkeys [] = []"
| "fromkeys (x # xs) = x # filter (\<lambda>y. y \<noteq> x) (fromkeys xs)"

lemma set_fromkeys [simp]: "set (fromkeys xs) = set xs"
  by (induction xs) auto

lemma distinct_fromkeys [simp]: "distinct (fromkeys xs)"
  by (induction xs) auto

lemma fromkeys_distinct: "distinct xs \<Longrightarrow> fromkeys xs = xs"
  by (induction xs) (auto simp: filter_id_conv)

lemma fromkeys_idem [simp]: "fromkeys (fromkeys xs) = fromkeys xs"
  by (rule fromkeys_distinct) simp

lemma fromkeys_Nil_iff [simp]: "fromkeys xs = [] \<longleftrightarrow> xs = []"
  by (cases xs) auto

section \<open>Text\<close>

definition is_space :: "char \<Rightarrow> bool" where
  "is_space c = (let n = (of_char c :: nat) in (9 \<le> n \<and> n \<le> 13) \<or> (28 \<le> n \<and> n \<le> 32))"

definition strip :: "string \<Rightarrow> string" where
  "strip s = rev (dropWhile is_space (rev (dropWhile is_space s)))"

definition upper_char :: "char \<Rightarrow> char" where
  "upper_char c = (let n = (of_char c :: nat) in if 97 \<le> n \<and> n \<le> 122 then char_of (n - 32) else c)"

definition lower_char :: "char \<Rightarrow> char" where
  "lower_char c = (let n = (of_char c :: nat) in if 65 \<le> n \<and> n \<le> 90 then char_of (n + 32) else c)"

definition upper :: "string \<Rightarrow> string" where
  "upper s = List.map upper_char s"

definition lower :: "string \<Rightarrow> string" where
  "lower s = List.map lower_char s"

definition startswith :: "string \<Rightarrow> string \<Rightarrow> bool" where
  "startswith s p = (take (length p) s = p)"

fun join :: "string \<Rightarrow> string list \<Rightarrow> string" where
  "join sep [] = []"
| "join sep [x] = x"
| "join sep (x # xs) = x @ sep @ join sep xs"

lemma strip_no_space_ends:
  "strip s \<noteq> [] \<Longrightarrow> \<not> is_space (last (strip s))"
proof -
  assume *: "strip s \<noteq> []"
  let ?r = "dropWhile is_space (rev (dropWhile is_space s))"
  have "?r \<noteq> []" using * by (auto simp: strip_def)
  then have "\<not> is_space (hd ?r)" by (rule hd_dropWhile)
  with \<open>?r \<noteq> []\<close> show ?thesis by (simp add: strip_def last_rev)
qed

lemma dropWhile_idem_hd: "(xs = [] \<or> \<not> P (hd xs)) \<Longrightarrow> dropWhile P xs = xs"
  by (cases xs) auto

lemma rev_dropWhile_take: "\<exists>ys. xs = rev (dropWhile P (rev xs)) @ ys \<and> (\<forall>y \<in> set ys. P y)"
proof -
  have "xs = rev (takeWhile P (rev xs) @ dropWhile P (rev xs))" by simp
  then have "xs = rev (dropWhile P (rev xs)) @ rev (takeWhile P (rev xs))"
    by (metis rev_append)
  moreover have "\<forall>y \<in> set (rev (takeWhile P (rev xs))). P y"
    by (auto dest: set_takeWhileD)
  ultimately show ?thesis by blast
qed

lemma strip_idem [simp]: "strip (strip s) = strip s"
proof -
  let ?l = "dropWhile is_space s"
  obtain ys where ys: "?l = strip s @ ys" "\<forall>y \<in> set ys. is_space y"
    using rev_dropWhile_take [of ?l is_space] by (auto simp: strip_def)
  have 1: "dropWhile is_space (strip s) = strip s"
  proof (cases "strip s")
    case (Cons c cs)
    then have "?l \<noteq> []" and "hd ?l = c" using ys(1) by auto
    then have "\<not> is_space c" using hd_dropWhile [of is_space s] by metis
    then show ?thesis by (simp add: Cons)
  qed simp
  have "dropWhile is_space (rev (strip s)) = rev (strip s)"
    by (rule dropWhile_idem_hd) (auto simp: hd_rev dest: strip_no_space_ends)
  with 1 show ?thesis by (simp add: strip_def [of "strip s"])
qed

lemma startswith_append [simp]: "startswith (p @ s) p"
  by (simp add: startswith_def)

lemma upper_char_space [simp]: "is_space (upper_char c) = is_space c"
  by (auto simp: is_space_def upper_char_def Let_def)

lemma upper_char_idem [simp]: "upper_char (upper_char c) = upper_char c"
  by (auto simp: upper_char_def Let_def)

lemma upper_idem [simp]: "upper (upper s) = upper s"
  by (simp add: upper_def)

lemma strip_upper: "strip (upper s) = upper (strip s)"
  by (simp add: strip_def upper_def rev_map dropWhile_map comp_def)

lemma strip_Nil [simp]: "strip [] = []" and upper_Nil [simp]: "upper [] = []"
  by (simp_all add: strip_def upper_def)

text \<open>\<open>except C\<close>: the exceptions of a class of the program carry its name.\<close>

definition raised_as :: "string \<Rightarrow> pyexn \<Rightarrow> bool" where
  "raised_as c e = (case e of OtherError t \<Rightarrow> startswith t (c @ '': '') | _ \<Rightarrow> False)"

text \<open>The normal form \<open>str(x).strip().upper()\<close> used for symbols, currencies and tags.\<close>

definition symbol_text :: "string \<Rightarrow> string" where
  "symbol_text s = upper (strip s)"

lemma symbol_text_idem [simp]: "symbol_text (symbol_text s) = symbol_text s"
  by (simp add: symbol_text_def strip_upper)

text \<open>Decimal text of an integer, \<open>str(n)\<close>.\<close>

function dec_text :: "int \<Rightarrow> string" where
  "dec_text n = (if n < 10 then [char_of (48 + n)] else dec_text (n div 10) @ [char_of (48 + n mod 10)])"
  by pat_completeness auto
termination
  by (relation "measure nat") auto

declare dec_text.simps [simp del]

definition int_text :: "int \<Rightarrow> string" where
  "int_text k = (if k < 0 then ''-'' @ dec_text (- k) else dec_text k)"

definition is_digit :: "char \<Rightarrow> bool" where
  "is_digit c = (let n = (of_char c :: int) in 48 \<le> n \<and> n \<le> 57)"

definition digit_value :: "char \<Rightarrow> int" where
  "digit_value c = of_char c - 48"

definition digits_value :: "string \<Rightarrow> int" where
  "digits_value s = foldl (\<lambda>n c. 10 * n + digit_value c) 0 s"

lemma of_char_digit: "0 \<le> n \<Longrightarrow> n < 10 \<Longrightarrow> (of_char (char_of (48 + n :: int)) :: int) = 48 + n"
  by (simp add: take_bit_int_eq_self)

lemma dec_text_digits: "0 \<le> n \<Longrightarrow> c \<in> set (dec_text n) \<Longrightarrow> is_digit c"
proof (induction n rule: dec_text.induct)
  case (1 n)
  show ?case
  proof (cases "n < 10")
    case True
    with 1 show ?thesis
      by (subst (asm) dec_text.simps) (auto simp: is_digit_def of_char_digit simp del: of_char_of)
  next
    case False
    have "0 \<le> n mod 10" "n mod 10 < 10" by simp_all
    with False 1 show ?thesis
      by (subst (asm) (2) dec_text.simps) (auto simp: is_digit_def of_char_digit simp del: of_char_of)
  qed
qed

lemma digits_value_snoc: "digits_value (s @ [c]) = 10 * digits_value s + digit_value c"
  by (simp add: digits_value_def)

lemma dec_text_roundtrip: "0 \<le> n \<Longrightarrow> digits_value (dec_text n) = n"
proof (induction n rule: dec_text.induct)
  case (1 n)
  show ?case
  proof (cases "n < 10")
    case True
    with "1.prems" show ?thesis
      by (subst dec_text.simps)
        (simp add: digits_value_def digit_value_def of_char_digit del: of_char_of)
  next
    case False
    then have "digits_value (dec_text (n div 10)) = n div 10" using 1 by simp
    with False show ?thesis
      by (subst dec_text.simps)
        (simp add: digits_value_snoc digit_value_def of_char_digit del: of_char_of)
  qed
qed

section \<open>Loops with effects\<close>

text \<open>\<open>for x in xs: state = step(x, state)\<close> where a step may touch the world or raise.\<close>

fun io_fold :: "('a \<Rightarrow> 's \<Rightarrow> ('w, 's) io) \<Rightarrow> 'a list \<Rightarrow> 's \<Rightarrow> ('w, 's) io" where
  "io_fold f [] s = io_return s"
| "io_fold f (x # xs) s = io_bind (f x s) (io_fold f xs)"

lemma io_fold_rule [consumes 1, case_names init step]:
  assumes "io_fold f xs s w = (Inr s', w')" and "P [] s w"
    and "\<And>ys x zs s w s' w'. xs = ys @ x # zs \<Longrightarrow> P ys s w \<Longrightarrow> f x s w = (Inr s', w') \<Longrightarrow> P (ys @ [x]) s' w'"
  shows "P xs s' w'"
proof -
  have "P (done @ xs) s' w'" if "io_fold f xs s w = (Inr s', w')" "P done s w"
    "\<And>ys x zs s w s' w'. done @ xs = ys @ x # zs \<Longrightarrow> P ys s w \<Longrightarrow> f x s w = (Inr s', w') \<Longrightarrow> P (ys @ [x]) s' w'"
    for "done" s w
    using that
  proof (induction xs arbitrary: "done" s w)
    case Nil
    then show ?case by simp
  next
    case (Cons x xs)
    from Cons.prems(1) obtain s1 w1 where s1: "f x s w = (Inr s1, w1)" "io_fold f xs s1 w1 = (Inr s', w')"
      by (auto elim: io_bind_InrE)
    have "P (done @ [x]) s1 w1" using Cons.prems(2,3) s1(1) by blast
    with s1(2) Cons.prems(3) Cons.IH [of s1 w1 "done @ [x]"] show ?case by simp
  qed
  from this [of s w "[]"] assms show ?thesis by simp
qed

lemma io_keeps_lift [intro]: "reflp R \<Longrightarrow> io_keeps R (io_lift r)"
  by (auto simp: io_keeps_def reflp_def)

lemma io_keeps_fold:
  assumes "reflp R" "transp R" "\<And>x s. io_keeps R (f x s)"
  shows "io_keeps R (io_fold f xs s)"
  using assms by (induction xs arbitrary: s) auto

end
