(* ===== verification/PyFloat.thy ===== *)
theory PyFloat
  imports Complex_Main Prelude
begin

text \<open>
  Python's \<open>float\<close>: IEEE 754 binary64 with round-to-nearest-even.  A finite value is the
  exact rational it denotes, every arithmetic operation computes the exact result and rounds
  it once (\<open>round_double\<close>), overflow gives an infinity and invalid operations give NaN.  The
  two signed zeros are identified.  Comparisons with NaN are false, and \<open>py_max\<close>/\<open>py_min\<close>
  keep the first argument unless the second is strictly larger/smaller, as the built-ins do.
  The locale \<open>rounding\<close> states what the clients use of rounding (monotone, odd, exact at
  zero); it is interpreted on \<open>round_double\<close>.
\<close>

named_theorems float_simps "comparison and arithmetic of floats"

section \<open>Rounding to nearest, ties to even\<close>

definition rhe :: "rat \<Rightarrow> int" where
  "rhe x = (let n = \<lfloor>x\<rfloor>; d = x - of_int n in
     if d < 1/2 then n else if d > 1/2 then n + 1 else if even n then n else n + 1)"

lemma rhe_bounds: "\<lfloor>x\<rfloor> \<le> rhe x" "rhe x \<le> \<lfloor>x\<rfloor> + 1"
  by (auto simp: rhe_def Let_def)

lemma rhe_of_int [simp]: "rhe (of_int k) = k"
  by (simp add: rhe_def)

lemma rhe_mono: "x \<le> y \<Longrightarrow> rhe x \<le> rhe y"
proof -
  assume xy: "x \<le> y"
  show ?thesis
  proof (cases "\<lfloor>x\<rfloor> = \<lfloor>y\<rfloor>")
    case True
    with xy show ?thesis by (auto simp: rhe_def Let_def)
  next
    case False
    with floor_mono [OF xy] have "\<lfloor>x\<rfloor> + 1 \<le> \<lfloor>y\<rfloor>" by linarith
    with rhe_bounds [of x] rhe_bounds [of y] show ?thesis by linarith
  qed
qed

lemma rhe_error: "\<bar>of_int (rhe x) - x\<bar> \<le> 1/2"
proof -
  define f where "f = (of_int \<lfloor>x\<rfloor> :: rat)"
  have f: "f \<le> x" "x < f + 1" unfolding f_def by linarith+
  have "(of_int (rhe x) :: rat) =
      (if x - f < 1/2 then f else if x - f > 1/2 then f + 1 else if even \<lfloor>x\<rfloor> then f else f + 1)"
    by (simp add: rhe_def Let_def f_def)
  with f show ?thesis by (auto simp: abs_if)
qed

text \<open>Number of binary digits of a non-negative integer.\<close>

function bits :: "int \<Rightarrow> nat" where
  "bits n = (if n \<le> 0 then 0 else Suc (bits (n div 2)))"
  by pat_completeness auto
termination
  by (relation "measure nat") auto

declare bits.simps [simp del]

lemma bits_bounds: "0 \<le> n \<Longrightarrow> n < 2 ^ bits n \<and> (n \<noteq> 0 \<longrightarrow> 2 ^ (bits n - 1) \<le> n)"
proof (induction n rule: bits.induct)
  case (1 n)
  show ?case
  proof (cases "n = 0")
    case True
    then show ?thesis by (simp add: bits.simps)
  next
    case False
    with 1 have IH: "n div 2 < 2 ^ bits (n div 2)"
      "n div 2 \<noteq> 0 \<longrightarrow> 2 ^ (bits (n div 2) - 1) \<le> n div 2" by auto
    have b: "bits n = Suc (bits (n div 2))" using False "1.prems" by (simp add: bits.simps [of n])
    have "n < 2 ^ bits n" using IH(1) by (simp add: b)
    moreover have "2 ^ (bits n - 1) \<le> n"
    proof (cases "n div 2 = 0")
      case True
      with False "1.prems" b show ?thesis by (simp add: bits.simps [of "0::int"])
    next
      case nz: False
      then have "0 < n div 2" using "1.prems" by linarith
      then obtain k where k: "bits (n div 2) = Suc k" by (subst (asm) bits.simps) auto
      then have "2 ^ k \<le> n div 2" using IH(2) nz by simp
      then have "2 * 2 ^ k \<le> n" by linarith
      with b k show ?thesis by simp
    qed
    ultimately show ?thesis by simp
  qed
qed

lemma bits_pos: "0 < n \<Longrightarrow> 0 < bits n"
  by (simp add: bits.simps [of n])

text \<open>Powers of two with integer exponent.\<close>

definition pow2 :: "int \<Rightarrow> rat" where
  "pow2 k = (if 0 \<le> k then of_int (2 ^ nat k) else 1 / of_int (2 ^ nat (- k)))"

lemma pow2_powi: "pow2 k = 2 powi k"
  by (cases "0 \<le> k") (simp_all add: pow2_def power_int_def inverse_eq_divide power_one_over)

lemma pow2_pos [simp]: "0 < pow2 k" "0 \<le> pow2 k" "pow2 k \<noteq> 0"
  by (simp_all add: pow2_powi)

lemma pow2_add: "pow2 (a + b) = pow2 a * pow2 b"
  by (simp add: pow2_powi power_int_add)

lemma pow2_mono: "a \<le> b \<Longrightarrow> pow2 a \<le> pow2 b"
  by (simp add: pow2_powi power_int_increasing)

lemma pow2_nat: "pow2 (int k) = 2 ^ k"
  by (simp add: pow2_def)

lemma pow2_52: "pow2 52 = 2 ^ 52" and pow2_53: "pow2 53 = 2 ^ 53"
  by (simp_all add: pow2_def)

lemma pow2_minus: "pow2 (- k) = 1 / pow2 k"
  by (simp add: pow2_powi power_int_minus divide_inverse)

text \<open>The binary exponent of a positive rational, \<open>\<lfloor>log2 x\<rfloor>\<close>.\<close>

definition expo :: "rat \<Rightarrow> int" where
  "expo x = (if 1 \<le> x then int (bits \<lfloor>x\<rfloor>) - 1 else - int (bits (\<lceil>1 / x\<rceil> - 1)))"

lemma int_pow_bounds:
  assumes "0 < n"
  shows "(2::rat) ^ (bits n - 1) \<le> of_int n" and "of_int n + 1 \<le> (2::rat) ^ bits n"
proof -
  from bits_bounds [of n] assms have "2 ^ (bits n - 1) \<le> n" "n + 1 \<le> 2 ^ bits n" by auto
  then have "(of_int (2 ^ (bits n - 1)) :: rat) \<le> of_int n" "(of_int (n + 1) :: rat) \<le> of_int (2 ^ bits n)"
    by (simp_all only: of_int_le_iff)
  then show "(2::rat) ^ (bits n - 1) \<le> of_int n" and "of_int n + 1 \<le> (2::rat) ^ bits n"
    by simp_all
qed

lemma expo_bounds:
  assumes "0 < x"
  shows "pow2 (expo x) \<le> x" and "x < pow2 (expo x + 1)"
proof -
  have "pow2 (expo x) \<le> x \<and> x < pow2 (expo x + 1)"
  proof (cases "1 \<le> x")
    case True
    then have n: "0 < \<lfloor>x\<rfloor>" by simp
    have "of_int \<lfloor>x\<rfloor> \<le> x" "x < of_int \<lfloor>x\<rfloor> + 1" by linarith+
    with int_pow_bounds [OF n] have "2 ^ (bits \<lfloor>x\<rfloor> - 1) \<le> x" "x < 2 ^ bits \<lfloor>x\<rfloor>" by linarith+
    moreover have "expo x = int (bits \<lfloor>x\<rfloor> - 1)" "expo x + 1 = int (bits \<lfloor>x\<rfloor>)"
      using True bits_pos [OF n] by (auto simp: expo_def of_nat_diff)
    ultimately show ?thesis by (metis pow2_nat)
  next
    case False
    define m where "m = \<lceil>1 / x\<rceil> - 1"
    have "1 < 1 / x" using False assms by (simp add: field_simps)
    then have m: "0 < m" by (simp add: m_def less_ceiling_iff)
    have mx: "of_int m < 1 / x" "1 / x \<le> of_int m + 1" unfolding m_def by simp_all linarith
    from mx int_pow_bounds [OF m] have a: "2 ^ (bits m - 1) < 1 / x" "1 / x \<le> 2 ^ bits m" by linarith+
    have e: "expo x = - int (bits m)" "expo x + 1 = - int (bits m - 1)"
      using False bits_pos [OF m] by (auto simp: expo_def m_def of_nat_diff)
    have "1 / 2 ^ bits m \<le> x" "x < 1 / 2 ^ (bits m - 1)"
      using a assms by (simp_all add: field_simps)
    moreover have "pow2 (expo x) = 1 / 2 ^ bits m" by (simp only: e(1) pow2_minus pow2_nat)
    moreover have "pow2 (expo x + 1) = 1 / 2 ^ (bits m - 1)" by (simp only: e(2) pow2_minus pow2_nat)
    ultimately show ?thesis by simp
  qed
  then show "pow2 (expo x) \<le> x" and "x < pow2 (expo x + 1)" by auto
qed

lemma expo_mono: "0 < x \<Longrightarrow> x \<le> y \<Longrightarrow> expo x \<le> expo y"
proof (rule ccontr)
  assume a: "0 < x" "x \<le> y" and "\<not> expo x \<le> expo y"
  then have "expo y + 1 \<le> expo x" by simp
  then have "pow2 (expo y + 1) \<le> pow2 (expo x)" by (rule pow2_mono)
  moreover have "y < pow2 (expo y + 1)" using a expo_bounds(2) [of y] by simp
  moreover have "pow2 (expo x) \<le> x" using a expo_bounds(1) by simp
  ultimately show False using a by linarith
qed

lemma expo_unique: "pow2 e \<le> x \<Longrightarrow> x < pow2 (e + 1) \<Longrightarrow> expo x = e"
proof -
  assume a: "pow2 e \<le> x" "x < pow2 (e + 1)"
  have x: "0 < x" using a(1) pow2_pos(1) [of e] by linarith
  have "\<not> e + 1 \<le> expo x" "\<not> expo x + 1 \<le> e"
    using expo_bounds [OF x] a pow2_mono [of "e + 1" "expo x"] pow2_mono [of "expo x + 1" e] by linarith+
  then show ?thesis by simp
qed

section \<open>Rounding to binary64\<close>

text \<open>The exponent of the unit in the last place, with gradual underflow at \<open>2^-1074\<close>.\<close>

definition ulp_expo :: "rat \<Rightarrow> int" where
  "ulp_expo x = max (expo x - 52) (- 1074)"

definition round_pos :: "rat \<Rightarrow> rat" where
  "round_pos x = (let q = pow2 (ulp_expo x) in of_int (rhe (x / q)) * q)"

definition round_double :: "rat \<Rightarrow> rat" where
  "round_double x = (if x = 0 then 0 else if 0 < x then round_pos x else - round_pos (- x))"

lemma round_pos_nonneg: "0 < x \<Longrightarrow> 0 \<le> round_pos x"
proof -
  assume x: "0 < x"
  have "0 \<le> rhe (x / pow2 (ulp_expo x))"
    using rhe_mono [of 0 "x / pow2 (ulp_expo x)"] x rhe_of_int [of 0] by (simp add: less_imp_le)
  then show ?thesis by (simp add: round_pos_def Let_def)
qed

lemma round_pos_le_top:
  assumes "0 < x" shows "round_pos x \<le> pow2 (ulp_expo x + 53)"
proof -
  let ?q = "pow2 (ulp_expo x)"
  have "expo x + 1 \<le> ulp_expo x + 53" by (simp add: ulp_expo_def)
  then have "x \<le> pow2 (ulp_expo x + 53)"
    using expo_bounds(2) [OF assms] pow2_mono [of "expo x + 1" "ulp_expo x + 53"] by linarith
  then have "x / ?q \<le> 2 ^ 53"
    by (simp add: pow2_add pow2_53 divide_le_eq mult.commute)
  then have "rhe (x / ?q) \<le> rhe (of_int (2 ^ 53))" by (intro rhe_mono) simp
  then have "rhe (x / ?q) \<le> 2 ^ 53" by (simp only: rhe_of_int)
  then have "(of_int (rhe (x / ?q)) :: rat) \<le> of_int (2 ^ 53)" by (rule of_int_le_iff [THEN iffD2])
  then have "of_int (rhe (x / ?q)) * ?q \<le> 2 ^ 53 * ?q" by (intro mult_right_mono) auto
  then show ?thesis by (simp add: round_pos_def Let_def pow2_add pow2_53 mult.commute)
qed

lemma round_pos_ge_bottom:
  assumes "0 < x" and "- 1074 < ulp_expo x" shows "pow2 (ulp_expo x + 52) \<le> round_pos x"
proof -
  let ?q = "pow2 (ulp_expo x)"
  have "expo x = ulp_expo x + 52" using assms(2) by (simp add: ulp_expo_def)
  then have "pow2 (ulp_expo x + 52) \<le> x" using expo_bounds(1) [OF assms(1)] by simp
  then have "2 ^ 52 \<le> x / ?q" by (simp add: pow2_add pow2_52 le_divide_eq mult.commute)
  then have "rhe (of_int (2 ^ 52)) \<le> rhe (x / ?q)" by (intro rhe_mono) simp
  then have "2 ^ 52 \<le> rhe (x / ?q)" by (simp only: rhe_of_int)
  then have "(of_int (2 ^ 52) :: rat) \<le> of_int (rhe (x / ?q))" by (rule of_int_le_iff [THEN iffD2])
  then have "2 ^ 52 * ?q \<le> of_int (rhe (x / ?q)) * ?q" by (intro mult_right_mono) auto
  then show ?thesis by (simp add: round_pos_def Let_def pow2_add pow2_52 mult.commute)
qed

lemma round_pos_mono:
  assumes "0 < x" and "x \<le> y" shows "round_pos x \<le> round_pos y"
proof (cases "ulp_expo x = ulp_expo y")
  case True
  have "x / pow2 (ulp_expo y) \<le> y / pow2 (ulp_expo y)" using assms by (simp add: divide_right_mono)
  then have "(of_int (rhe (x / pow2 (ulp_expo y))) :: rat) \<le> of_int (rhe (y / pow2 (ulp_expo y)))"
    by (intro of_int_le_iff [THEN iffD2] rhe_mono)
  with True show ?thesis by (simp add: round_pos_def Let_def mult_right_mono)
next
  case False
  have y: "0 < y" using assms by simp
  have "ulp_expo x \<le> ulp_expo y" using expo_mono [OF assms] by (auto simp: ulp_expo_def)
  with False have lt: "ulp_expo x + 1 \<le> ulp_expo y" by simp
  then have "- 1074 < ulp_expo y" by (auto simp: ulp_expo_def)
  with y have "pow2 (ulp_expo y + 52) \<le> round_pos y" by (rule round_pos_ge_bottom)
  moreover have "pow2 (ulp_expo x + 53) \<le> pow2 (ulp_expo y + 52)"
    using lt by (intro pow2_mono) simp
  ultimately show ?thesis using round_pos_le_top [OF assms(1)] by linarith
qed

text \<open>What clients rely on.\<close>

locale rounding =
  fixes rnd :: "rat \<Rightarrow> rat"
  assumes rnd_mono: "x \<le> y \<Longrightarrow> rnd x \<le> rnd y"
    and rnd_zero: "rnd 0 = 0"
    and rnd_odd: "rnd (- x) = - rnd x"
begin

lemma rnd_nonneg: "0 \<le> x \<Longrightarrow> 0 \<le> rnd x"
  using rnd_mono [of 0 x] by (simp add: rnd_zero)

lemma rnd_nonpos: "x \<le> 0 \<Longrightarrow> rnd x \<le> 0"
  using rnd_mono [of x 0] by (simp add: rnd_zero)

lemma rnd_diff_nonneg: "y \<le> x \<Longrightarrow> 0 \<le> rnd (x - y)"
  by (rule rnd_nonneg) simp

lemma rnd_diff_le: "0 \<le> y \<Longrightarrow> rnd (x - y) \<le> rnd x"
  by (rule rnd_mono) simp

lemma rnd_le_fixed: "x \<le> y \<Longrightarrow> rnd y = y \<Longrightarrow> rnd x \<le> y"
  using rnd_mono [of x y] by simp

lemma rnd_abs: "\<bar>rnd x\<bar> = rnd \<bar>x\<bar>"
  using rnd_nonneg [of x] rnd_nonpos [of x] rnd_odd [of x] by (auto simp: abs_if)

end

interpretation dbl: rounding round_double
proof unfold_locales
  fix x y :: rat
  assume xy: "x \<le> y"
  show "round_double x \<le> round_double y"
  proof (cases "0 < x")
    case True
    with xy show ?thesis by (simp add: round_double_def round_pos_mono)
  next
    case nx: False
    show ?thesis
    proof (cases "y < 0")
      case True
      with xy nx show ?thesis
        using round_pos_mono [of "- y" "- x"] by (simp add: round_double_def)
    next
      case False
      then have "0 \<le> round_double y" by (auto simp: round_double_def round_pos_nonneg)
      moreover have "round_double x \<le> 0"
        using nx round_pos_nonneg [of "- x"] by (auto simp: round_double_def)
      ultimately show ?thesis by simp
    qed
  qed
qed (simp_all add: round_double_def)

declare dbl.rnd_zero [simp]

section \<open>Floats\<close>

datatype pyfloat = Fin rat | PInf | NInf | NaN

definition to_float :: "rat \<Rightarrow> pyfloat" where
  "to_float r = (let d = round_double r in
     if 0 < d \<and> 1024 \<le> expo d then PInf
     else if d < 0 \<and> 1024 \<le> expo (- d) then NInf else Fin d)"

fun isfinite :: "pyfloat \<Rightarrow> bool" where
  "isfinite (Fin _) = True"
| "isfinite _ = False"

fun fneg :: "pyfloat \<Rightarrow> pyfloat" where
  "fneg (Fin x) = Fin (- x)"
| "fneg PInf = NInf"
| "fneg NInf = PInf"
| "fneg NaN = NaN"

fun fadd :: "pyfloat \<Rightarrow> pyfloat \<Rightarrow> pyfloat" where
  "fadd NaN _ = NaN"
| "fadd _ NaN = NaN"
| "fadd PInf NInf = NaN"
| "fadd NInf PInf = NaN"
| "fadd PInf _ = PInf"
| "fadd _ PInf = PInf"
| "fadd NInf _ = NInf"
| "fadd _ NInf = NInf"
| "fadd (Fin x) (Fin y) = to_float (x + y)"

definition fsub :: "pyfloat \<Rightarrow> pyfloat \<Rightarrow> pyfloat" where
  "fsub x y = fadd x (fneg y)"

definition signed_inf :: "bool \<Rightarrow> pyfloat" where
  "signed_inf neg = (if neg then NInf else PInf)"

fun fmul :: "pyfloat \<Rightarrow> pyfloat \<Rightarrow> pyfloat" where
  "fmul NaN _ = NaN"
| "fmul _ NaN = NaN"
| "fmul (Fin x) (Fin y) = to_float (x * y)"
| "fmul (Fin x) PInf = (if x = 0 then NaN else signed_inf (x < 0))"
| "fmul (Fin x) NInf = (if x = 0 then NaN else signed_inf (0 < x))"
| "fmul PInf (Fin y) = (if y = 0 then NaN else signed_inf (y < 0))"
| "fmul NInf (Fin y) = (if y = 0 then NaN else signed_inf (0 < y))"
| "fmul PInf PInf = PInf"
| "fmul PInf NInf = NInf"
| "fmul NInf PInf = NInf"
| "fmul NInf NInf = PInf"

text \<open>True division raises on a zero divisor, whatever the dividend.\<close>

fun fdiv :: "pyfloat \<Rightarrow> pyfloat \<Rightarrow> pyfloat res" where
  "fdiv a (Fin y) = (if y = 0 then Inl ZeroDivisionError else
     (case a of Fin x \<Rightarrow> Inr (to_float (x / y)) | NaN \<Rightarrow> Inr NaN
      | PInf \<Rightarrow> Inr (signed_inf (y < 0)) | NInf \<Rightarrow> Inr (signed_inf (0 < y))))"
| "fdiv _ NaN = Inr NaN"
| "fdiv a b = (case a of Fin _ \<Rightarrow> Inr (Fin 0) | _ \<Rightarrow> Inr NaN)"

fun flt :: "pyfloat \<Rightarrow> pyfloat \<Rightarrow> bool" where
  "flt NaN _ = False"
| "flt _ NaN = False"
| "flt (Fin x) (Fin y) = (x < y)"
| "flt NInf NInf = False"
| "flt NInf _ = True"
| "flt _ NInf = False"
| "flt PInf _ = False"
| "flt _ PInf = True"

fun feq :: "pyfloat \<Rightarrow> pyfloat \<Rightarrow> bool" where
  "feq NaN _ = False"
| "feq _ NaN = False"
| "feq x y = (x = y)"

definition fle :: "pyfloat \<Rightarrow> pyfloat \<Rightarrow> bool" where
  "fle x y = (flt x y \<or> feq x y)"

definition fzero :: pyfloat where "fzero = Fin 0"

definition py_max :: "pyfloat \<Rightarrow> pyfloat \<Rightarrow> pyfloat" where
  "py_max a b = (if flt a b then b else a)"

definition py_min :: "pyfloat \<Rightarrow> pyfloat \<Rightarrow> pyfloat" where
  "py_min a b = (if flt b a then b else a)"

fun fabs :: "pyfloat \<Rightarrow> pyfloat" where
  "fabs (Fin x) = Fin \<bar>x\<bar>"
| "fabs NaN = NaN"
| "fabs _ = PInf"

text \<open>Truth value: everything but zero, NaN included.  \<open>x or y\<close> is \<open>f_or x y\<close>.\<close>

definition ftruthy :: "pyfloat \<Rightarrow> bool" where
  "ftruthy x = (x \<noteq> Fin 0)"

definition f_or :: "pyfloat \<Rightarrow> pyfloat \<Rightarrow> pyfloat" where
  "f_or x y = (if ftruthy x then x else y)"

text \<open>\<open>round(x, n)\<close>: the decimal nearest to the exact value, then the nearest double.\<close>

fun fround :: "nat \<Rightarrow> pyfloat \<Rightarrow> pyfloat" where
  "fround n (Fin x) = to_float (of_int (rhe (x * 10 ^ n)) / 10 ^ n)"
| "fround n x = x"

text \<open>\<open>math.isclose(a, b, rel_tol=rel, abs_tol=tol)\<close>\<close>

definition isclose :: "pyfloat \<Rightarrow> pyfloat \<Rightarrow> pyfloat \<Rightarrow> pyfloat \<Rightarrow> bool" where
  "isclose rel tol a b = (if feq a b then True
     else if a \<in> {PInf, NInf} \<or> b \<in> {PInf, NInf} then False
     else let d = fabs (fsub b a) in
       fle d (fabs (fmul rel b)) \<or> fle d (fabs (fmul rel a)) \<or> fle d tol)"

text \<open>\<open>int(x)\<close> truncates toward zero.\<close>

fun f_int :: "pyfloat \<Rightarrow> int res" where
  "f_int (Fin x) = Inr (if 0 \<le> x then \<lfloor>x\<rfloor> else \<lceil>x\<rceil>)"
| "f_int NaN = Inl (ValueError ''cannot convert float NaN to integer'')"
| "f_int _ = Inl OverflowError"

text \<open>
  \<open>sum\<close> of floats is compensated (CPython 3.12 and later): the low-order part lost by each
  addition is collected and added at the end when it is finite.
\<close>

fun f_sum_loop :: "pyfloat \<Rightarrow> pyfloat \<Rightarrow> pyfloat list \<Rightarrow> pyfloat" where
  "f_sum_loop hi lo [] = (if ftruthy lo \<and> isfinite lo then fadd hi lo else hi)"
| "f_sum_loop hi lo (x # xs) = (let t = fadd hi x in
     f_sum_loop t (fadd lo (if fle (fabs x) (fabs hi) then fadd (fsub hi t) x
                            else fadd (fsub x t) hi)) xs)"

definition f_sum :: "pyfloat list \<Rightarrow> pyfloat" where
  "f_sum xs = (case xs of [] \<Rightarrow> Fin 0 | x # xs' \<Rightarrow> f_sum_loop x (Fin 0) xs')"

lemma f_sum_single [simp]: "f_sum [x] = x"
  by (simp add: f_sum_def ftruthy_def)

subsection \<open>Order\<close>

lemma flt_irrefl [simp, float_simps]: "\<not> flt x x"
  by (cases x) auto

lemma flt_trans: "flt x y \<Longrightarrow> flt y z \<Longrightarrow> flt x z"
  by (cases x; cases y; cases z) auto

lemma fle_trans: "fle x y \<Longrightarrow> fle y z \<Longrightarrow> fle x z"
  by (cases x; cases y; cases z) (auto simp: fle_def)

lemma fle_Fin [simp, float_simps]: "fle (Fin x) (Fin y) = (x \<le> y)"
  by (auto simp: fle_def)

lemma fle_NaN [simp, float_simps]: "\<not> fle NaN x" "\<not> fle x NaN"
  by (cases x; simp add: fle_def)+

lemma fle_inf [simp, float_simps]:
  "fle NInf x = (x \<noteq> NaN)" "fle x PInf = (x \<noteq> NaN)" "fle PInf x = (x = PInf)" "fle x NInf = (x = NInf)"
  by (cases x; simp add: fle_def)+

lemma fle_refl: "x \<noteq> NaN \<Longrightarrow> fle x x"
  by (cases x) (auto simp: fle_def)

lemma not_flt_fle: "x \<noteq> NaN \<Longrightarrow> y \<noteq> NaN \<Longrightarrow> \<not> flt x y \<longleftrightarrow> fle y x"
  by (cases x; cases y) (auto simp: fle_def)

lemma flt_fle: "flt x y \<Longrightarrow> fle x y"
  by (simp add: fle_def)

lemma fle_flt_trans: "fle x y \<Longrightarrow> flt y z \<Longrightarrow> flt x z"
  by (cases x; cases y; cases z) (auto simp: fle_def)

lemma flt_fle_trans: "flt x y \<Longrightarrow> fle y z \<Longrightarrow> flt x z"
  by (cases x; cases y; cases z) (auto simp: fle_def)

lemma flt_NaN [simp, float_simps]: "\<not> flt NaN x" "\<not> flt x NaN"
  by (cases x; simp)+

lemma py_min_le: "a \<noteq> NaN \<Longrightarrow> fle (py_min a b) a"
  by (auto simp: py_min_def fle_refl flt_fle)

lemma py_min_le2: "a \<noteq> NaN \<Longrightarrow> b \<noteq> NaN \<Longrightarrow> fle (py_min a b) b"
  by (cases a; cases b) (auto simp: py_min_def fle_def)

lemma py_min_notNaN [simp]: "a \<noteq> NaN \<Longrightarrow> py_min a b \<noteq> NaN"
  by (auto simp: py_min_def)

lemma py_max_ge: "a \<noteq> NaN \<Longrightarrow> fle a (py_max a b)"
  by (auto simp: py_max_def fle_refl flt_fle)

lemma py_max_zero_nonneg [simp]: "fle (Fin 0) (py_max (Fin 0) x)"
  by (rule py_max_ge) simp

lemma py_max_notNaN [simp]: "a \<noteq> NaN \<Longrightarrow> py_max a b \<noteq> NaN"
  by (auto simp: py_max_def)

subsection \<open>Arithmetic and order\<close>

lemma to_float_notNaN [simp, float_simps]: "to_float r \<noteq> NaN"
  by (auto simp: to_float_def Let_def)

lemma to_float_mono:
  assumes "x \<le> y" shows "fle (to_float x) (to_float y)"
proof -
  define a b where "a = round_double x" and "b = round_double y"
  have ab: "a \<le> b" using dbl.rnd_mono [OF assms] by (simp add: a_def b_def)
  have 1: "0 < a \<Longrightarrow> expo a \<le> expo b" using ab by (intro expo_mono)
  have 2: "b < 0 \<Longrightarrow> expo (- b) \<le> expo (- a)" using ab by (intro expo_mono) auto
  have "fle (Fin a) (Fin b)" using ab by simp
  then show ?thesis
    using 1 2 ab unfolding to_float_def a_def [symmetric] b_def [symmetric] Let_def fle_def
    by (cases "0 < a"; cases "b < 0") auto
qed

lemma to_float_zero [simp, float_simps]: "to_float 0 = Fin 0"
  by (simp add: to_float_def dbl.rnd_zero)

lemma to_float_nonneg: "0 \<le> x \<Longrightarrow> fle (Fin 0) (to_float x)"
  using to_float_mono [of 0 x] by simp

lemma fsub_nonneg: "fle y x \<Longrightarrow> isfinite x \<Longrightarrow> isfinite y \<Longrightarrow> fle (Fin 0) (fsub x y)"
  by (cases x; cases y) (auto simp: fsub_def intro: to_float_nonneg)

lemma fmul_nonneg:
  "fle (Fin 0) x \<Longrightarrow> fle (Fin 0) y \<Longrightarrow> isfinite x \<Longrightarrow> isfinite y \<Longrightarrow> fle (Fin 0) (fmul x y)"
  by (cases x; cases y) (auto intro: to_float_nonneg)

lemma isfinite_between: "fle (Fin 0) x \<Longrightarrow> fle x h \<Longrightarrow> isfinite h \<Longrightarrow> isfinite x"
  by (cases x; cases h) auto

lemma fdiv_nonneg:
  assumes "fle (Fin 0) a" and "0 < y" and "fdiv a (Fin y) = Inr r"
  shows "fle (Fin 0) r"
  using assms by (cases a) (auto simp: signed_inf_def to_float_nonneg)

lemma fadd_mono_left:
  "fle x y \<Longrightarrow> isfinite x \<Longrightarrow> isfinite y \<Longrightarrow> isfinite z \<Longrightarrow> fle (fadd x z) (fadd y z)"
  by (cases x; cases y; cases z) (auto intro: to_float_mono)

text \<open>A value the format can hold is a fixed point of rounding.\<close>

definition is_double :: "pyfloat \<Rightarrow> bool" where
  "is_double x = (case x of Fin r \<Rightarrow> to_float r = Fin r | _ \<Rightarrow> True)"

lemma fsub_le:
  assumes "is_double x" and "fle (Fin 0) y" and "isfinite x" and "isfinite y"
  shows "fle (fsub x y) x"
proof -
  obtain a b where ab: "x = Fin a" "y = Fin b" "0 \<le> b"
    using assms by (cases x; cases y) auto
  then have "fle (to_float (a - b)) (to_float a)" by (intro to_float_mono) simp
  with assms(1) ab show ?thesis by (simp add: fsub_def is_double_def)
qed

subsection \<open>Values that need no rounding\<close>

lemma round_pos_exact:
  assumes "y = of_int m * pow2 k" and "ulp_expo y \<le> k"
  shows "round_pos y = y"
proof -
  define j where "j = nat (k - ulp_expo y)"
  have k: "k = ulp_expo y + int j" using assms(2) by (simp add: j_def)
  have "y = of_int m * (pow2 (ulp_expo y) * pow2 (int j))"
    using assms(1) k pow2_add [of "ulp_expo y" "int j"] by argo
  then have "y / pow2 (ulp_expo y) = of_int (m * 2 ^ j)" by (simp add: pow2_nat field_simps)
  then have "rhe (y / pow2 (ulp_expo y)) = m * 2 ^ j" by (metis rhe_of_int)
  then have "round_pos y = of_int (m * 2 ^ j) * pow2 (ulp_expo y)"
    by (simp add: round_pos_def Let_def)
  also have "\<dots> = y" using \<open>y / pow2 (ulp_expo y) = of_int (m * 2 ^ j)\<close> by (simp add: field_simps)
  finally show ?thesis .
qed

lemma ulp_expo_le:
  assumes "0 < y" and "y < pow2 (k + 53)" and "- 1074 \<le> k"
  shows "ulp_expo y \<le> k"
proof -
  have "\<not> k + 53 \<le> expo y"
    using expo_bounds(1) [OF assms(1)] assms(2) pow2_mono [of "k + 53" "expo y"] by linarith
  with assms(3) show ?thesis by (auto simp: ulp_expo_def)
qed

lemma round_pos_idem:
  assumes "0 < x" and "0 < round_pos x" shows "round_pos (round_pos x) = round_pos x"
proof -
  let ?k = "ulp_expo x" and ?m = "rhe (x / pow2 (ulp_expo x))"
  have y: "round_pos x = of_int ?m * pow2 ?k" by (simp add: round_pos_def Let_def)
  have k: "- 1074 \<le> ?k" by (simp add: ulp_expo_def)
  show ?thesis
  proof (cases "round_pos x < pow2 (?k + 53)")
    case True
    show ?thesis by (rule round_pos_exact [OF y]) (rule ulp_expo_le [OF assms(2) True k])
  next
    case False
    with round_pos_le_top [OF assms(1)] have e: "round_pos x = pow2 (?k + 53)" by simp
    then have "round_pos x = of_int 1 * pow2 (?k + 53)" by simp
    then show ?thesis
    proof (rule round_pos_exact)
      have "pow2 (?k + 53 + 53) = pow2 (?k + 53) * 2 ^ 53" by (simp only: pow2_add pow2_53)
      then have "round_pos x < pow2 (?k + 53 + 53)" unfolding e by simp
      then show "ulp_expo (round_pos x) \<le> ?k + 53"
        using assms(2) k by (intro ulp_expo_le) auto
    qed
  qed
qed

lemma round_double_idem [simp]: "round_double (round_double x) = round_double x"
proof -
  have *: "round_double (round_pos z) = round_pos z" if "0 < z" for z
    using round_pos_nonneg [OF that] round_pos_idem [OF that] by (auto simp: round_double_def)
  show ?thesis
  proof (cases "0 < x")
    case True
    then show ?thesis by (simp add: * round_double_def [of x])
  next
    case False
    then show ?thesis
      using * [of "- x"] dbl.rnd_odd [of "round_pos (- x)"] by (auto simp: round_double_def [of x])
  qed
qed

lemma to_float_Fin: "to_float x = Fin d \<Longrightarrow> to_float d = Fin d"
  by (auto simp: to_float_def Let_def split: if_splits)

lemma is_double_to_float [simp, float_simps]: "is_double (to_float x)"
  by (cases "to_float x") (auto simp: is_double_def to_float_Fin)

lemma is_double_simps [simp, float_simps]:
  "is_double (Fin 0)" "is_double PInf" "is_double NInf" "is_double NaN"
  by (simp_all add: is_double_def)

lemma fneg_double: "is_double x \<Longrightarrow> is_double (fneg x)"
  by (cases x) (auto simp: is_double_def to_float_def Let_def dbl.rnd_odd split: if_splits)

lemma is_double_fadd [simp]: "is_double (fadd x y)"
  by (cases "(x, y)" rule: fadd.cases) auto

lemma is_double_fsub [simp]: "is_double (fsub x y)"
  by (simp add: fsub_def)

lemma is_double_fmul [simp]: "is_double (fmul x y)"
  by (cases "(x, y)" rule: fmul.cases) (auto simp: signed_inf_def)

lemma is_double_min [simp]: "is_double x \<Longrightarrow> is_double y \<Longrightarrow> is_double (py_min x y)"
  and is_double_max [simp]: "is_double x \<Longrightarrow> is_double y \<Longrightarrow> is_double (py_max x y)"
  by (simp_all add: py_min_def py_max_def)

text \<open>Integers up to \<open>2^53\<close> are exact.\<close>

lemma round_double_int:
  assumes "\<bar>n\<bar> < 2 ^ 53" shows "round_double (of_int n) = of_int n"
proof -
  have *: "round_pos (of_int k) = of_int k" if "0 < k" "k < 2 ^ 53" for k :: int
  proof (rule round_pos_exact [of _ k 0])
    show "(of_int k :: rat) = of_int k * pow2 0" by (simp add: pow2_def)
    have "(of_int k :: rat) < of_int (2 ^ 53)" using that by (simp only: of_int_less_iff)
    then show "ulp_expo (of_int k) \<le> 0" using that by (intro ulp_expo_le) (simp_all add: pow2_53)
  qed
  show ?thesis
    using assms * [of n] * [of "- n"] by (auto simp: round_double_def)
qed

end
