(* ===== verification/PyValue.thy ===== *)
theory PyValue
  imports PyFloat
begin

text \<open>
  Values of unknown type (\<open>Any\<close> in the sources: signal metadata, broker rows, stored
  records) as one datatype, with the built-ins the sources apply to them: truth value,
  \<open>str\<close>, \<open>repr\<close>, \<open>float\<close>, \<open>==\<close>, \<open>dict(...)\<close>, iteration and \<open>.get\<close>.  Dictionary keys are
  strings.  Values outside the datatype (user objects) are not representable here.
\<close>

datatype pyval =
    VNone
  | VBool bool
  | VInt int
  | VFloat pyfloat
  | VStr string
  | VList "pyval list"
  | VTuple "pyval list"
  | VDict "(string \<times> pyval) list"

section \<open>Truth and equality\<close>

fun truthy :: "pyval \<Rightarrow> bool" where
  "truthy VNone = False"
| "truthy (VBool b) = b"
| "truthy (VInt k) = (k \<noteq> 0)"
| "truthy (VFloat x) = ftruthy x"
| "truthy (VStr s) = (s \<noteq> [])"
| "truthy (VList xs) = (xs \<noteq> [])"
| "truthy (VTuple xs) = (xs \<noteq> [])"
| "truthy (VDict d) = (d \<noteq> [])"

definition v_or :: "pyval \<Rightarrow> pyval \<Rightarrow> pyval" where
  "v_or x y = (if truthy x then x else y)"

text \<open>Numbers compare by value across \<open>bool\<close>, \<open>int\<close> and \<open>float\<close>.\<close>

fun as_number :: "pyval \<Rightarrow> pyfloat option" where
  "as_number (VBool b) = Some (Fin (if b then 1 else 0))"
| "as_number (VInt k) = Some (Fin (of_int k))"
| "as_number (VFloat x) = Some x"
| "as_number _ = None"

fun v_eq :: "pyval \<Rightarrow> pyval \<Rightarrow> bool"
  and v_eq_list :: "pyval list \<Rightarrow> pyval list \<Rightarrow> bool"
  and v_eq_items :: "(string \<times> pyval) list \<Rightarrow> (string \<times> pyval) list \<Rightarrow> bool" where
  "v_eq VNone b = (b = VNone)"
| "v_eq (VStr s) b = (b = VStr s)"
| "v_eq (VList xs) b = (case b of VList ys \<Rightarrow> v_eq_list xs ys | _ \<Rightarrow> False)"
| "v_eq (VTuple xs) b = (case b of VTuple ys \<Rightarrow> v_eq_list xs ys | _ \<Rightarrow> False)"
| "v_eq (VDict d) b = (case b of VDict e \<Rightarrow> length d = length e \<and> v_eq_items d e | _ \<Rightarrow> False)"
| "v_eq a b = (case (as_number a, as_number b) of (Some x, Some y) \<Rightarrow> feq x y | _ \<Rightarrow> False)"
| "v_eq_list [] ys = (ys = [])"
| "v_eq_list (x # xs) ys = (case ys of [] \<Rightarrow> False | y # ys' \<Rightarrow> v_eq x y \<and> v_eq_list xs ys')"
| "v_eq_items [] e = True"
| "v_eq_items ((k, x) # d) e =
     ((case map_of e k of None \<Rightarrow> False | Some y \<Rightarrow> v_eq x y) \<and> v_eq_items d e)"

lemma v_eq_str [simp]: "v_eq (VStr s) (VStr t) = (s = t)" "v_eq VNone VNone"
  by auto

lemma v_eq_str_right: "v_eq v (VStr s) \<longleftrightarrow> v = VStr s"
  by (cases v) auto

section \<open>Text of values\<close>

text \<open>
  The shortest decimal that reads back as the same double (\<open>repr\<close> of a float): the number of
  significant digits grows until one of the two neighbouring decimals rounds to the value.
\<close>

fun scale_up :: "nat \<Rightarrow> rat \<Rightarrow> nat" where
  "scale_up 0 x = 0"
| "scale_up (Suc f) x = (if 1 \<le> x then 0 else Suc (scale_up f (10 * x)))"

definition dec_expo :: "rat \<Rightarrow> int" where
  "dec_expo x = (if 1 \<le> x then int (length (int_text \<lfloor>x\<rfloor>)) - 1 else - int (scale_up 330 x))"

definition pow10 :: "int \<Rightarrow> rat" where
  "pow10 k = (if 0 \<le> k then of_int (10 ^ nat k) else 1 / of_int (10 ^ nat (- k)))"

definition digit_candidate :: "rat \<Rightarrow> nat \<Rightarrow> int option" where
  "digit_candidate x n = (let q = pow10 (dec_expo x - int n + 1); lo = \<lfloor>x / q\<rfloor>; hi = lo + 1;
      ok = (\<lambda>m. to_float (of_int m * q) = Fin x) in
    if ok lo \<and> ok hi then Some (if rhe (x / q) = lo then lo else hi)
    else if ok lo then Some lo else if ok hi then Some hi else None)"

fun shortest :: "rat \<Rightarrow> nat \<Rightarrow> nat \<Rightarrow> int \<times> nat" where
  "shortest x 0 n = (\<lfloor>x / pow10 (dec_expo x - 16)\<rfloor>, 17)"
| "shortest x (Suc f) n = (case digit_candidate x n of Some m \<Rightarrow> (m, n) | None \<Rightarrow> shortest x f (Suc n))"

definition strip_zeros :: "string \<Rightarrow> string" where
  "strip_zeros s = rev (dropWhile (\<lambda>c. c = CHR ''0'') (rev s))"

definition pad2 :: "string \<Rightarrow> string" where
  "pad2 s = (if length s < 2 then CHR ''0'' # s else s)"

definition pos_repr :: "rat \<Rightarrow> string" where
  "pos_repr x = (let (m, n) = shortest x 17 1; full = int_text m; ds = strip_zeros full;
      pt = dec_expo x + 1 + (int (length full) - int n) in
    if - 4 < pt \<and> pt \<le> 16 then
      (if pt \<le> 0 then ''0.'' @ replicate (nat (- pt)) (CHR ''0'') @ ds
       else if length ds \<le> nat pt then ds @ replicate (nat pt - length ds) (CHR ''0'') @ ''.0''
       else take (nat pt) ds @ ''.'' @ drop (nat pt) ds)
    else take 1 ds @ (if length ds = 1 then [] else ''.'' @ drop 1 ds) @ ''e''
       @ (if pt - 1 < 0 then ''-'' else ''+'') @ pad2 (int_text \<bar>pt - 1\<bar>))"

fun float_repr :: "pyfloat \<Rightarrow> string" where
  "float_repr NaN = ''nan''"
| "float_repr PInf = ''inf''"
| "float_repr NInf = ''-inf''"
| "float_repr (Fin x) = (if x = 0 then ''0.0'' else if x < 0 then ''-'' @ pos_repr (- x) else pos_repr x)"

definition hex_digit :: "nat \<Rightarrow> char" where
  "hex_digit n = (if n < 10 then char_of (48 + n) else char_of (87 + n))"

definition repr_char :: "char \<Rightarrow> char \<Rightarrow> string" where
  "repr_char quote c = (let n = (of_char c :: nat) in
     if c = quote \<or> n = 92 then [char_of (92::nat), c]
     else if n = 10 then [char_of (92::nat), CHR ''n'']
     else if n = 13 then [char_of (92::nat), CHR ''r'']
     else if n = 9 then [char_of (92::nat), CHR ''t'']
     else if n < 32 \<or> n = 127 then [char_of (92::nat), CHR ''x'', hex_digit (n div 16), hex_digit (n mod 16)]
     else [c])"

definition str_repr :: "string \<Rightarrow> string" where
  "str_repr s = (let sq = char_of (39::nat); dq = char_of (34::nat);
      q = (if sq \<in> set s \<and> dq \<notin> set s then dq else sq) in
    q # concat (List.map (repr_char q) s) @ [q])"

fun v_repr :: "pyval \<Rightarrow> string" where
  "v_repr VNone = ''None''"
| "v_repr (VBool b) = (if b then ''True'' else ''False'')"
| "v_repr (VInt k) = int_text k"
| "v_repr (VFloat x) = float_repr x"
| "v_repr (VStr s) = str_repr s"
| "v_repr (VList xs) = ''['' @ join '', '' (List.map v_repr xs) @ '']''"
| "v_repr (VTuple xs) = (case xs of [x] \<Rightarrow> ''('' @ v_repr x @ '',)''
     | _ \<Rightarrow> ''('' @ join '', '' (List.map v_repr xs) @ '')'')"
| "v_repr (VDict d) = ''{'' @ join '', '' (List.map (\<lambda>(k, v). str_repr k @ '': '' @ v_repr v) d) @ ''}''"

definition v_str :: "pyval \<Rightarrow> string" where
  "v_str v = (case v of VStr s \<Rightarrow> s | _ \<Rightarrow> v_repr v)"

lemma v_str_simps [simp]: "v_str (VStr s) = s" "v_str VNone = ''None''"
  by (simp_all add: v_str_def)

text \<open>The idiom \<open>str(x or "").strip()\<close>.\<close>

definition v_text :: "pyval \<Rightarrow> string" where
  "v_text v = strip (v_str (v_or v (VStr [])))"

lemma v_text_simps [simp]: "v_text VNone = []" "v_text (VStr s) = strip s"
  by (auto simp: v_text_def v_or_def)

section \<open>Numbers from values\<close>

definition digit_group :: "string \<Rightarrow> bool" where
  "digit_group s = (s \<noteq> [] \<and> is_digit (hd s) \<and> is_digit (last s)
     \<and> list_all (\<lambda>c. is_digit c \<or> c = CHR ''_'') s
     \<and> list_all (\<lambda>(a, b). \<not> (a = CHR ''_'' \<and> b = CHR ''_'')) (zip s (drop 1 s)))"

definition group_value :: "string \<Rightarrow> int" where
  "group_value s = digits_value (filter is_digit s)"

text \<open>The first occurrence of a character splits a string into what is before and after.\<close>

definition split_at :: "char \<Rightarrow> string \<Rightarrow> string \<times> string option" where
  "split_at c s = (let a = takeWhile (\<lambda>x. x \<noteq> c) s in
     (a, if length a = length s then None else Some (drop (Suc (length a)) s)))"

definition split_sign :: "string \<Rightarrow> bool \<times> string" where
  "split_sign s = (case s of c # t \<Rightarrow> if c = CHR ''-'' then (True, t) else if c = CHR ''+'' then (False, t)
      else (False, s) | [] \<Rightarrow> (False, []))"

definition parse_exponent :: "string option \<Rightarrow> int option" where
  "parse_exponent e = (case e of None \<Rightarrow> Some 0 | Some t \<Rightarrow>
     (let (neg, ds) = split_sign t in
      if digit_group ds then Some (if neg then - group_value ds else group_value ds) else None))"

definition parse_mantissa :: "string \<Rightarrow> rat option" where
  "parse_mantissa m = (let (ip, fp) = split_at (CHR ''.'') m; f = (case fp of None \<Rightarrow> [] | Some t \<Rightarrow> t) in
     if (ip = [] \<and> f = []) \<or> (ip \<noteq> [] \<and> \<not> digit_group ip) \<or> (f \<noteq> [] \<and> \<not> digit_group f) then None
     else Some (of_int (group_value ip) + of_int (group_value f) / of_int (10 ^ length (filter is_digit f))))"

text \<open>\<open>float(s)\<close> for text: correctly rounded from the exact decimal value.\<close>

definition float_of_text :: "string \<Rightarrow> pyfloat res" where
  "float_of_text s = (let (neg, b) = split_sign (lower (strip s)); bad = Inl (ValueError ''could not convert string to float'') in
     if b = ''inf'' \<or> b = ''infinity'' then Inr (signed_inf neg)
     else if b = ''nan'' then Inr NaN
     else let (m, e) = split_at (CHR ''e'') b in
       (case (parse_mantissa m, parse_exponent e) of
          (Some r, Some k) \<Rightarrow> Inr (to_float ((if neg then - r else r) * pow10 k))
        | _ \<Rightarrow> bad))"

definition float_of_int :: "int \<Rightarrow> pyfloat res" where
  "float_of_int k = (case to_float (of_int k) of Fin x \<Rightarrow> Inr (Fin x) | _ \<Rightarrow> Inl OverflowError)"

fun v_float :: "pyval \<Rightarrow> pyfloat res" where
  "v_float (VFloat x) = Inr x"
| "v_float (VInt k) = float_of_int k"
| "v_float (VBool b) = Inr (Fin (if b then 1 else 0))"
| "v_float (VStr s) = float_of_text s"
| "v_float _ = Inl (TypeError ''float() argument must be a string or a real number'')"

definition is_type_or_value_error :: "pyexn \<Rightarrow> bool" where
  "is_type_or_value_error e = (case e of TypeError _ \<Rightarrow> True | ValueError _ \<Rightarrow> True | _ \<Rightarrow> False)"

section \<open>Containers\<close>

definition vd_get :: "(string \<times> pyval) list \<Rightarrow> string \<Rightarrow> pyval" where
  "vd_get d k = dict_get_default d k VNone"

lemma vd_get_set [simp]: "vd_get (dict_set d k v) j = (if j = k then v else vd_get d j)"
  by (simp add: vd_get_def dict_get_default_def)

text \<open>\<open>dict(x or {})\<close>; sequences of pairs are not accepted here.\<close>

definition v_dict :: "pyval \<Rightarrow> (string \<times> pyval) list res" where
  "v_dict v = (case v of VDict d \<Rightarrow> Inr d
     | _ \<Rightarrow> if truthy v then Inl (TypeError ''cannot convert to dict'') else Inr [])"

text \<open>Iterating over a value.\<close>

fun v_iter :: "pyval \<Rightarrow> pyval list res" where
  "v_iter (VList xs) = Inr xs"
| "v_iter (VTuple xs) = Inr xs"
| "v_iter (VStr s) = Inr (List.map (\<lambda>c. VStr [c]) s)"
| "v_iter (VDict d) = Inr (List.map (\<lambda>(k, _). VStr k) d)"
| "v_iter _ = Inl (TypeError ''object is not iterable'')"

text \<open>\<open>type(x) in (int, float)\<close>: booleans do not count.\<close>

fun exact_number :: "pyval \<Rightarrow> pyfloat option" where
  "exact_number (VInt k) = Some (Fin (of_int k))"
| "exact_number (VFloat x) = Some x"
| "exact_number _ = None"

section \<open>Formatting numbers\<close>

text \<open>\<open>f"{x:.nf}"\<close>: the exact value rounded half-even to \<open>n\<close> decimals.\<close>

definition pad_left :: "nat \<Rightarrow> string \<Rightarrow> string" where
  "pad_left n s = replicate (n - length s) (CHR ''0'') @ s"

definition fixed_parts :: "nat \<Rightarrow> rat \<Rightarrow> string \<times> string" where
  "fixed_parts n x = (let ds = pad_left (n + 1) (int_text (rhe (x * of_int (10 ^ n)))) in
     (take (length ds - n) ds, drop (length ds - n) ds))"

text \<open>\<open>f"{x:,.nf}"\<close> groups the integer part by three digits.\<close>

fun group3 :: "string \<Rightarrow> string" where
  "group3 (a # b # c # d # ds) = a # b # c # CHR '','' # group3 (d # ds)"
| "group3 ds = ds"

definition fmt_pos :: "bool \<Rightarrow> nat \<Rightarrow> rat \<Rightarrow> string" where
  "fmt_pos sep n x = (let (i, f) = fixed_parts n x; i' = (if sep then rev (group3 (rev i)) else i) in
     if n = 0 then i' else i' @ ''.'' @ f)"

fun fmt_fixed :: "bool \<Rightarrow> nat \<Rightarrow> pyfloat \<Rightarrow> string" where
  "fmt_fixed sep n (Fin x) = (if x < 0 then ''-'' @ fmt_pos sep n (- x) else fmt_pos sep n x)"
| "fmt_fixed sep n NaN = ''nan''"
| "fmt_fixed sep n PInf = ''inf''"
| "fmt_fixed sep n NInf = ''-inf''"

definition fmt_percent1 :: "pyfloat \<Rightarrow> string" where
  "fmt_percent1 x = fmt_fixed False 1 (fmul x (Fin 100)) @ ''%''"

text \<open>\<open>f"{x:g}"\<close>: six significant digits, trailing zeros removed.\<close>

definition strip_frac :: "string \<Rightarrow> string" where
  "strip_frac s = (if CHR ''.'' \<in> set s then
     (let t = strip_zeros s in if t \<noteq> [] \<and> last t = CHR ''.'' then butlast t else t) else s)"

definition fmt_g_pos :: "rat \<Rightarrow> string" where
  "fmt_g_pos x = (let e0 = dec_expo x; m0 = rhe (x / pow10 (e0 - 5));
      (m, e) = (if m0 = 1000000 then (100000, e0 + 1) else (m0, e0)) in
    if - 4 \<le> e \<and> e < 6 then
      (let v = of_int m * pow10 (e - 5) in strip_frac (fmt_pos False (nat (5 - e)) v))
    else (let ds = int_text m in
      strip_frac (take 1 ds @ ''.'' @ drop 1 ds) @ ''e'' @ (if e < 0 then ''-'' else ''+'') @ pad2 (int_text \<bar>e\<bar>)))"

fun fmt_g :: "pyfloat \<Rightarrow> string" where
  "fmt_g (Fin x) = (if x = 0 then ''0'' else if x < 0 then ''-'' @ fmt_g_pos (- x) else fmt_g_pos x)"
| "fmt_g NaN = ''nan''"
| "fmt_g PInf = ''inf''"
| "fmt_g NInf = ''-inf''"

text \<open>\<open>v in {None, ""}\<close>: hashing a list or a dictionary raises.\<close>

fun hashable :: "pyval \<Rightarrow> bool" where
  "hashable (VList _) = False"
| "hashable (VDict _) = False"
| "hashable (VTuple xs) = list_all hashable xs"
| "hashable _ = True"

definition none_or_empty :: "pyval \<Rightarrow> bool res" where
  "none_or_empty v = (if hashable v then Inr (v = VNone \<or> v = VStr []) else Inl (TypeError ''unhashable type''))"

end
