(* ===== verification/Dates.thy ===== *)
theory Dates
  imports Prelude "HOL-Library.Product_Lexorder"
begin

text \<open>
  The standard library's \<open>date\<close>: proleptic Gregorian dates with their order, the ordinal
  number of a day and its inverse (\<open>date.toordinal\<close>, \<open>date.fromordinal\<close>, and with them
  \<open>date + timedelta\<close>), ISO text (\<open>date.isoformat\<close>, \<open>date.fromisoformat\<close>), and instants
  as microseconds since 0001-01-01T00:00Z.  ISO text of valid dates reads back and orders
  like the dates themselves, which is what lets the sources use it as dictionary keys.
\<close>

datatype date = Date (year: int) (month: int) (day: int)

instantiation date :: linorder
begin

definition less_eq_date :: "date \<Rightarrow> date \<Rightarrow> bool" where
  "less_eq_date a b = ((year a, month a, day a) \<le> (year b, month b, day b))"

definition less_date :: "date \<Rightarrow> date \<Rightarrow> bool" where
  "less_date a b = ((year a, month a, day a) < (year b, month b, day b))"

instance
proof
  fix x y z :: date
  show "(x < y) = (x \<le> y \<and> \<not> y \<le> x)"
    by (simp only: less_date_def less_eq_date_def less_le_not_le)
  show "x \<le> x" by (simp add: less_eq_date_def)
  show "x \<le> y \<Longrightarrow> y \<le> z \<Longrightarrow> x \<le> z" unfolding less_eq_date_def by (rule order_trans)
  show "x \<le> y \<Longrightarrow> y \<le> x \<Longrightarrow> x = y"
    unfolding less_eq_date_def by (cases x; cases y) (metis Pair_inject antisym date.sel)
  show "x \<le> y \<or> y \<le> x" unfolding less_eq_date_def by (rule linear)
qed

end

definition leap :: "int \<Rightarrow> bool" where
  "leap y \<longleftrightarrow> y mod 4 = 0 \<and> (y mod 100 \<noteq> 0 \<or> y mod 400 = 0)"

definition month_lengths :: "int \<Rightarrow> int list" where
  "month_lengths y = [31, if leap y then 29 else 28, 31, 30, 31, 30, 31, 31, 30, 31, 30, 31]"

definition days_in_month :: "int \<Rightarrow> int \<Rightarrow> int" where
  "days_in_month y m = month_lengths y ! nat (m - 1)"

definition valid_date :: "date \<Rightarrow> bool" where
  "valid_date d \<longleftrightarrow> 1 \<le> year d \<and> year d \<le> 9999 \<and> 1 \<le> month d \<and> month d \<le> 12
     \<and> 1 \<le> day d \<and> day d \<le> days_in_month (year d) (month d)"

definition days_before_year :: "int \<Rightarrow> int" where
  "days_before_year y = (let k = y - 1 in k * 365 + k div 4 - k div 100 + k div 400)"

definition days_before_month :: "int \<Rightarrow> int \<Rightarrow> int" where
  "days_before_month y m = sum_list (take (nat (m - 1)) (month_lengths y))"

definition ordinal :: "date \<Rightarrow> int" where
  "ordinal d = days_before_year (year d) + days_before_month (year d) (month d) + day d"

text \<open>Walking the month lengths with the remaining days of the year.\<close>

fun split_month :: "int list \<Rightarrow> int \<Rightarrow> int \<Rightarrow> int \<times> int" where
  "split_month [] m r = (m, r + 1)"
| "split_month (l # ls) m r = (if r < l then (m, r + 1) else split_month ls (m + 1) (r - l))"

text \<open>Cycles of 400, 100, 4 and 1 years.\<close>

definition from_ordinal :: "int \<Rightarrow> date" where
  "from_ordinal n =
    (let n = n - 1; a = n div 146097; r = n mod 146097;
         b = min (r div 36524) 3; r = r - b * 36524;
         c = r div 1461; r = r mod 1461;
         e = min (r div 365) 3; r = r - e * 365;
         y = a * 400 + b * 100 + c * 4 + e + 1;
         (m, d) = split_month (month_lengths y) 1 r
     in Date y m d)"

definition add_days :: "date \<Rightarrow> int \<Rightarrow> date" where
  "add_days d k = from_ordinal (ordinal d + k)"

definition days_between :: "date \<Rightarrow> date \<Rightarrow> int" where
  "days_between a b = ordinal b - ordinal a"

lemma split_month_sound:
  assumes "0 \<le> r" and "r < (if leap y then 366 else 365)"
  shows "case split_month (month_lengths y) 1 r of (m, d) \<Rightarrow>
     1 \<le> m \<and> m \<le> 12 \<and> 1 \<le> d \<and> d \<le> days_in_month y m \<and> days_before_month y m + d = r + 1"
  using assms
  by (cases "leap y") (simp_all add: month_lengths_def days_in_month_def days_before_month_def nat_diff_distrib)

text \<open>The year found by \<open>from_ordinal\<close> contains the day, and what remains is the day of that year.\<close>

lemma cycle_bounds:
  fixes n :: int
  defines "a \<equiv> n div 146097" and "r1 \<equiv> n mod 146097"
  defines "b \<equiv> min (r1 div 36524) 3"
  defines "r2 \<equiv> r1 - b * 36524"
  defines "c \<equiv> r2 div 1461" and "r3 \<equiv> r2 mod 1461"
  defines "e \<equiv> min (r3 div 365) 3"
  defines "r4 \<equiv> r3 - e * 365"
  shows "0 \<le> b" "b \<le> 3" "0 \<le> c" "c \<le> 24" "0 \<le> e" "e \<le> 3" "0 \<le> r4" "r4 \<le> 365"
    "n = a * 146097 + b * 36524 + c * 1461 + e * 365 + r4"
    "e \<noteq> 3 \<longrightarrow> r4 < 365" "c = 24 \<and> b \<noteq> 3 \<longrightarrow> r4 < 365"
proof -
  have r1: "0 \<le> r1" "r1 < 146097" by (simp_all add: r1_def)
  show b: "0 \<le> b" "b \<le> 3" using r1 by (simp_all add: b_def)
  have r2: "0 \<le> r2" "r2 \<le> 36524" "b \<noteq> 3 \<longrightarrow> r2 < 36524" using r1 by (auto simp: r2_def b_def min_def)
  show c: "0 \<le> c" "c \<le> 24" using r2 by (auto simp: c_def)
  have r3: "0 \<le> r3" "r3 < 1461" "r2 = c * 1461 + r3" by (simp_all add: r3_def c_def)
  show e: "0 \<le> e" "e \<le> 3" using r3 by (simp_all add: e_def)
  show r4: "0 \<le> r4" "r4 \<le> 365" "e \<noteq> 3 \<longrightarrow> r4 < 365" using r3 by (auto simp: r4_def e_def min_def)
  have n: "n = a * 146097 + r1" by (simp add: a_def r1_def)
  then show "n = a * 146097 + b * 36524 + c * 1461 + e * 365 + r4"
    using r3(3) by (simp add: r2_def r4_def)
  show "c = 24 \<and> b \<noteq> 3 \<longrightarrow> r4 < 365"
    using r2 r3 by (auto simp: r4_def e_def min_def)
qed

lemma mod_zero_iff: "0 < (x::int) \<Longrightarrow> x \<le> k \<Longrightarrow> x mod k = 0 \<longleftrightarrow> x = k"
  by (cases "x = k") simp_all

lemma div_split: "0 \<le> (r::int) \<Longrightarrow> r < k \<Longrightarrow> (r + k * q) div k = q"
  by simp

lemma div_pred: "0 < (k::int) \<Longrightarrow> y div k = (y - 1) div k + (if y mod k = 0 then 1 else 0)"
proof -
  assume k: "0 < k"
  let ?q = "y div k" and ?r = "y mod k"
  have y: "y = ?r + k * ?q" by simp
  show ?thesis
  proof (cases "?r = 0")
    case True
    then have "y - 1 = (k - 1) + k * (?q - 1)" using y by (simp add: algebra_simps)
    then have "(y - 1) div k = ?q - 1" by (simp only:) (rule div_split; use k in simp)
    with True show ?thesis by simp
  next
    case False
    then have "0 \<le> ?r - 1" using k by (simp add: order_less_le)
    moreover have "?r - 1 < k" using k pos_mod_bound [of k y] by linarith
    moreover have "y - 1 = (?r - 1) + k * ?q" using y by linarith
    ultimately have "(y - 1) div k = ?q" by (simp only:) (rule div_split)
    with False show ?thesis by simp
  qed
qed

lemma leap_cycle:
  fixes a b c e :: int
  assumes "0 \<le> b" "b \<le> 3" "0 \<le> c" "c \<le> 24" "0 \<le> e" "e \<le> 3"
  shows "leap (a * 400 + b * 100 + c * 4 + e + 1) \<longleftrightarrow> e = 3 \<and> (c \<noteq> 24 \<or> b = 3)"
proof -
  let ?y = "a * 400 + b * 100 + c * 4 + e + 1"
  have split: "?y = (e + 1) + 4 * (a * 100 + b * 25 + c)" "?y = (c * 4 + e + 1) + 100 * (a * 4 + b)"
    "?y = (b * 100 + c * 4 + e + 1) + 400 * a" by simp_all
  have 4: "?y mod 4 = 0 \<longleftrightarrow> e = 3"
    unfolding split(1) mod_mult_self2 using assms by (simp add: mod_zero_iff)
  have "c * 4 + e + 1 = 100 \<longleftrightarrow> c = 24 \<and> e = 3" using assms by linarith
  then have 100: "?y mod 100 = 0 \<longleftrightarrow> c = 24 \<and> e = 3"
    unfolding split(2) mod_mult_self2 using assms by (subst mod_zero_iff) linarith+
  have "b * 100 + c * 4 + e + 1 = 400 \<longleftrightarrow> b = 3 \<and> c = 24 \<and> e = 3" using assms by linarith
  then have 400: "?y mod 400 = 0 \<longleftrightarrow> b = 3 \<and> c = 24 \<and> e = 3"
    unfolding split(3) mod_mult_self2 using assms by (subst mod_zero_iff) linarith+
  show ?thesis unfolding leap_def 4 100 400 by auto
qed

lemma days_before_cycle:
  fixes a b c e :: int
  assumes "0 \<le> b" "b \<le> 3" "0 \<le> c" "c \<le> 24" "0 \<le> e" "e \<le> 3"
  shows "days_before_year (a * 400 + b * 100 + c * 4 + e + 1)
           = a * 146097 + b * 36524 + c * 1461 + e * 365"
proof -
  let ?k = "a * 400 + b * 100 + c * 4 + e"
  have "?k = e + 4 * (a * 100 + b * 25 + c)" "?k = (c * 4 + e) + 100 * (a * 4 + b)"
    "?k = (b * 100 + c * 4 + e) + 400 * a" by simp_all
  then have "?k div 4 = a * 100 + b * 25 + c" "?k div 100 = a * 4 + b" "?k div 400 = a"
    using assms div_split [of e 4 "a * 100 + b * 25 + c"] div_split [of "c * 4 + e" 100 "a * 4 + b"]
      div_split [of "b * 100 + c * 4 + e" 400 a] by simp_all
  then show ?thesis by (simp add: days_before_year_def Let_def)
qed

theorem ordinal_from_ordinal:
  "ordinal (from_ordinal n) = n
   \<and> 1 \<le> month (from_ordinal n) \<and> month (from_ordinal n) \<le> 12
   \<and> 1 \<le> day (from_ordinal n) \<and> day (from_ordinal n) \<le> days_in_month (year (from_ordinal n)) (month (from_ordinal n))"
proof -
  define k where "k = n - 1"
  define a where "a = k div 146097"
  define b where "b = min (k mod 146097 div 36524) 3"
  define r2 where "r2 = k mod 146097 - b * 36524"
  define c where "c = r2 div 1461"
  define e where "e = min (r2 mod 1461 div 365) 3"
  define r where "r = r2 mod 1461 - e * 365"
  define y where "y = a * 400 + b * 100 + c * 4 + e + 1"
  note cb = cycle_bounds [of k, folded a_def, folded b_def, folded r2_def, folded c_def, folded e_def, folded r_def]
  obtain m d where md: "split_month (month_lengths y) 1 r = (m, d)" by fastforce
  have from_n: "from_ordinal n = Date y m d"
    unfolding from_ordinal_def Let_def k_def [symmetric] a_def [symmetric] b_def [symmetric]
      r2_def [symmetric] c_def [symmetric] e_def [symmetric] r_def [symmetric] y_def [symmetric]
    by (simp add: md)
  have "leap y \<longleftrightarrow> e = 3 \<and> (c \<noteq> 24 \<or> b = 3)"
    unfolding y_def by (rule leap_cycle) (use cb in auto)
  then have "r < (if leap y then 366 else 365)" using cb by auto
  from split_month_sound [OF _ this] cb md
  have m: "1 \<le> m" "m \<le> 12" "1 \<le> d" "d \<le> days_in_month y m" "days_before_month y m + d = r + 1"
    by auto
  have "days_before_year y = a * 146097 + b * 36524 + c * 1461 + e * 365"
    unfolding y_def by (rule days_before_cycle) (use cb in auto)
  then have "ordinal (Date y m d) = n"
    using m(5) cb(9) by (simp add: ordinal_def k_def)
  with m from_n show ?thesis by simp
qed

text \<open>Later dates have larger ordinals, so the ordinal determines the date.\<close>

lemma leap_arith:
  fixes p q s p' q' s' k :: int
  assumes "p = p' + (if a then 1 else 0)" "q = q' + (if b then 1 else 0)" "s = s' + (if c then 1 else 0)"
    "c \<longrightarrow> b" "b \<longrightarrow> a"
  shows "(k + 1) * 365 + p - q + s = k * 365 + p' - q' + s' + (if a \<and> (\<not> b \<or> c) then 366 else 365)"
  using assms by (cases a; cases b; cases c) (simp_all add: algebra_simps)

lemma days_before_year_Suc: "days_before_year (y + 1) = days_before_year y + (if leap y then 366 else 365)"
proof -
  have "(400::int) dvd y \<longrightarrow> 100 dvd y" "(100::int) dvd y \<longrightarrow> 4 dvd y"
    by (auto intro: dvd_trans [of 100 400 y] dvd_trans [of 4 100 y])
  then have "y mod 400 = 0 \<longrightarrow> y mod 100 = 0" "y mod 100 = 0 \<longrightarrow> y mod 4 = 0"
    by (simp_all add: dvd_eq_mod_eq_0)
  from leap_arith [OF div_pred [of 4 y] div_pred [of 100 y] div_pred [of 400 y] this, of "y - 1"]
  show ?thesis unfolding days_before_year_def Let_def leap_def
    by (simp only: diff_add_cancel add_diff_cancel_right' zero_less_numeral simp_thms)
qed

lemma days_before_year_mono: "y \<le> y' \<Longrightarrow> days_before_year y \<le> days_before_year y'"
proof (induction y' rule: int_ge_induct)
  case (step i)
  then show ?case using days_before_year_Suc [of i] by (simp split: if_splits)
qed simp

lemma int_upto_12:
  assumes "1 \<le> (m::int)" "m \<le> 12"
  shows "m \<in> {1,2,3,4,5,6,7,8,9,10,11,12}"
proof -
  have "m = 1 \<or> m = 2 \<or> m = 3 \<or> m = 4 \<or> m = 5 \<or> m = 6 \<or> m = 7 \<or> m = 8 \<or> m = 9 \<or> m = 10 \<or> m = 11 \<or> m = 12"
    using assms by presburger
  then show ?thesis by simp
qed

lemma sum_take_mono:
  fixes xs :: "int list"
  assumes "\<forall>x \<in> set xs. 0 \<le> x" "i \<le> j"
  shows "sum_list (take i xs) \<le> sum_list (take j xs)"
proof -
  have "take j xs = take i xs @ take (j - i) (drop i xs)" using assms(2) by (metis le_add_diff_inverse take_add)
  moreover have "0 \<le> sum_list (take (j - i) (drop i xs))"
    using assms(1) by (intro sum_list_nonneg) (auto dest: in_set_takeD in_set_dropD)
  ultimately show ?thesis by simp
qed

lemma days_before_month_mono:
  assumes "1 \<le> m" "m < m'" "m' \<le> 12"
  shows "days_before_month y m + days_in_month y m \<le> days_before_month y m'"
proof -
  let ?xs = "month_lengths y" and ?n = "nat (m - 1)"
  have len: "length ?xs = 12" by (simp add: month_lengths_def)
  have "days_before_month y m + days_in_month y m = sum_list (take (Suc ?n) ?xs)"
    using assms len by (simp add: days_before_month_def days_in_month_def take_Suc_conv_app_nth)
  also have "\<dots> \<le> sum_list (take (nat (m' - 1)) ?xs)"
    by (rule sum_take_mono) (use assms in \<open>auto simp: month_lengths_def\<close>)
  finally show ?thesis by (simp add: days_before_month_def)
qed

lemma day_of_year_le:
  assumes "1 \<le> m" "m \<le> 12"
  shows "0 \<le> days_before_month y m"
    and "days_before_month y m + days_in_month y m \<le> (if leap y then 366 else 365)"
  using int_upto_12 [of m] assms
  by (auto simp: days_before_month_def days_in_month_def month_lengths_def)

definition wf_date :: "date \<Rightarrow> bool" where
  "wf_date d \<longleftrightarrow> 1 \<le> month d \<and> month d \<le> 12 \<and> 1 \<le> day d \<and> day d \<le> days_in_month (year d) (month d)"

lemma valid_wf: "valid_date d \<Longrightarrow> wf_date d"
  by (simp add: valid_date_def wf_date_def)

lemma ordinal_less:
  assumes "wf_date a" "wf_date b" "a < b"
  shows "ordinal a < ordinal b"
proof -
  have a: "ordinal a \<le> days_before_year (year a) + days_before_month (year a) (month a) + days_in_month (year a) (month a)"
    "1 \<le> month a" "month a \<le> 12" using assms(1) by (auto simp: ordinal_def wf_date_def)
  have b: "1 \<le> month b" "month b \<le> 12" "1 \<le> day b" using assms(2) by (auto simp: wf_date_def)
  have "year a < year b \<or> year a = year b \<and> (month a < month b \<or> month a = month b \<and> day a < day b)"
    using assms(3) by (auto simp: less_date_def)
  then consider "year a < year b" | "year a = year b" "month a < month b"
    | "year a = year b" "month a = month b" "day a < day b"
    by blast
  then show ?thesis
  proof cases
    case 1
    have "days_before_year (year a) + (if leap (year a) then 366 else 365) \<le> days_before_year (year b)"
      using days_before_year_mono [of "year a + 1" "year b"] 1 days_before_year_Suc [of "year a"] by simp
    moreover note day_of_year_le(2) [OF a(2,3), of "year a"] day_of_year_le(1) [OF b(1,2), of "year b"]
    ultimately show ?thesis using a(1) b(3) by (simp add: ordinal_def)
  next
    case 2
    with days_before_month_mono [OF a(2) 2(2) b(2), of "year a"] a(1) b(3)
    show ?thesis by (simp add: ordinal_def)
  qed (simp add: ordinal_def)
qed

lemma ordinal_less_iff: "wf_date a \<Longrightarrow> wf_date b \<Longrightarrow> ordinal a < ordinal b \<longleftrightarrow> a < b"
  by (metis ordinal_less less_asym linorder_neqE)

lemma ordinal_inject: "wf_date a \<Longrightarrow> wf_date b \<Longrightarrow> ordinal a = ordinal b \<longleftrightarrow> a = b"
  by (metis ordinal_less less_irrefl linorder_neqE)

lemma wf_from_ordinal [simp]: "wf_date (from_ordinal n)"
  using ordinal_from_ordinal [of n] by (simp add: wf_date_def)

lemma ordinal_of_from [simp]: "ordinal (from_ordinal n) = n"
  using ordinal_from_ordinal by blast

lemma from_ordinal_ordinal [simp]: "wf_date d \<Longrightarrow> from_ordinal (ordinal d) = d"
  using ordinal_inject [of "from_ordinal (ordinal d)" d] by simp

lemma add_days_0 [simp]: "wf_date d \<Longrightarrow> add_days d 0 = d"
  by (simp add: add_days_def)

lemma add_days_add [simp]: "add_days (add_days d j) k = add_days d (j + k)"
  by (simp add: add_days_def add.assoc)

lemma ordinal_add_days [simp]: "ordinal (add_days d k) = ordinal d + k"
  by (simp add: add_days_def)

lemma wf_add_days [simp]: "wf_date (add_days d k)"
  by (simp add: add_days_def)

section \<open>ISO text\<close>

definition digit :: "int \<Rightarrow> char" where
  "digit n = char_of (48 + n)"

definition two_digits :: "int \<Rightarrow> string" where
  "two_digits n = [digit (n div 10), digit (n mod 10)]"

definition four_digits :: "int \<Rightarrow> string" where
  "four_digits n = [digit (n div 1000), digit (n div 100 mod 10), digit (n div 10 mod 10), digit (n mod 10)]"

definition iso_date :: "date \<Rightarrow> string" where
  "iso_date d = four_digits (year d) @ ''-'' @ two_digits (month d) @ ''-'' @ two_digits (day d)"

definition digits_opt :: "string \<Rightarrow> int option" where
  "digits_opt s = (if s \<noteq> [] \<and> list_all is_digit s then Some (digits_value s) else None)"

definition checked_date :: "int option \<Rightarrow> int option \<Rightarrow> int option \<Rightarrow> date option" where
  "checked_date y m d = (case (y, m, d) of
      (Some y, Some m, Some d) \<Rightarrow> (if valid_date (Date y m d) then Some (Date y m d) else None)
    | _ \<Rightarrow> None)"

text \<open>The Monday of ISO week 1 is the Monday of the week that contains the fourth of January.\<close>

definition week1_monday :: "int \<Rightarrow> int" where
  "week1_monday y = (let jan4 = ordinal (Date y 1 4) in jan4 - (jan4 + 6) mod 7)"

definition checked_week :: "int option \<Rightarrow> int option \<Rightarrow> int option \<Rightarrow> date option" where
  "checked_week y w d = (case (y, w, d) of
      (Some y, Some w, Some d) \<Rightarrow>
        (if 1 \<le> y \<and> y \<le> 9999 \<and> 1 \<le> w \<and> w \<le> (week1_monday (y + 1) - week1_monday y) div 7 \<and> 1 \<le> d \<and> d \<le> 7 then
           let r = from_ordinal (week1_monday y + (w - 1) * 7 + d - 1) in
           if valid_date r then Some r else None
         else None)
    | _ \<Rightarrow> None)"

text \<open>
  \<open>date.fromisoformat\<close> of Python 3.11 and later: extended and basic calendar dates and
  week dates; anything else is a \<open>ValueError\<close>.
\<close>

definition parse_iso_date :: "string \<Rightarrow> date option" where
  "parse_iso_date s =
    (let y = digits_opt (take 4 s); r = drop 4 s in
     if length s = 10 \<and> r ! 0 = CHR ''-'' \<and> r ! 3 = CHR ''-'' \<and> r ! 1 \<noteq> CHR ''W'' then
       checked_date y (digits_opt [r ! 1, r ! 2]) (digits_opt [r ! 4, r ! 5])
     else if length s = 8 \<and> r ! 0 \<noteq> CHR ''-'' \<and> r ! 0 \<noteq> CHR ''W'' then
       checked_date y (digits_opt [r ! 0, r ! 1]) (digits_opt [r ! 2, r ! 3])
     else if length s = 10 \<and> r ! 0 = CHR ''-'' \<and> r ! 1 = CHR ''W'' \<and> r ! 4 = CHR ''-'' then
       checked_week y (digits_opt [r ! 2, r ! 3]) (digits_opt [r ! 5])
     else if length s = 8 \<and> r ! 0 = CHR ''-'' \<and> r ! 1 = CHR ''W'' then
       checked_week y (digits_opt [r ! 2, r ! 3]) (Some 1)
     else if length s = 8 \<and> r ! 0 = CHR ''W'' then
       checked_week y (digits_opt [r ! 1, r ! 2]) (digits_opt [r ! 3])
     else if length s = 7 \<and> r ! 0 = CHR ''W'' then
       checked_week y (digits_opt [r ! 1, r ! 2]) (Some 1)
     else None)"

lemma of_char_of_digit: "0 \<le> n \<Longrightarrow> n < 10 \<Longrightarrow> (of_char (digit n) :: int) = 48 + n"
  by (simp add: digit_def of_char_digit del: of_char_of)

lemma is_digit_digit [simp]: "0 \<le> n \<Longrightarrow> n < 10 \<Longrightarrow> is_digit (digit n)"
  by (simp add: is_digit_def of_char_of_digit)

lemma digit_value_digit [simp]: "0 \<le> n \<Longrightarrow> n < 10 \<Longrightarrow> digit_value (digit n) = n"
  by (simp add: digit_value_def of_char_of_digit)

lemma digit_not_letter: "0 \<le> n \<Longrightarrow> n < 10 \<Longrightarrow> digit n \<noteq> CHR ''W''"
proof
  assume "0 \<le> n" "n < 10" "digit n = CHR ''W''"
  then have "is_digit (CHR ''W'')" using is_digit_digit [of n] by simp
  then show False by (simp add: is_digit_def)
qed

lemma digits_opt_two: "0 \<le> a \<Longrightarrow> a < 10 \<Longrightarrow> 0 \<le> b \<Longrightarrow> b < 10 \<Longrightarrow> digits_opt [digit a, digit b] = Some (10 * a + b)"
  by (simp add: digits_opt_def digits_value_def)

lemma digits_opt_four: "0 \<le> a \<Longrightarrow> a < 10 \<Longrightarrow> 0 \<le> b \<Longrightarrow> b < 10 \<Longrightarrow> 0 \<le> c \<Longrightarrow> c < 10 \<Longrightarrow> 0 \<le> e \<Longrightarrow> e < 10 \<Longrightarrow>
    digits_opt [digit a, digit b, digit c, digit e] = Some (10 * (10 * (10 * a + b) + c) + e)"
  by (simp add: digits_opt_def digits_value_def)

lemma digits_opt_four_digits: "0 \<le> n \<Longrightarrow> n < 10000 \<Longrightarrow> digits_opt (four_digits n) = Some n"
proof -
  assume n: "0 \<le> n" "n < 10000"
  have "10 * (10 * (10 * (n div 1000) + n div 100 mod 10) + n div 10 mod 10) + n mod 10 = n"
  proof -
    have "n div 100 = n div 10 div 10" "n div 1000 = n div 10 div 10 div 10"
      by (simp_all add: zdiv_zmult2_eq [symmetric])
    then show ?thesis by presburger
  qed
  moreover have "n div 1000 < 10" "0 \<le> n div 1000" using n by auto
  moreover have "0 \<le> x mod 10 \<and> x mod 10 < 10" for x :: int by simp
  ultimately show ?thesis unfolding four_digits_def
    using digits_opt_four [of "n div 1000" "n div 100 mod 10" "n div 10 mod 10" "n mod 10"] by metis
qed

lemma two_digits_bounds: "0 \<le> n \<Longrightarrow> n < 100 \<Longrightarrow> 0 \<le> n div 10 \<and> n div 10 < 10 \<and> 0 \<le> n mod 10 \<and> n mod 10 < (10::int)"
  by auto

lemma days_in_month_le:
  assumes "1 \<le> m" "m \<le> 12" shows "days_in_month y m \<le> 31"
  using int_upto_12 [OF assms] by (auto simp: days_in_month_def month_lengths_def)

lemma valid_date_bounds:
  assumes "valid_date d"
  shows "0 \<le> year d" "year d < 10000" "0 \<le> month d" "month d < 100" "0 \<le> day d" "day d < 100"
  using assms days_in_month_le [of "month d" "year d"] by (auto simp: valid_date_def)

theorem parse_iso_date_iso:
  assumes "valid_date d"
  shows "parse_iso_date (iso_date d) = Some d"
proof -
  note b = valid_date_bounds [OF assms]
  note bm = two_digits_bounds [OF b(3,4)] and bd = two_digits_bounds [OF b(5,6)]
  have "take 4 (iso_date d) = four_digits (year d)"
    and "drop 4 (iso_date d) = ''-'' @ two_digits (month d) @ ''-'' @ two_digits (day d)"
    and "length (iso_date d) = 10"
    by (simp_all add: iso_date_def four_digits_def two_digits_def)
  moreover have "digits_opt (two_digits (month d)) = Some (month d)" "digits_opt (two_digits (day d)) = Some (day d)"
    using digits_opt_two [of "month d div 10" "month d mod 10"] digits_opt_two [of "day d div 10" "day d mod 10"] bm bd
    by (simp_all add: two_digits_def)
  ultimately show ?thesis
    using assms digit_not_letter [of "month d div 10"] bm digits_opt_four_digits [OF b(1,2)]
    by (simp add: parse_iso_date_def two_digits_def checked_date_def)
qed

lemma list_less_append:
  fixes u u' :: "'a::linorder list"
  assumes "length u = length u'"
  shows "u @ v < u' @ v' \<longleftrightarrow> u < u' \<or> u = u' \<and> v < v'"
  using assms by (induction u u' rule: list_induct2) auto

lemma digit_less: "0 \<le> a \<Longrightarrow> a < 10 \<Longrightarrow> 0 \<le> b \<Longrightarrow> b < 10 \<Longrightarrow> digit a < digit b \<longleftrightarrow> a < b"
proof -
  assume *: "0 \<le> a" "a < 10" "0 \<le> b" "b < 10"
  have "digit a < digit b \<longleftrightarrow> (of_char (digit a) :: nat) < of_char (digit b)"
    by (simp add: less_char_def)
  also have "\<dots> \<longleftrightarrow> (of_char (digit a) :: int) < of_char (digit b)"
    by (simp add: of_nat_of_char [symmetric, where 'a = int] del: of_nat_of_char)
  finally show ?thesis using * by (simp add: of_char_of_digit)
qed

lemma two_digits_less:
  assumes "0 \<le> a" "a < 100" "0 \<le> b" "b < 100"
  shows "two_digits a < two_digits b \<longleftrightarrow> a < b" "two_digits a = two_digits b \<longleftrightarrow> a = b"
proof -
  note ba = two_digits_bounds [OF assms(1,2)] and bb = two_digits_bounds [OF assms(3,4)]
  have eq: "digit x = digit y \<longleftrightarrow> x = y" if "0 \<le> x" "x < 10" "0 \<le> y" "y < 10" for x y
    using that digit_less [of x y] digit_less [of y x] by auto
  have lex: "(p < q \<or> p = q \<and> r < s) \<longleftrightarrow> 10 * p + r < 10 * q + s" if "0 \<le> r" "r < 10" "0 \<le> s" "s < 10" for p q r s :: int
    using that by linarith
  have ab: "a = 10 * (a div 10) + a mod 10" "b = 10 * (b div 10) + b mod 10" by simp_all
  have "two_digits a < two_digits b \<longleftrightarrow> a div 10 < b div 10 \<or> a div 10 = b div 10 \<and> a mod 10 < b mod 10"
    using ba bb by (simp add: two_digits_def digit_less eq)
  also have "\<dots> \<longleftrightarrow> a < b"
    using lex [of "a mod 10" "b mod 10" "a div 10" "b div 10"] ba bb by simp
  finally show "two_digits a < two_digits b \<longleftrightarrow> a < b" .
  have "two_digits a = two_digits b \<longleftrightarrow> a div 10 = b div 10 \<and> a mod 10 = b mod 10"
    using ba bb by (simp add: two_digits_def eq)
  then show "two_digits a = two_digits b \<longleftrightarrow> a = b" using ab by metis
qed

lemma four_digits_split:
  "0 \<le> n \<Longrightarrow> n < 10000 \<Longrightarrow> four_digits n = two_digits (n div 100) @ two_digits (n mod 100)"
proof -
  have m: "n mod 100 = 10 * (n div 10 mod 10) + n mod 10"
    using zmod_zmult2_eq [of 10 n 10] by simp
  have e: "n div 100 div 10 = n div 1000" "n mod 100 div 10 = n div 10 mod 10" "n mod 100 mod 10 = n mod 10"
    using zdiv_zmult2_eq [of 10 n 100] by (simp, (simp add: m)+)
  show ?thesis by (simp only: four_digits_def two_digits_def append_Cons append_Nil e)
qed

theorem iso_date_less:
  assumes "valid_date a" and "valid_date b"
  shows "iso_date a < iso_date b \<longleftrightarrow> a < b"
proof -
  note ba = valid_date_bounds [OF assms(1)] and bb = valid_date_bounds [OF assms(2)]
  have y: "four_digits (year a) < four_digits (year b) \<longleftrightarrow> year a < year b"
    "four_digits (year a) = four_digits (year b) \<longleftrightarrow> year a = year b"
  proof -
    have q: "0 \<le> n div 100 \<and> n div 100 < 100 \<and> 0 \<le> n mod 100 \<and> n mod 100 < 100 \<and> n = 100 * (n div 100) + n mod 100"
      if "0 \<le> n" "n < 10000" for n :: int using that by auto
    note qa = q [OF ba(1,2)] and qb = q [OF bb(1,2)]
    have len: "length (two_digits x) = length (two_digits y)" for x y by (simp add: two_digits_def)
    show "four_digits (year a) < four_digits (year b) \<longleftrightarrow> year a < year b"
      using qa qb two_digits_less [of "year a div 100" "year b div 100"] two_digits_less [of "year a mod 100" "year b mod 100"]
      unfolding four_digits_split [OF ba(1,2)] four_digits_split [OF bb(1,2)] list_less_append [OF len] by smt
    show "four_digits (year a) = four_digits (year b) \<longleftrightarrow> year a = year b"
      using qa qb two_digits_less [of "year a div 100" "year b div 100"] two_digits_less [of "year a mod 100" "year b mod 100"]
      unfolding four_digits_split [OF ba(1,2)] four_digits_split [OF bb(1,2)] using len by (metis append_eq_append_conv)
  qed
  have len: "length (four_digits (year a)) = length (four_digits (year b))"
    "length (two_digits (month a)) = length (two_digits (month b))"
    by (simp_all add: four_digits_def two_digits_def)
  show ?thesis
    using two_digits_less [OF ba(3,4) bb(3,4)] two_digits_less [OF ba(5,6) bb(5,6)] y
    by (simp add: iso_date_def list_less_append [OF len(1)] list_less_append [OF len(2)] less_date_def less_prod_def)
      auto
qed

lemma iso_date_inject: "valid_date a \<Longrightarrow> valid_date b \<Longrightarrow> iso_date a = iso_date b \<longleftrightarrow> a = b"
  by (metis parse_iso_date_iso option.inject)

section \<open>Instants\<close>

text \<open>Aware datetimes as microseconds since 0001-01-01T00:00Z; their UTC date and time of day.\<close>

type_synonym instant = int

definition second :: instant where "second = 1000000"
definition minute :: instant where "minute = 60 * second"
definition hour :: instant where "hour = 60 * minute"
definition day_length :: instant where "day_length = 24 * hour"

definition utc_date :: "instant \<Rightarrow> date" where
  "utc_date t = from_ordinal (t div day_length + 1)"

definition midnight :: "instant \<Rightarrow> instant" where
  "midnight t = t - t mod day_length"

text \<open>
  \<open>datetime.fromisoformat\<close> of Python 3.11 and later: where the date part ends, the clock
  time with its optional fraction, and the UTC offset.  The result is the wall-clock time in
  microseconds and the offset, if there is one.
\<close>

definition char_at :: "string \<Rightarrow> nat \<Rightarrow> string" where
  "char_at s i = take 1 (drop i s)"

definition leading_digits :: "string \<Rightarrow> nat" where
  "leading_digits s = length (takeWhile is_digit s)"

definition date_part_length :: "string \<Rightarrow> nat option" where
  "date_part_length s =
    (if length s < 7 then None
     else if length s = 7 then Some 7
     else if char_at s 4 = ''-'' then
       (if char_at s 5 = ''W'' then
          (if length s > 8 \<and> char_at s 8 = ''-'' then
             (if length s = 9 then None
              else if length s > 10 \<and> leading_digits (char_at s 10) = 1 then Some 8 else Some 10)
           else Some 8)
        else Some 10)
     else if char_at s 4 = ''W'' then
       (let pos = 7 + leading_digits (drop 7 s) in
        if pos < 9 then Some pos else if even pos then Some 7 else Some 8)
     else Some 8)"

definition fraction_micros :: "string \<Rightarrow> int option" where
  "fraction_micros s = (if s \<noteq> [] \<and> list_all is_digit s
     then Some (digits_value (take 6 (s @ replicate 6 (CHR ''0'')))) else None)"

text \<open>\<open>HH[:MM[:SS[.ffffff]]]\<close> or \<open>HH[MM[SS[.ffffff]]]\<close>, in microseconds.\<close>

definition split_fraction :: "string \<Rightarrow> string \<times> string option" where
  "split_fraction s = (let a = takeWhile (\<lambda>c. c \<noteq> CHR ''.'' \<and> c \<noteq> CHR '','') s in
     (a, if length a = length s then None else Some (drop (Suc (length a)) s)))"

definition hms :: "int option \<Rightarrow> int option \<Rightarrow> int option \<Rightarrow> int option \<Rightarrow> int option" where
  "hms h m s f = (case (h, m, s, f) of (Some h, Some m, Some s, Some f) \<Rightarrow>
      (if h < 24 \<and> m < 60 \<and> s < 60 then Some (h * hour + m * minute + s * second + f) else None)
    | _ \<Rightarrow> None)"

definition parse_clock :: "string \<Rightarrow> int option" where
  "parse_clock t =
    (let (c, f) = split_fraction t; two = (\<lambda>i. digits_opt (take 2 (drop i c)));
         frac = (case f of None \<Rightarrow> Some 0 | Some d \<Rightarrow> fraction_micros d) in
     if length c = 2 \<and> f = None then hms (two 0) (Some 0) (Some 0) frac
     else if length c = 5 \<and> char_at c 2 = '':'' \<and> f = None then hms (two 0) (two 3) (Some 0) frac
     else if length c = 8 \<and> char_at c 2 = '':'' \<and> char_at c 5 = '':'' then hms (two 0) (two 3) (two 6) frac
     else if length c = 4 \<and> f = None then hms (two 0) (two 2) (Some 0) frac
     else if length c = 6 then hms (two 0) (two 2) (two 4) frac
     else None)"

definition split_zone :: "string \<Rightarrow> string \<times> (char \<times> string) option" where
  "split_zone t = (let a = takeWhile (\<lambda>c. c \<notin> {CHR ''+'', CHR ''-'', CHR ''Z''}) t in
     (a, case drop (length a) t of [] \<Rightarrow> None | z # r \<Rightarrow> Some (z, r)))"

definition parse_offset :: "char \<times> string \<Rightarrow> int option" where
  "parse_offset zr = (let (z, r) = zr in
     if z = CHR ''Z'' then (if r = [] then Some 0 else None)
     else map_option (\<lambda>k. if z = CHR ''-'' then - k else k) (parse_clock r))"

definition wall_clock :: "date \<Rightarrow> int \<Rightarrow> instant" where
  "wall_clock d k = (ordinal d - 1) * day_length + k"

definition parse_iso_datetime :: "string \<Rightarrow> (instant \<times> int option) option" where
  "parse_iso_datetime s =
    (case date_part_length s of None \<Rightarrow> None
     | Some n \<Rightarrow>
       (case parse_iso_date (take n s) of None \<Rightarrow> None
        | Some d \<Rightarrow>
          (if length s \<le> n then Some (wall_clock d 0, None)
           else let (c, z) = split_zone (drop (Suc n) s) in
             (case parse_clock c of None \<Rightarrow> None
              | Some k \<Rightarrow> (case z of None \<Rightarrow> Some (wall_clock d k, None)
                  | Some zr \<Rightarrow> map_option (\<lambda>off. (wall_clock d k, Some off)) (parse_offset zr))))))"

definition instant_of :: "instant \<times> int option \<Rightarrow> instant option" where
  "instant_of r = (case r of (w, Some off) \<Rightarrow> Some (w - off) | _ \<Rightarrow> None)"

text \<open>\<open>isoformat()\<close> of a UTC time.\<close>

definition iso_utc :: "instant \<Rightarrow> string" where
  "iso_utc t = (let k = t mod day_length; f = k mod second in
     iso_date (utc_date t) @ ''T'' @ two_digits (k div hour) @ '':'' @ two_digits (k div minute mod 60) @ '':''
     @ two_digits (k div second mod 60)
     @ (if f = 0 then [] else ''.'' @ two_digits (f div 10000) @ four_digits (f mod 10000)) @ ''+00:00'')"

section \<open>Instants read back\<close>

lemma digits_opt_two_digits: "0 \<le> n \<Longrightarrow> n < 100 \<Longrightarrow> digits_opt (two_digits n) = Some n"
  using two_digits_bounds [of n] digits_opt_two [of "n div 10" "n mod 10"] by (simp add: two_digits_def)

definition clock_char :: "char \<Rightarrow> bool" where
  "clock_char c \<longleftrightarrow> c \<notin> {CHR ''+'', CHR ''-'', CHR ''Z''}"

lemma digit_code: "0 \<le> n \<Longrightarrow> n < 10 \<Longrightarrow> digit n \<in> set ''0123456789''"
proof -
  assume "0 \<le> n" "n < 10"
  then have "n = 0 \<or> n = 1 \<or> n = 2 \<or> n = 3 \<or> n = 4 \<or> n = 5 \<or> n = 6 \<or> n = 7 \<or> n = 8 \<or> n = 9" by arith
  then show ?thesis unfolding digit_def by (elim disjE; simp; code_simp)
qed

lemma digit_plain:
  assumes "0 \<le> n" "n < 10"
  shows "clock_char (digit n)" "digit n \<noteq> CHR ''.''" "digit n \<noteq> CHR '',''" "digit n \<noteq> CHR '':''" "digit n \<noteq> CHR ''-''"
    "digit n \<noteq> CHR ''+''" "digit n \<noteq> CHR ''Z''"
  using digit_code [OF assms] by (auto simp: clock_char_def)

definition clock_text :: "int \<Rightarrow> string" where
  "clock_text k = two_digits (k div hour) @ '':'' @ two_digits (k div minute mod 60) @ '':'' @ two_digits (k div second mod 60)"

definition fraction_text :: "int \<Rightarrow> string" where
  "fraction_text f = (if f = 0 then [] else ''.'' @ two_digits (f div 10000) @ four_digits (f mod 10000))"

lemma iso_utc_text:
  "iso_utc t = iso_date (utc_date t) @ ''T'' @ clock_text (t mod day_length) @ fraction_text (t mod day_length mod second) @ ''+00:00''"
  by (simp add: iso_utc_def clock_text_def fraction_text_def Let_def)

lemma clock_parts:
  assumes "0 \<le> k" "k < day_length"
  shows "0 \<le> k div hour" "k div hour < 24" "0 \<le> k div minute mod 60" "k div minute mod 60 < 60"
    "0 \<le> k div second mod 60" "k div second mod 60 < 60" "0 \<le> k mod second" "k mod second < 1000000"
    "(k div hour) * hour + (k div minute mod 60) * minute + (k div second mod 60) * second + k mod second = k"
proof -
  have m: "k div minute = k div second div 60" "k div hour = k div minute div 60"
    using zdiv_zmult2_eq [of 60 k second] zdiv_zmult2_eq [of 60 k minute]
    by (simp_all add: minute_def hour_def second_def mult.commute)
  define a b where "a = k div second" and "b = a div 60"
  have div: "k div hour = b div 60" "k div minute = b" "k div second = a" using m by (simp_all add: a_def b_def)
  have "(k div hour) * hour + (k div minute mod 60) * minute + (k div second mod 60) * second + k mod second
      = (b div 60) * 3600000000 + (b mod 60) * 60000000 + (a mod 60) * 1000000 + k mod second"
    unfolding div by (simp add: hour_def minute_def second_def)
  also have "\<dots> = 60 * (60 * (b div 60) + b mod 60) * 1000000 + (a mod 60) * 1000000 + k mod second"
    by (simp only: distrib_left distrib_right)
  also have "\<dots> = (60 * b + a mod 60) * 1000000 + k mod second" by (simp only: mult_div_mod_eq) simp
  also have "\<dots> = k" by (simp add: a_def b_def second_def)
  finally show "(k div hour) * hour + (k div minute mod 60) * minute + (k div second mod 60) * second + k mod second = k" .
  show "0 \<le> k div hour" "k div hour < 24" "0 \<le> k mod second" "k mod second < 1000000"
    using assms by (simp_all add: hour_def minute_def second_def day_length_def pos_imp_zdiv_nonneg_iff)
qed simp_all

lemma hms_clock:
  assumes "0 \<le> k" "k < day_length"
  shows "hms (Some (k div hour)) (Some (k div minute mod 60)) (Some (k div second mod 60)) (Some (k mod second)) = Some k"
  using clock_parts [OF assms] by (simp add: hms_def)

lemma clock_text_shape:
  assumes "0 \<le> k" "k < day_length"
  shows "length (clock_text k) = 8" "char_at (clock_text k) 2 = '':''" "char_at (clock_text k) 5 = '':''"
    "digits_opt (take 2 (clock_text k)) = Some (k div hour)"
    "digits_opt (take 2 (drop 3 (clock_text k))) = Some (k div minute mod 60)"
    "digits_opt (take 2 (drop 6 (clock_text k))) = Some (k div second mod 60)"
    "list_all (\<lambda>c. clock_char c \<and> c \<noteq> CHR ''.'' \<and> c \<noteq> CHR '','') (clock_text k)"
proof -
  note b = clock_parts [OF assms]
  have d: "digits_opt (two_digits (k div hour)) = Some (k div hour)"
    "digits_opt (two_digits (k div minute mod 60)) = Some (k div minute mod 60)"
    "digits_opt (two_digits (k div second mod 60)) = Some (k div second mod 60)"
    using b by (simp_all add: digits_opt_two_digits)
  have p: "list_all (\<lambda>c. clock_char c \<and> c \<noteq> CHR ''.'' \<and> c \<noteq> CHR '','') (two_digits n)" if "0 \<le> n" "n < 100" for n
    using two_digits_bounds [OF that] digit_plain by (simp add: two_digits_def)
  show "length (clock_text k) = 8" "char_at (clock_text k) 2 = '':''" "char_at (clock_text k) 5 = '':''"
    by (simp_all add: clock_text_def two_digits_def char_at_def)
  show "digits_opt (take 2 (clock_text k)) = Some (k div hour)"
    "digits_opt (take 2 (drop 3 (clock_text k))) = Some (k div minute mod 60)"
    "digits_opt (take 2 (drop 6 (clock_text k))) = Some (k div second mod 60)"
    using d by (simp_all add: clock_text_def two_digits_def)
  show "list_all (\<lambda>c. clock_char c \<and> c \<noteq> CHR ''.'' \<and> c \<noteq> CHR '','') (clock_text k)"
    using p b by (simp add: clock_text_def) (simp add: clock_char_def)
qed

lemma two_digits_plain: "0 \<le> n \<Longrightarrow> n < 100 \<Longrightarrow> list_all is_digit (two_digits n) \<and> list_all clock_char (two_digits n)"
  using two_digits_bounds [of n] digit_plain by (simp add: two_digits_def)

lemma digits_value_two: "0 \<le> n \<Longrightarrow> n < 100 \<Longrightarrow> digits_value (xs @ two_digits n) = 100 * digits_value xs + n"
  using two_digits_bounds [of n] by (simp add: digits_value_def two_digits_def)

lemma micros_six: "length d = 6 \<Longrightarrow> list_all is_digit d \<Longrightarrow> fraction_micros d = Some (digits_value d)"
  by (auto simp: fraction_micros_def)

lemma length_two_digits: "length (two_digits n) = 2"
  by (simp add: two_digits_def)

lemma three_pairs:
  assumes a: "0 \<le> a" "a < 100" and b: "0 \<le> b" "b < 100" and c: "0 \<le> c" "c < 100"
  shows "fraction_micros (two_digits a @ two_digits b @ two_digits c) = Some (10000 * a + 100 * b + c)"
    and "list_all clock_char (two_digits a @ two_digits b @ two_digits c)"
proof -
  let ?d = "(two_digits a @ two_digits b) @ two_digits c"
  have "digits_value ([] @ two_digits a) = a" unfolding digits_value_two [OF a] by (simp add: digits_value_def)
  then have "digits_value ?d = 10000 * a + 100 * b + c"
    unfolding digits_value_two [OF c] digits_value_two [OF b] by simp
  moreover have "fraction_micros ?d = Some (digits_value ?d)"
    using two_digits_plain [OF a] two_digits_plain [OF b] two_digits_plain [OF c] by (intro micros_six) (simp_all add: length_two_digits)
  ultimately show "fraction_micros (two_digits a @ two_digits b @ two_digits c) = Some (10000 * a + 100 * b + c)" by simp
  show "list_all clock_char (two_digits a @ two_digits b @ two_digits c)"
    using two_digits_plain [OF a] two_digits_plain [OF b] two_digits_plain [OF c] by simp
qed

lemma fraction_text_value:
  assumes "0 \<le> f" "f < 1000000"
  shows "fraction_text f = [] \<and> f = 0 \<or> (\<exists>d. fraction_text f = CHR ''.'' # d \<and> fraction_micros d = Some f
    \<and> list_all clock_char d)"
proof (cases "f = 0")
  case False
  let ?g = "f mod 10000"
  have b: "0 \<le> f div 10000" "f div 10000 < 100" "0 \<le> ?g" "?g < 10000" using assms by auto
  have c: "0 \<le> ?g div 100" "?g div 100 < 100" "0 \<le> ?g mod 100" "?g mod 100 < 100" using b by auto
  have four: "four_digits ?g = two_digits (?g div 100) @ two_digits (?g mod 100)" using b(3,4) by (rule four_digits_split)
  have "10000 * (f div 10000) + 100 * (?g div 100) + ?g mod 100 = f"
    using mult_div_mod_eq [of 100 ?g] mult_div_mod_eq [of 10000 f] by linarith
  with three_pairs [OF b(1,2) c(1,2) c(3,4)] have "fraction_micros (two_digits (f div 10000) @ four_digits ?g) = Some f
      \<and> list_all clock_char (two_digits (f div 10000) @ four_digits ?g)"
    unfolding four by metis
  then show ?thesis using False by (simp add: fraction_text_def del: append_assoc)
qed (simp add: fraction_text_def)

lemma split_fraction_plain:
  assumes "\<forall>c \<in> set s. c \<noteq> CHR ''.'' \<and> c \<noteq> CHR '',''"
  shows "split_fraction s = (s, None)" "split_fraction (s @ CHR ''.'' # d) = (s, Some d)"
proof -
  have t: "takeWhile (\<lambda>c. c \<noteq> CHR ''.'' \<and> c \<noteq> CHR '','') (s @ r) = s @ takeWhile (\<lambda>c. c \<noteq> CHR ''.'' \<and> c \<noteq> CHR '','') r" for r
    using assms by (intro takeWhile_append2) blast
  from t [of "[]"] show "split_fraction s = (s, None)" unfolding split_fraction_def Let_def by (simp only: append_Nil2 takeWhile.simps) simp
  from t [of "CHR ''.'' # d"] show "split_fraction (s @ CHR ''.'' # d) = (s, Some d)" by (simp add: split_fraction_def Let_def)
qed

lemma parse_clock_text:
  assumes "0 \<le> k" "k < day_length"
  shows "parse_clock (clock_text k @ fraction_text (k mod second)) = Some k"
proof -
  note shape = clock_text_shape [OF assms]
  have all: "\<forall>c \<in> set (clock_text k). c \<noteq> CHR ''.'' \<and> c \<noteq> CHR '',''" using shape(7) by (simp add: list_all_iff)
  note sf = split_fraction_plain [OF all]
  from fraction_text_value [OF clock_parts(7,8) [OF assms]] show ?thesis
  proof (elim disjE exE conjE)
    assume "fraction_text (k mod second) = []" "k mod second = 0"
    with shape hms_clock [OF assms] sf(1) show ?thesis by (simp add: parse_clock_def)
  next
    fix d assume "fraction_text (k mod second) = CHR ''.'' # d" "fraction_micros d = Some (k mod second)"
    with shape hms_clock [OF assms] sf(2) show ?thesis by (simp add: parse_clock_def)
  qed
qed

lemma parse_iso_utc:
  assumes "valid_date (utc_date t)"
  shows "parse_iso_datetime (iso_utc t) = Some (t, Some 0)"
proof -
  define k where "k = t mod day_length"
  have k: "0 \<le> k" "k < day_length" by (simp_all add: k_def day_length_def hour_def minute_def second_def)
  note bd = valid_date_bounds [OF assms]
  let ?c = "clock_text k @ fraction_text (k mod second)"
  have written: "iso_utc t = iso_date (utc_date t) @ ''T'' @ ?c @ ''+00:00''" by (simp add: iso_utc_text k_def)
  have date: "length (iso_date (utc_date t)) = 10" "char_at (iso_date (utc_date t) @ s) 4 = ''-''"
    "char_at (iso_date (utc_date t) @ s) 5 = [digit (month (utc_date t) div 10)]" for s
    by (simp_all add: iso_date_def four_digits_def two_digits_def char_at_def)
  have m: "digit (month (utc_date t) div 10) \<noteq> CHR ''W''" using bd two_digits_bounds [OF bd(3,4)] by (intro digit_not_letter) auto
  have "date_part_length (iso_utc t) = Some 10"
    using date m unfolding date_part_length_def written by simp
  moreover have "take 10 (iso_utc t) = iso_date (utc_date t)" "drop 11 (iso_utc t) = ?c @ ''+00:00''" "\<not> length (iso_utc t) \<le> 10"
    using date(1) by (simp_all add: written)
  moreover have "split_zone (?c @ ''+00:00'') = (?c, Some (CHR ''+'', ''00:00''))"
  proof -
    have "list_all clock_char (clock_text k)"
      using clock_text_shape(7) [OF k] by (rule list.pred_mono_strong) simp
    moreover have "clock_char (CHR ''.'')" by (simp add: clock_char_def)
    then have "list_all clock_char (fraction_text (k mod second))"
      using fraction_text_value [OF clock_parts(7,8) [OF k]] by (elim disjE exE conjE) simp_all
    ultimately have "\<forall>c \<in> set ?c. clock_char c" by (simp add: list_all_iff ball_Un)
    then have "takeWhile (\<lambda>c. c \<notin> {CHR ''+'', CHR ''-'', CHR ''Z''}) (?c @ ''+00:00'') = ?c"
      by (subst takeWhile_append2) (simp_all add: clock_char_def del: set_append)
    then show ?thesis unfolding split_zone_def Let_def by simp
  qed
  moreover have "parse_offset (CHR ''+'', ''00:00'') = Some 0" by code_simp
  moreover have "wall_clock (utc_date t) k = t" by (simp add: wall_clock_def utc_date_def k_def)
  moreover have "parse_iso_datetime s = Some (wall_clock d k', Some off)"
    if "date_part_length s = Some 10" "take 10 s = iso_date d" "\<not> length s \<le> 10" "valid_date d" "drop 11 s = r"
      "split_zone r = (c, Some z)" "parse_clock c = Some k'" "parse_offset z = Some off" for s d r c z k' off
    using that parse_iso_date_iso [of d] by (simp add: parse_iso_datetime_def)
  ultimately show ?thesis
    using assms parse_clock_text [OF k] by metis
qed

end
