(* ===== verification/Orders.thy ===== *)
theory Orders
  imports PyValue
begin

text \<open>
  Broker order reports and the execution summary of
  \<open>application/execution_service.py\<close>: the status sets, \<open>check_order_submitted\<close>,
  \<open>_record_order_outcome\<close> and the dictionary \<open>execution_summary\<close> that
  \<open>execute_rebalance\<close> builds (here the record \<open>exec_summary\<close>; the lists
  \<open>orders_*\<close> and \<open>option_orders_*\<close> are two values of the record \<open>buckets\<close>).
  A broker report (a class of the broker toolkit) is a record of the attributes the code
  reads; the translator and \<open>format_quantity\<close> are parameters.
\<close>

named_theorems order_simps "effect of recording an order outcome"

type_synonym row = "(string \<times> pyval) list"

text \<open>\<open>translator(key, **kwargs)\<close>.\<close>

type_synonym translator = "string \<Rightarrow> row \<Rightarrow> string"

record exec_report =
  broker_order_id :: pyval
  rep_status :: pyval
  rep_symbol :: pyval
  rep_side :: pyval
  rep_quantity :: pyval
  rep_filled_quantity :: pyval
  rep_average_fill_price :: pyval

text \<open>
  An order intent (a class of the broker toolkit): the keyword arguments the code passes,
  absent ones left to the class.
\<close>

record order_intent =
  oi_symbol :: string
  oi_side :: string
  oi_quantity :: pyfloat
  oi_order_type :: "string option"
  oi_limit_price :: "pyfloat option"
  oi_time_in_force :: "string option"
  oi_account_id :: "string option"
  oi_metadata :: "row option"

record buckets =
  submitted :: "row list"
  pending :: "row list"
  filled :: "row list"
  partially_filled :: "row list"
  skipped :: "row list"

definition empty_buckets :: buckets where
  "empty_buckets = \<lparr>submitted = [], pending = [], filled = [], partially_filled = [], skipped = []\<rparr>"

text \<open>The entries of \<open>execution_summary\<close> that are fixed when it is created.\<close>

record summary_header =
  sh_mode :: string
  sh_strategy_profile :: "string option"
  sh_account_group :: "string option"
  sh_account_ids :: "string list"
  sh_order_account_id :: "string option"
  sh_service_name :: "string option"
  sh_trade_date :: "string option"
  sh_snapshot_as_of :: "string option"
  sh_safe_haven_symbol :: "string option"
  sh_market_currency :: string
  sh_target_stock_weight :: pyval
  sh_realized_stock_weight :: pyval
  sh_target_safe_haven_weight :: pyval
  sh_option_order_intent_count :: nat
  sh_option_order_underliers :: "string list"
  sh_safe_haven_cash_substitute_threshold_usd :: pyfloat

text \<open>The entries that change; keys absent from the initial dictionary are options.\<close>

record exec_summary =
  header :: summary_header
  orders :: buckets
  option_orders :: buckets
  skipped_reasons :: "string list"
  execution_status :: string
  no_op_reason :: "string option"
  submission_halted :: "bool option"
  outcome_unknown :: "bool option"
  target_vs_current :: "row list"
  realized_safe_haven_weight :: pyval
  cash_reserve_dollars :: pyfloat
  safe_haven_cash_substituted_symbols :: "string list"
  small_account_whole_share_substituted_symbols :: "string list"
  small_account_safe_haven_cash_substituted_symbols :: "string list"
  small_account_whole_share_cash_notes :: "pyval list"
  small_account_allocation_drift_notes :: "pyval list"
  small_account_buy_blocked :: bool
  small_account_buy_block_reason :: "string option"
  account_new_risk_buy_blocked :: bool
  account_new_risk_block_reason :: "string option"
  account_new_risk_reason_codes :: "string list"
  residual_cash_estimate :: pyfloat
  projected_sell_release_value :: pyfloat
  current_stock_weight :: pyfloat
  current_safe_haven_weight :: pyfloat
  price_source_mode :: string
  price_fallback_symbols :: "string list"
  price_fallback_source :: "string option"
  quote_rows :: "row list option"
  lock_path :: "string option"
  paper_execution_admission :: pyval
  cash_only_deleverage_mode :: "bool option"
  persistent_breaker_status :: "string option"
  pending_order_cash_risk_unknown :: "bool option"
  settled_cash_ledger_status :: "string option"
  pending_sell_release_symbols :: "string list option"

section \<open>Statuses\<close>

definition filled_statuses :: "string list" where
  "filled_statuses = [''Filled'']"

definition partially_filled_statuses :: "string list" where
  "partially_filled_statuses = [''PartiallyFilled'', ''Partial'']"

definition pending_statuses :: "string list" where
  "pending_statuses = [''PendingSubmit'', ''ApiPending'', ''ApiPendingSubmit'', ''Submitted'', ''PreSubmitted'']"

definition rejected_or_cancelled_statuses :: "string list" where
  "rejected_or_cancelled_statuses = [''Rejected'', ''rejected'', ''Cancelled'', ''ApiCancelled'']"

definition known_statuses :: "string list" where
  "known_statuses = filled_statuses @ partially_filled_statuses @ pending_statuses @ rejected_or_cancelled_statuses"

text \<open>The prefixes of the two status messages, in UTF-8.\<close>

definition hourglass :: string where "hourglass = List.map char_of [226, 143, 179, 32 :: nat]"
definition cross_mark :: string where "cross_mark = List.map char_of [226, 157, 140, 32 :: nat]"

text \<open>
  \<open>check_order_submitted\<close>: whether the report counts as accepted, and the message.  A
  price that is not a number raises.
\<close>

definition check_order_submitted ::
    "(pyval \<Rightarrow> string) \<Rightarrow> translator \<Rightarrow> exec_report \<Rightarrow> (bool \<times> string) res" where
  "check_order_submitted format_quantity tr r =
    (let price = res_bind (v_float (v_or (rep_average_fill_price r) (VFloat (Fin 0))))
                   (\<lambda>p. Inr (VStr (fmt_fixed False 2 p))) in
     if v_eq (rep_status r) (VStr ''Filled'') then
       res_bind price (\<lambda>p. Inr (True, tr ''order_filled''
         [(''symbol'', rep_symbol r), (''side'', rep_side r),
          (''qty'', VStr (format_quantity (v_or (rep_filled_quantity r) (rep_quantity r)))),
          (''price'', p), (''order_id'', broker_order_id r)]))
     else if \<exists>s \<in> set partially_filled_statuses. v_eq (rep_status r) (VStr s) then
       res_bind price (\<lambda>p. Inr (True, tr ''order_partial''
         [(''symbol'', rep_symbol r), (''side'', rep_side r),
          (''executed'', VStr (format_quantity (v_or (rep_filled_quantity r) (VInt 0)))),
          (''qty'', VStr (format_quantity (v_or (rep_quantity r) (VInt 0)))),
          (''price'', p), (''order_id'', broker_order_id r)]))
     else if \<exists>s \<in> set pending_statuses. v_eq (rep_status r) (VStr s) then
       Inr (True, hourglass @ tr ''submitted'' [(''order_id'', broker_order_id r), (''status'', rep_status r)])
     else Inr (False, cross_mark @ tr ''failed'' [(''reason'', rep_status r)]))"

section \<open>Recording an outcome\<close>

datatype order_outcome = OutUnknown | OutFilled | OutPartiallyFilled | OutPending | OutFailed

definition upd_buckets :: "bool \<Rightarrow> (buckets \<Rightarrow> buckets) \<Rightarrow> exec_summary \<Rightarrow> exec_summary" where
  "upd_buckets option_order f s =
     (if option_order then s\<lparr>option_orders := f (option_orders s)\<rparr> else s\<lparr>orders := f (orders s)\<rparr>)"

definition get_buckets :: "bool \<Rightarrow> exec_summary \<Rightarrow> buckets" where
  "get_buckets option_order s = (if option_order then option_orders s else orders s)"

definition add_reason :: "string \<Rightarrow> exec_summary \<Rightarrow> exec_summary" where
  "add_reason r s = s\<lparr>skipped_reasons := skipped_reasons s @ [r]\<rparr>"

definition or_unknown :: "string \<Rightarrow> string" where
  "or_unknown t = (if t = [] then ''unknown'' else t)"

definition outcome_is_unknown :: "string \<Rightarrow> row \<Rightarrow> bool" where
  "outcome_is_unknown st payload \<longleftrightarrow>
     st \<notin> set known_statuses
     \<or> (st \<notin> set rejected_or_cancelled_statuses \<and> \<not> truthy (vd_get payload ''broker_order_id''))"

definition record_order_outcome ::
    "bool \<Rightarrow> pyval \<Rightarrow> row \<Rightarrow> exec_summary \<Rightarrow> order_outcome \<times> exec_summary" where
  "record_order_outcome option_order status payload s =
    (let st = v_text status; sym = v_str (vd_get payload ''symbol'') in
     if outcome_is_unknown st payload then
       (OutUnknown,
        add_reason (''broker_order_outcome_unknown:'' @ sym @ '':'' @ or_unknown st)
         ((upd_buckets option_order (\<lambda>b. b\<lparr>pending := pending b @ [payload]\<rparr>) s)
            \<lparr>submission_halted := Some True, outcome_unknown := Some True,
             execution_status := ''pending_reconciliation'',
             no_op_reason := Some ''broker_order_outcome_unknown''\<rparr>))
     else if st \<in> set filled_statuses then
       (OutFilled, upd_buckets option_order (\<lambda>b. b\<lparr>filled := filled b @ [payload]\<rparr>) s)
     else if st \<in> set partially_filled_statuses then
       (OutPartiallyFilled,
        upd_buckets option_order (\<lambda>b. b\<lparr>partially_filled := partially_filled b @ [payload]\<rparr>) s)
     else if st \<in> set pending_statuses then
       (OutPending, upd_buckets option_order (\<lambda>b. b\<lparr>pending := pending b @ [payload]\<rparr>) s)
     else
       (OutFailed,
        add_reason ((if option_order then ''option_submit_failed'' else ''submit_failed'')
                      @ '':'' @ sym @ '':'' @ or_unknown st)
         (upd_buckets option_order
           (\<lambda>b. b\<lparr>skipped := skipped b @
              [dict_set payload ''reason'' (VStr (if st = [] then ''submit_failed'' else st))]\<rparr>) s)))"

subsection \<open>Facts\<close>

lemma get_upd_buckets [simp, order_simps]:
  "get_buckets opt (upd_buckets opt f s) = f (get_buckets opt s)"
  "get_buckets (\<not> opt) (upd_buckets opt f s) = get_buckets (\<not> opt) s"
  by (auto simp: get_buckets_def upd_buckets_def)

lemma get_buckets_frame [simp, order_simps]:
  "get_buckets opt (add_reason r s) = get_buckets opt s"
  "get_buckets opt (s\<lparr>submission_halted := a\<rparr>) = get_buckets opt s"
  "get_buckets opt (s\<lparr>outcome_unknown := a\<rparr>) = get_buckets opt s"
  "get_buckets opt (s\<lparr>execution_status := x\<rparr>) = get_buckets opt s"
  "get_buckets opt (s\<lparr>no_op_reason := y\<rparr>) = get_buckets opt s"
  by (simp_all add: get_buckets_def add_reason_def)

lemma status_sets_disjoint:
  "set filled_statuses \<inter> set rejected_or_cancelled_statuses = {}"
  "set partially_filled_statuses \<inter> set rejected_or_cancelled_statuses = {}"
  "set pending_statuses \<inter> set rejected_or_cancelled_statuses = {}"
  "set filled_statuses \<inter> set partially_filled_statuses = {}"
  "set filled_statuses \<inter> set pending_statuses = {}"
  "set partially_filled_statuses \<inter> set pending_statuses = {}"
  by (simp_all add: filled_statuses_def partially_filled_statuses_def pending_statuses_def
      rejected_or_cancelled_statuses_def)

lemmas status_set_defs = filled_statuses_def partially_filled_statuses_def pending_statuses_def
  rejected_or_cancelled_statuses_def known_statuses_def

text \<open>
  Recording an order outcome puts exactly one row into exactly one list of the chosen
  family (stock or option orders): an unknown or pending outcome retains the payload in the
  pending list, a fill or partial fill in its list, and a rejection is filed as skipped with
  the broker status as its reason; the other family of lists is untouched.
\<close>

theorem record_order_outcome_one_bucket:
  "let (out, s') = record_order_outcome opt status payload s; b = get_buckets opt s in
     get_buckets opt s' =
       (case out of
          OutUnknown \<Rightarrow> b\<lparr>pending := pending b @ [payload]\<rparr>
        | OutPending \<Rightarrow> b\<lparr>pending := pending b @ [payload]\<rparr>
        | OutFilled \<Rightarrow> b\<lparr>filled := filled b @ [payload]\<rparr>
        | OutPartiallyFilled \<Rightarrow> b\<lparr>partially_filled := partially_filled b @ [payload]\<rparr>
        | OutFailed \<Rightarrow> b\<lparr>skipped := skipped b @
            [dict_set payload ''reason'' (VStr (v_text status))]\<rparr>)
     \<and> get_buckets (\<not> opt) s' = get_buckets (\<not> opt) s"
proof -
  have "v_text status \<noteq> []" if "\<not> outcome_is_unknown (v_text status) payload"
    using that by (auto simp: outcome_is_unknown_def status_set_defs)
  then show ?thesis by (auto simp: record_order_outcome_def Let_def)
qed

text \<open>
  Only a report whose status is \<open>Filled\<close>, \<open>PartiallyFilled\<close> or \<open>Partial\<close> and that
  carries a broker order id counts as an execution; only the four rejection and cancellation
  statuses count as failed; everything else that is not a known pending status with an order
  id is of unknown outcome, and exactly then the summary is halted for reconciliation.
\<close>

theorem record_order_outcome_classification:
  fixes status payload
  defines "st \<equiv> v_text status" and "has_id \<equiv> truthy (vd_get payload ''broker_order_id'')"
  shows "(fst (record_order_outcome opt status payload s) \<in> {OutFilled, OutPartiallyFilled}
            \<longleftrightarrow> st \<in> {''Filled'', ''PartiallyFilled'', ''Partial''} \<and> has_id)
       \<and> (fst (record_order_outcome opt status payload s) = OutFailed
            \<longleftrightarrow> st \<in> {''Rejected'', ''rejected'', ''Cancelled'', ''ApiCancelled''})
       \<and> (fst (record_order_outcome opt status payload s) = OutPending
            \<longleftrightarrow> st \<in> set pending_statuses \<and> has_id)
       \<and> (submission_halted (snd (record_order_outcome opt status payload s))
            = (if fst (record_order_outcome opt status payload s) = OutUnknown then Some True
               else submission_halted s))"
  unfolding st_def has_id_def
  by (auto simp: record_order_outcome_def Let_def outcome_is_unknown_def status_set_defs
      add_reason_def upd_buckets_def)

end
