(* ===== verification/Accounts.thy ===== *)
theory Accounts
  imports PyValue
begin

text \<open>
  Account selection and cash observation of \<open>application/execution_service.py\<close>:
  \<open>_normalize_account_ids\<close>, \<open>_matches_account\<close>, \<open>_resolve_order_account_id\<close>,
  \<open>_coerce_float\<close>, \<open>_cash_value_for_currency\<close>, \<open>_available_funds_for_currency\<close> and
  \<open>get_available_buying_power\<close>.  A row of \<open>ib.accountValues()\<close> is a record of the
  attributes the code reads; an absent attribute is the default the code asks for.
\<close>

section \<open>Account ids\<close>

definition distinct_texts :: "pyval list \<Rightarrow> string list" where
  "distinct_texts cs = fromkeys (filter (\<lambda>t. t \<noteq> []) (List.map v_text cs))"

definition normalize_account_ids :: "pyval \<Rightarrow> string list res" where
  "normalize_account_ids account_ids =
    (case account_ids of
       VNone \<Rightarrow> Inr []
     | VStr s \<Rightarrow> Inr (distinct_texts [VStr s])
     | _ \<Rightarrow> res_bind (v_iter account_ids) (\<lambda>cs. Inr (distinct_texts cs)))"

definition matches_account :: "string option \<Rightarrow> string list \<Rightarrow> bool" where
  "matches_account account_id selected =
    (selected = [] \<or> strip (case account_id of None \<Rightarrow> [] | Some a \<Rightarrow> a) \<in> set selected)"

definition resolve_order_account_id :: "pyval \<Rightarrow> string option res" where
  "resolve_order_account_id account_ids =
    res_bind (normalize_account_ids account_ids) (\<lambda>ids.
      if 1 < length ids then
        Inl (ValueError ''IBKR live order routing requires a single account_id per runtime service'')
      else Inr (case ids of [] \<Rightarrow> None | a # _ \<Rightarrow> Some a))"

definition ids_value :: "string list \<Rightarrow> pyval" where
  "ids_value ids = VTuple (List.map VStr ids)"

lemma normalize_account_ids_form:
  assumes "normalize_account_ids v = Inr ids"
  shows "\<exists>cs. ids = distinct_texts cs"
proof -
  have "distinct_texts [] = []" by (simp add: distinct_texts_def)
  with assms show ?thesis
    by (cases v) (auto simp: normalize_account_ids_def res_bind_Inr_iff, metis+)
qed

lemma normalize_account_ids_props:
  assumes "normalize_account_ids v = Inr ids"
  shows "distinct ids" and "\<forall>a \<in> set ids. a \<noteq> [] \<and> strip a = a"
  using normalize_account_ids_form [OF assms] by (auto simp: distinct_texts_def v_text_def)

text \<open>
  Account selections are normal forms: normalising an already normalised selection
  returns it unchanged, so the repeated normalisation at every layer of the execution
  service (live authority, routing, cash, pending orders, fills) selects the same accounts.
\<close>

theorem normalize_account_ids_idempotent:
  assumes "normalize_account_ids v = Inr ids"
  shows "normalize_account_ids (ids_value ids) = Inr ids"
proof -
  note p = normalize_account_ids_props [OF assms]
  then have "List.map (v_text \<circ> VStr) ids = ids" by (auto intro: map_idI)
  moreover have "filter (\<lambda>t. t \<noteq> []) ids = ids" using p(2) by (simp add: filter_id_conv)
  ultimately show ?thesis
    using p(1) by (simp add: normalize_account_ids_def ids_value_def distinct_texts_def fromkeys_distinct)
qed

theorem normalize_account_ids_idempotent_witness:
  "normalize_account_ids (ids_value [''U1'', ''U2'']) = Inr [''U1'', ''U2'']"
proof (rule normalize_account_ids_idempotent)
  show "normalize_account_ids (VList [VStr '' U1 '', VStr ''U2'', VNone, VStr ''U1'']) = Inr [''U1'', ''U2'']"
    by code_simp
qed

section \<open>Cash rows\<close>

record acct_row =
  ar_account :: pyval
  ar_currency :: pyval
  ar_tag :: pyval
  ar_value :: pyval

definition coerce_float :: "pyval \<Rightarrow> pyfloat option res" where
  "coerce_float v = (case v_float v of Inr x \<Rightarrow> Inr (Some x)
     | Inl e \<Rightarrow> if is_type_or_value_error e then Inr None else Inl e)"

definition row_account :: "acct_row \<Rightarrow> string option" where
  "row_account r = (let t = v_text (ar_account r) in if t = [] then None else Some t)"

definition row_currency :: "acct_row \<Rightarrow> string" where
  "row_currency r = upper (v_text (ar_currency r))"

definition row_tag :: "acct_row \<Rightarrow> string" where
  "row_tag r = v_text (ar_tag r)"

definition market_currency_text :: "string \<Rightarrow> string" where
  "market_currency_text c = symbol_text (if c = [] then ''USD'' else c)"

definition cash_tag_priority :: "string list" where
  "cash_tag_priority = [''$LEDGER-CashBalance'', ''$LEDGER-TotalCashBalance'', ''CashBalance'',
     ''TotalCashBalance'', ''SettledCash'']"

type_synonym cash_table = "((string option \<times> string), (string, pyfloat) dict) dict"

text \<open>The first loop: the last usable value of every (account, currency, tag).\<close>

definition cash_row_step :: "string list \<Rightarrow> acct_row \<Rightarrow> cash_table \<Rightarrow> cash_table res" where
  "cash_row_step sel r t =
    (if \<not> matches_account (row_account r) sel then Inr t
     else if row_currency r = [] then Inr t
     else res_bind (coerce_float (ar_value r)) (\<lambda>v. case v of
         None \<Rightarrow> Inr t
       | Some x \<Rightarrow>
           let k = (row_account r, row_currency r) in
           Inr (dict_set t k (dict_set (dict_get_default t k []) (row_tag r) x))))"

fun first_tag :: "string list \<Rightarrow> (string, pyfloat) dict \<Rightarrow> pyfloat option" where
  "first_tag [] d = None"
| "first_tag (t # ts) d = (case dict_get d t of Some x \<Rightarrow> Some x | None \<Rightarrow> first_tag ts d)"

text \<open>The second loop: per account, the first tag present in priority order is added.\<close>

fun total_cash :: "string \<Rightarrow> cash_table \<Rightarrow> pyfloat option \<Rightarrow> pyfloat option" where
  "total_cash cur [] acc = acc"
| "total_cash cur ((k, tags) # t) acc =
    (if snd k \<noteq> cur then total_cash cur t acc
     else case first_tag cash_tag_priority tags of
         None \<Rightarrow> total_cash cur t acc
       | Some x \<Rightarrow> total_cash cur t (Some (fadd (case acc of None \<Rightarrow> Fin 0 | Some a \<Rightarrow> a) x)))"

definition cash_value_for_currency ::
    "acct_row list \<Rightarrow> string \<Rightarrow> pyval \<Rightarrow> pyfloat option res" where
  "cash_value_for_currency rows currency account_ids =
    res_bind (normalize_account_ids account_ids) (\<lambda>sel.
    res_bind (res_fold (cash_row_step sel) rows []) (\<lambda>t.
      Inr (total_cash (market_currency_text currency) t None)))"

definition available_funds_step ::
    "string list \<Rightarrow> string \<Rightarrow> acct_row \<Rightarrow> pyfloat option \<Rightarrow> pyfloat option res" where
  "available_funds_step sel cur r acc =
    (if \<not> matches_account (row_account r) sel then Inr acc
     else if row_currency r \<noteq> cur then Inr acc
     else if row_tag r = ''AvailableFunds'' then
       res_bind (coerce_float (ar_value r)) (\<lambda>v. case v of
         None \<Rightarrow> Inr acc
       | Some x \<Rightarrow> Inr (Some (fadd (case acc of None \<Rightarrow> Fin 0 | Some a \<Rightarrow> a) x)))
     else Inr acc)"

definition available_funds_for_currency ::
    "acct_row list \<Rightarrow> string \<Rightarrow> pyval \<Rightarrow> pyfloat option res" where
  "available_funds_for_currency rows currency account_ids =
    res_bind (normalize_account_ids account_ids) (\<lambda>sel.
      res_fold (available_funds_step sel (market_currency_text currency)) rows None)"

text \<open>\<open>get_available_buying_power\<close>, given what \<open>ib.accountValues()\<close> returned.\<close>

definition get_available_buying_power ::
    "acct_row list \<Rightarrow> pyval \<Rightarrow> pyval \<Rightarrow> string \<Rightarrow> bool \<Rightarrow> pyfloat res" where
  "get_available_buying_power rows fallback account_ids currency cash_only =
    (let fall = res_bind (v_float (v_or fallback (VFloat (Fin 0)))) (\<lambda>x. Inr (py_max (Fin 0) x)) in
     res_bind (normalize_account_ids account_ids) (\<lambda>sel.
     res_bind (if cash_only then cash_value_for_currency rows currency (ids_value sel)
               else available_funds_for_currency rows currency (ids_value sel)) (\<lambda>v.
       case v of Some x \<Rightarrow> Inr (py_max (Fin 0) x) | None \<Rightarrow> fall)))"

lemma get_available_buying_power_nonneg:
  "get_available_buying_power rows fb ids cur co = Inr x \<Longrightarrow> fle (Fin 0) x"
  by (auto simp: get_available_buying_power_def res_bind_Inr_iff Let_def split: option.splits if_splits)

subsection \<open>Which rows count\<close>

lemma first_tag_Some:
  "first_tag ts d = Some x \<Longrightarrow> \<exists>t \<in> set ts. dict_get d t = Some x"
  by (induction ts) (auto split: option.splits)

lemma first_tag_None_iff: "first_tag ts d = None \<longleftrightarrow> (\<forall>t \<in> set ts. dict_get d t = None)"
  by (induction ts) (auto split: option.splits)

text \<open>Every key of the table comes from a row of a selected account in that currency.\<close>

lemma cash_table_keys:
  assumes "res_fold (cash_row_step sel) rows [] = Inr t"
  shows "set (dict_keys t) \<subseteq>
    {(row_account r, row_currency r) | r. r \<in> set rows \<and> matches_account (row_account r) sel}"
  using assms
proof (induction rule: res_fold_rule)
  case init
  then show ?case by (simp add: dict_keys_def)
next
  case (step ys r zs t t')
  from step.hyps(2) consider "t' = t"
    | "matches_account (row_account r) sel"
      "set (dict_keys t') = insert (row_account r, row_currency r) (set (dict_keys t))"
    by (auto simp: cash_row_step_def res_bind_Inr_iff dict_keys_set Let_def
        split: if_splits option.splits)
  then show ?case using step.IH by cases auto
qed

text \<open>
  A reported cash balance is evidence from the broker: if \<open>_cash_value_for_currency\<close>
  returns a value, at least one account row of a selected account in the market currency was
  present; without such a row the result is \<open>None\<close> (unknown) and never zero.
\<close>

theorem cash_value_needs_matching_row:
  assumes "cash_value_for_currency rows currency ids = Inr (Some x)"
  shows "\<exists>sel. normalize_account_ids ids = Inr sel \<and>
     (\<exists>r \<in> set rows. matches_account (row_account r) sel
        \<and> row_currency r = market_currency_text currency)"
proof -
  obtain sel t where sel: "normalize_account_ids ids = Inr sel"
    and t: "res_fold (cash_row_step sel) rows [] = Inr t"
    and x: "total_cash (market_currency_text currency) t None = Some x"
    using assms by (auto simp: cash_value_for_currency_def res_bind_Inr_iff)
  have "\<exists>k \<in> set (dict_keys t'). snd k = cur"
    if "total_cash cur t' acc = Some x" "acc = None" for cur t' acc x
    using that by (induction cur t' acc rule: total_cash.induct)
      (auto simp: dict_keys_def split: if_splits option.splits)
  from this [OF x refl] cash_table_keys [OF t] sel show ?thesis
    by (fastforce simp: dict_keys_def)
qed

definition sample_rows :: "acct_row list" where
  "sample_rows =
    [\<lparr>ar_account = VStr ''U1'', ar_currency = VStr ''USD'', ar_tag = VStr ''SettledCash'', ar_value = VStr ''900.0''\<rparr>,
     \<lparr>ar_account = VStr ''U1'', ar_currency = VStr ''usd'', ar_tag = VStr ''CashBalance'', ar_value = VStr ''1000''\<rparr>,
     \<lparr>ar_account = VStr ''U2'', ar_currency = VStr ''USD'', ar_tag = VStr ''CashBalance'', ar_value = VStr ''5''\<rparr>]"

theorem cash_value_needs_matching_row_witness:
  "cash_value_for_currency sample_rows ''USD'' (VStr ''U1'') = Inr (Some (Fin 1000))
   \<and> (\<exists>sel. normalize_account_ids (VStr ''U1'') = Inr sel \<and>
     (\<exists>r \<in> set sample_rows. matches_account (row_account r) sel
        \<and> row_currency r = market_currency_text ''USD''))"
proof -
  have h: "cash_value_for_currency sample_rows ''USD'' (VStr ''U1'') = Inr (Some (Fin 1000))"
    by code_simp
  show ?thesis using h cash_value_needs_matching_row [OF h] by blast
qed

end
