(* ===== verification/SettledCash.thy ===== *)
theory SettledCash
  imports Accounts
begin

text \<open>
  Settlement evidence in \<open>application/execution_service.py\<close>: the bounded refresh
  \<open>_settled_cash_for_currency\<close> and the guard \<open>_SettledCashDeadlineIB\<close> that wraps the broker
  connection while one buy order is prepared and written.  The broker connection is a
  parameter (\<open>account_api\<close>): a refresh blocks, delivers rows with their monotonic receive
  times and either completes or raises.  Wall-clock stamps are microseconds.
\<close>

datatype stamp = NoStamp | BadStamp | At int

record live_row = acct_row +
  lr_stale :: pyval
  lr_as_of :: stamp
  lr_observed_at :: stamp

definition settled_cash_max_age :: pyfloat where "settled_cash_max_age = Fin 30"
definition settled_cash_refresh_timeout :: pyfloat where "settled_cash_refresh_timeout = Fin 10"

text \<open>\<open>0 <= x <= bound\<close>\<close>

definition in_window :: "pyfloat \<Rightarrow> pyfloat \<Rightarrow> bool" where
  "in_window x bound = (fle (Fin 0) x \<and> fle x bound)"

definition stamp_ok :: "int \<Rightarrow> stamp \<Rightarrow> bool" where
  "stamp_ok now st = (case st of NoStamp \<Rightarrow> True | BadStamp \<Rightarrow> False
     | At t \<Rightarrow> in_window (to_float (of_int (now - t) / 10 ^ 6)) settled_cash_max_age)"

section \<open>The bounded refresh\<close>

record refresh_obs =
  ro_rows :: "(live_row \<times> pyfloat) list"
  ro_started :: pyfloat
  ro_completed :: pyfloat
  ro_now :: int

text \<open>
  The connection: the two settings \<open>RequestTimeout\<close> and \<open>RaiseRequestErrors\<close>, connecting and
  disconnecting the row listener, the cached rows, and the blocking refresh.
\<close>

record 'w account_api =
  api_callable :: bool
  api_get_timeout :: "('w, pyval) io"
  api_set_timeout :: "pyval \<Rightarrow> ('w, unit) io"
  api_get_raise :: "('w, pyval) io"
  api_set_raise :: "pyval \<Rightarrow> ('w, unit) io"
  api_connect :: "('w, unit) io"
  api_disconnect :: "('w, unit) io"
  api_cached :: "('w, acct_row list) io"
  api_refresh :: "string \<Rightarrow> ('w, refresh_obs) io"

definition refused :: pyexn where "refused = OtherError ''no settlement authority''"

text \<open>One row of the refresh.  Both \<open>return None\<close> and an exception give up.\<close>

definition settled_row_step ::
    "string \<Rightarrow> string list \<Rightarrow> pyfloat \<Rightarrow> int \<Rightarrow> live_row \<times> pyfloat
      \<Rightarrow> (string, pyfloat) dict \<Rightarrow> (string, pyfloat) dict res" where
  "settled_row_step currency sel completed now rr amounts =
    (let (row, received) = rr; account = row_account (acct_row.truncate row) in
     if symbol_text (v_str (ar_currency row)) \<noteq> upper currency then Inr amounts
     else if \<not> matches_account account sel then Inr amounts
     else if strip (v_str (ar_tag row)) \<noteq> ''SettledCash'' then Inr amounts
     else case account of None \<Rightarrow> Inl refused | Some a \<Rightarrow>
       if sel \<noteq> [] \<and> a \<notin> set sel then Inl refused
       else if \<not> in_window (fsub completed received) settled_cash_max_age then Inl refused
       else if truthy (lr_stale row) then Inl refused
       else if \<not> stamp_ok now (lr_as_of row) \<or> \<not> stamp_ok now (lr_observed_at row) then Inl refused
       else res_bind (coerce_float (ar_value row)) (\<lambda>v. case v of
           None \<Rightarrow> Inl refused
         | Some x \<Rightarrow>
             if \<not> isfinite x then Inl refused
             else if (case dict_get amounts a of Some y \<Rightarrow> \<not> feq y x | None \<Rightarrow> False) then Inl refused
             else Inr (dict_set amounts a x)))"

definition settled_total ::
    "string \<Rightarrow> string list \<Rightarrow> refresh_obs \<Rightarrow> pyfloat option" where
  "settled_total currency sel ob =
    (if \<not> in_window (fsub (ro_completed ob) (ro_started ob)) settled_cash_max_age then None
     else case res_fold (settled_row_step currency sel (ro_completed ob) (ro_now ob)) (ro_rows ob) [] of
        Inl _ \<Rightarrow> None
      | Inr amounts \<Rightarrow>
          if amounts = [] \<or> (sel \<noteq> [] \<and> set (dict_keys amounts) \<noteq> set sel) then None
          else let total = f_sum (dict_values amounts) in if isfinite total then Some total else None)"

definition refresh_timeout :: "pyval \<Rightarrow> pyfloat res" where
  "refresh_timeout original = res_bind (coerce_float original) (\<lambda>t. Inr (case t of
      Some x \<Rightarrow> if isfinite x \<and> flt (Fin 0) x then py_min x settled_cash_refresh_timeout
                else settled_cash_refresh_timeout
    | None \<Rightarrow> settled_cash_refresh_timeout))"

definition cached_accounts :: "acct_row list \<Rightarrow> string list" where
  "cached_accounts rows = fromkeys (filter (\<lambda>t. t \<noteq> []) (List.map (\<lambda>r. v_text (ar_account r)) rows))"

definition selected_or_cached :: "'w account_api \<Rightarrow> string list \<Rightarrow> ('w, string list) io" where
  "selected_or_cached api sel =
    (if sel \<noteq> [] then io_return sel
     else io_bind (api_cached api) (\<lambda>rows. io_return (cached_accounts rows)))"

text \<open>The body of the \<open>try\<close>: the settings are changed before the listener is connected.\<close>

definition settled_refresh :: "'w account_api \<Rightarrow> string \<Rightarrow> pyval \<Rightarrow> string list \<Rightarrow> ('w, pyfloat option) io" where
  "settled_refresh api currency original sel0 =
     io_bind (selected_or_cached api sel0) (\<lambda>sel.
       case sel of
         [a] \<Rightarrow> io_bind (io_lift (refresh_timeout original)) (\<lambda>timeout.
                io_bind (api_set_timeout api (VFloat timeout)) (\<lambda>_.
                io_bind (api_set_raise api (VBool True)) (\<lambda>_.
                io_bind (api_connect api) (\<lambda>_.
                io_bind (api_refresh api a) (\<lambda>ob.
                  io_return (settled_total currency sel ob))))))
       | _ \<Rightarrow> io_return None)"

text \<open>The \<open>finally\<close> clause.\<close>

definition settled_restore :: "'w account_api \<Rightarrow> pyval \<Rightarrow> pyval \<Rightarrow> ('w, unit) io" where
  "settled_restore api timeout raise_errors =
     io_bind (api_disconnect api) (\<lambda>_.
     io_bind (api_set_timeout api timeout) (\<lambda>_.
       api_set_raise api raise_errors))"

text \<open>The \<open>except\<close> clause leaves no exception, so the \<open>finally\<close> clause follows it in sequence.\<close>

definition settled_cash_for_currency ::
    "'w account_api \<Rightarrow> string \<Rightarrow> pyval \<Rightarrow> ('w, pyfloat option) io" where
  "settled_cash_for_currency api currency account_ids =
    io_bind (io_lift (normalize_account_ids account_ids)) (\<lambda>sel.
     if \<not> api_callable api then io_return None
     else io_bind (api_get_timeout api) (\<lambda>timeout.
       io_bind (api_get_raise api) (\<lambda>raise_errors.
       io_bind (io_catch (settled_refresh api currency timeout sel) (\<lambda>e. io_return None)) (\<lambda>total.
       io_bind (settled_restore api timeout raise_errors) (\<lambda>_. io_return total)))))"

text \<open>What a row must look like to carry settlement authority for account \<open>a\<close>.\<close>

definition settled_evidence ::
    "string \<Rightarrow> string \<Rightarrow> refresh_obs \<Rightarrow> live_row \<Rightarrow> pyfloat \<Rightarrow> pyfloat \<Rightarrow> bool" where
  "settled_evidence currency a ob row received x \<longleftrightarrow>
     (row, received) \<in> set (ro_rows ob)
     \<and> symbol_text (v_str (ar_currency row)) = upper currency
     \<and> row_account (acct_row.truncate row) = Some a
     \<and> strip (v_str (ar_tag row)) = ''SettledCash''
     \<and> in_window (fsub (ro_completed ob) received) settled_cash_max_age
     \<and> \<not> truthy (lr_stale row)
     \<and> stamp_ok (ro_now ob) (lr_as_of row) \<and> stamp_ok (ro_now ob) (lr_observed_at row)
     \<and> coerce_float (ar_value row) = Inr (Some x) \<and> isfinite x"

lemma settled_row_stepE:
  assumes "settled_row_step currency sel (ro_completed ob) (ro_now ob) (row, received) amounts = Inr amounts'"
    and "(row, received) \<in> set (ro_rows ob)"
  obtains (keep) "amounts' = amounts"
    | (add) a x where "amounts' = dict_set amounts a x" "settled_evidence currency a ob row received x"
  using assms
  by (auto simp: settled_row_step_def Let_def res_bind_Inr_iff settled_evidence_def
      split: if_splits option.splits)

lemma settled_rows_evidence:
  assumes "res_fold (settled_row_step currency sel (ro_completed ob) (ro_now ob)) (ro_rows ob) [] = Inr amounts"
  shows "\<forall>(a, x) \<in> set amounts. \<exists>row received. settled_evidence currency a ob row received x"
  using assms
proof (induction rule: res_fold_rule)
  case init
  then show ?case by simp
next
  case (step ys rr zs amounts amounts')
  obtain row received where rr: "rr = (row, received)" by (cases rr)
  have in_rows: "(row, received) \<in> set (ro_rows ob)" using step.hyps(1) rr by simp
  from step.hyps(2) in_rows show ?case
    unfolding rr
  proof (cases rule: settled_row_stepE)
    case keep
    then show ?thesis using step.IH by simp
  next
    case (add a x)
    have "set (dict_set amounts a x) \<subseteq> insert (a, x) (set amounts)"
      by (induction amounts a x rule: dict_set.induct) auto
    with add step.IH show ?thesis by fastforce
  qed
qed

lemma settled_total_Some:
  assumes "settled_total currency [a] ob = Some x"
  shows "in_window (fsub (ro_completed ob) (ro_started ob)) settled_cash_max_age"
    and "\<exists>row received. settled_evidence currency a ob row received x"
    and "isfinite x"
proof -
  obtain amounts where
    am: "res_fold (settled_row_step currency [a] (ro_completed ob) (ro_now ob)) (ro_rows ob) [] = Inr amounts"
    and keys: "amounts \<noteq> []" "set (dict_keys amounts) = {a}"
    and x: "f_sum (dict_values amounts) = x" "isfinite x"
    and w: "in_window (fsub (ro_completed ob) (ro_started ob)) settled_cash_max_age"
    using assms by (auto simp: settled_total_def Let_def split: if_splits sum.splits)
  show "in_window (fsub (ro_completed ob) (ro_started ob)) settled_cash_max_age" by (rule w)
  show "isfinite x" by (rule x)
  have "dict_ok amounts" using am
  proof (induction rule: res_fold_rule)
    case init
    then show ?case by simp
  next
    case (step ys rr zs s s')
    obtain row received where rr: "rr = (row, received)" by (cases rr)
    have "(row, received) \<in> set (ro_rows ob)" using step.hyps(1) rr by simp
    with step.hyps(2) show ?case
      unfolding rr by (cases rule: settled_row_stepE) (use step.IH in auto)
  qed
  with keys obtain y where "amounts = [(a, y)]"
    by (cases amounts; cases "tl amounts") (auto simp: dict_ok_def dict_keys_def)
  moreover from this x have "y = x" by (simp add: dict_values_def)
  ultimately have "(a, x) \<in> set amounts" by simp
  with settled_rows_evidence [OF am] show "\<exists>row received. settled_evidence currency a ob row received x"
    by blast
qed

text \<open>
  The account refreshed is the one asked for: the only selected account or, when none was
  selected, the only account the cached rows name.
\<close>

definition refreshed_account :: "'w account_api \<Rightarrow> pyval \<Rightarrow> string \<Rightarrow> bool" where
  "refreshed_account api account_ids a \<longleftrightarrow>
     normalize_account_ids account_ids = Inr [a]
     \<or> normalize_account_ids account_ids = Inr []
       \<and> (\<exists>rows v v'. api_cached api v = (Inr rows, v') \<and> {t \<in> (\<lambda>r. v_text (ar_account r)) ` set rows. t \<noteq> []} = {a})"

lemma selected_account:
  assumes "selected_or_cached api sel v = (Inr [a], v')" and "normalize_account_ids account_ids = Inr sel"
  shows "refreshed_account api account_ids a"
proof (cases "sel = []")
  case True
  then obtain rows where rows: "api_cached api v = (Inr rows, v')" "cached_accounts rows = [a]"
    using assms(1) by (auto simp: selected_or_cached_def io_bind_def split: sum.splits prod.splits)
  have "{t \<in> (\<lambda>r. v_text (ar_account r)) ` set rows. t \<noteq> []} = set (cached_accounts rows)"
    by (auto simp: cached_accounts_def set_fromkeys)
  with rows True assms(2) show ?thesis by (auto simp: refreshed_account_def)
next
  case False
  then show ?thesis using assms by (simp add: selected_or_cached_def refreshed_account_def)
qed

lemma settled_refresh_Some:
  assumes "settled_refresh api currency original sel v = (Inr (Some x), v')"
  obtains a v1 v2 ob where "selected_or_cached api sel v = (Inr [a], v1)" "api_refresh api a v2 = (Inr ob, v')"
    "settled_total currency [a] ob = Some x"
proof -
  obtain ss v1 where ss: "selected_or_cached api sel v = (Inr ss, v1)"
    using assms by (cases "selected_or_cached api sel v"; cases "fst (selected_or_cached api sel v)") (auto simp: settled_refresh_def)
  with assms obtain a where a: "ss = [a]" by (auto simp: settled_refresh_def split: list.splits)
  with assms ss show ?thesis
    by (auto simp: settled_refresh_def io_bind_def split: sum.splits prod.splits intro: that)
qed

text \<open>
  C5.  Settlement authority is never inferred: when \<open>_settled_cash_for_currency\<close> returns an
  amount, the account refreshed was the selected one (or, with none selected, the only one the cached
  rows name), the refresh completed within 30 seconds, and a row received during that refresh for
  that account, in the requested currency, with tag \<open>SettledCash\<close>, not stale and with valid time
  stamps, carries exactly this finite amount; and the last effects are disconnecting the listener and
  putting back the two settings as they were read at the start.  Cached rows, exceptions and
  incomplete refreshes give no amount.
\<close>

theorem settled_cash_is_evidenced:
  assumes "settled_cash_for_currency api currency account_ids w = (Inr (Some x), w')"
  shows "\<exists>a ob timeout raise_errors w1 w2 w3 w4. refreshed_account api account_ids a
     \<and> api_refresh api a w3 = (Inr ob, w4)
     \<and> in_window (fsub (ro_completed ob) (ro_started ob)) settled_cash_max_age
     \<and> (\<exists>row received. settled_evidence currency a ob row received x)
     \<and> isfinite x
     \<and> api_get_timeout api w = (Inr timeout, w1) \<and> api_get_raise api w1 = (Inr raise_errors, w2)
     \<and> settled_restore api timeout raise_errors w4 = (Inr (), w')"
proof -
  obtain sel timeout raise_errors w1 w2 r w4 where n: "normalize_account_ids account_ids = Inr sel"
    and t: "api_get_timeout api w = (Inr timeout, w1)" "api_get_raise api w1 = (Inr raise_errors, w2)"
    and b: "settled_refresh api currency timeout sel w2 = (r, w4)" "r = Inr (Some x)"
    and f: "settled_restore api timeout raise_errors w4 = (Inr (), w')"
    using assms
    by (auto simp: settled_cash_for_currency_def io_bind_def io_catch_def split: sum.splits prod.splits if_splits)
  obtain a v1 v2 ob where s: "selected_or_cached api sel w2 = (Inr [a], v1)" and o: "api_refresh api a v2 = (Inr ob, w4)"
    and x: "settled_total currency [a] ob = Some x"
    using b by (auto elim: settled_refresh_Some)
  have "refreshed_account api account_ids a" by (rule selected_account [OF s n])
  with o settled_total_Some [OF x] t f show ?thesis by blast
qed

definition sample_live :: "string \<Rightarrow> string \<Rightarrow> live_row" where
  "sample_live tag v = \<lparr>ar_account = VStr ''U1'', ar_currency = VStr ''USD'', ar_tag = VStr tag,
     ar_value = VStr v, lr_stale = VNone, lr_as_of = NoStamp, lr_observed_at = At 5000000\<rparr>"

text \<open>A connection whose state is its two settings and whether the listener is connected.\<close>

definition sample_api :: "(pyval \<times> pyval \<times> bool) account_api" where
  "sample_api = \<lparr>api_callable = True,
     api_get_timeout = (\<lambda>(t, r, c). (Inr t, (t, r, c))), api_set_timeout = (\<lambda>x (t, r, c). (Inr (), (x, r, c))),
     api_get_raise = (\<lambda>(t, r, c). (Inr r, (t, r, c))), api_set_raise = (\<lambda>x (t, r, c). (Inr (), (t, x, c))),
     api_connect = (\<lambda>(t, r, c). (Inr (), (t, r, True))), api_disconnect = (\<lambda>(t, r, c). (Inr (), (t, r, False))),
     api_cached = io_return [],
     api_refresh = (\<lambda>a. io_return \<lparr>ro_rows =
        [(sample_live ''CashBalance'' ''7000'', Fin 101), (sample_live ''SettledCash'' ''2500'', Fin 102)],
        ro_started = Fin 100, ro_completed = Fin 103, ro_now = 7000000\<rparr>)\<rparr>"

theorem settled_cash_is_evidenced_witness:
  "\<exists>a ob w3 w4. refreshed_account sample_api (VStr ''U1'') a \<and> api_refresh sample_api a w3 = (Inr ob, w4)
     \<and> in_window (fsub (ro_completed ob) (ro_started ob)) settled_cash_max_age
     \<and> (\<exists>row received. settled_evidence ''USD'' a ob row received (Fin 2500))
     \<and> settled_restore sample_api (VInt 4) (VBool False) w4 = (Inr (), (VInt 4, VBool False, False))"
proof -
  let ?w = "(VInt 4, VBool False, False)"
  have "settled_cash_for_currency sample_api ''USD'' (VStr ''U1'') ?w = (Inr (Some (Fin 2500)), ?w)"
    by code_simp
  from settled_cash_is_evidenced [OF this] show ?thesis by (auto simp: sample_api_def)
qed

end
