(* ===== verification/Sizing.thy ===== *)
theory Sizing
  imports Orders
begin

text \<open>
  Order sizing of \<open>application/execution_service.py\<close>: quantities rounded down to the
  quantity step, the investable part of the buying power, the limit price, the sale and buy
  quantities, the estimated cost used by the rotation guard, the projected proceeds of a sale
  and the safe-haven cash substitution.  The quantity library (\<open>floor_to_quantity_step\<close>,
  \<open>normalize_order_quantity\<close>, \<open>format_quantity\<close>) is a parameter; \<open>rounds_down\<close> states what
  its documentation promises.
\<close>

record quantity_lib =
  ql_floor_to_step :: "pyfloat \<Rightarrow> pyfloat \<Rightarrow> pyfloat"
  ql_normalize :: "pyfloat \<Rightarrow> pyfloat"
  ql_format :: "pyval \<Rightarrow> string"

definition floor_order_quantity :: "quantity_lib \<Rightarrow> pyfloat \<Rightarrow> pyfloat \<Rightarrow> pyfloat" where
  "floor_order_quantity ql quantity step = ql_normalize ql (ql_floor_to_step ql quantity step)"

text \<open>Rounding a non-negative finite quantity down gives something between zero and it.\<close>

definition rounds_down :: "quantity_lib \<Rightarrow> bool" where
  "rounds_down ql \<longleftrightarrow> (\<forall>q step. fle (Fin 0) q \<longrightarrow> isfinite q \<longrightarrow>
      fle (Fin 0) (floor_order_quantity ql q step) \<and> fle (floor_order_quantity ql q step) q)"

text \<open>A whole-share instance.\<close>

fun floor_whole :: "pyfloat \<Rightarrow> pyfloat" where
  "floor_whole (Fin x) = Fin (of_int \<lfloor>x\<rfloor>)"
| "floor_whole x = x"

definition whole_share_lib :: quantity_lib where
  "whole_share_lib = \<lparr>ql_floor_to_step = (\<lambda>q s. floor_whole q), ql_normalize = (\<lambda>q. q), ql_format = v_str\<rparr>"

lemma whole_share_rounds_down: "rounds_down whole_share_lib"
  unfolding rounds_down_def
proof (intro allI impI)
  fix q step :: pyfloat
  assume "fle (Fin 0) q" and "isfinite q"
  then show "fle (Fin 0) (floor_order_quantity whole_share_lib q step)
      \<and> fle (floor_order_quantity whole_share_lib q step) q"
    by (cases q) (auto simp: floor_order_quantity_def whole_share_lib_def)
qed

lemma f_or_zero [simp, float_simps]: "f_or x (Fin 0) = x"
  by (simp add: f_or_def ftruthy_def)

section \<open>Buying power and limit prices\<close>

definition investable_buying_power :: "pyfloat \<Rightarrow> pyfloat \<Rightarrow> pyfloat" where
  "investable_buying_power buying_power reserved_cash =
    py_max (Fin 0) (fsub (f_or buying_power (Fin 0)) (py_max (Fin 0) (f_or reserved_cash (Fin 0))))"

lemma investable_nonneg [simp]: "fle (Fin 0) (investable_buying_power b r)"
  by (simp add: investable_buying_power_def)

lemma investable_notNaN [simp]: "investable_buying_power b r \<noteq> NaN"
  by (simp add: investable_buying_power_def py_max_notNaN)

lemma investable_le:
  assumes "is_double b" and "isfinite b" and "isfinite r" and "fle (Fin 0) b"
  shows "fle (investable_buying_power b r) b"
proof -
  have "isfinite (py_max (Fin 0) r)" using assms(3) by (simp add: py_max_def)
  then have "fle (fsub b (py_max (Fin 0) r)) b" using assms(1,2) by (intro fsub_le) auto
  with assms(4) show ?thesis by (auto simp: investable_buying_power_def py_max_def)
qed

definition premium_fallback :: pyfloat where "premium_fallback = to_float (1005 / 1000)"

text \<open>\<open>try: float(v) except (TypeError, ValueError): default\<close>\<close>

definition float_or_default :: "pyval \<Rightarrow> pyfloat \<Rightarrow> pyfloat res" where
  "float_or_default v d = (case v_float v of Inr x \<Rightarrow> Inr x
     | Inl e \<Rightarrow> if is_type_or_value_error e then Inr d else Inl e)"

definition limit_buy_premium_for_symbol :: "string \<Rightarrow> pyval \<Rightarrow> pyval \<Rightarrow> pyfloat res" where
  "limit_buy_premium_for_symbol symbol default_premium premium_by_symbol =
    res_bind (float_or_default default_premium premium_fallback) (\<lambda>fallback.
      case premium_by_symbol of
        VDict d \<Rightarrow> (case vd_get d (symbol_text symbol) of
            VNone \<Rightarrow> Inr fallback
          | raw \<Rightarrow> res_bind (float_or_default raw fallback)
                     (\<lambda>p. Inr (if flt (Fin 0) p then p else fallback)))
      | _ \<Rightarrow> Inr fallback)"

definition limit_buy_price :: "string \<Rightarrow> pyfloat \<Rightarrow> pyval \<Rightarrow> pyval \<Rightarrow> pyfloat res" where
  "limit_buy_price symbol price default_premium premium_by_symbol =
    res_bind (limit_buy_premium_for_symbol symbol default_premium premium_by_symbol)
      (\<lambda>p. Inr (fround 2 (fmul price p)))"

section \<open>Sale and buy quantities\<close>

definition sell_order_quantity ::
    "quantity_lib \<Rightarrow> pyfloat \<Rightarrow> pyfloat \<Rightarrow> pyfloat \<Rightarrow> pyfloat \<Rightarrow> pyfloat \<Rightarrow> pyfloat res" where
  "sell_order_quantity ql current_value target_value price position_quantity step =
    (let held = py_max (Fin 0) (f_or position_quantity (Fin 0)) in
     if fle held (Fin 0) then Inr (Fin 0)
     else let target = py_max (Fin 0) (f_or target_value (Fin 0)) in
     if fle target (Fin 0) then Inr (floor_order_quantity ql held step)
     else let sell_value = py_max (Fin 0) (fsub (f_or current_value (Fin 0)) target) in
     if fle sell_value (Fin 0) \<or> fle (f_or price (Fin 0)) (Fin 0) then Inr (Fin 0)
     else res_bind (fdiv sell_value price)
            (\<lambda>q. Inr (floor_order_quantity ql (py_min q held) step)))"

definition planned_buy_order_quantity ::
    "quantity_lib \<Rightarrow> pyfloat \<Rightarrow> pyfloat \<Rightarrow> pyfloat \<Rightarrow> pyfloat res" where
  "planned_buy_order_quantity ql buy_value limit_price step =
    (let lp = py_max (Fin 0) (f_or limit_price (Fin 0)) in
     if flt (Fin 0) lp then res_bind (fdiv (f_or buy_value (Fin 0)) lp)
        (\<lambda>q. Inr (floor_order_quantity ql q step))
     else Inr (Fin 0))"

text \<open>
  C6.  A sale never exceeds the position: whatever the target and the price, the quantity
  returned by \<open>_sell_order_quantity\<close> lies between zero and the held quantity (zero for a
  short or empty position), provided the quantity library rounds down.
\<close>

theorem sell_order_quantity_bounded:
  assumes ql: "rounds_down ql" and fin: "isfinite held" "isfinite price" "isfinite target" "isfinite current"
    and q: "sell_order_quantity ql current target price held step = Inr q"
  shows "fle (Fin 0) q \<and> fle q (py_max (Fin 0) held)"
proof -
  let ?h = "py_max (Fin 0) held"
  have h: "fle (Fin 0) ?h" "isfinite ?h" using fin by simp_all (auto simp: py_max_def)
  have down: "fle (Fin 0) (floor_order_quantity ql x step) \<and> fle (floor_order_quantity ql x step) ?h"
    if "fle (Fin 0) x" "fle x ?h" for x
  proof -
    have "isfinite x" using that h by (blast intro: isfinite_between)
    with ql that(1) have "fle (Fin 0) (floor_order_quantity ql x step)" "fle (floor_order_quantity ql x step) x"
      by (auto simp: rounds_down_def)
    with that(2) show ?thesis by (blast intro: fle_trans)
  qed
  let ?t = "py_max (Fin 0) target" and ?s = "py_max (Fin 0) (fsub current (py_max (Fin 0) target))"
  note unfolded = q [unfolded sell_order_quantity_def Let_def f_or_zero]
  show ?thesis
  proof (cases "fle ?h (Fin 0) \<or> fle ?t (Fin 0) \<or> fle ?s (Fin 0) \<or> fle price (Fin 0)")
    case True
    then have "q = Fin 0 \<or> q = floor_order_quantity ql ?h step"
      using unfolded by (simp split: if_split_asm)
    moreover have "fle ?h ?h" by (rule fle_refl) (simp add: py_max_notNaN)
    ultimately show ?thesis using down [of ?h] h by auto
  next
    case False
    then obtain r where r: "fdiv ?s price = Inr r" "q = floor_order_quantity ql (py_min r ?h) step"
      using unfolded by (auto simp: res_bind_Inr_iff)
    obtain y where y: "price = Fin y" "0 < y" using False fin(2) by (cases price) auto
    have r0: "fle (Fin 0) r" using r(1) y fdiv_nonneg [of ?s y r] by simp
    then have "r \<noteq> NaN" by auto
    then have "fle (Fin 0) (py_min r ?h)" "fle (py_min r ?h) ?h"
      using r0 h py_min_le2 [of r ?h] by (auto simp: py_min_def)
    with r(2) down show ?thesis by simp
  qed
qed

theorem sell_order_quantity_bounded_witness:
  "sell_order_quantity whole_share_lib (Fin 1000) (Fin 250) (Fin 100) (Fin 10) (Fin 1) = Inr (Fin 7)
   \<and> fle (Fin 0) (Fin 7) \<and> fle (Fin 7) (py_max (Fin 0) (Fin 10))"
proof -
  have h: "sell_order_quantity whole_share_lib (Fin 1000) (Fin 250) (Fin 100) (Fin 10) (Fin 1) = Inr (Fin 7)"
    by code_simp
  show ?thesis
    using h sell_order_quantity_bounded [OF whole_share_rounds_down _ _ _ _ h] by simp
qed

section \<open>Rotation guard\<close>

text \<open>The cost of one symbol in \<open>_estimated_buy_order_cost\<close>, added to the running total.\<close>

record buy_params =
  bp_threshold :: pyfloat
  bp_limit_buy_premium :: pyval
  bp_premium_by_symbol :: pyval
  bp_quantity_step :: pyfloat
  bp_minimum_order_notional :: pyfloat

type_synonym fdict = "(string, pyfloat) dict"

definition fget :: "fdict \<Rightarrow> string \<Rightarrow> pyfloat" where
  "fget d k = dict_get_default d k (Fin 0)"

text \<open>\<open>not price\<close> for \<open>prices.get(symbol)\<close>: absent or zero.\<close>

definition usable_price :: "fdict \<Rightarrow> string \<Rightarrow> pyfloat option" where
  "usable_price prices s = (case dict_get prices s of Some p \<Rightarrow> if ftruthy p then Some p else None | None \<Rightarrow> None)"

definition estimated_cost_step ::
    "quantity_lib \<Rightarrow> buy_params \<Rightarrow> fdict \<Rightarrow> fdict \<Rightarrow> pyfloat \<Rightarrow> fdict \<Rightarrow> string \<Rightarrow> pyfloat \<Rightarrow> pyfloat res" where
  "estimated_cost_step ql bp current_mv target_mv investable prices symbol acc =
    (let current = f_or (fget current_mv symbol) (Fin 0); target = f_or (fget target_mv symbol) (Fin 0) in
     if fle (fsub target (bp_threshold bp)) current then Inr acc
     else let buy_value = py_min (fsub target current) investable in
     case usable_price prices symbol of None \<Rightarrow> Inr acc
     | Some price \<Rightarrow>
       if flt buy_value (bp_minimum_order_notional bp) then Inr acc
       else res_bind (limit_buy_price symbol price (bp_limit_buy_premium bp) (bp_premium_by_symbol bp)) (\<lambda>limit.
            res_bind (fdiv buy_value limit) (\<lambda>q.
              let qty = floor_order_quantity ql q (bp_quantity_step bp) in
              if fle qty (Fin 0) then Inr acc else Inr (fadd acc (fmul qty limit)))))"

definition estimated_buy_order_cost ::
    "quantity_lib \<Rightarrow> buy_params \<Rightarrow> string list \<Rightarrow> fdict \<Rightarrow> fdict \<Rightarrow> pyfloat \<Rightarrow> fdict \<Rightarrow> pyfloat res" where
  "estimated_buy_order_cost ql bp buy_symbols current_mv target_mv investable prices =
    res_fold (estimated_cost_step ql bp current_mv target_mv investable prices) buy_symbols (Fin 0)"

definition rotation_guard_should_block_buys ::
    "quantity_lib \<Rightarrow> buy_params \<Rightarrow> string list \<Rightarrow> string list \<Rightarrow> fdict \<Rightarrow> fdict \<Rightarrow> pyfloat \<Rightarrow> fdict \<Rightarrow> bool res" where
  "rotation_guard_should_block_buys ql bp pending_sell_release buy_needed current_mv target_mv investable prices =
    (if pending_sell_release = [] \<or> buy_needed = [] then Inr False
     else res_bind (estimated_buy_order_cost ql bp buy_needed current_mv target_mv investable prices)
            (\<lambda>cost. Inr (flt investable cost)))"

section \<open>Targets and proceeds\<close>

definition default_safe_haven_threshold :: pyfloat where "default_safe_haven_threshold = Fin 1000"
definition small_account_limit :: pyfloat where "small_account_limit = Fin 2000"

definition safe_haven_step ::
    "pyfloat \<Rightarrow> pyfloat \<Rightarrow> fdict \<times> string list \<Rightarrow> string \<Rightarrow> fdict \<times> string list" where
  "safe_haven_step investable threshold st symbol =
    (let (adjusted, substituted) = st; s = symbol_text symbol in
     if s = [] then st
     else let notional = py_max (Fin 0) (fmul (f_or investable (Fin 0)) (f_or (fget adjusted s) (Fin 0))) in
     if flt (Fin 0) notional \<and> flt notional threshold
     then (dict_set adjusted s (Fin 0), substituted @ [s]) else st)"

definition normalize_weights :: "fdict \<Rightarrow> fdict" where
  "normalize_weights w = foldl (\<lambda>d (k, x). dict_set d (symbol_text k) (f_or x (Fin 0))) [] w"

definition apply_safe_haven_cash_substitution ::
    "fdict \<Rightarrow> string list \<Rightarrow> pyfloat \<Rightarrow> pyfloat \<Rightarrow> fdict \<times> string list" where
  "apply_safe_haven_cash_substitution target_weights safe_haven investable threshold_usd =
    (let threshold = py_max (Fin 0) (f_or threshold_usd (Fin 0)); adjusted = normalize_weights target_weights in
     if fle threshold (Fin 0) then (adjusted, [])
     else let (a, subs) = foldl (safe_haven_step investable threshold) (adjusted, []) safe_haven in
       (a, fromkeys subs))"

text \<open>\<open>float(getattr(report, field) or default)\<close>\<close>

definition v_float_or :: "pyval \<Rightarrow> pyfloat \<Rightarrow> pyfloat res" where
  "v_float_or v d = (if truthy v then v_float v else Inr d)"

definition projected_sell_release_value_for_report ::
    "exec_report \<Rightarrow> pyfloat \<Rightarrow> pyfloat \<Rightarrow> pyfloat res" where
  "projected_sell_release_value_for_report r fallback_price fallback_quantity =
    (let status = v_str (v_or (rep_status r) (VStr [])) in
     if status \<notin> {''Filled'', ''PartiallyFilled'', ''Partial''} then Inr (Fin 0)
     else res_bind (v_float_or (rep_filled_quantity r) (Fin 0)) (\<lambda>filled0.
          res_bind (if status = ''Filled'' \<and> fle filled0 (Fin 0)
                    then v_float_or (rep_quantity r) (f_or fallback_quantity (Fin 0)) else Inr filled0) (\<lambda>filled.
          if fle filled (Fin 0) then Inr (Fin 0)
          else res_bind (v_float_or (rep_average_fill_price r) (Fin 0)) (\<lambda>price0.
            let fill_price = (if fle price0 (Fin 0) then py_max (Fin 0) (f_or fallback_price (Fin 0)) else price0) in
            if fle fill_price (Fin 0) then Inr (Fin 0) else Inr (fmul filled fill_price)))))"

text \<open>Proceeds are only ever projected from reported fills, and never negative.\<close>

lemma fmul_pos_nonneg:
  assumes "\<not> fle x (Fin 0)" and "\<not> fle y (Fin 0)" and "fmul x y \<noteq> NaN"
  shows "fle (Fin 0) (fmul x y)"
proof (cases "isfinite x \<and> isfinite y")
  case True
  then obtain a b where "x = Fin a" "y = Fin b" by (cases x; cases y) auto
  with assms(1,2) to_float_nonneg [of "a * b"] show ?thesis by simp
next
  case False
  with assms show ?thesis by (cases x; cases y) (auto simp: signed_inf_def)
qed

lemma projected_release_nonneg:
  assumes "projected_sell_release_value_for_report r fp fq = Inr x" and "x \<noteq> NaN"
  shows "fle (Fin 0) x"
proof -
  have "x = Fin 0 \<or> (\<exists>a b. x = fmul a b \<and> \<not> fle a (Fin 0) \<and> \<not> fle b (Fin 0))"
    using assms(1) by (fastforce simp: projected_sell_release_value_for_report_def Let_def
        res_bind_Inr_iff split: if_splits)
  with assms(2) show ?thesis by (auto intro: fmul_pos_nonneg)
qed

text \<open>The loop zeroes exactly the symbols it collects.\<close>

lemma safe_haven_fold:
  assumes "foldl (safe_haven_step i th) (w, subs) hs = (w', subs')"
    and "\<And>s. s \<in> set subs \<Longrightarrow> fget w s = Fin 0"
  shows "(\<forall>s. fget w' s = (if s \<in> set subs' then Fin 0 else fget w s))
    \<and> set subs \<subseteq> set subs' \<and> set subs' \<subseteq> set subs \<union> set (List.map symbol_text hs)"
  using assms
proof (induction hs arbitrary: w subs)
  case Nil
  then show ?case by auto
next
  case (Cons h hs)
  obtain w1 subs1 where s1: "safe_haven_step i th (w, subs) h = (w1, subs1)"
    by (cases "safe_haven_step i th (w, subs) h")
  then consider "w1 = w" "subs1 = subs"
    | "w1 = dict_set w (symbol_text h) (Fin 0)" "subs1 = subs @ [symbol_text h]"
    by (auto simp: safe_haven_step_def Let_def split: if_splits)
  then have g: "fget w1 s = (if s \<in> set subs1 then Fin 0 else fget w s)"
    "set subs \<subseteq> set subs1" "set subs1 \<subseteq> set subs \<union> {symbol_text h}" for s
    by (cases; use Cons.prems(2) in \<open>auto simp: fget_def dict_get_default_def\<close>)+
  have "foldl (safe_haven_step i th) (w1, subs1) hs = (w', subs')" using Cons.prems(1) s1 by simp
  from Cons.IH [OF this] g have IH:
    "\<forall>s. fget w' s = (if s \<in> set subs' then Fin 0 else fget w1 s)"
    "set subs1 \<subseteq> set subs'" "set subs' \<subseteq> set subs1 \<union> set (List.map symbol_text hs)" by simp_all
  have "fget w' s = (if s \<in> set subs' then Fin 0 else fget w s)" for s
    using IH(1,2) g(1) [of s] by (cases "s \<in> set subs1") auto
  then show ?case using IH(2,3) g(2,3) by auto
qed

text \<open>
  The safe-haven cash substitution only moves weight to cash: every substituted symbol
  is one of the configured safe havens and its weight becomes exactly zero, and every other
  symbol keeps its (normalised) target weight.
\<close>

theorem safe_haven_substitution_frame:
  "let (w', subs) = apply_safe_haven_cash_substitution w havens investable threshold in
     (\<forall>s. fget w' s = (if s \<in> set subs then Fin 0 else fget (normalize_weights w) s))
     \<and> set subs \<subseteq> set (List.map symbol_text havens) \<and> distinct subs"
proof -
  obtain w' subs where r: "foldl (safe_haven_step investable (py_max (Fin 0) threshold))
      (normalize_weights w, []) havens = (w', subs)"
    by (cases "foldl (safe_haven_step investable (py_max (Fin 0) threshold)) (normalize_weights w, []) havens")
  from safe_haven_fold [OF this] r show ?thesis
    by (simp add: apply_safe_haven_cash_substitution_def Let_def)
qed

end
