(* ===== verification/SettledGuard.thy ===== *)
theory SettledGuard
  imports SettledCash Sizing
begin

text \<open>
  \<open>_SettledCashDeadlineIB\<close> of \<open>application/execution_service.py\<close>: the connection wrapper
  that carries one buy order from preparation to the broker write.  Account value updates may
  arrive at any time (\<open>observe\<close>), also while the contract is being qualified; the intent is
  resized once (\<open>prepare_intent\<close>) and \<open>place_order\<close> refuses everything that is not the
  prepared order within the remaining settled budget and the age limit.  Qualification and the
  broker write belong to the broker: their results are inputs of the steps.
\<close>

definition f095 :: pyfloat where "f095 = to_float (95 / 100)"

record contract =
  ct_symbol :: string
  ct_sec_type :: string
  ct_currency :: string
  ct_exchange :: string

record ib_order =
  od_account :: "string option"
  od_action :: string
  od_order_type :: string
  od_total_quantity :: pyfloat
  od_lmt_price :: pyfloat

record deadline_ib =
  dl_refresh_started :: pyfloat
  dl_account_id :: "string option"
  dl_currency :: string
  dl_remaining :: pyfloat
  dl_reserved :: pyfloat
  dl_quantity_step :: pyfloat
  dl_minimum_order_notional :: pyfloat
  dl_invalid :: bool
  dl_contract :: "contract option"
  dl_prepared_quantity :: "pyfloat option"

definition new_deadline_ib ::
    "pyfloat \<Rightarrow> string option \<Rightarrow> string \<Rightarrow> pyfloat \<Rightarrow> pyfloat \<Rightarrow> pyfloat \<Rightarrow> pyfloat \<Rightarrow> deadline_ib" where
  "new_deadline_ib started account_id currency buying_power reserved step minimum =
    \<lparr>dl_refresh_started = started, dl_account_id = account_id, dl_currency = upper currency,
     dl_remaining = buying_power, dl_reserved = reserved, dl_quantity_step = step,
     dl_minimum_order_notional = minimum, dl_invalid = False, dl_contract = None,
     dl_prepared_quantity = None\<rparr>"

text \<open>\<open>_observe\<close>: a conversion that overflows raises out of the callback and changes nothing.\<close>

definition observe :: "live_row \<Rightarrow> int \<Rightarrow> deadline_ib \<Rightarrow> deadline_ib res" where
  "observe row now g =
    (if Some (v_text (ar_account row)) \<noteq> dl_account_id g
        \<or> upper (v_text (ar_currency row)) \<noteq> dl_currency g
        \<or> v_text (ar_tag row) \<noteq> ''SettledCash'' then Inr g
     else res_bind (coerce_float (ar_value row)) (\<lambda>value.
       let bad = (case value of None \<Rightarrow> True | Some x \<Rightarrow> \<not> isfinite x \<or> fle x (Fin 0))
                 \<or> truthy (lr_stale row)
                 \<or> \<not> stamp_ok now (lr_as_of row) \<or> \<not> stamp_ok now (lr_observed_at row);
           g1 = g\<lparr>dl_invalid := dl_invalid g \<or> bad\<rparr> in
       Inr (if bad then g1
            else case value of None \<Rightarrow> g1 | Some x \<Rightarrow>
              g1\<lparr>dl_remaining := py_min (dl_remaining g) (investable_buying_power x (dl_reserved g))\<rparr>)))"

text \<open>Delivering an update: the event source swallows what a callback raises.\<close>

definition deliver :: "deadline_ib \<Rightarrow> live_row \<times> int \<Rightarrow> deadline_ib" where
  "deliver g ev = (case observe (fst ev) (snd ev) g of Inr g' \<Rightarrow> g' | Inl _ \<Rightarrow> g)"

definition deliver_all :: "deadline_ib \<Rightarrow> (live_row \<times> int) list \<Rightarrow> deadline_ib" where
  "deliver_all g evs = foldl deliver g evs"

text \<open>
  \<open>prepare_intent\<close>: \<open>during\<close> are the updates delivered while \<open>qualifyContracts\<close> blocks and
  \<open>qualified\<close> is how that call ends.
\<close>

definition prepare_intent ::
    "quantity_lib \<Rightarrow> order_intent \<Rightarrow> string \<Rightarrow> string \<Rightarrow> (live_row \<times> int) list \<Rightarrow> unit res
      \<Rightarrow> deadline_ib \<Rightarrow> order_intent option res \<times> deadline_ib" where
  "prepare_intent ql intent exchange currency during qualified g =
    (if (dl_account_id g = None \<or> dl_account_id g = Some []) \<or> upper currency \<noteq> dl_currency g
        \<or> oi_account_id intent \<noteq> dl_account_id g
     then (Inl (RuntimeError ''settled_cash_scope_mismatch''), g)
     else let g1 = deliver_all g during in
     case qualified of Inl e \<Rightarrow> (Inl e, g1)
     | Inr _ \<Rightarrow>
       let g2 = g1\<lparr>dl_contract := Some \<lparr>ct_symbol = oi_symbol intent, ct_sec_type = ''STK'',
                    ct_currency = currency, ct_exchange = exchange\<rparr>\<rparr> in
       case oi_limit_price intent of
         None \<Rightarrow> (Inl (TypeError ''unsupported operand''), g2)
       | Some limit \<Rightarrow>
         (case fdiv (fmul (dl_remaining g2) f095) limit of
            Inl e \<Rightarrow> (Inl e, g2)
          | Inr q \<Rightarrow>
            let quantity = py_min (oi_quantity intent) (floor_order_quantity ql q (dl_quantity_step g2));
                g3 = (if fle quantity (Fin 0) \<or> flt (fmul quantity limit) (dl_minimum_order_notional g2)
                      then g2\<lparr>dl_invalid := True\<rparr> else g2) in
            if dl_invalid g3 then (Inr None, g3)
            else (Inr (Some (intent\<lparr>oi_quantity := quantity\<rparr>)), g3\<lparr>dl_prepared_quantity := Some quantity\<rparr>)))"

text \<open>\<open>qualifyContracts\<close> returns the prepared contract to the executor.\<close>

definition guard_qualify :: "contract \<Rightarrow> deadline_ib \<Rightarrow> contract list res" where
  "guard_qualify c g = (case dl_contract g of
      None \<Rightarrow> Inl (RuntimeError ''settled_cash_unprepared_contract'')
    | Some p \<Rightarrow> if ct_symbol c \<noteq> ct_symbol p \<or> ct_sec_type c \<noteq> ct_sec_type p
                  \<or> ct_currency c \<noteq> ct_currency p \<or> ct_exchange c \<noteq> ct_exchange p
               then Inl (RuntimeError ''settled_cash_unprepared_contract'') else Inr [p])"

text \<open>\<open>placeOrder\<close>: either an exception or the call forwarded to the broker.\<close>

definition place_order :: "contract \<Rightarrow> ib_order \<Rightarrow> pyfloat \<Rightarrow> deadline_ib \<Rightarrow> (contract \<times> ib_order) res" where
  "place_order c od monotonic g =
    (if dl_invalid g \<or> od_account od \<noteq> dl_account_id g
        \<or> (case dl_prepared_quantity g of None \<Rightarrow> True | Some q \<Rightarrow> \<not> feq (od_total_quantity od) q)
        \<or> upper (ct_currency c) \<noteq> dl_currency g
        \<or> od_action od \<noteq> ''BUY'' \<or> od_order_type od \<noteq> ''LMT''
        \<or> \<not> isfinite (od_total_quantity od) \<or> fle (od_total_quantity od) (Fin 0)
        \<or> \<not> isfinite (od_lmt_price od) \<or> fle (od_lmt_price od) (Fin 0)
        \<or> flt (dl_remaining g) (fmul (od_total_quantity od) (od_lmt_price od))
     then Inl (RuntimeError ''settled_cash_changed: refusing IBKR placeOrder'')
     else if \<not> in_window (fsub monotonic (dl_refresh_started g)) settled_cash_max_age
     then Inl (RuntimeError ''settled_cash_stale: refusing IBKR placeOrder'')
     else Inr (c, od))"

section \<open>The guard as a state machine\<close>

datatype guard_event =
    Observed live_row int
  | Prepared quantity_lib order_intent string string "(live_row \<times> int) list" "unit res"

fun guard_step :: "deadline_ib \<Rightarrow> guard_event \<Rightarrow> deadline_ib" where
  "guard_step g (Observed row now) = deliver g (row, now)"
| "guard_step g (Prepared ql intent ex cur during q) = snd (prepare_intent ql intent ex cur during q g)"

inductive guard_reach :: "deadline_ib \<Rightarrow> deadline_ib \<Rightarrow> bool" where
  refl: "guard_reach g g"
| step: "guard_reach g g' \<Longrightarrow> guard_reach g (guard_step g' ev)"

text \<open>What no step ever undoes: scope, deadline, invalidity, and the shrinking budget.\<close>

definition tightened :: "deadline_ib \<Rightarrow> deadline_ib \<Rightarrow> bool" where
  "tightened g g' \<longleftrightarrow>
     dl_account_id g' = dl_account_id g \<and> dl_currency g' = dl_currency g
     \<and> dl_refresh_started g' = dl_refresh_started g \<and> dl_reserved g' = dl_reserved g
     \<and> (dl_invalid g \<longrightarrow> dl_invalid g')
     \<and> (dl_remaining g \<noteq> NaN \<longrightarrow> dl_remaining g' \<noteq> NaN \<and> fle (dl_remaining g') (dl_remaining g))"

lemma tightened_refl [simp]: "tightened g g"
  by (simp add: tightened_def fle_refl)

lemma tightened_trans: "tightened a b \<Longrightarrow> tightened b c \<Longrightarrow> tightened a c"
  by (auto simp: tightened_def intro: fle_trans)

lemma tightened_frame [simp]:
  "tightened g (g'\<lparr>dl_contract := c\<rparr>) = tightened g g'"
  "tightened g (g'\<lparr>dl_prepared_quantity := q\<rparr>) = tightened g g'"
  "tightened g g' \<Longrightarrow> tightened g (g'\<lparr>dl_invalid := True\<rparr>)"
  by (simp_all add: tightened_def)

lemma deliver_tightened: "tightened g (deliver g ev)"
proof (cases "observe (fst ev) (snd ev) g")
  case (Inl e)
  then show ?thesis by (simp add: deliver_def)
next
  case (Inr g')
  have "tightened g g'"
    using Inr by (auto simp: observe_def res_bind_Inr_iff Let_def tightened_def fle_refl py_min_le
        split: if_splits option.splits)
  with Inr show ?thesis by (simp add: deliver_def)
qed

lemma deliver_all_tightened: "tightened g (deliver_all g evs)"
  unfolding deliver_all_def
  by (induction evs arbitrary: g) (auto intro: tightened_trans deliver_tightened)

lemma prepare_tightened: "tightened g (snd (prepare_intent ql intent ex cur during q g))"
  using deliver_all_tightened [of g during]
  by (auto simp: prepare_intent_def Let_def split: sum.splits option.splits)

lemma guard_step_tightened: "tightened g (guard_step g ev)"
  by (cases ev) (simp_all add: deliver_tightened prepare_tightened)

lemma guard_reach_tightened: "guard_reach g g' \<Longrightarrow> tightened g g'"
  by (induction rule: guard_reach.induct) (auto intro: tightened_trans guard_step_tightened)

text \<open>
  C8.  Whatever updates arrive and however the order is prepared, an order the guard forwards
  to the broker is a limit buy for the guarded account, of exactly the prepared quantity,
  whose cost does not exceed the settled budget the guard started with, written within 30
  seconds of the refresh that established that budget.
\<close>

theorem guard_forwards_only_within_budget:
  assumes "guard_reach g0 g" and "dl_remaining g0 \<noteq> NaN"
    and "place_order c od clock g = Inr fwd"
  shows "fwd = (c, od) \<and> od_action od = ''BUY'' \<and> od_order_type od = ''LMT''
    \<and> od_account od = dl_account_id g0
    \<and> (\<exists>q. dl_prepared_quantity g = Some q \<and> feq (od_total_quantity od) q)
    \<and> \<not> flt (dl_remaining g0) (fmul (od_total_quantity od) (od_lmt_price od))
    \<and> in_window (fsub clock (dl_refresh_started g0)) settled_cash_max_age"
proof -
  have t: "tightened g0 g" using assms(1) by (rule guard_reach_tightened)
  then have le: "fle (dl_remaining g) (dl_remaining g0)" using assms(2) by (simp add: tightened_def)
  have "\<not> flt (dl_remaining g) (fmul (od_total_quantity od) (od_lmt_price od))"
    using assms(3) by (auto simp: place_order_def split: if_splits)
  then have "\<not> flt (dl_remaining g0) (fmul (od_total_quantity od) (od_lmt_price od))"
    using le fle_flt_trans by blast
  with t assms(3) show ?thesis
    by (auto simp: place_order_def tightened_def split: if_splits option.splits)
qed

text \<open>
  Invalidity is permanent: once an update has shown the settlement evidence to be
  missing, stale, non-positive or malformed, no later update and no preparation lets this
  guard forward an order.
\<close>

theorem guard_invalid_is_permanent:
  assumes "guard_reach g0 g" and "dl_invalid g0"
  shows "\<exists>msg. place_order c od clock g = Inl (RuntimeError msg)"
proof -
  have "dl_invalid g" using guard_reach_tightened [OF assms(1)] assms(2) by (simp add: tightened_def)
  then show ?thesis by (simp add: place_order_def)
qed

definition sample_guard :: deadline_ib where
  "sample_guard = new_deadline_ib (Fin 100) (Some ''U1'') ''usd'' (Fin 1000) (Fin 0) (Fin 1) (Fin 50)"

definition sample_intent :: order_intent where
  "sample_intent = \<lparr>oi_symbol = ''SPY'', oi_side = ''buy'', oi_quantity = Fin 20, oi_order_type = Some ''limit'',
     oi_limit_price = Some (Fin 100), oi_time_in_force = Some ''DAY'', oi_account_id = Some ''U1'',
     oi_metadata = None\<rparr>"

definition sample_contract :: contract where
  "sample_contract = \<lparr>ct_symbol = ''SPY'', ct_sec_type = ''STK'', ct_currency = ''USD'', ct_exchange = ''SMART''\<rparr>"

definition sample_order :: ib_order where
  "sample_order = \<lparr>od_account = Some ''U1'', od_action = ''BUY'', od_order_type = ''LMT'',
     od_total_quantity = Fin 7, od_lmt_price = Fin 100\<rparr>"

text \<open>During qualification the settled cash drops to 800, so 7 of the 20 shares remain.\<close>

definition sample_prepared :: deadline_ib where
  "sample_prepared = guard_step sample_guard
     (Prepared whole_share_lib sample_intent ''SMART'' ''USD'' [(sample_live ''SettledCash'' ''800'', 6000000)] (Inr ()))"

lemma sample_prepared_reach: "guard_reach sample_guard sample_prepared"
  unfolding sample_prepared_def by (rule guard_reach.step) (rule guard_reach.refl)

theorem guard_forwards_only_within_budget_witness:
  "place_order sample_contract sample_order (Fin 110) sample_prepared = Inr (sample_contract, sample_order)
   \<and> \<not> flt (dl_remaining sample_guard) (fmul (od_total_quantity sample_order) (od_lmt_price sample_order))"
proof -
  have h: "place_order sample_contract sample_order (Fin 110) sample_prepared = Inr (sample_contract, sample_order)"
    by code_simp
  have n: "dl_remaining sample_guard \<noteq> NaN" by (simp add: sample_guard_def new_deadline_ib_def)
  show ?thesis
    using h guard_forwards_only_within_budget [OF sample_prepared_reach n h] by blast
qed

theorem guard_invalid_is_permanent_witness:
  "\<exists>msg. place_order sample_contract sample_order (Fin 110)
      (deliver (sample_guard\<lparr>dl_invalid := True\<rparr>) (sample_live ''SettledCash'' ''800'', 6000000))
    = Inl (RuntimeError msg)"
proof (rule guard_invalid_is_permanent)
  show "guard_reach (sample_guard\<lparr>dl_invalid := True\<rparr>)
      (deliver (sample_guard\<lparr>dl_invalid := True\<rparr>) (sample_live ''SettledCash'' ''800'', 6000000))"
    using guard_reach.step [OF guard_reach.refl, of _ "Observed (sample_live ''SettledCash'' ''800'') 6000000"]
    by simp
qed simp

end
