(* ===== verification/BrokerReads.thy ===== *)
theory BrokerReads
  imports Accounts
begin

text \<open>
  Read-only broker surfaces: \<open>load_read_only_open_trades\<close> and \<open>_load_recent_executions\<close> of
  \<open>application/broker_reconciliation.py\<close>, and the open-order and fill observations of
  \<open>application/execution_service.py\<close> built on them.  SDK objects are records of the
  attributes the code reads (an absent attribute is \<open>None\<close>); the identity of a trade object
  is a number.  The two SDK settings the readers change and restore are explicit state.
\<close>

section \<open>SDK objects\<close>

record contract_obj =
  co_con_id :: pyval
  co_symbol :: pyval
  co_local_symbol :: pyval
  co_sec_type :: pyval
  co_currency :: pyval

record order_obj =
  oo_account :: pyval
  oo_contract :: "contract_obj option"
  oo_perm_id :: pyval
  oo_action :: pyval
  oo_order_type :: pyval
  oo_total_quantity :: pyval
  oo_lmt_price :: pyval
  oo_aux_price :: pyval

record status_obj =
  so_status :: pyval
  so_filled :: pyval
  so_remaining :: pyval

record trade =
  tr_id :: int
  tr_contract :: "contract_obj option"
  tr_order :: "order_obj option"
  tr_order_status :: "status_obj option"
  tr_symbol :: pyval
  tr_status :: pyval
  tr_account :: pyval

record fill =
  fi_contract_symbol :: pyval
  fi_execution_acct_number :: pyval
  fi_execution_account :: pyval
  fi_account :: pyval
  fi_execution_time :: pyval
  fi_time :: pyval

section \<open>Complete open-order snapshots\<close>

record read_settings =
  rs_request_timeout :: pyval
  rs_raise_request_errors :: pyval

text \<open>A response is a list of trades, or something that is not a list (incomplete).\<close>

datatype 'a response = Rows "'a list" | NotRows

record 'w trade_api =
  ta_all_open_orders :: "(read_settings \<Rightarrow> ('w, trade response) io) option"
  ta_open_trades :: "(read_settings \<Rightarrow> ('w, trade response) io) option"
  ta_executions :: "(read_settings \<Rightarrow> ('w, fill response option) io) option"

definition read_error :: "string \<Rightarrow> pyexn" where
  "read_error msg = OtherError (''IBKRReconciliationReadError: '' @ msg)"

definition read_deadline :: "pyval \<Rightarrow> pyfloat res" where
  "read_deadline original = res_bind ((case v_float original of Inr x \<Rightarrow> Inr x | Inl e \<Rightarrow> if is_type_or_value_error e then Inr (Fin 0) else Inl e)) (\<lambda>t.
     Inr (if isfinite t \<and> flt (Fin 0) t then py_min t (Fin 10) else Fin 10))"

text \<open>\<open>tuple({id(trade): trade for trade in trades}.values())\<close>\<close>

definition unique_trades :: "trade list \<Rightarrow> trade list" where
  "unique_trades ts = dict_values (foldl (\<lambda>d t. dict_set d (tr_id t) t) [] ts)"

text \<open>
  The reader: settings are changed for the two requests and put back on every exit; any
  exception inside becomes the one read error.
\<close>

definition load_read_only_open_trades ::
    "'w trade_api \<Rightarrow> read_settings \<Rightarrow> 'w \<Rightarrow> trade list res \<times> read_settings \<times> 'w" where
  "load_read_only_open_trades api original w =
    (case (ta_all_open_orders api, ta_open_trades api) of
       (Some request_all, Some open_trades) \<Rightarrow>
         (case read_deadline (rs_request_timeout original) of
            Inl e \<Rightarrow> (Inl e, original, w)
          | Inr timeout \<Rightarrow>
            let during = \<lparr>rs_request_timeout = VFloat timeout, rs_raise_request_errors = VBool True\<rparr>;
                (r, w') = io_bind (request_all during) (\<lambda>snapshot.
                          io_bind (open_trades during) (\<lambda>cached.
                            case (snapshot, cached) of
                              (Rows a, Rows b) \<Rightarrow> io_return (unique_trades (a @ b))
                            | _ \<Rightarrow> io_raise (read_error ''snapshot is incomplete''))) w;
                final = during\<lparr>rs_request_timeout := rs_request_timeout original,
                               rs_raise_request_errors := rs_raise_request_errors original\<rparr> in
            (case r of Inr ts \<Rightarrow> Inr ts | Inl e \<Rightarrow> Inl (read_error ''could not load all active orders''),
             final, w'))
     | _ \<Rightarrow> (Inl (read_error ''requires read-only all-open-orders support''), original, w))"

definition load_recent_executions ::
    "'w trade_api \<Rightarrow> bool \<Rightarrow> read_settings \<Rightarrow> 'w \<Rightarrow> fill list res \<times> read_settings \<times> 'w" where
  "load_recent_executions api require_response original w =
    (case ta_executions api of
       None \<Rightarrow> (Inl (read_error ''requires read-only recent-executions support''), original, w)
     | Some request \<Rightarrow>
       let during = (if require_response then original\<lparr>rs_raise_request_errors := VBool True\<rparr> else original);
           (r, w') = request during w;
           final = (if require_response
                    then during\<lparr>rs_raise_request_errors := rs_raise_request_errors original\<rparr> else during);
           failed = Inl (read_error ''could not load recent executions'') in
       (case r of
          Inl e \<Rightarrow> failed
        | Inr None \<Rightarrow> if require_response then failed else Inr []
        | Inr (Some NotRows) \<Rightarrow> failed
        | Inr (Some (Rows fs)) \<Rightarrow> Inr fs,
        final, w'))"

lemma unique_trades_fold:
  "dict_ok d \<Longrightarrow> \<forall>(k, t) \<in> set d. k = tr_id t \<Longrightarrow>
   dict_ok (foldl (\<lambda>d t. dict_set d (tr_id t) t) d ts) \<and>
   set (dict_keys (foldl (\<lambda>d t. dict_set d (tr_id t) t) d ts)) = set (dict_keys d) \<union> tr_id ` set ts \<and>
   (\<forall>(k, t) \<in> set (foldl (\<lambda>d t. dict_set d (tr_id t) t) d ts). k = tr_id t)"
proof (induction ts arbitrary: d)
  case Nil
  then show ?case by simp
next
  case (Cons t ts)
  have "\<forall>(k, u) \<in> set (dict_set d (tr_id t) t). k = tr_id u"
    using Cons.prems(2) by (induction d "tr_id t" t rule: dict_set.induct) auto
  with Cons.IH [of "dict_set d (tr_id t) t"] Cons.prems(1) show ?case
    by (auto simp: dict_keys_set)
qed

lemma unique_trades_ids:
  "distinct (List.map tr_id (unique_trades ts))" "tr_id ` set (unique_trades ts) = tr_id ` set ts"
proof -
  let ?d = "foldl (\<lambda>d t. dict_set d (tr_id t) t) [] ts"
  have f: "dict_ok ?d" "set (dict_keys ?d) = tr_id ` set ts" "\<forall>(k, t) \<in> set ?d. k = tr_id t"
    using unique_trades_fold [of "[]" ts] by (auto simp: dict_keys_def)
  have "List.map tr_id (unique_trades ts) = dict_keys ?d"
    using f(3) by (auto simp: unique_trades_def dict_values_def dict_keys_def)
  with f(1,2) show "distinct (List.map tr_id (unique_trades ts))"
    "tr_id ` set (unique_trades ts) = tr_id ` set ts"
    by (auto simp: dict_ok_def simp flip: set_map)
qed

lemma load_open_trades_InrE:
  assumes "fst (load_read_only_open_trades api original w) = Inr ts"
  obtains request_all open_trades st a b w1 w2 where
    "ta_all_open_orders api = Some request_all" "ta_open_trades api = Some open_trades"
    "request_all st w = (Inr (Rows a), w1)" "open_trades st w1 = (Inr (Rows b), w2)"
    "ts = unique_trades (a @ b)"
  using assms
  by (auto simp: load_read_only_open_trades_def Let_def io_bind_def
      split: option.splits sum.splits prod.splits response.splits)

text \<open>
  C10.  Reading open orders leaves the two SDK settings exactly as they were, whether the
  broker answers, answers with something else or raises; and a successful read is the union
  of the all-client snapshot and the local cache, each trade object once.
\<close>

theorem load_open_trades_restores_and_covers:
  "fst (snd (load_read_only_open_trades api original w)) = original
   \<and> (case fst (load_read_only_open_trades api original w) of
        Inl _ \<Rightarrow> True
      | Inr ts \<Rightarrow> (\<exists>request_all open_trades s a b w1 w2.
           ta_all_open_orders api = Some request_all \<and> ta_open_trades api = Some open_trades
           \<and> request_all s w = (Inr (Rows a), w1) \<and> open_trades s w1 = (Inr (Rows b), w2)
           \<and> tr_id ` set ts = tr_id ` set a \<union> tr_id ` set b \<and> distinct (List.map tr_id ts)))"
proof
  show "fst (snd (load_read_only_open_trades api original w)) = original"
    by (auto simp: load_read_only_open_trades_def Let_def split: option.splits sum.splits prod.splits)
  show "case fst (load_read_only_open_trades api original w) of
        Inl _ \<Rightarrow> True
      | Inr ts \<Rightarrow> (\<exists>request_all open_trades s a b w1 w2.
           ta_all_open_orders api = Some request_all \<and> ta_open_trades api = Some open_trades
           \<and> request_all s w = (Inr (Rows a), w1) \<and> open_trades s w1 = (Inr (Rows b), w2)
           \<and> tr_id ` set ts = tr_id ` set a \<union> tr_id ` set b \<and> distinct (List.map tr_id ts))"
  proof (cases "fst (load_read_only_open_trades api original w)")
    case (Inr ts)
    then obtain request_all open_trades st a b w1 w2 where *:
      "ta_all_open_orders api = Some request_all" "ta_open_trades api = Some open_trades"
      "request_all st w = (Inr (Rows a), w1)" "open_trades st w1 = (Inr (Rows b), w2)"
      and ts: "ts = unique_trades (a @ b)"
      by (rule load_open_trades_InrE)
    have "tr_id ` set ts = tr_id ` set a \<union> tr_id ` set b" "distinct (List.map tr_id ts)"
      by (simp_all add: ts unique_trades_ids image_Un)
    with * show ?thesis unfolding Inr sum.case by blast
  qed simp
qed

section \<open>Open orders that block or taint an execution\<close>

definition open_order_contract :: "trade \<Rightarrow> contract_obj option" where
  "open_order_contract t = (case tr_contract t of Some c \<Rightarrow> Some c
     | None \<Rightarrow> (case tr_order t of None \<Rightarrow> None | Some od \<Rightarrow> oo_contract od))"

definition some_text :: "string \<Rightarrow> string option" where
  "some_text s = (if s = [] then None else Some s)"

definition extract_open_order_symbol :: "trade \<Rightarrow> string option" where
  "extract_open_order_symbol t =
    (let s = (case open_order_contract t of None \<Rightarrow> VNone | Some c \<Rightarrow> co_symbol c);
         s' = (if s = VNone then tr_symbol t else s) in
     some_text (upper (v_text s')))"

definition extract_open_order_status :: "trade \<Rightarrow> string" where
  "extract_open_order_status t =
    (let s = (case tr_order_status t of None \<Rightarrow> VNone | Some st \<Rightarrow> so_status st) in
     v_text (if s = VNone then tr_status t else s))"

fun first_text :: "pyval list \<Rightarrow> string option" where
  "first_text [] = None"
| "first_text (v # vs) = (if v_text v \<noteq> [] then Some (v_text v) else first_text vs)"

definition extract_open_order_account :: "trade \<Rightarrow> string option" where
  "extract_open_order_account t =
    first_text [case tr_order t of None \<Rightarrow> VNone | Some od \<Rightarrow> oo_account od, tr_account t]"

definition terminal_order_statuses :: "string list" where
  "terminal_order_statuses = [''Cancelled'', ''ApiCancelled'', ''Inactive'', ''Filled'']"

record pending_observation =
  po_symbols :: "string list"
  po_cash_risk_unknown :: bool

definition pending_unavailable :: "string \<Rightarrow> pyexn" where
  "pending_unavailable msg = OtherError (''PendingOrdersUnavailable: '' @ msg)"

definition contract_is_stock :: "trade \<Rightarrow> bool" where
  "contract_is_stock t = (case open_order_contract t of None \<Rightarrow> False
     | Some c \<Rightarrow> upper (v_text (co_sec_type c)) = ''STK'')"

definition pending_step ::
    "string set \<Rightarrow> string list \<Rightarrow> trade \<Rightarrow> string list \<times> bool \<Rightarrow> (string list \<times> bool) res" where
  "pending_step symbols sel t st =
    (let (pend, taint) = st; account_id = extract_open_order_account t;
         symbol = extract_open_order_symbol t in
     if extract_open_order_status t \<in> set terminal_order_statuses then Inr st
     else if sel \<noteq> [] \<and> account_id = None then
       (case symbol of
          Some s \<Rightarrow> if s \<notin> symbols \<and> contract_is_stock t then Inr (pend, True)
                    else Inl (pending_unavailable ''open-order account unavailable'')
        | None \<Rightarrow> Inl (pending_unavailable ''open-order account unavailable''))
     else if \<not> matches_account account_id sel then Inr st
     else (case symbol of
         None \<Rightarrow> Inl (pending_unavailable ''open-order symbol unavailable'')
       | Some s \<Rightarrow> if s \<in> symbols then Inr (pend @ [s], taint) else Inr (pend, True)))"

definition observe_open_trades ::
    "trade list \<Rightarrow> string set \<Rightarrow> string list \<Rightarrow> pending_observation res" where
  "observe_open_trades ts symbols sel =
    res_bind (res_fold (pending_step symbols sel) ts ([], False)) (\<lambda>(pend, taint).
      Inr \<lparr>po_symbols = sort (fromkeys pend), po_cash_risk_unknown = taint\<rparr>)"

text \<open>\<open>_observe_pending_orders\<close>: a read error becomes "pending orders unavailable".\<close>

definition observe_pending_orders ::
    "'w trade_api \<Rightarrow> read_settings \<Rightarrow> string set \<Rightarrow> pyval \<Rightarrow> ('w, pending_observation) io" where
  "observe_pending_orders api settings symbols account_ids =
    io_bind (io_lift (normalize_account_ids account_ids)) (\<lambda>sel.
    io_bind (\<lambda>w. case load_read_only_open_trades api settings w of
              (Inl e, s, w') \<Rightarrow> (if raised_as ''IBKRReconciliationReadError'' e
                then Inl (pending_unavailable ''all-client open-order snapshot unavailable'') else Inl e, w')
            | (Inr ts, s, w') \<Rightarrow> (Inr ts, w')) (\<lambda>ts.
      io_lift (observe_open_trades ts symbols sel)))"

subsection \<open>No active order is overlooked\<close>

definition active_order :: "trade \<Rightarrow> bool" where
  "active_order t \<longleftrightarrow> extract_open_order_status t \<notin> set terminal_order_statuses"

text \<open>What the observation must say about one trade.\<close>

definition accounted_for :: "string set \<Rightarrow> string list \<Rightarrow> string list \<Rightarrow> bool \<Rightarrow> trade \<Rightarrow> bool" where
  "accounted_for symbols sel pend taint t =
    (if \<not> active_order t then True
     else case extract_open_order_account t of
       None \<Rightarrow> if sel = [] then (case extract_open_order_symbol t of None \<Rightarrow> False
                  | Some s \<Rightarrow> if s \<in> symbols then s \<in> set pend else taint) else taint
     | Some a \<Rightarrow> if matches_account (Some a) sel
         then (case extract_open_order_symbol t of None \<Rightarrow> False
                  | Some s \<Rightarrow> if s \<in> symbols then s \<in> set pend else taint)
         else True)"

lemma accounted_for_mono:
  "accounted_for symbols sel pend taint t \<Longrightarrow> set pend \<subseteq> set pend' \<Longrightarrow> (taint \<Longrightarrow> taint')
   \<Longrightarrow> accounted_for symbols sel pend' taint' t"
  by (auto simp: accounted_for_def split: option.splits if_splits)

lemma matches_account_all [simp]: "matches_account a []"
  by (simp add: matches_account_def)

lemma pending_step_accounts:
  assumes "pending_step symbols sel t (pend, taint) = Inr (pend', taint')"
  shows "set pend \<subseteq> set pend' \<and> (taint \<longrightarrow> taint') \<and> set pend' \<subseteq> set pend \<union> symbols
    \<and> accounted_for symbols sel pend' taint' t"
  using assms
  by (auto simp: pending_step_def accounted_for_def active_order_def Let_def
      split: if_splits option.splits)

text \<open>
  C11.  Pending-order evidence is complete: if the observation succeeds, every open order
  that is not in a terminal status and belongs (or, for want of an account, may belong) to a
  selected account is either reported under its managed symbol or taints the cash evidence;
  and every reported symbol is a managed one.
\<close>

theorem pending_observation_complete:
  assumes "observe_open_trades ts symbols sel = Inr obs"
  shows "(\<forall>t \<in> set ts. accounted_for symbols sel (po_symbols obs) (po_cash_risk_unknown obs) t)
    \<and> set (po_symbols obs) \<subseteq> symbols"
proof -
  obtain pend taint where f: "res_fold (pending_step symbols sel) ts ([], False) = Inr (pend, taint)"
    and obs: "obs = \<lparr>po_symbols = sort (fromkeys pend), po_cash_risk_unknown = taint\<rparr>"
    using assms by (auto simp: observe_open_trades_def res_bind_Inr_iff)
  have "(\<forall>t \<in> set ts. accounted_for symbols sel (fst (pend, taint)) (snd (pend, taint)) t)
      \<and> set (fst (pend, taint)) \<subseteq> symbols"
    using f
  proof (induction rule: res_fold_rule)
    case init
    then show ?case by simp
  next
    case (step ys t zs st st')
    obtain p b p' b' where st: "st = (p, b)" "st' = (p', b')" by (cases st; cases st')
    from pending_step_accounts step.hyps(2) st
    have m: "set p \<subseteq> set p' \<and> (b \<longrightarrow> b') \<and> set p' \<subseteq> set p \<union> symbols
        \<and> accounted_for symbols sel p' b' t" by blast
    have "accounted_for symbols sel p' b' x" if "x \<in> set ys" for x
      using step.IH m that st by (intro accounted_for_mono [of symbols sel p b x p' b']) auto
    with step.IH m st show ?case by auto
  qed
  then have "\<forall>t \<in> set ts. accounted_for symbols sel pend taint t" "set pend \<subseteq> symbols" by simp_all
  then show ?thesis
    using accounted_for_mono [of symbols sel pend taint _ "sort (fromkeys pend)" taint] by (simp add: obs)
qed

definition sample_trade :: "int \<Rightarrow> string \<Rightarrow> string \<Rightarrow> string \<Rightarrow> trade" where
  "sample_trade i symb acct st = \<lparr>tr_id = i,
     tr_contract = Some \<lparr>co_con_id = VInt i, co_symbol = VStr symb, co_local_symbol = VNone,
                         co_sec_type = VStr ''STK'', co_currency = VStr ''USD''\<rparr>,
     tr_order = Some \<lparr>oo_account = VStr acct, oo_contract = None, oo_perm_id = VNone, oo_action = VStr ''BUY'',
                      oo_order_type = VStr ''LMT'', oo_total_quantity = VInt 1, oo_lmt_price = VNone, oo_aux_price = VNone\<rparr>,
     tr_order_status = Some \<lparr>so_status = VStr st, so_filled = VNone, so_remaining = VNone\<rparr>,
     tr_symbol = VNone, tr_status = VNone, tr_account = VNone\<rparr>"

definition sample_trades :: "trade list" where
  "sample_trades = [sample_trade 1 ''SPY'' ''U1'' ''Submitted'', sample_trade 2 ''QQQ'' ''U2'' ''Submitted'',
     sample_trade 3 ''IWM'' ''U1'' ''PreSubmitted'', sample_trade 4 ''BIL'' ''U1'' ''Filled'']"

theorem pending_observation_complete_witness:
  "observe_open_trades sample_trades {''SPY'', ''BIL''} [''U1'']
     = Inr \<lparr>po_symbols = [''SPY''], po_cash_risk_unknown = True\<rparr>
   \<and> list_all (accounted_for {''SPY'', ''BIL''} [''U1''] [''SPY''] True) sample_trades"
proof -
  have h: "observe_open_trades sample_trades {''SPY'', ''BIL''} [''U1'']
     = Inr \<lparr>po_symbols = [''SPY''], po_cash_risk_unknown = True\<rparr>"
    by code_simp
  show ?thesis using h pending_observation_complete [OF h] by (simp add: list_all_iff)
qed

section \<open>Fills of the trading day\<close>

text \<open>
  \<open>_normalize_date_like\<close>: the conversion itself is pandas' \<open>Timestamp\<close> (a parameter that may
  raise); the empty values are decided before it.
\<close>

definition normalize_date_like :: "(pyval \<Rightarrow> string res) \<Rightarrow> pyval \<Rightarrow> string option res" where
  "normalize_date_like to_iso value =
    (case value of
       VList _ \<Rightarrow> Inl (TypeError ''unhashable type: list'')
     | VDict _ \<Rightarrow> Inl (TypeError ''unhashable type: dict'')
     | VNone \<Rightarrow> Inr None
     | VStr s \<Rightarrow> if s = [] then Inr None else res_bind (to_iso value) (\<lambda>d. Inr (Some d))
     | _ \<Rightarrow> res_bind (to_iso value) (\<lambda>d. Inr (Some d)))"

definition extract_fill_symbol :: "fill \<Rightarrow> string option" where
  "extract_fill_symbol f = some_text (upper (v_text (fi_contract_symbol f)))"

definition extract_fill_account :: "fill \<Rightarrow> string option" where
  "extract_fill_account f =
    first_text [fi_execution_acct_number f, fi_execution_account f, fi_account f]"

definition extract_fill_date :: "(pyval \<Rightarrow> string res) \<Rightarrow> fill \<Rightarrow> string option res" where
  "extract_fill_date to_iso f =
    res_bind (normalize_date_like to_iso (fi_execution_time f)) (\<lambda>d. case d of
      Some x \<Rightarrow> Inr (Some x)
    | None \<Rightarrow> normalize_date_like to_iso (fi_time f))"

definition same_day_step ::
    "(pyval \<Rightarrow> string res) \<Rightarrow> string set \<Rightarrow> string \<Rightarrow> string list \<Rightarrow> fill \<Rightarrow> string list \<Rightarrow> string list res" where
  "same_day_step to_iso symbols trade_date sel f matched =
    (if \<not> matches_account (extract_fill_account f) sel then Inr matched
     else case extract_fill_symbol f of None \<Rightarrow> Inr matched
     | Some s \<Rightarrow> if s \<notin> symbols then Inr matched
       else res_bind (extract_fill_date to_iso f) (\<lambda>d.
         Inr (if d = Some trade_date then matched @ [s] else matched)))"

text \<open>\<open>ib.fills\<close> may be missing; then there is nothing to read.\<close>

definition collect_same_day_filled_symbols ::
    "(pyval \<Rightarrow> string res) \<Rightarrow> ('w, fill list) io option \<Rightarrow> string set \<Rightarrow> string option \<Rightarrow> pyval
      \<Rightarrow> ('w, string list) io" where
  "collect_same_day_filled_symbols to_iso fills symbols trade_date account_ids =
    (case trade_date of
       None \<Rightarrow> io_return []
     | Some td \<Rightarrow> if td = [] then io_return [] else
       io_bind (io_lift (normalize_account_ids account_ids)) (\<lambda>sel.
       io_bind (case fills of None \<Rightarrow> io_return [] | Some m \<Rightarrow> m) (\<lambda>fs.
       io_bind (io_lift (res_fold (same_day_step to_iso symbols td sel) fs [])) (\<lambda>matched.
         io_return (sort (fromkeys matched))))))"

end
