(* ===== verification/RiskAuthority.thy ===== *)
theory RiskAuthority
  imports Accounts Sizing Dates
begin

text \<open>
  What an execution is allowed to trade, from \<open>application/execution_service.py\<close>: the weight
  allocation of the signal metadata (\<open>_resolve_weight_allocation\<close>), its binding to the
  approval of the risk engine (\<open>_require_live_risk_authority\<close>), the effective-date check of
  the TQQQ profile, the price fallbacks, the symbol preview and the execution mode.
\<close>

record weight_allocation =
  wa_strategy_symbols :: "string list"
  wa_risk_symbols :: "string list"
  wa_income_symbols :: "string list"
  wa_safe_haven_symbols :: "string list"
  wa_targets :: fdict

text \<open>\<open>tuple(str(symbol).strip().upper() for symbol in allocation.get(key, ()))\<close>\<close>

definition symbols_field :: "row \<Rightarrow> string \<Rightarrow> string list res" where
  "symbols_field d key = (case dict_get d key of None \<Rightarrow> Inr []
     | Some v \<Rightarrow> res_bind (v_iter v) (\<lambda>xs. Inr (List.map (\<lambda>x. symbol_text (v_str x)) xs)))"

definition target_step :: "string \<times> pyval \<Rightarrow> fdict \<Rightarrow> fdict res" where
  "target_step kv d = res_bind (v_float (snd kv)) (\<lambda>w. Inr (dict_set d (symbol_text (fst kv)) w))"

definition resolve_weight_allocation :: "row \<Rightarrow> weight_allocation res" where
  "resolve_weight_allocation metadata =
    res_bind (v_dict (vd_get metadata ''allocation'')) (\<lambda>allocation.
      if allocation = [] then Inl (ValueError ''IBKR execution requires signal_metadata.allocation'')
      else if \<not> v_eq (vd_get allocation ''target_mode'') (VStr ''weight'') then
        Inl (ValueError ''IBKR execution requires allocation.target_mode=weight'')
      else res_bind (symbols_field allocation ''strategy_symbols'') (\<lambda>strategy.
           res_bind (symbols_field allocation ''risk_symbols'') (\<lambda>risk.
           res_bind (symbols_field allocation ''income_symbols'') (\<lambda>income.
           res_bind (symbols_field allocation ''safe_haven_symbols'') (\<lambda>haven.
           res_bind (v_dict (vd_get allocation ''targets'')) (\<lambda>raw.
           res_bind (res_fold target_step raw []) (\<lambda>targets.
             Inr \<lparr>wa_strategy_symbols = strategy, wa_risk_symbols = risk, wa_income_symbols = income,
                  wa_safe_haven_symbols = haven, wa_targets = targets\<rparr>)))))))"

lemma target_fold_ok: "res_fold target_step raw d = Inr d' \<Longrightarrow> dict_ok d \<Longrightarrow> dict_ok d'"
  by (induction raw arbitrary: d) (auto simp: target_step_def res_bind_Inr_iff)

lemma resolve_targets_ok:
  "resolve_weight_allocation m = Inr al \<Longrightarrow> dict_ok (wa_targets al)"
  by (auto simp: resolve_weight_allocation_def res_bind_Inr_iff split: if_split_asm
      dest!: target_fold_ok)

section \<open>The approval of the risk engine\<close>

text \<open>\<open>x in container\<close> for a text \<open>x\<close>.\<close>

fun is_infix :: "string \<Rightarrow> string \<Rightarrow> bool" where
  "is_infix p [] = (p = [])"
| "is_infix p (c # s) = (startswith (c # s) p \<or> is_infix p s)"

fun v_contains :: "string \<Rightarrow> pyval \<Rightarrow> bool res" where
  "v_contains x (VStr s) = Inr (is_infix x s)"
| "v_contains x (VList vs) = Inr (\<exists>v \<in> set vs. v_eq v (VStr x))"
| "v_contains x (VTuple vs) = Inr (\<exists>v \<in> set vs. v_eq v (VStr x))"
| "v_contains x (VDict d) = Inr (x \<in> fst ` set d)"
| "v_contains x _ = Inl (TypeError ''argument is not iterable'')"

fun is_dict :: "pyval \<Rightarrow> bool" where
  "is_dict (VDict _) = True"
| "is_dict _ = False"

fun dict_items :: "pyval \<Rightarrow> row" where
  "dict_items (VDict d) = d"
| "dict_items _ = []"

text \<open>A Python number of type \<open>int\<close> or \<open>float\<close> as a double, and the product of two of them.\<close>

definition number_float :: "pyval \<Rightarrow> pyfloat option res" where
  "number_float v = (if exact_number v = None then Inr None else res_bind (v_float v) (\<lambda>x. Inr (Some x)))"

definition number_mul :: "pyval \<Rightarrow> pyval \<Rightarrow> pyfloat res" where
  "number_mul a b = (case (a, b) of (VInt i, VInt j) \<Rightarrow> float_of_int (i * j)
     | _ \<Rightarrow> res_bind (v_float a) (\<lambda>x. res_bind (v_float b) (\<lambda>y. Inr (fmul x y))))"

definition opt_str :: "string option \<Rightarrow> pyval" where
  "opt_str s = (case s of None \<Rightarrow> VNone | Some t \<Rightarrow> VStr t)"

definition tol_weight :: pyfloat where "tol_weight = to_float (1 / 10 ^ 9)"
definition tol_cap_rel :: pyfloat where "tol_cap_rel = to_float (1 / 10 ^ 8)"
definition tol_cap_abs :: pyfloat where "tol_cap_abs = to_float (1 / 100)"

definition authority_error :: pyexn where
  "authority_error = RuntimeError ''IBKR live execution requires a valid RiskEngine approval''"

text \<open>The first condition: the disjuncts in order, the first true one raises.\<close>

definition same_field :: "row \<Rightarrow> row \<Rightarrow> string \<Rightarrow> bool" where
  "same_field a b k = v_eq (vd_get a k) (vd_get b k)"

definition authority_matches ::
    "row \<Rightarrow> string option \<Rightarrow> pyval \<Rightarrow> row res" where
  "authority_matches metadata strategy_profile account_ids =
    (if \<not> v_eq (vd_get metadata ''risk_gate'') (VStr ''APPROVE'') then Inl authority_error
     else res_bind (v_contains ''risk_gate:passed'' (v_or (vd_get metadata ''risk_flags'') (VTuple []))) (\<lambda>passed.
     if \<not> passed then Inl authority_error
     else case vd_get metadata ''risk_authority'' of
       VDict authority \<Rightarrow>
         (if \<not> v_eq (vd_get authority ''strategy_profile'') (opt_str strategy_profile) then Inl authority_error
          else res_bind (normalize_account_ids (vd_get authority ''account_ids'')) (\<lambda>approved_ids.
               res_bind (normalize_account_ids account_ids) (\<lambda>ids.
               if approved_ids \<noteq> ids
                  \<or> \<not> same_field authority metadata ''trade_date''
                  \<or> \<not> same_field authority metadata ''signal_date''
                  \<or> \<not> same_field authority metadata ''effective_date''
                  \<or> \<not> same_field authority metadata ''snapshot_as_of''
                  \<or> \<not> is_dict (vd_get authority ''targets'')
                  \<or> \<not> is_dict (vd_get authority ''max_target_values'')
               then Inl authority_error else Inr authority)))
     | _ \<Rightarrow> Inl authority_error))"

definition limit_error :: pyexn where
  "limit_error = RuntimeError ''IBKR live order limit is invalid''"

definition cap_of_symbol :: "pyval \<Rightarrow> row \<Rightarrow> row \<Rightarrow> string \<times> pyfloat \<Rightarrow> (string \<times> pyfloat) res" where
  "cap_of_symbol equity approved_targets caps st =
    (let (symbol, target) = st; approved = vd_get approved_targets symbol; cap = vd_get caps symbol in
     res_bind (number_float approved) (\<lambda>a. case a of None \<Rightarrow> Inl limit_error | Some a \<Rightarrow>
       if \<not> isfinite a \<or> \<not> isclose (Fin 0) tol_weight target a then Inl limit_error
       else res_bind (number_float cap) (\<lambda>c. case c of None \<Rightarrow> Inl limit_error | Some c \<Rightarrow>
         if \<not> isfinite c \<or> flt c (Fin 0) then Inl limit_error
         else res_bind (number_mul approved equity) (\<lambda>m.
           if isclose tol_cap_rel tol_cap_abs c m then Inr (symbol, c) else Inl limit_error))))"

definition require_live_risk_authority ::
    "row \<Rightarrow> weight_allocation \<Rightarrow> string option \<Rightarrow> pyval \<Rightarrow> fdict res" where
  "require_live_risk_authority metadata allocation strategy_profile account_ids =
    res_bind (authority_matches metadata strategy_profile account_ids) (\<lambda>authority.
      let targets = wa_targets allocation;
          approved_targets = dict_items (vd_get authority ''targets'');
          caps = dict_items (vd_get authority ''max_target_values'');
          equity = vd_get authority ''portfolio_equity'' in
      res_bind (number_float equity) (\<lambda>e. case e of
          None \<Rightarrow> Inl (RuntimeError ''IBKR live RiskEngine portfolio equity is invalid'')
        | Some e \<Rightarrow>
          if \<not> isfinite e \<or> fle e (Fin 0) then
            Inl (RuntimeError ''IBKR live RiskEngine portfolio equity is invalid'')
          else if set (dict_keys targets) \<noteq> set (dict_keys approved_targets)
                  \<or> set (dict_keys targets) \<noteq> set (dict_keys caps) then
            Inl (RuntimeError ''IBKR live allocation differs from RiskEngine approval'')
          else res_map (cap_of_symbol equity approved_targets caps) targets))"

subsection \<open>Facts\<close>

lemma cap_of_symbol_InrE:
  assumes "cap_of_symbol equity approved caps (symbol, target) = Inr (s, c)"
  obtains a m where "s = symbol" "number_float (vd_get approved symbol) = Inr (Some a)" "isfinite a"
    "isclose (Fin 0) tol_weight target a" "number_float (vd_get caps symbol) = Inr (Some c)" "isfinite c"
    "\<not> flt c (Fin 0)" "number_mul (vd_get approved symbol) equity = Inr m" "isclose tol_cap_rel tol_cap_abs c m"
  using assms
  by (auto simp: cap_of_symbol_def Let_def elim!: res_bind_InrE split: option.split_asm if_split_asm)

lemma res_map_caps_keys:
  "res_map (cap_of_symbol equity approved caps) ts = Inr ys \<Longrightarrow> dict_keys ys = dict_keys ts"
proof (induction ts arbitrary: ys)
  case (Cons t ts)
  obtain symbol target where t: "t = (symbol, target)" by (cases t)
  from Cons.prems obtain y ys' where y: "cap_of_symbol equity approved caps t = Inr y"
    "res_map (cap_of_symbol equity approved caps) ts = Inr ys'" "ys = y # ys'"
    by (auto simp: res_bind_Inr_iff)
  moreover obtain s c where "y = (s, c)" by (cases y)
  ultimately show ?case using Cons.IH [of ys'] t
    by (auto simp: dict_keys_def elim!: cap_of_symbol_InrE)
qed (simp add: dict_keys_def)

lemma require_live_InrE:
  assumes "require_live_risk_authority metadata al sp ids = Inr caps"
  obtains authority e where "authority_matches metadata sp ids = Inr authority"
    "number_float (vd_get authority ''portfolio_equity'') = Inr (Some e)" "isfinite e" "\<not> fle e (Fin 0)"
    "set (dict_keys (wa_targets al)) = set (dict_keys (dict_items (vd_get authority ''targets'')))"
    "set (dict_keys (wa_targets al)) = set (dict_keys (dict_items (vd_get authority ''max_target_values'')))"
    "res_map (cap_of_symbol (vd_get authority ''portfolio_equity'') (dict_items (vd_get authority ''targets''))
        (dict_items (vd_get authority ''max_target_values''))) (wa_targets al) = Inr caps"
  using assms
  by (auto simp: require_live_risk_authority_def Let_def elim!: res_bind_InrE split: option.split_asm if_split_asm)

lemma authority_matches_InrE:
  assumes "authority_matches metadata sp ids = Inr authority"
  obtains k where "vd_get metadata ''risk_authority'' = VDict authority"
    "vd_get metadata ''risk_gate'' = VStr ''APPROVE''"
    "v_contains ''risk_gate:passed'' (v_or (vd_get metadata ''risk_flags'') (VTuple [])) = Inr True"
    "v_eq (vd_get authority ''strategy_profile'') (opt_str sp)"
    "normalize_account_ids (vd_get authority ''account_ids'') = Inr k" "normalize_account_ids ids = Inr k"
    "same_field authority metadata ''trade_date''" "same_field authority metadata ''signal_date''"
    "same_field authority metadata ''effective_date''" "same_field authority metadata ''snapshot_as_of''"
  using assms
  by (auto simp: authority_matches_def v_eq_str_right elim!: res_bind_InrE split: if_split_asm pyval.split_asm)

text \<open>
  C12.  Live orders are bound to the risk engine's approval.  When the live authority check
  returns caps, the gate approved and its flags say so, the approval is for this strategy profile,
  these accounts and the same four dates as the signal, the approved equity is finite and positive,
  the target symbols are exactly the approved and exactly the capped ones, every target weight is
  within 1e-9 of its approved weight, and every cap is the approved one, a finite non-negative number
  close to the approved weight times the approved portfolio equity; any deviation raises instead.
\<close>

theorem live_authority_binds_targets:
  assumes "require_live_risk_authority metadata al sp ids = Inr caps"
    and "(symbol, cap) \<in> set caps"
  shows "vd_get metadata ''risk_gate'' = VStr ''APPROVE''
    \<and> v_contains ''risk_gate:passed'' (v_or (vd_get metadata ''risk_flags'') (VTuple [])) = Inr True
    \<and> dict_keys caps = dict_keys (wa_targets al)
    \<and> (\<exists>authority equity target approved m.
         vd_get metadata ''risk_authority'' = VDict authority
       \<and> v_eq (vd_get authority ''strategy_profile'') (opt_str sp)
       \<and> (\<exists>k. normalize_account_ids (vd_get authority ''account_ids'') = Inr k \<and> normalize_account_ids ids = Inr k)
       \<and> list_all (same_field authority metadata) [''trade_date'', ''signal_date'', ''effective_date'', ''snapshot_as_of'']
       \<and> number_float (vd_get authority ''portfolio_equity'') = Inr (Some equity) \<and> isfinite equity \<and> \<not> fle equity (Fin 0)
       \<and> set (dict_keys (wa_targets al)) = set (dict_keys (dict_items (vd_get authority ''targets'')))
       \<and> set (dict_keys (wa_targets al)) = set (dict_keys (dict_items (vd_get authority ''max_target_values'')))
       \<and> (symbol, target) \<in> set (wa_targets al)
       \<and> number_float (vd_get (dict_items (vd_get authority ''targets'')) symbol) = Inr (Some approved)
       \<and> isclose (Fin 0) tol_weight target approved
       \<and> number_float (vd_get (dict_items (vd_get authority ''max_target_values'')) symbol) = Inr (Some cap)
       \<and> isfinite cap \<and> fle (Fin 0) cap
       \<and> number_mul (vd_get (dict_items (vd_get authority ''targets'')) symbol)
            (vd_get authority ''portfolio_equity'') = Inr m
       \<and> isclose tol_cap_rel tol_cap_abs cap m)"
proof -
  from assms(1) obtain authority e where r: "authority_matches metadata sp ids = Inr authority"
    "res_map (cap_of_symbol (vd_get authority ''portfolio_equity'') (dict_items (vd_get authority ''targets''))
        (dict_items (vd_get authority ''max_target_values''))) (wa_targets al) = Inr caps"
    and eq: "number_float (vd_get authority ''portfolio_equity'') = Inr (Some e)" "isfinite e" "\<not> fle e (Fin 0)"
    and keys: "set (dict_keys (wa_targets al)) = set (dict_keys (dict_items (vd_get authority ''targets'')))"
    "set (dict_keys (wa_targets al)) = set (dict_keys (dict_items (vd_get authority ''max_target_values'')))"
    by (rule require_live_InrE)
  from res_map_set [OF r(2) assms(2)] obtain st where st: "st \<in> set (wa_targets al)"
    "cap_of_symbol (vd_get authority ''portfolio_equity'') (dict_items (vd_get authority ''targets''))
        (dict_items (vd_get authority ''max_target_values'')) st = Inr (symbol, cap)" by blast
  obtain s target where s: "st = (s, target)" by (cases st)
  from r(1) obtain k where a: "vd_get metadata ''risk_authority'' = VDict authority"
    "vd_get metadata ''risk_gate'' = VStr ''APPROVE''"
    "v_contains ''risk_gate:passed'' (v_or (vd_get metadata ''risk_flags'') (VTuple [])) = Inr True"
    "v_eq (vd_get authority ''strategy_profile'') (opt_str sp)"
    "normalize_account_ids (vd_get authority ''account_ids'') = Inr k" "normalize_account_ids ids = Inr k"
    and d: "same_field authority metadata ''trade_date''" "same_field authority metadata ''signal_date''"
    "same_field authority metadata ''effective_date''" "same_field authority metadata ''snapshot_as_of''"
    by (rule authority_matches_InrE)
  have dates: "list_all (same_field authority metadata) [''trade_date'', ''signal_date'', ''effective_date'', ''snapshot_as_of'']"
    using d by simp
  from st(2) [unfolded s] obtain a' m where c: "symbol = s"
    "number_float (vd_get (dict_items (vd_get authority ''targets'')) s) = Inr (Some a')"
    "isclose (Fin 0) tol_weight target a'" "isfinite cap" "\<not> flt cap (Fin 0)"
    "number_float (vd_get (dict_items (vd_get authority ''max_target_values'')) s) = Inr (Some cap)"
    "number_mul (vd_get (dict_items (vd_get authority ''targets'')) s) (vd_get authority ''portfolio_equity'') = Inr m"
    "isclose tol_cap_rel tol_cap_abs cap m"
    by (rule cap_of_symbol_InrE)
  have "fle (Fin 0) cap" using c(4,5) by (cases cap) auto
  with a dates eq keys c st(1) s res_map_caps_keys [OF r(2)] show ?thesis by blast
qed

definition sample_metadata :: row where
  "sample_metadata =
    [(''risk_gate'', VStr ''APPROVE''), (''risk_flags'', VTuple [VStr ''risk_gate:passed'']),
     (''trade_date'', VStr ''2026-05-01''),
     (''allocation'', VDict [(''target_mode'', VStr ''weight''), (''strategy_symbols'', VList [VStr ''qqq'']),
        (''targets'', VDict [(''qqq'', VFloat (Fin (1/2)))])]),
     (''risk_authority'', VDict [(''strategy_profile'', VStr ''p''), (''account_ids'', VList [VStr ''U1'']),
        (''trade_date'', VStr ''2026-05-01''), (''targets'', VDict [(''QQQ'', VFloat (Fin (1/2)))]),
        (''max_target_values'', VDict [(''QQQ'', VInt 5000)]), (''portfolio_equity'', VInt 10000)])]"

definition sample_allocation :: weight_allocation where
  "sample_allocation = \<lparr>wa_strategy_symbols = [''QQQ''], wa_risk_symbols = [], wa_income_symbols = [],
     wa_safe_haven_symbols = [], wa_targets = [(''QQQ'', Fin (1/2))]\<rparr>"

theorem live_authority_binds_targets_witness:
  "resolve_weight_allocation sample_metadata = Inr sample_allocation
   \<and> vd_get sample_metadata ''risk_gate'' = VStr ''APPROVE''
   \<and> dict_keys [(''QQQ'', Fin 5000)] = dict_keys (wa_targets sample_allocation)"
proof -
  have r: "resolve_weight_allocation sample_metadata = Inr sample_allocation" by code_simp
  have h: "require_live_risk_authority sample_metadata sample_allocation (Some ''p'') (VTuple [VStr ''U1''])
      = Inr [(''QQQ'', Fin 5000)]" by code_simp
  show ?thesis
    using live_authority_binds_targets [OF h, of "''QQQ''" "Fin 5000"] r by simp
qed

section \<open>Effective date\<close>

text \<open>\<open>today\<close> is the current date in New York.\<close>

definition require_tqqq_effective_date :: "date \<Rightarrow> row \<Rightarrow> string option \<Rightarrow> unit res" where
  "require_tqqq_effective_date today metadata strategy_profile =
    (if strategy_profile \<noteq> Some ''tqqq_growth_income'' then Inr ()
     else case (case vd_get metadata ''effective_date'' of VStr s \<Rightarrow> parse_iso_date s | _ \<Rightarrow> None) of
       None \<Rightarrow> Inl (RuntimeError ''IBKR TQQQ execution requires a valid effective date'')
     | Some d \<Rightarrow> if d \<noteq> today then
           Inl (RuntimeError ''IBKR TQQQ signal is not effective for this trading date'')
         else Inr ())"

section \<open>Price fallbacks\<close>

text \<open>
  One symbol of \<open>_apply_snapshot_price_fallbacks\<close>: a positive price stays, otherwise a
  positive fallback is taken and the symbol is reported.
\<close>

definition price_fallback_step :: "fdict \<Rightarrow> string \<Rightarrow> fdict \<times> string list \<Rightarrow> fdict \<times> string list" where
  "price_fallback_step fallbacks symbol st =
    (let (resolved, used) = st; s = symbol_text symbol; existing = f_or (fget resolved s) (Fin 0) in
     if flt (Fin 0) existing then (dict_set resolved s existing, used)
     else case dict_get fallbacks s of
       Some p \<Rightarrow> if ftruthy p \<and> flt (Fin 0) p then (dict_set resolved s p, used @ [s]) else (resolved, used)
     | None \<Rightarrow> (resolved, used))"

definition apply_snapshot_price_fallbacks :: "fdict \<Rightarrow> string list \<Rightarrow> fdict \<Rightarrow> fdict \<times> string list" where
  "apply_snapshot_price_fallbacks prices symbols fallbacks =
    (if fallbacks = [] then (prices, [])
     else foldl (\<lambda>st s. price_fallback_step fallbacks s st) (prices, []) symbols)"

definition normalize_price_fallback_step :: "string \<times> pyval \<Rightarrow> fdict \<Rightarrow> fdict res" where
  "normalize_price_fallback_step kv d =
    (let s = symbol_text (fst kv) in
     if s = [] then Inr d
     else case v_float (snd kv) of
       Inl e \<Rightarrow> if is_type_or_value_error e then Inr d else Inl e
     | Inr p \<Rightarrow> Inr (if flt (Fin 0) p then dict_set d s p else d))"

definition normalize_price_fallbacks :: "row \<Rightarrow> fdict res" where
  "normalize_price_fallbacks metadata =
    (let raw = dict_update (dict_update [] (dict_items (vd_get metadata ''dry_run_price_fallbacks'')))
                 (dict_items (vd_get metadata ''price_fallbacks'')) in
     res_fold normalize_price_fallback_step raw [])"

section \<open>Preview and mode\<close>

definition format_symbol_preview :: "string list \<Rightarrow> string" where
  "format_symbol_preview symbols =
    (if symbols = [] then []
     else let shown = List.map symbol_text (take 3 symbols); remaining = length symbols - length shown in
       join '','' (shown @ (if 0 < remaining then [''+'' @ int_text (int remaining)] else [])))"

definition replace_char :: "char \<Rightarrow> char \<Rightarrow> string \<Rightarrow> string" where
  "replace_char a b s = List.map (\<lambda>c. if c = a then b else c) s"

definition mode_aliases :: "(string, string) dict" where
  "mode_aliases = [(''dryrun'', ''dry_run''), (''dry_run_only'', ''dry_run''),
     (''paper_trading'', ''paper''), (''live_trading'', ''live'')]"

definition resolve_execution_mode :: "bool \<Rightarrow> string option \<Rightarrow> string res" where
  "resolve_execution_mode dry_run_only execution_mode =
    (if dry_run_only then Inr ''dry_run''
     else let raw = (case execution_mode of None \<Rightarrow> ''paper'' | Some m \<Rightarrow> if m = [] then ''paper'' else m);
              n = replace_char (CHR ''-'') (CHR ''_'') (lower (strip raw));
              mode = dict_get_default mode_aliases n n in
       if mode = ''dry_run'' then Inl (ValueError ''execution_mode=dry_run requires dry_run_only=True'')
       else if mode \<notin> {''paper'', ''live''} then Inl (ValueError ''execution_mode must be paper or live'')
       else Inr mode)"

lemma resolve_execution_mode_cases:
  "resolve_execution_mode dry m = Inr r \<Longrightarrow> r = (if dry then ''dry_run'' else r) \<and> (dry \<or> r \<in> {''paper'', ''live''})"
  by (auto simp: resolve_execution_mode_def Let_def split: if_split_asm option.split_asm)

lemma price_fallback_invariant:
  assumes "foldl (\<lambda>st s. price_fallback_step fallbacks s st) (prices, used0) symbols = (resolved, used)"
  shows "set used0 \<subseteq> set used \<and> (\<forall>s. flt (Fin 0) (fget prices s) \<longrightarrow> fget resolved s = fget prices s)
     \<and> (\<forall>s. fget resolved s \<noteq> fget prices s \<longrightarrow>
          s \<in> set used \<and> dict_get fallbacks s = Some (fget resolved s) \<and> flt (Fin 0) (fget resolved s))"
  using assms
proof (induction symbols arbitrary: prices used0)
  case (Cons x xs)
  obtain p1 u1 where st: "price_fallback_step fallbacks x (prices, used0) = (p1, u1)" by fastforce
  have 1: "set used0 \<subseteq> set u1 \<and> (\<forall>s. flt (Fin 0) (fget prices s) \<longrightarrow> fget p1 s = fget prices s)
     \<and> (\<forall>s. fget p1 s \<noteq> fget prices s \<longrightarrow>
          s \<in> set u1 \<and> dict_get fallbacks s = Some (fget p1 s) \<and> flt (Fin 0) (fget p1 s))"
    using st by (auto simp: price_fallback_step_def Let_def fget_def dict_get_default_def
        split: if_split_asm option.split_asm option.split)
  from Cons.IH [of p1 u1] Cons.prems st
  have 2: "set u1 \<subseteq> set used \<and> (\<forall>s. flt (Fin 0) (fget p1 s) \<longrightarrow> fget resolved s = fget p1 s)
     \<and> (\<forall>s. fget resolved s \<noteq> fget p1 s \<longrightarrow>
          s \<in> set used \<and> dict_get fallbacks s = Some (fget resolved s) \<and> flt (Fin 0) (fget resolved s))"
    by simp
  from 1 2 show ?case by (metis subset_iff)
qed simp

text \<open>
  Price fallbacks only fill gaps: after \<open>_apply_snapshot_price_fallbacks\<close> every symbol
  that had a positive price has the same price, every symbol whose price changed is reported
  as a fallback symbol and now carries its positive fallback price.
\<close>

theorem price_fallbacks_only_fill_gaps:
  assumes "apply_snapshot_price_fallbacks prices symbols fallbacks = (resolved, used)"
  shows "(\<forall>s. flt (Fin 0) (fget prices s) \<longrightarrow> fget resolved s = fget prices s)
     \<and> (\<forall>s. fget resolved s \<noteq> fget prices s \<longrightarrow>
          s \<in> set used \<and> dict_get fallbacks s = Some (fget resolved s) \<and> flt (Fin 0) (fget resolved s))"
  using assms price_fallback_invariant [of fallbacks prices "[]" symbols resolved used]
  by (simp add: apply_snapshot_price_fallbacks_def split: if_split_asm)

theorem price_fallbacks_only_fill_gaps_witness:
  "apply_snapshot_price_fallbacks [(''SPY'', Fin 500)] [''spy'', ''bil''] [(''SPY'', Fin 1), (''BIL'', Fin 91)]
     = ([(''SPY'', Fin 500), (''BIL'', Fin 91)], [''BIL''])
   \<and> dict_get [(''SPY'', Fin 1), (''BIL'', Fin 91)] ''BIL'' = Some (Fin 91)"
proof -
  have h: "apply_snapshot_price_fallbacks [(''SPY'', Fin 500)] [''spy'', ''bil''] [(''SPY'', Fin 1), (''BIL'', Fin 91)]
     = ([(''SPY'', Fin 500), (''BIL'', Fin 91)], [''BIL''])" by code_simp
  have "fget [(''SPY'', Fin 500), (''BIL'', Fin 91)] ''BIL'' \<noteq> fget [(''SPY'', Fin 500)] ''BIL''"
    and "fget [(''SPY'', Fin 500), (''BIL'', Fin 91)] ''BIL'' = Fin 91" by code_simp+
  with h price_fallbacks_only_fill_gaps [OF h] show ?thesis by metis
qed

end
