(* ===== verification/Options.thy ===== *)
theory Options
  imports SettledGuard RiskAuthority
begin

text \<open>
  Option intents of \<open>application/execution_service.py\<close>: reading them from the signal
  metadata, recognising the executable ones, recording the others as skipped, building the
  broker intents and \<open>_execute_option_order_intents\<close> itself.  The broker's
  \<open>submit_order_intent\<close> is a parameter that may raise and change the world.
\<close>

definition normalize_option_order_intents :: "row \<Rightarrow> row list res" where
  "normalize_option_order_intents metadata =
    (let payload = vd_get metadata ''option_order_intents'';
         raw = (case payload of VDict d \<Rightarrow> vd_get d ''intents'' | v \<Rightarrow> v) in
     res_bind (v_iter (v_or raw (VTuple []))) (\<lambda>xs.
       Inr (concat (List.map (\<lambda>x. case x of VDict d \<Rightarrow> [d] | _ \<Rightarrow> []) xs))))"

definition intent_underlier :: "row \<Rightarrow> string" where
  "intent_underlier i = symbol_text (v_str (v_or (v_or (vd_get i ''underlier'') (vd_get i ''symbol'')) (VStr [])))"

definition option_intent_underliers :: "row list \<Rightarrow> string list" where
  "option_intent_underliers intents = sort (fromkeys (filter (\<lambda>u. u \<noteq> []) (List.map intent_underlier intents)))"

definition intent_action :: "row \<Rightarrow> string" where
  "intent_action i = lower (v_text (vd_get i ''action''))"

definition is_executable_option_intent :: "row \<Rightarrow> bool" where
  "is_executable_option_intent i =
    (let intent_type = v_text (vd_get i ''intent_type''); action = intent_action i;
         option = (lower (v_text (vd_get i ''asset_class'')) = ''option'') in
     (option \<and> intent_type = ''single_leg_option'' \<and> action \<in> {''buy_to_open'', ''sell_to_close''})
     \<or> (option \<and> intent_type = ''multi_leg_option'' \<and> action = ''sell_to_open_put_credit_spread''))"

definition has_executable_option_plan :: "row list \<Rightarrow> bool" where
  "has_executable_option_plan intents = (\<exists>i \<in> set intents. is_executable_option_intent i)"

definition format_option_intent_symbol :: "row \<Rightarrow> string res" where
  "format_option_intent_symbol i =
    (let underlier = intent_underlier i; expiration = v_text (vd_get i ''expiration'') in
     if v_text (vd_get i ''intent_type'') = ''multi_leg_option'' then
       Inr (strip (underlier @ '' '' @ expiration @ '' PCS''))
     else let right = upper (v_text (vd_get i ''right'')); strike = vd_get i ''strike'';
              plain = (if underlier = [] then ''<option>'' else underlier) in
       if underlier \<noteq> [] \<and> right \<noteq> [] \<and> expiration \<noteq> [] then
         res_bind (none_or_empty strike) (\<lambda>absent.
           if absent then Inr plain
           else res_bind (v_float strike) (\<lambda>k. Inr (underlier @ '' '' @ expiration @ '' '' @ fmt_g k @ right)))
       else Inr plain)"

definition unsupported_step :: "row \<Rightarrow> exec_summary \<Rightarrow> exec_summary res" where
  "unsupported_step i s =
    (if is_executable_option_intent i then Inr s
     else res_bind (format_option_intent_symbol i) (\<lambda>symbol.
       Inr (add_reason (''unsupported_option_intent_type:'' @ symbol)
         (upd_buckets True (\<lambda>b. b\<lparr>skipped := skipped b @
            [[(''symbol'', VStr symbol), (''action'', VStr (v_str (v_or (vd_get i ''action'') (VStr [])))),
              (''intent_type'', VStr (v_str (v_or (vd_get i ''intent_type'') (VStr [])))),
              (''reason'', VStr ''unsupported_option_intent_type'')]]\<rparr>) s))))"

definition record_unsupported_option_intents :: "row list \<Rightarrow> exec_summary \<Rightarrow> exec_summary res" where
  "record_unsupported_option_intents intents s = res_fold unsupported_step intents s"

text \<open>The keyword arguments shared by the two builders.\<close>

definition intent_limit_price :: "row \<Rightarrow> pyfloat option res" where
  "intent_limit_price i = res_bind (none_or_empty (vd_get i ''limit_price'')) (\<lambda>absent.
     if absent then Inr None else res_bind (v_float (vd_get i ''limit_price'')) (\<lambda>p. Inr (Some p)))"

definition option_intent_of :: "string \<Rightarrow> string \<Rightarrow> string \<Rightarrow> row \<Rightarrow> string option \<Rightarrow> order_intent res" where
  "option_intent_of side intent_type security_type i account_id =
    res_bind (v_float (v_or (vd_get i ''quantity'') (VFloat (Fin 0)))) (\<lambda>quantity.
    res_bind (intent_limit_price i) (\<lambda>limit.
      Inr \<lparr>oi_symbol = intent_underlier i, oi_side = side, oi_quantity = quantity,
           oi_order_type = Some (lower (strip (v_str (v_or (vd_get i ''order_type'') (VStr ''limit''))))),
           oi_limit_price = limit,
           oi_time_in_force = Some (symbol_text (v_str (v_or (vd_get i ''time_in_force'') (VStr ''DAY'')))),
           oi_account_id = account_id,
           oi_metadata = Some (dict_update i [(''asset_class'', VStr ''option''),
              (''intent_type'', VStr intent_type), (''security_type'', VStr security_type)])\<rparr>))"

definition build_single_leg_option_order_intent :: "row \<Rightarrow> string option \<Rightarrow> order_intent res" where
  "build_single_leg_option_order_intent i account_id =
    option_intent_of (if startswith (intent_action i) ''buy'' then ''buy'' else ''sell'')
      ''single_leg_option'' ''OPT'' i account_id"

definition build_multi_leg_option_order_intent :: "row \<Rightarrow> string option \<Rightarrow> order_intent res" where
  "build_multi_leg_option_order_intent i account_id =
    option_intent_of ''sell'' ''multi_leg_option'' ''BAG'' i account_id"

section \<open>Execution\<close>

record option_state =
  os_summary :: exec_summary
  os_logs :: "string list"
  os_buying_power :: pyfloat

definition os_skip :: "row \<Rightarrow> option_state \<Rightarrow> option_state" where
  "os_skip r st = st\<lparr>os_summary := upd_buckets True (\<lambda>b. b\<lparr>skipped := skipped b @ [r]\<rparr>) (os_summary st)\<rparr>"

record option_numbers =
  on_quantity :: pyfloat
  on_limit_price :: pyfloat
  on_notional :: pyfloat
  on_max_loss :: pyfloat

definition option_numbers_of :: "row \<Rightarrow> pyfloat \<Rightarrow> option_numbers res" where
  "option_numbers_of i quantity =
    res_bind (v_float (v_or (vd_get i ''limit_price'') (VFloat (Fin 0)))) (\<lambda>limit.
    res_bind (v_float (v_or (vd_get i ''contract_multiplier'') (VFloat (Fin 100)))) (\<lambda>mult.
    res_bind (v_float (v_or (vd_get i ''max_notional_usd'') (VFloat (fmul (fmul quantity limit) mult)))) (\<lambda>notional.
    res_bind (v_float (v_or (vd_get i ''max_loss_usd'') (VFloat (Fin 0)))) (\<lambda>loss.
      Inr \<lparr>on_quantity = quantity, on_limit_price = limit, on_notional = notional, on_max_loss = loss\<rparr>))))"

text \<open>What an accepted option order takes from the buying power.\<close>

definition option_charge :: "row \<Rightarrow> option_numbers \<Rightarrow> pyfloat \<Rightarrow> pyfloat" where
  "option_charge i n buying_power =
    (if startswith (intent_action i) ''buy'' then fsub buying_power (on_notional n)
     else if v_text (vd_get i ''intent_type'') = ''multi_leg_option'' then fsub buying_power (on_max_loss n)
     else buying_power)"

definition option_affordable :: "row \<Rightarrow> option_numbers \<Rightarrow> pyfloat \<Rightarrow> string option" where
  "option_affordable i n buying_power =
    (let limit = py_max (Fin 0) (fmul buying_power f095) in
     if startswith (intent_action i) ''buy'' \<and> flt limit (on_notional n) then Some ''insufficient_buying_power''
     else if v_text (vd_get i ''intent_type'') = ''multi_leg_option'' \<and> flt limit (on_max_loss n)
       then Some ''insufficient_buying_power_for_defined_risk''
     else None)"

definition submit_option ::
    "(order_intent \<Rightarrow> ('w, exec_report) io) \<Rightarrow> quantity_lib \<Rightarrow> translator \<Rightarrow> string option
     \<Rightarrow> row \<Rightarrow> string \<Rightarrow> option_numbers \<Rightarrow> row \<Rightarrow> option_state \<Rightarrow> ('w, option_state) io" where
  "submit_option submit ql tr account i symbol n payload st =
    io_bind (io_lift (if v_text (vd_get i ''intent_type'') = ''multi_leg_option''
              then build_multi_leg_option_order_intent i account
              else build_single_leg_option_order_intent i account)) (\<lambda>order_intent.
    io_bind (submit order_intent) (\<lambda>report.
    io_bind (io_lift (check_order_submitted (ql_format ql) tr report)) (\<lambda>(_, status_msg).
      let status = v_str (v_or (rep_status report) (VStr []));
          order_payload = dict_update payload [(''status'', VStr status), (''broker_order_id'', broker_order_id report)];
          (outcome, s) = record_order_outcome True (VStr status) order_payload (os_summary st);
          line = ''option '' @ intent_action i @ '' '' @ symbol @ '' '' @ ql_format ql (VFloat (on_quantity n))
                   @ '' @'' @ fmt_fixed False 2 (on_limit_price n) @ '' '' @ status_msg in
      io_return (st\<lparr>os_summary := s, os_logs := os_logs st @ [line],
         os_buying_power := (if outcome \<noteq> OutFailed then option_charge i n (os_buying_power st) else os_buying_power st)\<rparr>))))"

text \<open>One executable intent of positive quantity.\<close>

definition option_order ::
    "(order_intent \<Rightarrow> ('w, exec_report) io) \<Rightarrow> quantity_lib \<Rightarrow> translator \<Rightarrow> bool \<Rightarrow> string option
     \<Rightarrow> row \<Rightarrow> string \<Rightarrow> option_numbers \<Rightarrow> option_state \<Rightarrow> ('w, option_state) io" where
  "option_order submit ql tr dry_run account i symbol n st =
    (let action = intent_action i; quantity = VFloat (on_quantity n); limit = VFloat (on_limit_price n) in
     case option_affordable i n (os_buying_power st) of
       Some reason \<Rightarrow>
         (let st' = os_skip [(''symbol'', VStr symbol), (''action'', VStr action), (''quantity'', quantity),
                     (''limit_price'', limit), (''reason'', VStr reason)] st in
          io_return (st'\<lparr>os_summary := add_reason (''option_insufficient_buying_power:'' @ symbol) (os_summary st')\<rparr>))
     | None \<Rightarrow>
         (let payload = [(''symbol'', VStr symbol),
                (''underlier'', VStr (upper (v_text (vd_get i ''underlier'')))),
                (''action'', VStr action), (''quantity'', quantity), (''limit_price'', limit),
                (''status'', VStr (if dry_run then ''dry_run'' else ''pending''))] in
          if dry_run then
            io_return (st\<lparr>os_summary := upd_buckets True (\<lambda>b. b\<lparr>submitted := submitted b @ [payload]\<rparr>) (os_summary st),
               os_logs := os_logs st @ [''DRY_RUN option '' @ action @ '' '' @ symbol @ '' ''
                 @ ql_format ql quantity @ '' @'' @ fmt_fixed False 2 (on_limit_price n)],
               os_buying_power := option_charge i n (os_buying_power st)\<rparr>)
          else submit_option submit ql tr account i symbol n payload st))"

definition option_step ::
    "(order_intent \<Rightarrow> ('w, exec_report) io) \<Rightarrow> quantity_lib \<Rightarrow> translator \<Rightarrow> bool \<Rightarrow> string option
     \<Rightarrow> row \<Rightarrow> option_state \<Rightarrow> ('w, option_state) io" where
  "option_step submit ql tr dry_run account i st =
    (if \<not> is_executable_option_intent i then io_return st
     else io_bind (io_lift (format_option_intent_symbol i)) (\<lambda>symbol.
          io_bind (io_lift (v_float (v_or (vd_get i ''quantity'') (VFloat (Fin 0))))) (\<lambda>quantity.
       if fle quantity (Fin 0) then
         io_return (os_skip [(''symbol'', VStr symbol), (''action'', vd_get i ''action''),
                             (''reason'', VStr ''quantity_zero'')] st)
       else io_bind (io_lift (option_numbers_of i quantity)) (\<lambda>n.
         option_order submit ql tr dry_run account i symbol n st))))"

definition execute_option_order_intents ::
    "(order_intent \<Rightarrow> ('w, exec_report) io) \<Rightarrow> quantity_lib \<Rightarrow> translator \<Rightarrow> bool \<Rightarrow> string option
     \<Rightarrow> row list \<Rightarrow> option_state \<Rightarrow> ('w, option_state) io" where
  "execute_option_order_intents submit ql tr dry_run account intents st =
    (if intents = [] then io_return st
     else io_bind (io_lift (record_unsupported_option_intents intents (os_summary st))) (\<lambda>s.
       io_fold (option_step submit ql tr dry_run account) intents (st\<lparr>os_summary := s\<rparr>)))"

section \<open>Facts\<close>

lemma orders_upd_option [simp]: "orders (upd_buckets True f s) = orders s"
  by (simp add: upd_buckets_def)

lemma orders_add_reason [simp]: "orders (add_reason r s) = orders s"
  by (simp add: add_reason_def)

lemma orders_os_skip [simp]: "orders (os_summary (os_skip r st)) = orders (os_summary st)"
  by (simp add: os_skip_def)

lemma orders_unsupported:
  "record_unsupported_option_intents intents s = Inr s' \<Longrightarrow> orders s' = orders s"
  unfolding record_unsupported_option_intents_def
  by (induction intents arbitrary: s)
    (auto simp: unsupported_step_def elim!: res_bind_InrE split: if_split_asm)

lemma orders_record_option [simp]:
  "orders (snd (record_order_outcome True status payload s)) = orders s"
  by (simp add: record_order_outcome_def Let_def)

lemma submit_option_orders:
  assumes "submit_option submit ql tr account i symbol n payload st w = (Inr st', w')"
  shows "orders (os_summary st') = orders (os_summary st)"
  using assms unfolding submit_option_def
  by (elim io_bind_InrE) (auto simp: Let_def case_prod_beta)

lemma option_order_orders:
  assumes "option_order submit ql tr dry account i symbol n st w = (Inr st', w')"
  shows "orders (os_summary st') = orders (os_summary st)"
  using assms
  by (auto simp: option_order_def Let_def split: option.split_asm if_split_asm dest: submit_option_orders)

lemma option_step_orders:
  assumes "option_step submit ql tr dry account i st w = (Inr st', w')"
  shows "orders (os_summary st') = orders (os_summary st)"
  using assms
  by (auto simp: option_step_def elim!: io_bind_InrE split: if_split_asm dest: option_order_orders)

lemma option_step_dry_world: "snd (option_step submit ql tr True account i st w) = w"
  by (auto simp: option_step_def option_order_def Let_def io_bind_def split: prod.split sum.split option.split)

lemma option_fold_dry_world: "snd (io_fold (option_step submit ql tr True account) intents st w) = w"
proof (induction intents arbitrary: st w)
  case (Cons i intents)
  obtain r w1 where s: "option_step submit ql tr True account i st w = (r, w1)" by fastforce
  then have "w1 = w" using option_step_dry_world [of submit ql tr account i st w] by simp
  with s Cons.IH show ?case by (cases r) (simp_all add: io_bind_def)
qed simp

text \<open>
  C14.  Option execution is confined: whatever the intents, the stock order lists of the
  summary are left as they were, and in dry-run mode the broker is never called (the world
  is unchanged, even when an intent makes the run raise).
\<close>

theorem option_execution_confined:
  "snd (execute_option_order_intents submit ql tr True account intents st w) = w
   \<and> (case fst (execute_option_order_intents submit ql tr dry account intents st w) of
        Inr st' \<Rightarrow> orders (os_summary st') = orders (os_summary st) | Inl e \<Rightarrow> True)"
proof
  show "snd (execute_option_order_intents submit ql tr True account intents st w) = w"
    by (cases "record_unsupported_option_intents intents (os_summary st)")
      (simp_all add: execute_option_order_intents_def io_bind_def option_fold_dry_world)
  have "orders (os_summary st') = orders (os_summary st)"
    if "execute_option_order_intents submit ql tr dry account intents st w = (Inr st', w')" for st' w'
  proof (cases "intents = []")
    case False
    with that obtain s where s: "record_unsupported_option_intents intents (os_summary st) = Inr s"
      "io_fold (option_step submit ql tr dry account) intents (st\<lparr>os_summary := s\<rparr>) w = (Inr st', w')"
      by (auto simp: execute_option_order_intents_def elim!: io_bind_InrE)
    from s(2) have "orders (os_summary st') = orders s"
      by (rule io_fold_rule [where P = "\<lambda>_ t _. orders (os_summary t) = orders s"])
        (auto dest: option_step_orders)
    with orders_unsupported [OF s(1)] show ?thesis by simp
  qed (use that in \<open>simp add: execute_option_order_intents_def\<close>)
  then show "case fst (execute_option_order_intents submit ql tr dry account intents st w) of
        Inr st' \<Rightarrow> orders (os_summary st') = orders (os_summary st) | Inl e \<Rightarrow> True"
    by (cases "execute_option_order_intents submit ql tr dry account intents st w") (auto split: sum.split)
qed

end
