(* ===== verification/Json.thy ===== *)
theory Json
  imports PyValue
begin

text \<open>
  \<open>json.dumps\<close> for values of unknown type: key order (as inserted or sorted), separators,
  text escapes for ASCII text, and the three non-finite floats.  The sources hash these
  texts and store them; \<open>json_plain\<close> is what reading such a text back gives (tuples become
  lists).
\<close>

definition json_char :: "char \<Rightarrow> string" where
  "json_char c = (let n = (of_char c :: nat); bs = char_of (92::nat) in
     if n = 34 \<or> n = 92 then [bs, c]
     else if n = 10 then [bs, CHR ''n''] else if n = 13 then [bs, CHR ''r''] else if n = 9 then [bs, CHR ''t'']
     else if n = 8 then [bs, CHR ''b''] else if n = 12 then [bs, CHR ''f'']
     else if n < 32 then bs # ''u00'' @ [hex_digit (n div 16), hex_digit (n mod 16)]
     else [c])"

definition json_string :: "string \<Rightarrow> string" where
  "json_string s = (let q = char_of (34::nat) in q # concat (List.map json_char s) @ [q])"

fun json_float :: "pyfloat \<Rightarrow> string" where
  "json_float NaN = ''NaN''"
| "json_float PInf = ''Infinity''"
| "json_float NInf = ''-Infinity''"
| "json_float x = float_repr x"

fun json_dump :: "bool \<Rightarrow> string \<Rightarrow> string \<Rightarrow> pyval \<Rightarrow> string" where
  "json_dump srt isep ksep VNone = ''null''"
| "json_dump srt isep ksep (VBool b) = (if b then ''true'' else ''false'')"
| "json_dump srt isep ksep (VInt k) = int_text k"
| "json_dump srt isep ksep (VFloat x) = json_float x"
| "json_dump srt isep ksep (VStr s) = json_string s"
| "json_dump srt isep ksep (VList xs) = ''['' @ join isep (List.map (json_dump srt isep ksep) xs) @ '']''"
| "json_dump srt isep ksep (VTuple xs) = ''['' @ join isep (List.map (json_dump srt isep ksep) xs) @ '']''"
| "json_dump srt isep ksep (VDict d) =
     (let kvs = List.map (\<lambda>(k, v). (k, json_dump srt isep ksep v)) d in
      ''{'' @ join isep (List.map (\<lambda>(k, t). json_string k @ ksep @ t)
        (if srt then sort_key fst kvs else kvs)) @ ''}'')"

definition json_compact :: "pyval \<Rightarrow> string" where
  "json_compact = json_dump False '','' '':''"

definition json_canonical :: "pyval \<Rightarrow> string" where
  "json_canonical = json_dump True '','' '':''"

definition json_sorted :: "pyval \<Rightarrow> string" where
  "json_sorted = json_dump True '', '' '': ''"

fun json_plain :: "pyval \<Rightarrow> pyval" where
  "json_plain (VList xs) = VList (List.map json_plain xs)"
| "json_plain (VTuple xs) = VList (List.map json_plain xs)"
| "json_plain (VDict d) = VDict (List.map (\<lambda>(k, v). (k, json_plain v)) d)"
| "json_plain v = v"

lemma json_plain_idem [simp]: "json_plain (json_plain v) = json_plain v"
  by (induction v rule: json_plain.induct) (auto simp: comp_def)

end
