(* ===== verification/ExecutionLock.thy ===== *)
theory ExecutionLock
  imports RiskAuthority Json
begin

text \<open>
  The daily execution lock of \<open>application/execution_service.py\<close>: the target hash, the file
  name of the lock, the exclusive creation of its file and the record it holds, and the
  target rows and lines of the execution report.  SHA-256, the clock and the temporary
  directory are parameters; the file system is a dictionary from paths to contents, and what goes
  wrong with the disk while a lock is created is a parameter too.
\<close>

section \<open>Tokens, hash and path\<close>

definition round_weight :: "pyfloat \<Rightarrow> pyfloat" where
  "round_weight w = fround 8 (f_or w (Fin 0))"

definition build_target_hash :: "(string \<Rightarrow> string) \<Rightarrow> fdict \<Rightarrow> string" where
  "build_target_hash sha256 weights =
    sha256 (json_compact (VList (List.map (\<lambda>(s, w). VList [VStr s, VFloat (round_weight w)]) (sort_key fst weights))))"

definition is_alnum :: "char \<Rightarrow> bool" where
  "is_alnum c = (let n = (of_char c :: nat) in is_digit c \<or> (65 \<le> n \<and> n \<le> 90) \<or> (97 \<le> n \<and> n \<le> 122))"

definition token_char :: "char \<Rightarrow> bool" where
  "token_char c = (is_alnum c \<or> c \<in> {CHR ''-'', CHR ''_'', CHR ''.''})"

definition sanitize_token :: "string \<Rightarrow> string" where
  "sanitize_token value = (let text = strip value in
     if text = [] then ''none'' else List.map (\<lambda>c. if token_char c then c else CHR ''_'') text)"

definition or_text :: "string option \<Rightarrow> string \<Rightarrow> string" where
  "or_text v d = (case v of None \<Rightarrow> d | Some t \<Rightarrow> if t = [] then d else t)"

record lock_scope =
  ls_strategy_profile :: "string option"
  ls_account_group :: "string option"
  ls_service_name :: "string option"
  ls_trade_date :: "string option"
  ls_snapshot_date :: "string option"
  ls_execution_mode :: string

definition resolve_execution_lock_path :: "string \<Rightarrow> lock_scope \<Rightarrow> string option \<Rightarrow> string" where
  "resolve_execution_lock_path tempdir sc execution_lock_dir =
    (let lock_dir = or_text execution_lock_dir (tempdir @ ''/ibkr_execution_locks'') in
     lock_dir @ ''/'' @ join ''__''
       [sanitize_token (or_text (ls_account_group sc) ''default''),
        sanitize_token (or_text (ls_service_name sc) ''service''),
        sanitize_token (or_text (ls_strategy_profile sc) ''unknown''),
        sanitize_token (ls_execution_mode sc),
        sanitize_token (or_text (ls_trade_date sc) []),
        sanitize_token (or_text (ls_snapshot_date sc) ''no_snapshot'')] @ ''.json'')"

section \<open>The lock file\<close>

datatype file_body = JsonFile pyval | OtherFile | UnreadableFile pyexn

type_synonym files = "(string, file_body) dict"

definition read_execution_lock :: "string \<Rightarrow> (files, pyval option) io" where
  "read_execution_lock path fs = (case dict_get fs path of
      None \<Rightarrow> (Inr None, fs)
    | Some (JsonFile v) \<Rightarrow> (Inr (Some v), fs)
    | Some OtherFile \<Rightarrow> (Inl (ValueError ''invalid json''), fs)
    | Some (UnreadableFile x) \<Rightarrow> (Inl x, fs))"

text \<open>
  \<open>open("x")\<close>: the file is created only if it does not exist.  The directory may not be made,
  the open may fail in another way than \<open>FileExistsError\<close>, and writing or closing the created
  file may fail, which leaves it with some body.
\<close>

datatype disk = DiskOk | NoDirectory pyexn | NotOpened pyexn | NotWritten pyexn file_body

definition try_create_execution_lock :: "disk \<Rightarrow> string \<Rightarrow> row \<Rightarrow> (files, bool) io" where
  "try_create_execution_lock disk path payload fs = (case disk of
      NoDirectory x \<Rightarrow> (Inl x, fs)
    | NotOpened x \<Rightarrow> (Inl x, fs)
    | NotWritten x left_body \<Rightarrow> (if dict_get fs path = None then (Inl x, dict_set fs path left_body) else (Inr False, fs))
    | DiskOk \<Rightarrow> (if dict_get fs path = None then (Inr True, dict_set fs path (JsonFile (json_plain (VDict payload))))
        else (Inr False, fs)))"

text \<open>\<open>now_text\<close> is \<open>datetime.now(timezone.utc).isoformat(timespec="seconds")\<close>.\<close>

definition build_execution_lock_payload :: "string \<Rightarrow> lock_scope \<Rightarrow> string list \<Rightarrow> string \<Rightarrow> row" where
  "build_execution_lock_payload now_text sc account_ids target_hash =
    [(''strategy_profile'', opt_str (ls_strategy_profile sc)),
     (''account_group'', opt_str (ls_account_group sc)),
     (''service_name'', opt_str (ls_service_name sc)),
     (''account_ids'', VList (List.map VStr account_ids)),
     (''trade_date'', opt_str (ls_trade_date sc)),
     (''snapshot_date'', opt_str (ls_snapshot_date sc)),
     (''mode'', VStr (ls_execution_mode sc)),
     (''target_hash'', VStr target_hash),
     (''created_at'', VStr (now_text @ ''Z''))]"

text \<open>
  Any number of runs, in any order, attempting to take locks: what each was told and the
  files afterwards.
\<close>

fun lock_attempts :: "(disk \<times> string \<times> row) list \<Rightarrow> files \<Rightarrow> (string \<times> row \<times> bool) list \<times> files" where
  "lock_attempts [] fs = ([], fs)"
| "lock_attempts ((k, p, r) # rest) fs =
    (case try_create_execution_lock k p r fs of
       (Inr b, fs') \<Rightarrow> (let (res, fs2) = lock_attempts rest fs' in ((p, r, b) # res, fs2))
     | (Inl _, fs') \<Rightarrow> lock_attempts rest fs')"

definition winners :: "string \<Rightarrow> (string \<times> row \<times> bool) list \<Rightarrow> row list" where
  "winners p res = List.map (\<lambda>(_, r, _). r) (filter (\<lambda>(q, _, b). q = p \<and> b) res)"

lemma winners_simps [simp]:
  "winners p [] = []"
  "winners p ((q, r, b) # res) = (if q = p \<and> b then r # winners p res else winners p res)"
  by (simp_all add: winners_def)

lemma try_create_result:
  assumes "try_create_execution_lock k p r fs = (x, fs')"
  shows "q \<noteq> p \<or> dict_get fs q \<noteq> None \<Longrightarrow> dict_get fs' q = dict_get fs q"
    and "x = Inr True \<longleftrightarrow> dict_get fs p = None \<and> k = DiskOk"
    and "x = Inr True \<Longrightarrow> dict_get fs' p = Some (JsonFile (json_plain (VDict r)))"
  using assms by (auto simp: try_create_execution_lock_def split: disk.split_asm if_split_asm)

lemma lock_attempts_kept:
  "dict_get fs p = Some body \<Longrightarrow> lock_attempts atts fs = (res, fs')
   \<Longrightarrow> winners p res = [] \<and> dict_get fs' p = Some body"
proof (induction atts arbitrary: fs res)
  case (Cons a atts)
  obtain k q r where a: "a = (k, q, r)" by (cases a)
  obtain x fs1 where t: "try_create_execution_lock k q r fs = (x, fs1)" by (metis surj_pair)
  have kept: "dict_get fs1 p = Some body" using try_create_result(1) [OF t, of p] Cons.prems(1) by simp
  have "x = Inr True \<Longrightarrow> q \<noteq> p" using try_create_result(2) [OF t] Cons.prems(1) by auto
  with Cons.prems(2) Cons.IH [OF kept] show ?case
    by (cases x) (auto simp: a t split: prod.split_asm)
qed simp

text \<open>
  The execution lock has one holder: over any sequence of attempts by any runs, whatever the
  disk does to them, at most one attempt on a given lock path succeeds, none if the file was
  there before (it is then left as it was), and the file then holds the payload of the winner.
\<close>

theorem execution_lock_single_winner:
  "case lock_attempts atts fs of (res, fs') \<Rightarrow>
     (winners p res = [] \<and> (dict_get fs p = None \<or> dict_get fs' p = dict_get fs p)
      \<or> dict_get fs p = None
        \<and> (\<exists>r. winners p res = [r] \<and> dict_get fs' p = Some (JsonFile (json_plain (VDict r)))))"
proof (induction atts arbitrary: fs)
  case (Cons a atts)
  obtain k q r where a: "a = (k, q, r)" by (cases a)
  obtain x fs1 where t: "try_create_execution_lock k q r fs = (x, fs1)" by (metis surj_pair)
  obtain res fs' where rest: "lock_attempts atts fs1 = (res, fs')" by (metis surj_pair)
  from Cons.IH [of fs1] rest have ih: "winners p res = [] \<and> (dict_get fs1 p = None \<or> dict_get fs' p = dict_get fs1 p)
      \<or> dict_get fs1 p = None \<and> (\<exists>r. winners p res = [r] \<and> dict_get fs' p = Some (JsonFile (json_plain (VDict r))))" by simp
  have out: "lock_attempts (a # atts) fs = (case x of Inl _ \<Rightarrow> res | Inr b \<Rightarrow> (q, r, b) # res, fs')"
    by (cases x) (simp_all add: a t rest)
  show ?case
  proof (cases "x = Inr True \<and> q = p")
    case True
    then have new: "dict_get fs p = None" "dict_get fs1 p = Some (JsonFile (json_plain (VDict r)))"
      using try_create_result(2,3) [OF t] by auto
    from lock_attempts_kept [OF new(2) rest] show ?thesis using True new(1) by (simp add: out)
  next
    case False
    then have w: "winners p (case x of Inl _ \<Rightarrow> res | Inr b \<Rightarrow> (q, r, b) # res) = winners p res"
      by (cases x) auto
    show ?thesis
    proof (cases "dict_get fs1 p = dict_get fs p")
      case True
      with ih show ?thesis by (auto simp: out w)
    next
      case False
      with try_create_result(1) [OF t, of p] have "dict_get fs p = None" by auto
      with ih show ?thesis by (auto simp: out w)
    qed
  qed
qed simp

section \<open>Target rows\<close>

definition weight_of :: "fdict \<Rightarrow> pyfloat \<Rightarrow> string \<Rightarrow> pyfloat res" where
  "weight_of current_mv equity s = (if flt (Fin 0) equity then fdiv (fget current_mv s) equity else Inr (Fin 0))"

text \<open>\<open>sorted(..., key=lambda item: (-item[1], item[0]))\<close>: an insertion sort by weight, then symbol.\<close>

definition target_before :: "string \<times> pyfloat \<Rightarrow> string \<times> pyfloat \<Rightarrow> bool" where
  "target_before a b = (flt (snd b) (snd a) \<or> feq (snd a) (snd b) \<and> fst a < fst b)"

fun insert_target :: "string \<times> pyfloat \<Rightarrow> fdict \<Rightarrow> fdict" where
  "insert_target a [] = [a]"
| "insert_target a (b # bs) = (if target_before b a then b # insert_target a bs else a # b # bs)"

definition sorted_targets :: "fdict \<Rightarrow> fdict" where
  "sorted_targets w = foldr insert_target w []"

definition target_line :: "translator \<Rightarrow> fdict \<Rightarrow> pyfloat \<Rightarrow> string \<times> pyfloat \<Rightarrow> string res" where
  "target_line tr current_mv equity st = (let (s, w) = st in
     res_bind (weight_of current_mv equity s) (\<lambda>c.
       Inr (tr ''target_diff'' [(''symbol'', VStr s), (''current'', VStr (fmt_percent1 c)),
         (''target'', VStr (fmt_percent1 w)), (''delta'', VStr (fmt_percent1 (fsub w c)))])))"

definition format_target_lines :: "translator \<Rightarrow> fdict \<Rightarrow> fdict \<Rightarrow> pyfloat \<Rightarrow> string list res" where
  "format_target_lines tr weights current_mv equity =
    res_map (target_line tr current_mv equity) (sorted_targets weights)"

definition target_diff_row :: "fdict \<Rightarrow> pyfloat \<Rightarrow> string \<times> pyfloat \<Rightarrow> row res" where
  "target_diff_row current_mv equity st = (let (s, w) = st in
     res_bind (weight_of current_mv equity s) (\<lambda>c.
       Inr [(''symbol'', VStr s), (''current_weight'', VFloat c), (''target_weight'', VFloat w),
            (''delta_weight'', VFloat (fsub w c))]))"

definition build_target_diff_rows :: "fdict \<Rightarrow> fdict \<Rightarrow> pyfloat \<Rightarrow> row list res" where
  "build_target_diff_rows weights current_mv equity =
    res_map (target_diff_row current_mv equity) (sorted_targets weights)"

lemma set_insert_target [simp]: "set (insert_target a bs) = insert a (set bs)"
  by (induction bs) auto

lemma length_insert_target [simp]: "length (insert_target a bs) = Suc (length bs)"
  by (induction bs) auto

lemma sorted_targets_set [simp]: "set (sorted_targets w) = set w" "length (sorted_targets w) = length w"
  by (induction w) (auto simp: sorted_targets_def)

end
