(* ===== verification/RiskGate.thy ===== *)
theory RiskGate
  imports PyValue Dates
begin

text \<open>
  The account-level new-risk gate, \<open>application/account_new_risk_gate_support.py\<close>: the
  portfolio projected from the account values and the signal metadata, the snapshot handed to
  the risk library, the persistent circuit breaker and the scaling of targets.  The risk
  library (\<open>evaluate_new_risk_admission\<close>, \<open>apply_cycle_new_risk_health_axes\<close>, the drift
  store, the envelope scaling) and the account journal are parameters; portfolios,
  projections and metadata are dictionaries of values.
\<close>

type_synonym row = "(string \<times> pyval) list"

definition has_key :: "row \<Rightarrow> string \<Rightarrow> bool" where
  "has_key d k = (dict_get d k \<noteq> None)"

definition dict_pop :: "row \<Rightarrow> string \<Rightarrow> row" where
  "dict_pop d k = filter (\<lambda>(j, _). j \<noteq> k) d"

lemma dict_get_pop [simp]: "dict_get (dict_pop d k) j = (if j = k then None else dict_get d j)"
  by (induction d) (auto simp: dict_pop_def)

lemma vd_get_pop [simp]: "vd_get (dict_pop d k) j = (if j = k then VNone else vd_get d j)"
  by (simp add: vd_get_def dict_get_default_def)

lemma has_key_set [simp]: "has_key (dict_set d k v) j = (j = k \<or> has_key d j)"
  by (simp add: has_key_def)

text \<open>The environment variables, and the files and stores reached through them.\<close>

record gate_env =
  ge_getenv :: "string \<Rightarrow> string option"
  ge_json_loads :: "string \<Rightarrow> pyval option"
  ge_now :: instant
  ge_drift_from_store :: "string \<Rightarrow> string \<Rightarrow> string option"

definition env_text :: "gate_env \<Rightarrow> string \<Rightarrow> string" where
  "env_text e k = strip (case ge_getenv e k of None \<Rightarrow> [] | Some t \<Rightarrow> t)"

definition is_account_new_risk_gate_enabled :: "gate_env \<Rightarrow> bool" where
  "is_account_new_risk_gate_enabled e = (env_text e ''ACCOUNT_NEW_RISK_GATE'' \<noteq> ''0'')"

definition is_portfolio_loss_stoploss_enabled :: "gate_env \<Rightarrow> bool" where
  "is_portfolio_loss_stoploss_enabled e =
    (lower (env_text e ''PORTFOLIO_LOSS_STOPLOSS_ENABLED'') \<in> {''1'', ''true'', ''yes'', ''on''})"

section \<open>Numbers from untrusted values\<close>

definition coerce_optional_float :: "pyval \<Rightarrow> pyfloat option" where
  "coerce_optional_float v = (case v of VNone \<Rightarrow> None | VBool _ \<Rightarrow> None
     | _ \<Rightarrow> (case v_float v of Inr x \<Rightarrow> if isfinite x then Some x else None | Inl _ \<Rightarrow> None))"

definition float_value :: "pyfloat option \<Rightarrow> pyval" where
  "float_value x = (case x of None \<Rightarrow> VNone | Some y \<Rightarrow> VFloat y)"

definition risk_input :: "pyval \<Rightarrow> pyval" where
  "risk_input v = (if v = VNone then VNone else case coerce_optional_float v of
     Some x \<Rightarrow> VFloat x | None \<Rightarrow> VStr ''INVALID_RISK_INPUT'')"

definition positive_limit_or_none :: "pyval \<Rightarrow> pyfloat option" where
  "positive_limit_or_none v = (case coerce_optional_float v of None \<Rightarrow> None
     | Some x \<Rightarrow> if fle x (Fin 0) then None else Some x)"

definition mapping_or_empty :: "pyval \<Rightarrow> row" where
  "mapping_or_empty v = (case v of VDict d \<Rightarrow> d | _ \<Rightarrow> [])"

definition positive :: "pyfloat option \<Rightarrow> pyfloat option" where
  "positive x = (case x of None \<Rightarrow> None | Some y \<Rightarrow> if flt (Fin 0) y then Some y else None)"

definition equity_keys :: "string list" where
  "equity_keys = [''account_equity_usd'', ''total_equity'', ''total_strategy_equity'', ''equity'']"

definition resolve_equity_usd :: "row \<Rightarrow> row option \<Rightarrow> pyfloat option" where
  "resolve_equity_usd portfolio execution =
    (case find (has_key portfolio) equity_keys of
       Some k \<Rightarrow> positive (coerce_optional_float (vd_get portfolio k))
     | None \<Rightarrow> (case execution of None \<Rightarrow> None
         | Some x \<Rightarrow> positive (coerce_optional_float (vd_get x ''portfolio_total_equity''))))"

definition portfolio_metadata :: "row \<Rightarrow> row" where
  "portfolio_metadata portfolio = mapping_or_empty (vd_get portfolio ''metadata'')"

section \<open>Cycle health\<close>

record cycle_evidence =
  ev_observation_ok :: bool
  ev_unknown_pending :: bool
  ev_breaker_open :: bool

definition resolve_unknown_pending :: "row \<Rightarrow> row \<Rightarrow> bool" where
  "resolve_unknown_pending portfolio projection =
    (\<exists>source \<in> set [portfolio, portfolio_metadata portfolio, projection].
       has_key source ''unknown_pending_orders'' \<and> vd_get source ''unknown_pending_orders'' \<noteq> VBool False)"

definition closed_state :: "pyval \<Rightarrow> bool" where
  "closed_state v = (case v of VStr s \<Rightarrow> upper (strip s) = ''CLOSED'' | _ \<Rightarrow> False)"

definition resolve_durable_breaker_open :: "row \<Rightarrow> row \<Rightarrow> bool" where
  "resolve_durable_breaker_open portfolio projection =
    (\<exists>source \<in> set [projection, portfolio, portfolio_metadata portfolio].
       has_key source ''durable_circuit_breaker_state''
       \<and> \<not> closed_state (vd_get source ''durable_circuit_breaker_state''))"

definition drawdown_stamp_key :: string where
  "drawdown_stamp_key = ''drawdown_from_peak_observed_at''"

definition broker_drawdown_max_age :: pyfloat where "broker_drawdown_max_age = Fin 300"

definition drawdown_age :: "instant \<Rightarrow> pyval \<Rightarrow> pyfloat option" where
  "drawdown_age now observed_at = (case observed_at of
      VStr s \<Rightarrow> (case parse_iso_datetime (concat (List.map (\<lambda>c. if c = CHR ''Z'' then ''+00:00'' else [c]) s)) of
          Some (w, Some off) \<Rightarrow> Some (to_float (of_int (now - (w - off)) / 1000000))
        | _ \<Rightarrow> None)
    | _ \<Rightarrow> None)"

definition resolve_drawdown_from_peak ::
    "instant \<Rightarrow> pyfloat option \<Rightarrow> pyfloat option \<Rightarrow> row \<Rightarrow> pyval \<Rightarrow> pyfloat option" where
  "resolve_drawdown_from_peak now equity peak explicit_source observed_at =
    (case (positive equity, positive peak) of
       (Some e, Some p) \<Rightarrow> (case fdiv (fsub p e) p of Inr x \<Rightarrow> Some (py_max (Fin 0) x) | Inl _ \<Rightarrow> None)
     | _ \<Rightarrow> (case drawdown_age now observed_at of
         None \<Rightarrow> None
       | Some age \<Rightarrow>
           if \<not> (fle (Fin 0) age \<and> fle age broker_drawdown_max_age) then None
           else (case coerce_optional_float (vd_get explicit_source ''drawdown_from_peak'') of
               Some x \<Rightarrow> if fle (Fin 0) x then Some x else None | None \<Rightarrow> None)))"

definition snapshot_equity :: "row \<Rightarrow> row option \<Rightarrow> row \<Rightarrow> pyfloat option" where
  "snapshot_equity portfolio execution projection =
    (let native = find (has_key portfolio) equity_keys;
         e = (case native of Some k \<Rightarrow> coerce_optional_float (vd_get portfolio k)
              | None \<Rightarrow> if \<not> has_key projection ''equity_usd'' then resolve_equity_usd portfolio execution
                        else coerce_optional_float (vd_get projection ''equity_usd'')) in
     case e of Some x \<Rightarrow> if fle x (Fin 0) then None else Some x | None \<Rightarrow> None)"

text \<open>The axes after the risk library has applied the evidence.\<close>

definition mark_axes :: "cycle_evidence \<Rightarrow> row \<Rightarrow> row" where
  "mark_axes ev p =
    (let p1 = (if ev_observation_ok ev then p else dict_set p ''observation_status'' (VStr ''UNAVAILABLE''));
         p2 = (if ev_unknown_pending ev then dict_set p1 ''reconciliation_status'' (VStr ''UNVERIFIED'') else p1)
     in if ev_breaker_open ev \<or> ev_unknown_pending ev
        then dict_set p2 ''circuit_breaker_state'' (VStr ''OPEN'') else p2)"

definition healthy_values :: "(string \<times> string) list" where
  "healthy_values = [(''observation_status'', ''COMPLETE''), (''reconciliation_status'', ''VERIFIED''),
     (''circuit_breaker_state'', ''CLOSED'')]"

definition copy_unhealthy :: "row \<Rightarrow> row \<Rightarrow> row" where
  "copy_unhealthy portfolio p = foldl (\<lambda>q (k, healthy).
     if has_key portfolio k \<and> \<not> v_eq (vd_get portfolio k) (VStr healthy)
     then dict_set q k (vd_get portfolio k) else q) p healthy_values"

definition copy_risk_input :: "row \<Rightarrow> string \<Rightarrow> row \<Rightarrow> row" where
  "copy_risk_input portfolio k p =
    (if has_key portfolio k then
       dict_set p k (if vd_get portfolio k \<noteq> VNone then risk_input (vd_get portfolio k) else VStr ''INVALID_RISK_INPUT'')
     else if has_key p k then dict_set p k (risk_input (vd_get p k)) else p)"

definition copy_drawdown_stamp :: "row \<Rightarrow> row \<Rightarrow> row" where
  "copy_drawdown_stamp portfolio p =
    (if has_key portfolio ''drawdown_from_peak'' then
       (let q = dict_pop p drawdown_stamp_key in
        if has_key portfolio drawdown_stamp_key
        then dict_set q drawdown_stamp_key (vd_get portfolio drawdown_stamp_key) else q)
     else p)"

definition finish_drawdown :: "instant \<Rightarrow> row \<Rightarrow> pyfloat option \<Rightarrow> row \<Rightarrow> row" where
  "finish_drawdown now portfolio equity p =
    (let native = coerce_optional_float (vd_get portfolio ''drawdown_from_peak'');
         put = (\<lambda>d. let q = dict_set p ''drawdown_from_peak'' (float_value d) in
                  if d = None then dict_set q ''observation_status'' (VStr ''UNAVAILABLE'') else q);
         native_ok = (case native of Some x \<Rightarrow> fle (Fin 0) x | None \<Rightarrow> False) in
     if native_ok then put native
     else if has_key portfolio ''peak_equity_usd'' \<and> \<not> has_key portfolio ''drawdown_from_peak''
             \<and> \<not> has_key p ''drawdown_from_peak'' then p
     else put (resolve_drawdown_from_peak now equity (coerce_optional_float (vd_get p ''peak_equity_usd''))
                 (if has_key portfolio ''drawdown_from_peak'' then portfolio else p)
                 (vd_get p drawdown_stamp_key)))"

definition build_account_new_risk_snapshot ::
    "(row \<Rightarrow> cycle_evidence \<Rightarrow> row res) \<Rightarrow> gate_env \<Rightarrow> row \<Rightarrow> row option \<Rightarrow> row res" where
  "build_account_new_risk_snapshot apply_axes env portfolio execution =
    res_bind (v_dict (vd_get portfolio ''account_new_risk_snapshot'')) (\<lambda>projection.
      let equity = snapshot_equity portfolio execution projection;
          ev = \<lparr>ev_observation_ok = (equity \<noteq> None),
                ev_unknown_pending = resolve_unknown_pending portfolio projection,
                ev_breaker_open = resolve_durable_breaker_open portfolio projection\<rparr> in
      res_bind (apply_axes projection ev) (\<lambda>p0.
        let p1 = copy_unhealthy portfolio (mark_axes ev p0);
            p2 = dict_set p1 ''equity_usd'' (float_value equity);
            p3 = copy_risk_input portfolio ''realized_vol'' (copy_risk_input portfolio ''peak_equity_usd'' p2) in
        Inr (finish_drawdown (ge_now env) portfolio equity (copy_drawdown_stamp portfolio p3))))"

section \<open>The portfolio of a cycle\<close>

definition copy_first :: "row \<Rightarrow> row \<Rightarrow> string \<Rightarrow> row \<Rightarrow> row" where
  "copy_first account_values metadata k p =
    (if has_key account_values k then dict_set p k (vd_get account_values k)
     else if has_key metadata k then dict_set p k (vd_get metadata k) else p)"

definition copy_if :: "row \<Rightarrow> string \<Rightarrow> row \<Rightarrow> row" where
  "copy_if source k p = (if has_key source k then dict_set p k (vd_get source k) else p)"

definition shared_keys :: "string list" where
  "shared_keys = [''unknown_pending_orders'', ''durable_circuit_breaker_state'', ''observation_status'',
     ''reconciliation_status'', ''circuit_breaker_state'', ''production_drift_status'', ''daily_loss_usd'']"

definition native_portfolio :: "row \<Rightarrow> row \<Rightarrow> row" where
  "native_portfolio account_values metadata =
    (let equity = coerce_optional_float (case dict_get account_values ''account_equity_usd'' of
            Some v \<Rightarrow> v | None \<Rightarrow> vd_get account_values ''equity'');
         p1 = foldl (\<lambda>p k. copy_first account_values metadata k p) [(''total_equity'', float_value equity)] shared_keys;
         p2 = foldl (\<lambda>p k. copy_if account_values k p) p1
                [''peak_equity_usd'', ''drawdown_from_peak'', ''realized_vol'', drawdown_stamp_key] in
     if has_key account_values ''drawdown_from_peak'' \<and> \<not> has_key account_values drawdown_stamp_key
     then dict_pop p2 drawdown_stamp_key else p2)"

definition cached_projection :: "row \<Rightarrow> row \<Rightarrow> row \<Rightarrow> pyval \<Rightarrow> row" where
  "cached_projection account_values metadata projection total_equity =
    (let p1 = foldl (\<lambda>p k. if \<not> has_key account_values k \<and> has_key metadata k
                then dict_set p k (vd_get metadata k) else p) projection [''peak_equity_usd'', ''realized_vol''];
         p2 = (if \<not> has_key account_values ''drawdown_from_peak'' \<and> has_key metadata ''drawdown_from_peak'' then
                 copy_if metadata drawdown_stamp_key
                   (dict_pop (dict_set p1 ''drawdown_from_peak'' (vd_get metadata ''drawdown_from_peak'')) drawdown_stamp_key)
               else p1);
         p3 = dict_set p2 ''equity_usd'' total_equity;
         p4 = (if has_key account_values ''peak_equity_usd'' \<and> \<not> has_key account_values ''drawdown_from_peak''
               then dict_pop p3 ''drawdown_from_peak'' else p3) in
     copy_if account_values ''drawdown_from_peak'' (copy_if account_values ''peak_equity_usd'' p4))"

definition build_portfolio_from_account_values ::
    "(row \<Rightarrow> cycle_evidence \<Rightarrow> row res) \<Rightarrow> gate_env \<Rightarrow> row \<Rightarrow> row \<Rightarrow> row res" where
  "build_portfolio_from_account_values apply_axes env account_values metadata =
    (let portfolio = native_portfolio account_values metadata in
     res_bind (v_dict (vd_get metadata ''account_new_risk_snapshot'')) (\<lambda>projection0.
       let projection = cached_projection account_values metadata projection0 (vd_get portfolio ''total_equity'') in
       res_bind (build_account_new_risk_snapshot apply_axes env
           (dict_set portfolio ''account_new_risk_snapshot'' (VDict projection)) None) (\<lambda>snap.
         let p = dict_set portfolio ''account_new_risk_snapshot'' (VDict snap) in
         Inr (foldl (\<lambda>p k. if \<not> has_key p k \<and> has_key metadata k then dict_set p k (vd_get metadata k) else p)
                p [''peak_equity_usd'', ''realized_vol'']))))"

section \<open>Admission\<close>

record risk_snapshot =
  rs_observation_status :: string
  rs_reconciliation_status :: string
  rs_circuit_breaker_state :: string
  rs_equity_usd :: pyval
  rs_peak_equity_usd :: pyval
  rs_drawdown_from_peak :: pyval
  rs_realized_vol :: pyval
  rs_production_drift_status :: "string option"
  rs_daily_loss_usd :: "pyfloat option"

datatype disposition = NewRiskProhibited | AllowNewRisk | OtherDisposition string

record admission =
  ad_disposition :: disposition
  ad_reason_codes :: "string list"
  ad_hard_brake :: bool
  ad_combined_scale :: "pyfloat option"

record risk_limits =
  rl_allowed_symbols :: "string list"
  rl_total_nominal_exposure_cap :: pyfloat
  rl_total_effective_exposure_cap :: pyfloat
  rl_max_positions :: int
  rl_max_daily_loss_usd :: pyfloat

definition gate_error :: pyexn where
  "gate_error = OtherError ''AccountNewRiskGateError''"

text \<open>The first non-blank text under a key, in the projection, the portfolio and its metadata.\<close>

definition first_nonblank :: "pyval list \<Rightarrow> string option" where
  "first_nonblank vs = (case filter (\<lambda>v. case v of VStr s \<Rightarrow> strip s \<noteq> [] | _ \<Rightarrow> False) vs of
      VStr s # _ \<Rightarrow> Some (strip s) | _ \<Rightarrow> None)"

definition or_default :: "string \<Rightarrow> string \<Rightarrow> string" where
  "or_default s d = (if s = [] then d else s)"

definition resolve_strategy_profile :: "gate_env \<Rightarrow> row \<Rightarrow> row \<Rightarrow> string" where
  "resolve_strategy_profile env portfolio projection =
    (case first_nonblank (List.map (\<lambda>d. vd_get d ''strategy_profile'') [projection, portfolio, portfolio_metadata portfolio]) of
       Some s \<Rightarrow> s | None \<Rightarrow> or_default (env_text env ''STRATEGY_PROFILE'') ''soxl_soxx_trend_income'')"

definition resolve_domain :: "gate_env \<Rightarrow> row \<Rightarrow> row \<Rightarrow> string" where
  "resolve_domain env portfolio projection =
    (case first_nonblank (List.map (\<lambda>d. v_or (vd_get d ''strategy_domain'') (vd_get d ''domain''))
        [projection, portfolio, portfolio_metadata portfolio]) of
       Some s \<Rightarrow> s | None \<Rightarrow> or_default (env_text env ''STRATEGY_DOMAIN'') ''us_equity'')"

definition resolve_production_drift_status :: "gate_env \<Rightarrow> row \<Rightarrow> row \<Rightarrow> string option" where
  "resolve_production_drift_status env portfolio projection =
    (case filter (\<lambda>v. v \<noteq> VNone \<and> v \<noteq> VStr [])
        (List.map (\<lambda>d. vd_get d ''production_drift_status'') [portfolio, projection, portfolio_metadata portfolio]) of
       v # _ \<Rightarrow> Some (strip (v_str v))
     | [] \<Rightarrow> ge_drift_from_store env (resolve_strategy_profile env portfolio projection)
               (resolve_domain env portfolio projection))"

definition resolve_explicit_daily_loss :: "row \<Rightarrow> row \<Rightarrow> row option \<Rightarrow> pyfloat option" where
  "resolve_explicit_daily_loss projection portfolio execution =
    (case find (\<lambda>d. has_key d ''daily_loss_usd'') [portfolio, projection, case execution of None \<Rightarrow> [] | Some x \<Rightarrow> x] of
       Some d \<Rightarrow> coerce_optional_float (vd_get d ''daily_loss_usd'') | None \<Rightarrow> None)"

definition max_daily_loss_from_runtime_target :: "gate_env \<Rightarrow> pyfloat option" where
  "max_daily_loss_from_runtime_target env =
    (case ge_getenv env ''RUNTIME_TARGET_JSON'' of None \<Rightarrow> None
     | Some raw \<Rightarrow> if strip raw = [] then None else
       (case ge_json_loads env raw of
          Some (VDict payload) \<Rightarrow> (case vd_get payload ''runtime_risk_limits'' of
              VDict policy \<Rightarrow> if has_key policy ''max_daily_loss_usd''
                then positive_limit_or_none (vd_get policy ''max_daily_loss_usd'') else None
            | _ \<Rightarrow> None)
        | _ \<Rightarrow> None))"

definition env_daily_loss :: "gate_env \<Rightarrow> string \<Rightarrow> pyfloat option" where
  "env_daily_loss env k = (case ge_getenv env k of None \<Rightarrow> None
     | Some raw \<Rightarrow> if strip raw = [] then None else positive_limit_or_none (VStr raw))"

definition resolve_max_daily_loss :: "gate_env \<Rightarrow> row option \<Rightarrow> pyfloat option" where
  "resolve_max_daily_loss env portfolio =
    (case (case portfolio of None \<Rightarrow> None
           | Some p \<Rightarrow> find (\<lambda>d. has_key d ''max_daily_loss_usd'')
               [mapping_or_empty (vd_get p ''account_new_risk_snapshot''), p]) of
       Some d \<Rightarrow> positive_limit_or_none (vd_get d ''max_daily_loss_usd'')
     | None \<Rightarrow> (case max_daily_loss_from_runtime_target env of Some x \<Rightarrow> Some x
         | None \<Rightarrow> (case env_daily_loss env ''IBKR_MAX_DAILY_LOSS_USD'' of Some x \<Rightarrow> Some x
             | None \<Rightarrow> env_daily_loss env ''MAX_DAILY_LOSS_USD'')))"

definition runtime_risk_limits_for_daily_loss_axis :: "pyfloat option \<Rightarrow> risk_limits option" where
  "runtime_risk_limits_for_daily_loss_axis m = (case m of None \<Rightarrow> None
     | Some x \<Rightarrow> Some \<lparr>rl_allowed_symbols = [''SPY''], rl_total_nominal_exposure_cap = Fin 1,
         rl_total_effective_exposure_cap = Fin 1, rl_max_positions = 1, rl_max_daily_loss_usd = x\<rparr>)"

text \<open>The risk library as this module uses it.\<close>

record risk_library =
  lib_apply_axes :: "row \<Rightarrow> cycle_evidence \<Rightarrow> row res"
  lib_evaluate :: "risk_snapshot \<Rightarrow> risk_limits option \<Rightarrow> admission res"
  lib_apply_scale :: "(string, pyfloat) dict \<Rightarrow> pyfloat option \<Rightarrow> (string, pyfloat) dict res"

definition text_or :: "pyval \<Rightarrow> string \<Rightarrow> string" where
  "text_or v d = v_str (v_or v (VStr d))"

definition build_snapshot_from_portfolio ::
    "risk_library \<Rightarrow> gate_env \<Rightarrow> row \<Rightarrow> row option \<Rightarrow> risk_snapshot res" where
  "build_snapshot_from_portfolio lib env portfolio execution =
    res_bind (build_account_new_risk_snapshot (lib_apply_axes lib) env portfolio execution) (\<lambda>p.
      Inr \<lparr>rs_observation_status = text_or (vd_get p ''observation_status'') ''UNAVAILABLE'',
           rs_reconciliation_status = text_or (vd_get p ''reconciliation_status'') ''UNVERIFIED'',
           rs_circuit_breaker_state = text_or (vd_get p ''circuit_breaker_state'') ''OPEN'',
           rs_equity_usd = float_value (coerce_optional_float (vd_get p ''equity_usd'')),
           rs_peak_equity_usd = risk_input (vd_get p ''peak_equity_usd''),
           rs_drawdown_from_peak = risk_input (vd_get p ''drawdown_from_peak''),
           rs_realized_vol = risk_input (vd_get p ''realized_vol''),
           rs_production_drift_status = resolve_production_drift_status env portfolio p,
           rs_daily_loss_usd = resolve_explicit_daily_loss p portfolio execution\<rparr>)"

definition fail_closed_admission :: "string \<Rightarrow> admission" where
  "fail_closed_admission code = \<lparr>ad_disposition = NewRiskProhibited, ad_reason_codes = [code],
     ad_hard_brake = False, ad_combined_scale = None\<rparr>"

definition catch_gate_error :: "admission res \<Rightarrow> admission res" where
  "catch_gate_error r = (case r of Inl e \<Rightarrow> if e = gate_error
       then Inr (fail_closed_admission ''SNAPSHOT_VALIDATION_FAIL_CLOSED'') else Inl e | Inr a \<Rightarrow> Inr a)"

definition evaluate_portfolio_new_risk_admission ::
    "risk_library \<Rightarrow> gate_env \<Rightarrow> row \<Rightarrow> row option \<Rightarrow> admission res" where
  "evaluate_portfolio_new_risk_admission lib env portfolio execution =
    catch_gate_error (res_bind (build_snapshot_from_portfolio lib env portfolio execution) (\<lambda>s.
      lib_evaluate lib s (runtime_risk_limits_for_daily_loss_axis (resolve_max_daily_loss env (Some portfolio)))))"

definition evaluate_account_values_new_risk_admission ::
    "risk_library \<Rightarrow> gate_env \<Rightarrow> row \<Rightarrow> row \<Rightarrow> admission res" where
  "evaluate_account_values_new_risk_admission lib env account_values metadata =
    res_bind (build_portfolio_from_account_values (lib_apply_axes lib) env account_values metadata) (\<lambda>p.
      evaluate_portfolio_new_risk_admission lib env p None)"

definition new_risk_buy_prohibited :: "admission \<Rightarrow> bool" where
  "new_risk_buy_prohibited a = (ad_disposition a = NewRiskProhibited)"

section \<open>The persistent breaker\<close>

text \<open>
  The account submission session: whether it is a genuine session with the breaker
  capability, recording an open breaker, and reading the durable state back.
\<close>

record 'w breaker_session =
  bs_genuine :: bool
  bs_record_open :: "risk_snapshot \<Rightarrow> ('w, unit) io"
  bs_read_state :: "('w, row) io"

definition breaker_reading ::
    "risk_library \<Rightarrow> gate_env \<Rightarrow> row \<Rightarrow> admission \<Rightarrow> 'w breaker_session \<Rightarrow> ('w, bool) io" where
  "breaker_reading lib env portfolio adm s =
    (if \<not> bs_genuine s then io_raise (RuntimeError ''persistent breaker capability unavailable'')
     else io_bind (if ad_hard_brake adm
            then io_bind (io_lift (build_snapshot_from_portfolio lib env portfolio None)) (bs_record_open s)
            else io_return ()) (\<lambda>_.
          io_bind (bs_read_state s) (\<lambda>state.
            case vd_get state ''circuit_breaker_open'' of VBool b \<Rightarrow> io_return b
            | _ \<Rightarrow> io_raise (RuntimeError ''persistent breaker readback unavailable''))))"

definition prohibit :: "admission \<Rightarrow> string \<Rightarrow> admission" where
  "prohibit a reason = a\<lparr>ad_disposition := NewRiskProhibited,
     ad_reason_codes := fromkeys (ad_reason_codes a @ [reason])\<rparr>"

definition evaluate_persistent_account_new_risk_admission ::
    "risk_library \<Rightarrow> gate_env \<Rightarrow> row \<Rightarrow> row \<Rightarrow> 'w breaker_session \<Rightarrow> ('w, admission) io" where
  "evaluate_persistent_account_new_risk_admission lib env account_values metadata s =
    io_bind (io_lift (build_portfolio_from_account_values (lib_apply_axes lib) env account_values metadata)) (\<lambda>portfolio.
    io_bind (io_lift (evaluate_portfolio_new_risk_admission lib env portfolio None)) (\<lambda>adm.
    io_bind (io_catch (io_bind (breaker_reading lib env portfolio adm s)
               (\<lambda>b. io_return (if b then Some ''CIRCUIT_BREAKER_OPEN'' else None)))
             (\<lambda>_. io_return (Some ''PERSISTENT_BREAKER_UNAVAILABLE''))) (\<lambda>reason.
      io_return (case reason of None \<Rightarrow> adm | Some r \<Rightarrow> prohibit adm r))))"

section \<open>Target scaling\<close>

definition scale_targets_for_admission ::
    "risk_library \<Rightarrow> gate_env \<Rightarrow> (string, pyfloat) dict \<Rightarrow> admission \<Rightarrow> risk_snapshot option
     \<Rightarrow> (string, pyfloat) dict res" where
  "scale_targets_for_admission lib env target_weights adm snapshot =
    (if is_portfolio_loss_stoploss_enabled env then lib_apply_scale lib target_weights (ad_combined_scale adm)
     else case snapshot of None \<Rightarrow> lib_apply_scale lib target_weights None
     | Some s \<Rightarrow>
       (case lib_evaluate lib (s\<lparr>rs_peak_equity_usd := VNone, rs_drawdown_from_peak := VNone\<rparr>) None of
          Inr sizing \<Rightarrow> lib_apply_scale lib target_weights (ad_combined_scale sizing)
        | Inl e \<Rightarrow> if e = gate_error then lib_apply_scale lib target_weights None else Inl e))"

definition evaluate_cycle_new_risk_admission ::
    "risk_library \<Rightarrow> gate_env \<Rightarrow> risk_snapshot option \<Rightarrow> admission res" where
  "evaluate_cycle_new_risk_admission lib env cycle_snapshot =
    (case cycle_snapshot of
       None \<Rightarrow> Inr (fail_closed_admission ''EQUITY_UNKNOWN_FAIL_CLOSED'')
     | Some s \<Rightarrow> catch_gate_error
         (lib_evaluate lib s (runtime_risk_limits_for_daily_loss_axis (resolve_max_daily_loss env None))))"

section \<open>Facts\<close>

lemma copy_unhealthy_circuit:
  "vd_get (copy_unhealthy portfolio p) ''circuit_breaker_state''
     = (if has_key portfolio ''circuit_breaker_state''
           \<and> \<not> v_eq (vd_get portfolio ''circuit_breaker_state'') (VStr ''CLOSED'')
        then vd_get portfolio ''circuit_breaker_state'' else vd_get p ''circuit_breaker_state'')"
  by (simp add: copy_unhealthy_def healthy_values_def)

lemma copy_unhealthy_observation:
  "vd_get (copy_unhealthy portfolio p) ''observation_status''
     = (if has_key portfolio ''observation_status''
           \<and> \<not> v_eq (vd_get portfolio ''observation_status'') (VStr ''COMPLETE'')
        then vd_get portfolio ''observation_status'' else vd_get p ''observation_status'')"
  by (simp add: copy_unhealthy_def healthy_values_def)

lemma copy_risk_input_frame:
  "j \<noteq> k \<Longrightarrow> vd_get (copy_risk_input portfolio k p) j = vd_get p j"
  by (simp add: copy_risk_input_def)

lemma copy_drawdown_stamp_frame:
  "j \<noteq> drawdown_stamp_key \<Longrightarrow> vd_get (copy_drawdown_stamp portfolio p) j = vd_get p j"
  by (simp add: copy_drawdown_stamp_def Let_def)

lemma finish_drawdown_circuit:
  "vd_get (finish_drawdown now portfolio e p) ''circuit_breaker_state'' = vd_get p ''circuit_breaker_state''"
  by (simp add: finish_drawdown_def Let_def)

lemma finish_drawdown_observation:
  "vd_get (finish_drawdown now portfolio e p) ''observation_status'' \<in> {vd_get p ''observation_status'', VStr ''UNAVAILABLE''}"
  by (simp add: finish_drawdown_def Let_def)

lemma finish_drawdown_unknown:
  assumes "vd_get (finish_drawdown now portfolio e p) ''drawdown_from_peak'' = VNone"
    and "has_key p ''drawdown_from_peak'' \<or> has_key portfolio ''drawdown_from_peak'' \<or> \<not> has_key portfolio ''peak_equity_usd''"
  shows "vd_get (finish_drawdown now portfolio e p) ''observation_status'' = VStr ''UNAVAILABLE''"
  using assms by (auto simp: finish_drawdown_def Let_def float_value_def split: if_split_asm option.split_asm)

lemma built_snapshot_form:
  assumes "build_account_new_risk_snapshot apply_axes env portfolio execution = Inr p"
    and "v_dict (vd_get portfolio ''account_new_risk_snapshot'') = Inr projection"
  obtains q where
    "vd_get p ''circuit_breaker_state'' = vd_get (copy_unhealthy portfolio (mark_axes
        \<lparr>ev_observation_ok = snapshot_equity portfolio execution projection \<noteq> None,
         ev_unknown_pending = resolve_unknown_pending portfolio projection,
         ev_breaker_open = resolve_durable_breaker_open portfolio projection\<rparr> q)) ''circuit_breaker_state''"
    "vd_get p ''observation_status'' \<in> {VStr ''UNAVAILABLE'', vd_get (copy_unhealthy portfolio (mark_axes
        \<lparr>ev_observation_ok = snapshot_equity portfolio execution projection \<noteq> None,
         ev_unknown_pending = resolve_unknown_pending portfolio projection,
         ev_breaker_open = resolve_durable_breaker_open portfolio projection\<rparr> q)) ''observation_status''}"
proof -
  have ne: "''circuit_breaker_state'' \<noteq> drawdown_stamp_key" "''observation_status'' \<noteq> drawdown_stamp_key"
    by (simp_all add: drawdown_stamp_key_def)
  obtain q where q: "apply_axes projection \<lparr>ev_observation_ok = snapshot_equity portfolio execution projection \<noteq> None,
         ev_unknown_pending = resolve_unknown_pending portfolio projection,
         ev_breaker_open = resolve_durable_breaker_open portfolio projection\<rparr> = Inr q"
    using assms by (auto simp: build_account_new_risk_snapshot_def Let_def res_bind_Inr_iff)
  let ?p3 = "copy_drawdown_stamp portfolio (copy_risk_input portfolio ''realized_vol''
      (copy_risk_input portfolio ''peak_equity_usd'' (dict_set (copy_unhealthy portfolio (mark_axes
        \<lparr>ev_observation_ok = snapshot_equity portfolio execution projection \<noteq> None,
         ev_unknown_pending = resolve_unknown_pending portfolio projection,
         ev_breaker_open = resolve_durable_breaker_open portfolio projection\<rparr> q))
        ''equity_usd'' (float_value (snapshot_equity portfolio execution projection)))))"
  have p: "p = finish_drawdown (ge_now env) portfolio (snapshot_equity portfolio execution projection) ?p3"
    using assms q by (simp add: build_account_new_risk_snapshot_def Let_def)
  show ?thesis
    by (rule that [of q])
      (use finish_drawdown_observation [of "ge_now env" portfolio "snapshot_equity portfolio execution projection" ?p3] in
        \<open>simp_all only: p finish_drawdown_circuit copy_drawdown_stamp_frame [OF ne(1)] copy_drawdown_stamp_frame [OF ne(2)]
          copy_risk_input_frame vd_get_set\<close>, simp_all add: copy_risk_input_frame insert_commute)
qed

text \<open>
  Unsafe account facts survive every projection: in the snapshot the gate builds, an
  unknown pending order or a durable breaker that is not closed, reported by the portfolio,
  its metadata or the strategy's own projection, never leaves the circuit breaker CLOSED, and
  a missing or non-positive equity never leaves the observation COMPLETE, whatever the risk
  library answered.
\<close>

theorem unsafe_facts_survive_projection:
  assumes "build_account_new_risk_snapshot apply_axes env portfolio execution = Inr p"
    and "v_dict (vd_get portfolio ''account_new_risk_snapshot'') = Inr projection"
  shows "(resolve_unknown_pending portfolio projection \<or> resolve_durable_breaker_open portfolio projection
            \<longrightarrow> vd_get p ''circuit_breaker_state'' \<noteq> VStr ''CLOSED'')
       \<and> (snapshot_equity portfolio execution projection = None
            \<longrightarrow> vd_get p ''observation_status'' \<noteq> VStr ''COMPLETE'')"
  using assms
  by (rule built_snapshot_form)
    (auto simp: copy_unhealthy_circuit copy_unhealthy_observation mark_axes_def Let_def v_eq_str_right
      split: if_split_asm)

definition sample_lib :: risk_library where
  "sample_lib = \<lparr>lib_apply_axes = (\<lambda>p ev. Inr (dict_set p ''circuit_breaker_state'' (VStr ''CLOSED''))),
     lib_evaluate = (\<lambda>s l. Inr \<lparr>ad_disposition = AllowNewRisk, ad_reason_codes = [], ad_hard_brake = False,
        ad_combined_scale = None\<rparr>),
     lib_apply_scale = (\<lambda>t k. Inr t)\<rparr>"

definition sample_env :: gate_env where
  "sample_env = \<lparr>ge_getenv = (\<lambda>k. None), ge_json_loads = (\<lambda>s. None), ge_now = 0, ge_drift_from_store = (\<lambda>p d. None)\<rparr>"

definition sample_portfolio :: row where
  "sample_portfolio = [(''equity'', VInt 1000), (''unknown_pending_orders'', VBool True),
     (''account_new_risk_snapshot'', VDict [(''circuit_breaker_state'', VStr ''CLOSED'')])]"

theorem unsafe_facts_survive_projection_witness:
  "case build_account_new_risk_snapshot (lib_apply_axes sample_lib) sample_env sample_portfolio None of
     Inr p \<Rightarrow> vd_get p ''circuit_breaker_state'' \<noteq> VStr ''CLOSED'' | Inl e \<Rightarrow> False"
proof (cases "build_account_new_risk_snapshot (lib_apply_axes sample_lib) sample_env sample_portfolio None")
  case (Inl e)
  moreover have "isl (build_account_new_risk_snapshot (lib_apply_axes sample_lib) sample_env sample_portfolio None) = False"
    by code_simp
  ultimately show ?thesis by simp
next
  case (Inr p)
  have "v_dict (vd_get sample_portfolio ''account_new_risk_snapshot'')
      = Inr [(''circuit_breaker_state'', VStr ''CLOSED'')]" by code_simp
  moreover have "resolve_unknown_pending sample_portfolio [(''circuit_breaker_state'', VStr ''CLOSED'')]" by code_simp
  ultimately show ?thesis using unsafe_facts_survive_projection [OF Inr] Inr by simp
qed

lemma breaker_reading_false:
  assumes "breaker_reading lib env portfolio adm s w = (Inr False, w')"
  obtains w1 state where "bs_genuine s"
    "if ad_hard_brake adm then \<exists>snap. build_snapshot_from_portfolio lib env portfolio None = Inr snap
        \<and> bs_record_open s snap w = (Inr (), w1) else w1 = w"
    "bs_read_state s w1 = (Inr state, w')" "vd_get state ''circuit_breaker_open'' = VBool False"
proof -
  from assms have g: "bs_genuine s" by (auto simp: breaker_reading_def split: if_split_asm)
  with assms obtain w1 u state where
    1: "(if ad_hard_brake adm then io_bind (io_lift (build_snapshot_from_portfolio lib env portfolio None)) (bs_record_open s)
         else io_return ()) w = (Inr u, w1)"
    and 2: "bs_read_state s w1 = (Inr state, w')" "vd_get state ''circuit_breaker_open'' = VBool False"
    by (auto simp: breaker_reading_def elim!: io_bind_InrE split: pyval.split_asm)
  show ?thesis
  proof (rule that [OF g _ 2])
    show "if ad_hard_brake adm then \<exists>snap. build_snapshot_from_portfolio lib env portfolio None = Inr snap
        \<and> bs_record_open s snap w = (Inr (), w1) else w1 = w"
      using 1 by (auto elim!: io_bind_InrE split: if_split_asm)
  qed
qed

text \<open>
  C17.  The persistent breaker fails closed: new risk is only admitted when the session is
  genuine, the durable journal was read back after any breach of this cycle was recorded and
  says the breaker is not open, and the risk library itself did not prohibit; every failure on
  the way (missing capability, failed record, failed or malformed read-back) prohibits.
\<close>

theorem persistent_breaker_fails_closed:
  assumes "evaluate_persistent_account_new_risk_admission lib env account_values metadata s w = (Inr a, w')"
    and "\<not> new_risk_buy_prohibited a"
  shows "bs_genuine s
    \<and> (\<exists>portfolio w1 state.
         build_portfolio_from_account_values (lib_apply_axes lib) env account_values metadata = Inr portfolio
       \<and> evaluate_portfolio_new_risk_admission lib env portfolio None = Inr a
       \<and> (if ad_hard_brake a then \<exists>snap. build_snapshot_from_portfolio lib env portfolio None = Inr snap
              \<and> bs_record_open s snap w = (Inr (), w1) else w1 = w)
       \<and> bs_read_state s w1 = (Inr state, w') \<and> vd_get state ''circuit_breaker_open'' = VBool False)"
proof -
  obtain portfolio adm reason where p:
    "build_portfolio_from_account_values (lib_apply_axes lib) env account_values metadata = Inr portfolio"
    "evaluate_portfolio_new_risk_admission lib env portfolio None = Inr adm"
    "io_catch (io_bind (breaker_reading lib env portfolio adm s)
               (\<lambda>b. io_return (if b then Some ''CIRCUIT_BREAKER_OPEN'' else None)))
             (\<lambda>_. io_return (Some ''PERSISTENT_BREAKER_UNAVAILABLE'')) w = (Inr reason, w')"
    "a = (case reason of None \<Rightarrow> adm | Some r \<Rightarrow> prohibit adm r)"
    using assms(1) by (auto simp: evaluate_persistent_account_new_risk_admission_def elim!: io_bind_InrE)
  have reason: "reason = None" "a = adm"
    using p(4) assms(2) by (auto simp: new_risk_buy_prohibited_def prohibit_def split: option.split_asm)
  then have "breaker_reading lib env portfolio adm s w = (Inr False, w')"
    using p(3) by (auto simp: io_catch_def io_bind_def split: prod.split_asm sum.split_asm if_split_asm)
  then obtain w1 state where "bs_genuine s"
    "if ad_hard_brake adm then \<exists>snap. build_snapshot_from_portfolio lib env portfolio None = Inr snap
        \<and> bs_record_open s snap w = (Inr (), w1) else w1 = w"
    "bs_read_state s w1 = (Inr state, w')" "vd_get state ''circuit_breaker_open'' = VBool False"
    by (rule breaker_reading_false)
  with p(1,2) reason(2) show ?thesis by blast
qed

definition sample_session :: "nat breaker_session" where
  "sample_session = \<lparr>bs_genuine = True, bs_record_open = (\<lambda>s w. (Inr (), Suc w)),
     bs_read_state = (\<lambda>w. (Inr [(''circuit_breaker_open'', VBool False)], w))\<rparr>"

theorem persistent_breaker_fails_closed_witness:
  "(case evaluate_persistent_account_new_risk_admission sample_lib sample_env [(''equity'', VInt 1000)] [] sample_session 0 of
      (Inr a, w') \<Rightarrow> ad_disposition a = AllowNewRisk \<and> w' = 0 | _ \<Rightarrow> False)
   \<and> bs_genuine sample_session"
proof -
  let ?r = "evaluate_persistent_account_new_risk_admission sample_lib sample_env [(''equity'', VInt 1000)] [] sample_session 0"
  let ?a = "\<lparr>ad_disposition = AllowNewRisk, ad_reason_codes = [], ad_hard_brake = False, ad_combined_scale = None\<rparr>"
  define p where "p = projr (build_portfolio_from_account_values (lib_apply_axes sample_lib) sample_env [(''equity'', VInt 1000)] [])"
  have "isl (build_portfolio_from_account_values (lib_apply_axes sample_lib) sample_env [(''equity'', VInt 1000)] []) = False"
    by code_simp
  then have 1: "build_portfolio_from_account_values (lib_apply_axes sample_lib) sample_env [(''equity'', VInt 1000)] [] = Inr p"
    by (simp add: p_def)
  have 2: "evaluate_portfolio_new_risk_admission sample_lib sample_env p None = Inr ?a"
    unfolding p_def by code_simp
  have h: "?r = (Inr ?a, 0)"
    by (simp add: evaluate_persistent_account_new_risk_admission_def 1 2 io_bind_def io_catch_def
        breaker_reading_def sample_session_def vd_get_def dict_get_default_def)
  have "bs_genuine sample_session"
    using persistent_breaker_fails_closed [OF h] by (simp add: new_risk_buy_prohibited_def)
  with h show ?thesis by simp
qed

end
