(* ===== verification/Effects.thy ===== *)
theory Effects
  imports Prelude
begin

text \<open>
  What a program may do to the world, as a relation between the world before and after
  (\<open>io_keeps\<close>): the locale \<open>effects\<close> collects the composition rules for a preorder; it is
  interpreted for "the order log only grows by orders that satisfy \<open>P\<close>", of which "the order
  log is unchanged" is the special case used for reads, planning and dry runs.
\<close>

named_theorems keeps "composition rules for effect relations"

lemma io_keeps_if: "(c \<Longrightarrow> io_keeps R m) \<Longrightarrow> (\<not> c \<Longrightarrow> io_keeps R n) \<Longrightarrow> io_keeps R (if c then m else n)"
  by simp

lemma io_keeps_option:
  "(x = None \<Longrightarrow> io_keeps R m) \<Longrightarrow> (\<And>y. x = Some y \<Longrightarrow> io_keeps R (f y))
   \<Longrightarrow> io_keeps R (case x of None \<Rightarrow> m | Some y \<Rightarrow> f y)"
  by (cases x) simp_all

lemma io_keeps_sum:
  "(\<And>y. x = Inl y \<Longrightarrow> io_keeps R (f y)) \<Longrightarrow> (\<And>y. x = Inr y \<Longrightarrow> io_keeps R (g y))
   \<Longrightarrow> io_keeps R (case x of Inl y \<Rightarrow> f y | Inr y \<Rightarrow> g y)"
  by (cases x) simp_all

lemma io_keeps_prod:
  "(\<And>a b. x = (a, b) \<Longrightarrow> io_keeps R (f a b)) \<Longrightarrow> io_keeps R (case x of (a, b) \<Rightarrow> f a b)"
  by (cases x) simp

lemma io_keeps_let: "(\<And>y. y = x \<Longrightarrow> io_keeps R (f y)) \<Longrightarrow> io_keeps R (let y = x in f y)"
  by simp

lemmas keeps_split = io_keeps_if io_keeps_option io_keeps_sum io_keeps_prod io_keeps_let

locale effects =
  fixes R :: "'w \<Rightarrow> 'w \<Rightarrow> bool"
  assumes refl: "reflp R" and trans: "transp R"
begin

lemma keeps_return [keeps]: "io_keeps R (io_return x)"
  using refl by (rule io_keeps_return)

lemma keeps_raise [keeps]: "io_keeps R (io_raise x)"
  using refl by (rule io_keeps_raise)

lemma keeps_lift [keeps]: "io_keeps R (io_lift x)"
  using refl by (rule io_keeps_lift)

lemma keeps_bind [keeps]:
  "io_keeps R m \<Longrightarrow> (\<And>x w w'. m w = (Inr x, w') \<Longrightarrow> io_keeps R (f x)) \<Longrightarrow> io_keeps R (io_bind m f)"
proof -
  assume m: "io_keeps R m" and f: "\<And>x w w'. m w = (Inr x, w') \<Longrightarrow> io_keeps R (f x)"
  show "io_keeps R (io_bind m f)"
    unfolding io_keeps_def
  proof
    fix w
    obtain r w1 where w1: "m w = (r, w1)" by (cases "m w")
    then have 1: "R w w1" using m by (blast dest: io_keepsD)
    show "R w (snd (io_bind m f w))"
    proof (cases r)
      case (Inr x)
      with w1 f have "R w1 (snd (f x w1))" by (simp add: io_keeps_def)
      with 1 trans w1 Inr show ?thesis by (auto elim: transpE)
    qed (use w1 1 in simp)
  qed
qed

lemma keeps_catch [keeps]:
  "io_keeps R m \<Longrightarrow> (\<And>x. io_keeps R (h x)) \<Longrightarrow> io_keeps R (io_catch m h)"
proof -
  assume m: "io_keeps R m" and h: "\<And>x. io_keeps R (h x)"
  show "io_keeps R (io_catch m h)"
    unfolding io_keeps_def
  proof
    fix w
    obtain r w1 where w1: "m w = (r, w1)" by (cases "m w")
    then have 1: "R w w1" using m by (blast dest: io_keepsD)
    show "R w (snd (io_catch m h w))"
    proof (cases r)
      case (Inl x)
      have "R w1 (snd (h x w1))" using h by (simp add: io_keeps_def)
      with 1 trans w1 Inl show ?thesis by (auto simp: io_catch_def elim: transpE)
    qed (use w1 1 in \<open>simp add: io_catch_def\<close>)
  qed
qed

text \<open>A loop keeps the relation when every step does, as long as an invariant of its state holds.\<close>

lemma keeps_fold_inv:
  assumes "I s"
    and "\<And>x s. x \<in> set xs \<Longrightarrow> I s \<Longrightarrow> io_keeps R (f x s)"
    and "\<And>x s w s' w'. x \<in> set xs \<Longrightarrow> I s \<Longrightarrow> f x s w = (Inr s', w') \<Longrightarrow> I s'"
  shows "io_keeps R (io_fold f xs s)"
  using assms
proof (induction xs arbitrary: s)
  case Nil
  show ?case by (simp only: io_fold.simps keeps_return)
next
  case (Cons x xs)
  have step: "io_keeps R (io_fold f xs s')" if "f x s w = (Inr s', w')" for s' w w'
  proof (rule Cons.IH)
    show "I s'" using Cons.prems(1) Cons.prems(3) [of x s w s' w'] that by simp
    show "io_keeps R (f y t)" if "y \<in> set xs" "I t" for y t
      using that Cons.prems(2) by simp
    show "I t'" if "y \<in> set xs" "I t" "f y t v = (Inr t', v')" for y t v t' v'
      using that Cons.prems(3) [of y t v t' v'] by simp
  qed
  have "io_keeps R (f x s)" using Cons.prems(1,2) by simp
  then show ?case unfolding io_fold.simps by (rule keeps_bind) (rule step)
qed

lemma keeps_fold [keeps]: "(\<And>x s. io_keeps R (f x s)) \<Longrightarrow> io_keeps R (io_fold f xs s)"
  by (rule keeps_fold_inv [where I = "\<lambda>_. True"]) simp_all

end

section \<open>The order log\<close>

definition log_grows :: "('w \<Rightarrow> 'i list) \<Rightarrow> ('i \<Rightarrow> bool) \<Rightarrow> 'w \<Rightarrow> 'w \<Rightarrow> bool" where
  "log_grows olog P w w' = (\<exists>new. olog w' = olog w @ new \<and> list_all P new)"

interpretation growing: effects "log_grows olog P" for olog :: "'w \<Rightarrow> 'i list" and P
proof
  show "reflp (log_grows olog P)" by (auto simp: reflp_def log_grows_def)
  show "transp (log_grows olog P)"
    unfolding transp_def log_grows_def by (metis append_assoc list_all_append)
qed

definition same_log :: "('w \<Rightarrow> 'i list) \<Rightarrow> 'w \<Rightarrow> 'w \<Rightarrow> bool" where
  "same_log olog w w' = (olog w' = olog w)"

interpretation quiet: effects "same_log olog" for olog :: "'w \<Rightarrow> 'i list"
  by unfold_locales (auto simp: reflp_def transp_def same_log_def)

abbreviation is_quiet :: "('w \<Rightarrow> 'i list) \<Rightarrow> ('w, 'a) io \<Rightarrow> bool" where
  "is_quiet olog m \<equiv> io_keeps (same_log olog) m"

lemma quiet_grows: "is_quiet olog m \<Longrightarrow> io_keeps (log_grows olog P) m"
  by (auto simp: io_keeps_def same_log_def log_grows_def)

lemma quiet_same: "is_quiet olog m \<Longrightarrow> olog (snd (m w)) = olog w"
  by (auto simp: io_keeps_def same_log_def)

text \<open>A submission records at most the intent it was given.\<close>

definition logs_at_most :: "('w \<Rightarrow> 'i list) \<Rightarrow> 'i \<Rightarrow> ('w, 'a) io \<Rightarrow> bool" where
  "logs_at_most olog i m \<longleftrightarrow> (\<forall>w. olog (snd (m w)) \<in> {olog w, olog w @ [i]})"

lemma logs_at_most_grows: "logs_at_most olog i m \<Longrightarrow> P i \<Longrightarrow> io_keeps (log_grows olog P) m"
  unfolding io_keeps_def log_grows_def logs_at_most_def
proof
  fix w
  assume h: "\<forall>w. olog (snd (m w)) \<in> {olog w, olog w @ [i]}" and P: "P i"
  from h have "olog (snd (m w)) = olog w @ [] \<or> olog (snd (m w)) = olog w @ [i]" by auto
  with P show "\<exists>new. olog (snd (m w)) = olog w @ new \<and> list_all P new"
    by (metis list.pred_inject)
qed

end
