(* ===== verification/RebalancePlan.thy ===== *)
theory RebalancePlan
  imports Options ExecutionLock BrokerReads RiskGate
begin

text \<open>
  The planning half of \<open>execute_rebalance\<close> in \<open>application/execution_service.py\<close>: from the
  arguments to the decision whether anything is to be traded.  The local variables of the
  function are the fields of the record \<open>run\<close>; each block of the function is a stage that
  goes on with an updated \<open>run\<close>, returns early (\<open>Stop\<close>), or raises.  What the function is
  given (broker connection, translator, clock, file system, platform toolkit) is the record
  \<open>env\<close>; the order in which a Python set is iterated is a parameter of it.
\<close>

section \<open>Arguments and environment\<close>

record position =
  pos_quantity :: "pyfloat option"
  pos_avg_cost :: "pyfloat option"

record quote =
  qu_symbol :: pyval
  qu_as_of :: pyval
  qu_last_price :: pyfloat
  qu_bid_price :: pyval
  qu_ask_price :: pyval
  qu_currency :: pyval

record small_account_result =
  sa_targets :: fdict
  sa_whole_share_symbols :: "string list"
  sa_safe_haven_symbols :: "string list"
  sa_notes :: "pyval list"

record args =
  a_metadata :: row
  a_account_values :: row
  a_positions :: "(string, position) dict"
  a_strategy_profile :: "string option"
  a_account_group :: "string option"
  a_service_name :: "string option"
  a_account_ids :: pyval
  a_dry_run :: bool
  a_execution_mode :: "string option"
  a_cash_reserve_ratio :: pyfloat
  a_rebalance_threshold_ratio :: pyfloat
  a_limit_buy_premium :: pyval
  a_limit_buy_premium_by_symbol :: pyval
  a_sell_settle_delay :: pyfloat
  a_cash_reserve_floor :: pyfloat
  a_quantity_step :: pyfloat
  a_min_order_notional :: pyfloat
  a_safe_haven_threshold :: pyfloat
  a_market_currency :: string
  a_lock_dir :: "string option"
  a_cash_only :: bool
  a_paper_admission :: bool

text \<open>The submission session of the account journal.\<close>

record 'w submission_session =
  ss_breaker :: "'w breaker_session"
  ss_contract_version :: string
  ss_broker :: string
  ss_release_id :: string
  ss_intent_id :: string
  ss_profile :: "string option"
  ss_reserve :: "order_intent \<Rightarrow> bool \<Rightarrow> ('w, pyval) io"

record 'w env =
  e_ql :: quantity_lib
  e_tr :: translator
  e_lib :: risk_library
  e_gate :: gate_env
  e_today :: date
  e_to_iso :: "pyval \<Rightarrow> string res"
  e_set_order :: "string list \<Rightarrow> string list"
  e_fetch_quotes :: "string list \<Rightarrow> ('w, (string, quote) dict) io"
  e_trades :: "'w trade_api"
  e_settings :: read_settings
  e_fills :: "('w, fill list) io option"
  e_account :: "'w account_api"
  e_monotonic :: "('w, pyfloat) io"
  e_sleep :: "pyfloat \<Rightarrow> ('w, unit) io"
  e_get_files :: "'w \<Rightarrow> files"
  e_put_files :: "files \<Rightarrow> 'w \<Rightarrow> 'w"
  e_sha256 :: "string \<Rightarrow> string"
  e_tempdir :: string
  e_lock_disk :: disk
  e_now_text :: string
  e_publish :: "admission \<Rightarrow> row \<Rightarrow> risk_snapshot \<Rightarrow> ('w, unit) io"
  e_clear_snapshot :: "('w, unit) io"
  e_small_account :: "fdict \<Rightarrow> fdict \<Rightarrow> string list \<Rightarrow> string list \<Rightarrow> pyfloat \<Rightarrow> small_account_result res"
  e_format_cash_notes :: "pyval list \<Rightarrow> string list"
  e_drift_notes :: "fdict \<Rightarrow> fdict \<Rightarrow> fdict \<Rightarrow> fdict \<Rightarrow> row list \<Rightarrow> pyfloat \<Rightarrow> pyfloat \<Rightarrow> pyval list res"
  e_format_drift_notes :: "pyval list \<Rightarrow> string list"
  e_paper_admission :: "fdict \<Rightarrow> fdict \<Rightarrow> row res"
  e_sell_sweep :: "pyfloat \<Rightarrow> pyfloat \<Rightarrow> pyfloat \<Rightarrow> (pyfloat \<times> pyfloat) list \<Rightarrow> bool"
  e_risk_reducing :: "pyfloat \<Rightarrow> pyfloat \<Rightarrow> bool"
  e_session :: "'w submission_session option"
  e_claim :: "('w, bool) io option"
  e_release_digest :: string
  e_intent_digest :: string
  e_consult :: "bool \<Rightarrow> ('w, unit) io"
  e_delegate :: "order_intent \<Rightarrow> pyval \<Rightarrow> (pyfloat \<times> pyfloat) option \<Rightarrow> ('w, exec_report) io"
  e_delegate_guarded :: "deadline_ib \<Rightarrow> order_intent \<Rightarrow> ('w, exec_report \<times> deadline_ib) io"

section \<open>The local variables\<close>

record run =
  r_allocation :: weight_allocation
  r_caps :: fdict
  r_options :: "row list"
  r_underliers :: "string list"
  r_trade_date :: "string option"
  r_snapshot_date :: "string option"
  r_mode :: string
  r_ids :: "string list"
  r_order_account :: "string option"
  r_weights :: fdict
  r_equity :: pyfloat
  r_new_risk_blocked :: bool
  r_reason_codes :: "string list"
  r_reserved :: pyfloat
  r_investable :: pyfloat
  r_threshold :: pyfloat
  r_step :: pyfloat
  r_min_notional :: pyfloat
  r_symbols :: "string list"
  r_prices :: fdict
  r_price_fallbacks :: "string list"
  r_current_mv :: fdict
  r_target_mv :: fdict
  r_reference_mv :: fdict
  r_target_hash :: string
  r_pending_risk_unknown :: bool
  r_settled_cash :: "pyfloat option"
  r_settled_unverified :: bool
  r_anticipated :: pyfloat
  r_investable_anticipated :: pyfloat
  r_cash_sweep_quantity :: int
  r_summary :: exec_summary
  r_logs :: "string list"

datatype stage = Stop run | Go run

definition stage_bind :: "('w, stage) io \<Rightarrow> (run \<Rightarrow> ('w, stage) io) \<Rightarrow> ('w, stage) io" where
  "stage_bind m f = io_bind m (\<lambda>s. case s of Stop r \<Rightarrow> io_return (Stop r) | Go r \<Rightarrow> f r)"

definition upd_summary :: "(exec_summary \<Rightarrow> exec_summary) \<Rightarrow> run \<Rightarrow> run" where
  "upd_summary f r = r\<lparr>r_summary := f (r_summary r)\<rparr>"

definition log :: "string \<Rightarrow> run \<Rightarrow> run" where
  "log line r = r\<lparr>r_logs := r_logs r @ [line]\<rparr>"

text \<open>The three assignments every blocked exit makes.\<close>

definition blocked :: "string \<Rightarrow> exec_summary \<Rightarrow> exec_summary" where
  "blocked reason s = add_reason reason (s\<lparr>execution_status := ''blocked'', no_op_reason := Some reason\<rparr>)"

definition stop_blocked :: "string \<Rightarrow> string \<Rightarrow> run \<Rightarrow> ('w, stage) io" where
  "stop_blocked reason line r = io_return (Stop (log line (upd_summary (blocked reason) r)))"

definition display_text :: "pyval \<Rightarrow> string \<Rightarrow> string" where
  "display_text v fallback = (let t = (if v = VNone then [] else strip (v_str v)) in if t = [] then fallback else t)"

definition failed_line :: "'w env \<Rightarrow> string \<Rightarrow> string" where
  "failed_line e reason = e_tr e ''failed'' [(''reason'', VStr reason)]"

section \<open>Binding the arguments\<close>

definition float_of_or_zero :: "pyval \<Rightarrow> pyfloat res" where
  "float_of_or_zero v = v_float (v_or v (VFloat (Fin 0)))"

definition option_plan_error :: pyexn where
  "option_plan_error = RuntimeError ''IBKR live option intents lack final RiskEngine order limits''"

record binding =
  b_allocation :: weight_allocation
  b_caps :: fdict
  b_options :: "row list"
  b_trade_date :: "string option"
  b_snapshot_date :: "string option"
  b_mode :: string
  b_ids :: "string list"
  b_order_account :: "string option"

definition bind_arguments :: "'w env \<Rightarrow> args \<Rightarrow> binding res" where
  "bind_arguments e a =
    (let m = a_metadata a in
     res_bind (require_tqqq_effective_date (e_today e) m (a_strategy_profile a)) (\<lambda>_.
     res_bind (resolve_weight_allocation m) (\<lambda>alloc.
     res_bind (require_live_risk_authority m alloc (a_strategy_profile a) (a_account_ids a)) (\<lambda>caps.
     res_bind (normalize_option_order_intents m) (\<lambda>options.
     if has_executable_option_plan options then Inl option_plan_error
     else
     res_bind (normalize_date_like (e_to_iso e) (vd_get m ''snapshot_as_of'')) (\<lambda>snapshot_date.
     res_bind (resolve_execution_mode (a_dry_run a) (a_execution_mode a)) (\<lambda>mode.
     res_bind (normalize_account_ids (a_account_ids a)) (\<lambda>ids.
     res_bind (resolve_order_account_id (ids_value ids)) (\<lambda>order_account.
       Inr \<lparr>b_allocation = alloc, b_caps = caps, b_options = options,
            b_trade_date = some_text (v_text (vd_get m ''trade_date'')),
            b_snapshot_date = snapshot_date, b_mode = mode, b_ids = ids,
            b_order_account = order_account\<rparr>)))))))))"

definition first_opt :: "'a list \<Rightarrow> 'a option" where
  "first_opt xs = (case xs of [] \<Rightarrow> None | x # _ \<Rightarrow> Some x)"

definition safe_haven :: "weight_allocation \<Rightarrow> string option" where
  "safe_haven al = first_opt (wa_safe_haven_symbols al)"

definition initial_header :: "args \<Rightarrow> binding \<Rightarrow> summary_header" where
  "initial_header a b = (let m = a_metadata a in
    \<lparr>sh_mode = b_mode b, sh_strategy_profile = a_strategy_profile a, sh_account_group = a_account_group a,
     sh_account_ids = b_ids b, sh_order_account_id = b_order_account b, sh_service_name = a_service_name a,
     sh_trade_date = b_trade_date b, sh_snapshot_as_of = b_snapshot_date b,
     sh_safe_haven_symbol = safe_haven (b_allocation b),
     sh_market_currency = market_currency_text (a_market_currency a),
     sh_target_stock_weight = vd_get m ''target_stock_weight'',
     sh_realized_stock_weight = vd_get m ''realized_stock_weight'',
     sh_target_safe_haven_weight = vd_get m ''safe_haven_weight'',
     sh_option_order_intent_count = length (b_options b),
     sh_option_order_underliers = option_intent_underliers (b_options b),
     sh_safe_haven_cash_substitute_threshold_usd = py_max (Fin 0) (f_or (a_safe_haven_threshold a) (Fin 0))\<rparr>)"

definition initial_summary :: "args \<Rightarrow> binding \<Rightarrow> pyfloat \<Rightarrow> exec_summary" where
  "initial_summary a b buying_power =
    \<lparr>header = initial_header a b, orders = empty_buckets, option_orders = empty_buckets,
     skipped_reasons = [], execution_status = ''not_started'', no_op_reason = None,
     submission_halted = None, outcome_unknown = None, target_vs_current = [],
     realized_safe_haven_weight = vd_get (a_metadata a) ''safe_haven_weight'',
     cash_reserve_dollars = Fin 0, safe_haven_cash_substituted_symbols = [],
     small_account_whole_share_substituted_symbols = [],
     small_account_safe_haven_cash_substituted_symbols = [],
     small_account_whole_share_cash_notes = [], small_account_allocation_drift_notes = [],
     small_account_buy_blocked = False, small_account_buy_block_reason = None,
     account_new_risk_buy_blocked = False, account_new_risk_block_reason = None,
     account_new_risk_reason_codes = [], residual_cash_estimate = buying_power,
     projected_sell_release_value = Fin 0, current_stock_weight = Fin 0, current_safe_haven_weight = Fin 0,
     price_source_mode = ''market_quote'', price_fallback_symbols = [], price_fallback_source = None,
     quote_rows = None, lock_path = None, paper_execution_admission = VDict [],
     cash_only_deleverage_mode = None, persistent_breaker_status = None,
     pending_order_cash_risk_unknown = None, settled_cash_ledger_status = None,
     pending_sell_release_symbols = None\<rparr>"

definition empty_run :: "binding \<Rightarrow> exec_summary \<Rightarrow> pyfloat \<Rightarrow> run" where
  "empty_run b s equity =
    \<lparr>r_allocation = b_allocation b, r_caps = b_caps b, r_options = b_options b,
     r_underliers = option_intent_underliers (b_options b), r_trade_date = b_trade_date b,
     r_snapshot_date = b_snapshot_date b, r_mode = b_mode b, r_ids = b_ids b,
     r_order_account = b_order_account b, r_weights = wa_targets (b_allocation b), r_equity = equity,
     r_new_risk_blocked = False, r_reason_codes = [], r_reserved = Fin 0, r_investable = Fin 0,
     r_threshold = Fin 0, r_step = Fin 1, r_min_notional = Fin 0, r_symbols = [], r_prices = [],
     r_price_fallbacks = [], r_current_mv = [], r_target_mv = [], r_reference_mv = [], r_target_hash = [],
     r_pending_risk_unknown = False, r_settled_cash = None, r_settled_unverified = False,
     r_anticipated = Fin 0, r_investable_anticipated = Fin 0, r_cash_sweep_quantity = 0,
     r_summary = s, r_logs = []\<rparr>"

text \<open>Equity, or for a cash-only account without equity the cost of its positions.\<close>

definition or_zero :: "pyfloat option \<Rightarrow> pyfloat" where
  "or_zero q = (case q of None \<Rightarrow> Fin 0 | Some x \<Rightarrow> f_or x (Fin 0))"

definition gross_positions :: "(string, position) dict \<Rightarrow> pyfloat" where
  "gross_positions ps = f_sum (List.map (\<lambda>p. fmul (or_zero (pos_quantity p)) (or_zero (pos_avg_cost p))) (dict_values ps))"

definition position_quantity :: "(string, position) dict \<Rightarrow> string \<Rightarrow> pyfloat" where
  "position_quantity ps s = (case dict_get ps s of None \<Rightarrow> Fin 0 | Some p \<Rightarrow>
     (case pos_quantity p of None \<Rightarrow> Fin 0 | Some q \<Rightarrow> q))"

definition start_stage :: "'w env \<Rightarrow> args \<Rightarrow> ('w, stage) io" where
  "start_stage e a =
    io_bind (io_lift (bind_arguments e a)) (\<lambda>b.
    io_bind (io_lift (float_of_or_zero (vd_get (a_account_values a) ''buying_power''))) (\<lambda>buying_power.
    io_bind (io_lift (float_of_or_zero (vd_get (a_account_values a) ''equity''))) (\<lambda>equity.
      let s = initial_summary a b buying_power; mode = truthy (vd_get (a_metadata a) ''cash_only_deleverage_mode'');
          gross = gross_positions (a_positions a) in
      if fle equity (Fin 0) then
        (if a_cash_only a \<and> flt (Fin 0) gross then
           io_return (Go (empty_run b (s\<lparr>cash_only_deleverage_mode := Some True\<rparr>) gross))
         else io_return (Stop (log (e_tr e ''no_equity'' [])
                (empty_run b (s\<lparr>execution_status := ''blocked'', no_op_reason := Some ''no_equity''\<rparr>) equity))))
      else io_return (Go (empty_run b (s\<lparr>cash_only_deleverage_mode := Some mode\<rparr>) equity)))))"

section \<open>New-risk gate\<close>

definition gate_admission :: "'w env \<Rightarrow> args \<Rightarrow> run \<Rightarrow> ('w, admission \<times> run) io" where
  "gate_admission e a r =
    io_bind (io_lift (evaluate_account_values_new_risk_admission (e_lib e) (e_gate e) (a_account_values a) (a_metadata a))) (\<lambda>adm.
      case e_session e of
        None \<Rightarrow>
          if a_dry_run a then
            io_return (adm, upd_summary (\<lambda>s. s\<lparr>persistent_breaker_status := Some ''NOT_PROVEN''\<rparr>) r)
          else io_bind (evaluate_persistent_account_new_risk_admission (e_lib e) (e_gate e) (a_account_values a) (a_metadata a)
                 \<lparr>bs_genuine = False, bs_record_open = (\<lambda>_. io_return ()), bs_read_state = io_return []\<rparr>)
                 (\<lambda>adm2. io_return (adm2, r))
      | Some s \<Rightarrow> io_bind (evaluate_persistent_account_new_risk_admission (e_lib e) (e_gate e) (a_account_values a) (a_metadata a)
                 (ss_breaker s)) (\<lambda>adm2. io_return (adm2, r)))"

definition gate_stage :: "'w env \<Rightarrow> args \<Rightarrow> run \<Rightarrow> ('w, stage) io" where
  "gate_stage e a r =
    (if \<not> is_account_new_risk_gate_enabled (e_gate e) then
       io_bind (e_clear_snapshot e) (\<lambda>_. io_return (Go r))
     else
       io_bind (gate_admission e a r) (\<lambda>(adm, r1).
       io_bind (io_lift (build_portfolio_from_account_values (lib_apply_axes (e_lib e)) (e_gate e)
                  (a_account_values a) (a_metadata a))) (\<lambda>portfolio.
       io_bind (io_lift (build_snapshot_from_portfolio (e_lib e) (e_gate e) portfolio None)) (\<lambda>snapshot.
       io_bind (e_publish e adm portfolio snapshot) (\<lambda>_.
       io_bind (io_lift (scale_targets_for_admission (e_lib e) (e_gate e) (r_weights r1) adm (Some snapshot))) (\<lambda>weights.
         io_return (Go (r1\<lparr>r_new_risk_blocked := new_risk_buy_prohibited adm,
                          r_reason_codes := ad_reason_codes adm, r_weights := weights\<rparr>))))))))"

section \<open>Reserve, symbols and prices\<close>

definition safe_haven_weight_sum :: "fdict \<Rightarrow> string list \<Rightarrow> pyfloat" where
  "safe_haven_weight_sum weights havens =
    f_sum (List.map (\<lambda>s. f_or (fget weights (symbol_text s)) (Fin 0)) havens)"

definition note_safe_haven :: "run \<Rightarrow> run" where
  "note_safe_haven r = (let havens = wa_safe_haven_symbols (r_allocation r) in
     if havens = [] then r
     else upd_summary (\<lambda>s. s\<lparr>realized_safe_haven_weight := VFloat (safe_haven_weight_sum (r_weights r) havens)\<rparr>) r)"

definition candidate_symbols :: "args \<Rightarrow> run \<Rightarrow> string list" where
  "candidate_symbols a r = (let s = fromkeys (dict_keys (r_weights r) @ dict_keys (a_positions a));
       strategy = wa_strategy_symbols (r_allocation r) in
     if strategy = [] then s else filter (\<lambda>x. x \<in> set strategy) s)"

definition reserve_stage :: "'w env \<Rightarrow> args \<Rightarrow> run \<Rightarrow> run" where
  "reserve_stage e a r =
    (let equity = r_equity r;
         reserved = py_max (fmul equity (f_or (a_cash_reserve_ratio a) (Fin 0)))
                           (py_max (Fin 0) (f_or (a_cash_reserve_floor a) (Fin 0)));
         investable = fsub equity reserved;
         (weights, substituted) = apply_safe_haven_cash_substitution (r_weights r)
            (wa_safe_haven_symbols (r_allocation r)) investable (a_safe_haven_threshold a);
         r1 = note_safe_haven (upd_summary (\<lambda>s. s\<lparr>safe_haven_cash_substituted_symbols := substituted\<rparr>)
                (r\<lparr>r_weights := weights\<rparr>));
         r2 = r1\<lparr>r_reserved := reserved, r_investable := investable,
                 r_threshold := fmul equity (a_rebalance_threshold_ratio a),
                 r_step := f_or (a_quantity_step a) (Fin 1),
                 r_min_notional := py_max (Fin 0) (f_or (a_min_order_notional a) (Fin 0))\<rparr> in
     (upd_summary (\<lambda>s. s\<lparr>cash_reserve_dollars := reserved\<rparr>) r2)\<lparr>r_symbols := e_set_order e (candidate_symbols a r2)\<rparr>)"

definition serialize_quote_snapshot :: "quote \<Rightarrow> string \<Rightarrow> row" where
  "serialize_quote_snapshot q symbol =
    [(''symbol'', VStr (symbol_text (v_str (v_or (v_or (qu_symbol q) (VStr symbol)) (VStr []))))),
     (''as_of'', VStr (v_str (v_or (qu_as_of q) (VStr [])))),
     (''last_price'', VFloat (f_or (qu_last_price q) (Fin 0))),
     (''bid_price'', qu_bid_price q), (''ask_price'', qu_ask_price q),
     (''currency'', VStr (v_text (qu_currency q)))]"

definition quote_payloads :: "(string, quote) dict \<Rightarrow> row list" where
  "quote_payloads quotes = dict_values (foldl (\<lambda>d (s, q). let p = serialize_quote_snapshot q s in
      if truthy (vd_get p ''symbol'') then dict_set d (v_str (vd_get p ''symbol'')) p else d) [] quotes)"

definition market_prices :: "(string, quote) dict \<Rightarrow> fdict" where
  "market_prices quotes = List.map (\<lambda>(s, q). (s, qu_last_price q)) quotes"

definition price_source :: "row \<Rightarrow> string" where
  "price_source m = (let t = v_text (vd_get m ''price_fallback_source'') in
     if t \<noteq> [] then t else if truthy (vd_get m ''dry_run_price_fallbacks'') then ''snapshot_close'' else ''close'')"

definition price_stage :: "'w env \<Rightarrow> args \<Rightarrow> run \<Rightarrow> ('w, stage) io" where
  "price_stage e a r =
    io_bind (io_lift (normalize_price_fallbacks (a_metadata a))) (\<lambda>fallbacks.
    io_bind (e_fetch_quotes e (r_symbols r)) (\<lambda>quotes.
      let (prices, used) = apply_snapshot_price_fallbacks (market_prices quotes) (r_symbols r) fallbacks;
          source = price_source (a_metadata a) in
      io_return (Go (upd_summary (\<lambda>s. s\<lparr>price_fallback_symbols := used,
            price_fallback_source := (if used = [] then None else Some source),
            quote_rows := Some (quote_payloads quotes),
            price_source_mode := (if used = [] then price_source_mode s else ''mixed_market_quote_'' @ source)\<rparr>)
          (r\<lparr>r_prices := prices, r_price_fallbacks := used\<rparr>)))))"

section \<open>Targets\<close>

definition market_values :: "(string, position) dict \<Rightarrow> fdict \<Rightarrow> string list \<Rightarrow> fdict" where
  "market_values positions prices symbols =
    List.map (\<lambda>s. (s, fmul (position_quantity positions s) (fget prices s))) symbols"

definition current_quantities :: "args \<Rightarrow> run \<Rightarrow> fdict" where
  "current_quantities a r = List.map (\<lambda>s. (s, position_quantity (a_positions a) s)) (r_symbols r)"

definition target_values :: "pyfloat \<Rightarrow> fdict \<Rightarrow> fdict" where
  "target_values investable weights = List.map (\<lambda>(s, w). (s, fmul investable w)) weights"

definition risk_and_income :: "weight_allocation \<Rightarrow> string list" where
  "risk_and_income al = fromkeys (List.map symbol_text
     (filter (\<lambda>s. strip s \<noteq> []) (wa_risk_symbols al @ wa_income_symbols al)))"

definition drift_target_symbols :: "weight_allocation \<Rightarrow> fdict \<Rightarrow> string list" where
  "drift_target_symbols al target_mv = (let xs = risk_and_income al in
     if xs \<noteq> [] then xs
     else filter (\<lambda>s. symbol_text s \<notin> set (wa_safe_haven_symbols al)) (dict_keys target_mv))"

definition reference_values :: "fdict \<Rightarrow> string list \<Rightarrow> fdict" where
  "reference_values target_mv symbols =
    List.map (\<lambda>s. (s, fget target_mv s)) (filter (\<lambda>s. s \<in> set (dict_keys target_mv)) symbols)"

definition small_account_candidates :: "weight_allocation \<Rightarrow> fdict \<Rightarrow> string list" where
  "small_account_candidates al target_mv = (let xs = risk_and_income al in
     if xs \<noteq> [] then xs
     else List.map symbol_text (filter (\<lambda>s. symbol_text s \<notin> set (wa_safe_haven_symbols al)) (dict_keys target_mv)))"

definition target_cap_error :: pyexn where
  "target_cap_error = RuntimeError ''IBKR target exceeds RiskEngine order limit''"

definition cent :: pyfloat where "cent = to_float (1 / 100)"

definition check_target_caps :: "fdict \<Rightarrow> fdict \<Rightarrow> unit res" where
  "check_target_caps caps target_mv =
    (if list_all (\<lambda>(s, v). case dict_get caps s of None \<Rightarrow> False
         | Some cap \<Rightarrow> isfinite v \<and> \<not> flt (fadd cap cent) v) target_mv
     then Inr () else Inl target_cap_error)"

definition zero_weights :: "string list \<Rightarrow> fdict \<Rightarrow> fdict" where
  "zero_weights symbols weights = foldl (\<lambda>w s. dict_set w s (Fin 0)) weights symbols"

definition target_stage :: "'w env \<Rightarrow> args \<Rightarrow> run \<Rightarrow> ('w, stage) io" where
  "target_stage e a r =
    (let al = r_allocation r; tmv0 = target_values (r_investable r) (r_weights r);
         r1 = r\<lparr>r_current_mv := market_values (a_positions a) (r_prices r) (r_symbols r),
                r_reference_mv := reference_values tmv0 (drift_target_symbols al tmv0)\<rparr> in
     io_bind (io_lift (e_small_account e tmv0 (r_prices r) (small_account_candidates al tmv0)
                 (wa_safe_haven_symbols al) (r_step r))) (\<lambda>sa.
     io_bind (io_lift (check_target_caps (r_caps r) (sa_targets sa))) (\<lambda>_.
       let r2 = note_safe_haven (r1\<lparr>r_target_mv := sa_targets sa,
                  r_weights := zero_weights (sa_safe_haven_symbols sa) (zero_weights (sa_whole_share_symbols sa) (r_weights r1))\<rparr>) in
       io_return (Go ((upd_summary (\<lambda>s. s\<lparr>
            small_account_whole_share_substituted_symbols := sa_whole_share_symbols sa,
            small_account_safe_haven_cash_substituted_symbols := sa_safe_haven_symbols sa,
            small_account_whole_share_cash_notes := sa_notes sa\<rparr>) r2)
          \<lparr>r_logs := e_format_cash_notes e (sa_notes sa)\<rparr>)))))"

text \<open>\<open>append_small_account_allocation_drift_notes\<close>\<close>

definition append_drift_notes :: "'w env \<Rightarrow> args \<Rightarrow> run \<Rightarrow> run res" where
  "append_drift_notes e a r =
    (let s = r_summary r; os = orders s in
     if execution_status s = ''blocked'' \<or> small_account_allocation_drift_notes s \<noteq> [] then Inr r
     else res_bind (float_of_or_zero (vd_get (a_account_values a) ''buying_power'')) (\<lambda>bp.
       res_bind (e_drift_notes e (r_reference_mv r) (r_current_mv r) (current_quantities a r) (r_prices r)
           (submitted os @ pending os @ filled os @ partially_filled os) (f_or (r_equity r) (Fin 0))
           (investable_buying_power bp (r_reserved r))) (\<lambda>notes.
         if notes = [] then Inr r
         else Inr ((upd_summary (\<lambda>s. s\<lparr>small_account_allocation_drift_notes := notes\<rparr>) r)
                \<lparr>r_logs := r_logs r @ e_format_drift_notes e notes\<rparr>))))"

section \<open>Admission, pending orders and settled cash\<close>

definition current_weights :: "run \<Rightarrow> exec_summary \<Rightarrow> exec_summary res" where
  "current_weights r s =
    (if flt (Fin 0) (r_equity r) then
       (let sh = (case safe_haven (r_allocation r) of None \<Rightarrow> Fin 0
              | Some h \<Rightarrow> if h = [] then Fin 0 else fget (r_current_mv r) h) in
        res_bind (fdiv sh (r_equity r)) (\<lambda>x.
        res_bind (fdiv (fsub (f_sum (dict_values (r_current_mv r))) sh) (r_equity r)) (\<lambda>y.
          Inr (s\<lparr>current_safe_haven_weight := x, current_stock_weight := y\<rparr>))))
     else Inr s)"

definition admission_stage :: "'w env \<Rightarrow> args \<Rightarrow> run \<Rightarrow> ('w, stage) io" where
  "admission_stage e a r0 =
    io_bind (io_lift (build_target_diff_rows (r_weights r0) (r_current_mv r0) (r_equity r0))) (\<lambda>rows.
      let r = (upd_summary (\<lambda>s. s\<lparr>target_vs_current := rows\<rparr>) r0)
                \<lparr>r_target_hash := build_target_hash (e_sha256 e) (r_weights r0)\<rparr>;
          finish = (\<lambda>r. io_bind (io_lift (current_weights r (r_summary r)))
                      (\<lambda>s. io_return (Go (r\<lparr>r_summary := s\<rparr>)))) in
      if \<not> a_paper_admission a then finish r
      else io_bind (io_lift (e_paper_admission e (r_prices r) (r_target_mv r))) (\<lambda>paper.
        let r1 = upd_summary (\<lambda>s. s\<lparr>paper_execution_admission := VDict paper\<rparr>) r in
        if \<not> truthy (vd_get paper ''broker_write_allowed'') then
          stop_blocked ''paper_execution_admission_blocked'' (failed_line e ''paper_execution_admission_blocked'') r1
        else finish r1))"

definition profile_text :: "args \<Rightarrow> string" where
  "profile_text a = display_text (opt_str (a_strategy_profile a)) ''<unknown>''"

definition pending_stage :: "'w env \<Rightarrow> args \<Rightarrow> run \<Rightarrow> ('w, stage) io" where
  "pending_stage e a r w =
    (case observe_pending_orders (e_trades e) (e_settings e) (set (r_symbols r) \<union> set (r_underliers r)) (ids_value (r_ids r)) w of
       (Inl x, w') \<Rightarrow>
         (if raised_as ''PendingOrdersUnavailable'' x
          then stop_blocked ''pending_orders_unavailable'' (failed_line e ''pending_orders_unavailable'') r w'
          else (Inl x, w'))
     | (Inr obs, w') \<Rightarrow>
         (if po_symbols obs \<noteq> [] then
            stop_blocked (''pending_orders_detected:'' @ join '','' (po_symbols obs))
              (e_tr e ''pending_orders_detected'' [(''profile'', VStr (profile_text a)),
                 (''symbols'', VStr (join '','' (po_symbols obs)))]) r w'
          else if po_cash_risk_unknown obs then
            (Inr (Go (upd_summary (\<lambda>s. s\<lparr>pending_order_cash_risk_unknown := Some True\<rparr>)
               (r\<lparr>r_new_risk_blocked := True, r_pending_risk_unknown := True,
                  r_reason_codes := r_reason_codes r @ [''PENDING_ORDER_CASH_RISK_UNKNOWN'']\<rparr>))), w')
          else (Inr (Go r), w')))"

definition settled_stage :: "'w env \<Rightarrow> args \<Rightarrow> run \<Rightarrow> ('w, stage) io" where
  "settled_stage e a r =
    (if \<not> a_cash_only a then io_return (Go r)
     else io_bind (settled_cash_for_currency (e_account e) (a_market_currency a) (ids_value (r_ids r))) (\<lambda>settled.
       case settled of
         None \<Rightarrow> io_return (Go (upd_summary (\<lambda>s. s\<lparr>settled_cash_ledger_status := Some ''UNKNOWN''\<rparr>)
                  (r\<lparr>r_new_risk_blocked := True, r_settled_unverified := True,
                     r_reason_codes := r_reason_codes r @ [''SETTLED_CASH_LEDGER_UNVERIFIED'']\<rparr>)))
       | Some x \<Rightarrow> io_return (Go (upd_summary (\<lambda>s. s\<lparr>settled_cash_ledger_status := Some ''OBSERVED''\<rparr>)
                  (r\<lparr>r_settled_cash := Some x\<rparr>)))))"

section \<open>Report lines\<close>

definition percent_field :: "row \<Rightarrow> string \<Rightarrow> string res" where
  "percent_field m k = res_bind (float_of_or_zero (vd_get m k)) (\<lambda>x. Inr (fmt_percent1 x))"

definition opt_display :: "string option \<Rightarrow> string" where
  "opt_display v = display_text (opt_str v) ''<none>''"

definition detail_line :: "'w env \<Rightarrow> args \<Rightarrow> run \<Rightarrow> string res" where
  "detail_line e a r =
    (let m = a_metadata a; t = (\<lambda>key v. e_tr e key [(''value'', VStr v)]) in
     res_bind (percent_field m ''breadth_ratio'') (\<lambda>breadth.
     res_bind (percent_field m ''target_stock_weight'') (\<lambda>target.
     res_bind (percent_field m ''realized_stock_weight'') (\<lambda>realized.
       Inr (join '' | ''
         [e_tr e ''execution_profile_detail'' [(''profile'', VStr (profile_text a))],
          t ''regime_detail'' (display_text (vd_get m ''regime'') ''<none>''),
          t ''breadth_detail'' breadth, t ''target_stock_detail'' target, t ''realized_stock_detail'' realized,
          t ''snapshot_as_of_detail'' (opt_display (r_snapshot_date r)),
          t ''trade_date_detail'' (opt_display (r_trade_date r))])))))"

definition report_stage :: "'w env \<Rightarrow> args \<Rightarrow> run \<Rightarrow> run res" where
  "report_stage e a r =
    res_bind (detail_line e a r) (\<lambda>line.
    res_bind (format_target_lines (e_tr e) (r_weights r) (r_current_mv r) (r_equity r)) (\<lambda>targets.
      let used = r_price_fallbacks r;
          fallback = (if used = [] then [] else
            [e_tr e (if a_dry_run a then ''dry_run_snapshot_prices'' else ''price_fallback_prices'')
               [(''count'', VInt (int (length used))), (''symbols'', VStr (format_symbol_preview used))]]) in
      Inr (r\<lparr>r_logs := r_logs r @ [line] @ fallback @ targets\<rparr>)))"

section \<open>Is there anything to trade?\<close>

record scan =
  sc_missing :: "string list"
  sc_insufficient :: "string list"
  sc_min_notional :: "string list"
  sc_zero :: "string list"

definition empty_scan :: scan where
  "empty_scan = \<lparr>sc_missing = [], sc_insufficient = [], sc_min_notional = [], sc_zero = []\<rparr>"

text \<open>The first loop stops at the first symbol that has a sale of positive quantity.\<close>

fun sell_plan_scan :: "'w env \<Rightarrow> args \<Rightarrow> run \<Rightarrow> string list \<Rightarrow> scan \<Rightarrow> (bool \<times> scan) res" where
  "sell_plan_scan e a r [] sc = Inr (False, sc)"
| "sell_plan_scan e a r (s # ss) sc =
    (let current = fget (r_current_mv r) s; target = fget (r_target_mv r) s in
     if fle current (fadd target (r_threshold r)) then sell_plan_scan e a r ss sc
     else case usable_price (r_prices r) s of
       None \<Rightarrow> sell_plan_scan e a r ss (sc\<lparr>sc_missing := sc_missing sc @ [s]\<rparr>)
     | Some price \<Rightarrow>
         res_bind (sell_order_quantity (e_ql e) current target price (position_quantity (a_positions a) s) (r_step r)) (\<lambda>q.
           if flt (Fin 0) q then Inr (True, sc)
           else sell_plan_scan e a r ss (sc\<lparr>sc_zero := sc_zero sc @ [s]\<rparr>)))"

definition funding_buy_candidates :: "run \<Rightarrow> string list" where
  "funding_buy_candidates r =
    (if r_new_risk_blocked r then []
     else filter (\<lambda>s. Some s \<noteq> safe_haven (r_allocation r)
            \<and> flt (r_threshold r) (fsub (fget (r_target_mv r) s) (fget (r_current_mv r) s))
            \<and> flt (r_min_notional r) (fabs (fsub (fget (r_target_mv r) s) (fget (r_current_mv r) s))))
          (dict_keys (r_target_mv r)))"

definition funding_step ::
    "args \<Rightarrow> run \<Rightarrow> string \<Rightarrow> (pyfloat \<times> pyfloat) list \<Rightarrow> (pyfloat \<times> pyfloat) list res" where
  "funding_step a r s needs =
    (let under = fsub (fget (r_target_mv r) s) (fget (r_current_mv r) s) in
     if fle under (r_threshold r) then Inr needs
     else case usable_price (r_prices r) s of None \<Rightarrow> Inr needs
     | Some ask \<Rightarrow> if fle ask (Fin 0) then Inr needs
         else res_bind (limit_buy_price s ask (a_limit_buy_premium a) (a_limit_buy_premium_by_symbol a)) (\<lambda>lp.
           Inr (needs @ [(under, lp)])))"

definition cash_sweep_price :: "run \<Rightarrow> pyfloat" where
  "cash_sweep_price r = (case safe_haven (r_allocation r) of None \<Rightarrow> Fin 0
     | Some h \<Rightarrow> if h = [] then Fin 0 else f_or (fget (r_prices r) h) (Fin 0))"

definition cash_sweep_sale_quantity_to_fund_buy ::
    "'w env \<Rightarrow> args \<Rightarrow> run \<Rightarrow> int \<Rightarrow> string list \<Rightarrow> int res" where
  "cash_sweep_sale_quantity_to_fund_buy e a r max_quantity candidates =
    (if max_quantity \<le> 0 \<or> safe_haven (r_allocation r) \<in> {None, Some []} \<or> fle (cash_sweep_price r) (Fin 0) then Inr 0
     else res_bind (res_fold (funding_step a r) candidates []) (\<lambda>needs.
          res_bind (float_of_int max_quantity) (\<lambda>q.
            Inr (if e_sell_sweep e q (cash_sweep_price r) (py_max (Fin 0) (r_investable_anticipated r)) needs
                 then max_quantity else 0))))"

definition sweep_quantity :: "'w env \<Rightarrow> args \<Rightarrow> run \<Rightarrow> bool \<Rightarrow> int res" where
  "sweep_quantity e a r has_sell =
    (let cands = funding_buy_candidates r in
     case safe_haven (r_allocation r) of None \<Rightarrow> Inr 0
     | Some h \<Rightarrow>
       (let held = f_or (position_quantity (a_positions a) h) (Fin 0) in
        if has_sell \<or> cands = [] \<or> h = [] \<or> \<not> flt (Fin 0) (cash_sweep_price r) \<or> \<not> flt (Fin 0) held then Inr 0
        else res_bind (f_int held) (\<lambda>k. cash_sweep_sale_quantity_to_fund_buy e a r k cands)))"

fun buy_plan_scan :: "'w env \<Rightarrow> args \<Rightarrow> run \<Rightarrow> fdict \<Rightarrow> scan \<Rightarrow> (bool \<times> scan) res" where
  "buy_plan_scan e a r [] sc = Inr (False, sc)"
| "buy_plan_scan e a r ((s, target) # rest) sc =
    (let current = fget (r_current_mv r) s in
     if fle (fsub target (r_threshold r)) current then buy_plan_scan e a r rest sc
     else case usable_price (r_prices r) s of
       None \<Rightarrow> buy_plan_scan e a r rest (sc\<lparr>sc_missing := sc_missing sc @ [s]\<rparr>)
     | Some price \<Rightarrow>
       (let buy_value = py_min (fsub target current) (fmul (r_investable_anticipated r) f095) in
        if fle buy_value (Fin 0) then buy_plan_scan e a r rest (sc\<lparr>sc_insufficient := sc_insufficient sc @ [s]\<rparr>)
        else if flt buy_value (r_min_notional r) then
          buy_plan_scan e a r rest (sc\<lparr>sc_min_notional := sc_min_notional sc @ [s]\<rparr>)
        else res_bind (limit_buy_price s price (a_limit_buy_premium a) (a_limit_buy_premium_by_symbol a)) (\<lambda>lp.
             res_bind (planned_buy_order_quantity (e_ql e) buy_value lp (r_step r)) (\<lambda>q.
               if flt (Fin 0) q then Inr (True, sc)
               else buy_plan_scan e a r rest (sc\<lparr>sc_zero := sc_zero sc @ [s]\<rparr>)))))"

definition anticipated_stage :: "'w env \<Rightarrow> args \<Rightarrow> run \<Rightarrow> ('w, run) io" where
  "anticipated_stage e a r =
    io_bind (if a_cash_only a
             then io_return (py_max (Fin 0) (f_or (case r_settled_cash r of None \<Rightarrow> Fin 0 | Some x \<Rightarrow> x) (Fin 0)))
             else io_bind (api_cached (e_account e)) (\<lambda>rows.
                  io_lift (get_available_buying_power rows (case dict_get (a_account_values a) ''buying_power'' of
                       None \<Rightarrow> VInt 0 | Some v \<Rightarrow> v) (ids_value (r_ids r)) (a_market_currency a) False))) (\<lambda>bp.
      io_return (r\<lparr>r_anticipated := bp, r_investable_anticipated := investable_buying_power bp (r_reserved r)\<rparr>))"

definition breaker_unavailable_error :: pyexn where
  "breaker_unavailable_error = RuntimeError ''IBKR persistent breaker session/contract unavailable; refusing new risk''"

definition any_buy_wanted :: "run \<Rightarrow> bool" where
  "any_buy_wanted r = list_ex (\<lambda>(s, t). flt (fadd (fget (r_current_mv r) s) (r_threshold r)) t) (r_target_mv r)"

definition gate_reason_line :: "'w env \<Rightarrow> string \<Rightarrow> string" where
  "gate_reason_line e text = e_tr e ''buy_deferred'' [(''detail'', VStr (''[Account new-risk gate] '' @ text))]"

definition unproven_stop :: "'w env \<Rightarrow> run \<Rightarrow> ('w, stage) io" where
  "unproven_stop e r =
    stop_blocked ''account_new_risk_gate'' (gate_reason_line e (join '', '' (r_reason_codes r)))
      (upd_summary (\<lambda>s. s\<lparr>account_new_risk_buy_blocked := True,
          account_new_risk_block_reason := Some ''account_new_risk_gate'',
          account_new_risk_reason_codes := r_reason_codes r\<rparr>) r)"

definition sorted_symbols :: "string list \<Rightarrow> string list" where
  "sorted_symbols ss = sort (fromkeys ss)"

definition no_op_reason_of :: "scan \<Rightarrow> string \<times> bool" where
  "no_op_reason_of sc =
    (if sc_missing sc \<noteq> [] then (''missing_price:'' @ join '','' (sorted_symbols (sc_missing sc)), True)
     else if sc_insufficient sc \<noteq> [] then (''insufficient_buying_power:'' @ join '','' (sorted_symbols (sc_insufficient sc)), True)
     else if sc_min_notional sc \<noteq> [] then (''min_notional:'' @ join '','' (sorted_symbols (sc_min_notional sc)), False)
     else if sc_zero sc \<noteq> [] then (''quantity_zero:'' @ join '','' (sorted_symbols (sc_zero sc)), False)
     else (''target_diff_below_threshold'', False))"

definition add_skipped :: "row list \<Rightarrow> exec_summary \<Rightarrow> exec_summary" where
  "add_skipped rows s = upd_buckets False (\<lambda>b. b\<lparr>skipped := skipped b @ rows\<rparr>) s"

text \<open>Nothing to trade: an executable option plan never gets here, so the run always ends.\<close>

definition no_op_stop :: "'w env \<Rightarrow> args \<Rightarrow> run \<Rightarrow> scan \<Rightarrow> run res" where
  "no_op_stop e a r sc =
    (let (reason, is_blocked) = no_op_reason_of sc; plain = ''target_diff_below_threshold'';
         s0 = r_summary r;
         s1 = (if sc_missing sc = [] then s0 else add_skipped
                 (List.map (\<lambda>x. [(''symbol'', VStr x), (''reason'', VStr ''missing_price'')]) (sorted_symbols (sc_missing sc))) s0) in
     res_bind (record_unsupported_option_intents (r_options r) s1) (\<lambda>s2.
       let reason' = (if skipped (option_orders s2) \<noteq> [] \<and> reason = plain then ''option_orders_skipped'' else reason);
           s3 = s2\<lparr>execution_status := (if is_blocked then ''blocked'' else ''no_op''), no_op_reason := Some reason'\<rparr>;
           s4 = (if reason' \<noteq> plain then add_reason reason' s3 else s3);
           r1 = r\<lparr>r_summary := s4\<rparr>;
           r2 = (if reason' \<noteq> plain \<and> is_blocked then log (failed_line e reason') r1 else r1) in
       append_drift_notes e a r2))"

definition plan_stage :: "'w env \<Rightarrow> args \<Rightarrow> run \<Rightarrow> ('w, stage) io" where
  "plan_stage e a r0 =
    io_bind (io_lift (report_stage e a r0)) (\<lambda>r1.
    io_bind (anticipated_stage e a r1) (\<lambda>r.
    io_bind (io_lift (sell_plan_scan e a r (r_symbols r) empty_scan)) (\<lambda>(has_sell0, sc1).
    io_bind (io_lift (sweep_quantity e a r has_sell0)) (\<lambda>sweep.
      let has_sell = (has_sell0 \<or> 0 < sweep); r2 = r\<lparr>r_cash_sweep_quantity := sweep\<rparr> in
    io_bind (io_lift (buy_plan_scan e a r2 (r_target_mv r2) sc1)) (\<lambda>(has_buy, sc).
      if has_buy \<and> \<not> a_dry_run a \<and> ''PERSISTENT_BREAKER_UNAVAILABLE'' \<in> set (r_reason_codes r2) then
        io_raise breaker_unavailable_error
      else if (r_pending_risk_unknown r2 \<or> r_settled_unverified r2) \<and> any_buy_wanted r2 \<and> \<not> has_sell then
        unproven_stop e r2
      else if \<not> has_sell \<and> \<not> has_buy then
        io_bind (io_lift (no_op_stop e a r2 sc)) (\<lambda>r3. io_return (Stop r3))
      else io_return (Go r2))))))"

text \<open>All of planning, in the order of the function.\<close>

definition plan_rebalance :: "'w env \<Rightarrow> args \<Rightarrow> ('w, stage) io" where
  "plan_rebalance e a =
    stage_bind (start_stage e a) (\<lambda>r0.
    stage_bind (gate_stage e a r0) (\<lambda>r1.
    stage_bind (price_stage e a (reserve_stage e a r1)) (\<lambda>r2.
    stage_bind (target_stage e a r2) (\<lambda>r3.
    stage_bind (admission_stage e a r3) (\<lambda>r4.
    stage_bind (pending_stage e a r4) (\<lambda>r5.
    stage_bind (settled_stage e a r5) (\<lambda>r6.
      plan_stage e a r6)))))))"

end
