(* ===== verification/RebalanceRun.thy ===== *)
theory RebalanceRun
  imports RebalancePlan
begin

text \<open>
  The trading half of \<open>execute_rebalance\<close>: same-day fills and the execution lock, the
  claimed submission wrapper, the sell loop, the budget of the buys, the reasons to defer
  them, the buy loop and the final status.  Orders go through \<open>e_delegate\<close> (the platform's
  submitter) or, for cash-only buys, through \<open>e_delegate_guarded\<close> with the settled-cash guard.
\<close>

section \<open>Claimed submission\<close>

text \<open>
  \<open>submit_claimed_order\<close>: session and contract, binding to release and intent, the execution
  claim, the persistent breaker for new risk, and the reservation of the exact intent.
\<close>

definition session_error :: pyexn where
  "session_error = RuntimeError ''IBKR account submission session/contract required''"
definition mismatch_error :: pyexn where
  "mismatch_error = RuntimeError ''IBKR account session intent/release binding mismatch''"
definition claim_error :: pyexn where
  "claim_error = RuntimeError ''IBKR execution claim required; refusing broker submission''"
definition new_risk_error :: pyexn where
  "new_risk_error = RuntimeError ''IBKR persistent account breaker prohibits new risk''"

definition check_session :: "'w env \<Rightarrow> args \<Rightarrow> 'w submission_session res" where
  "check_session e a = (case e_session e of
      None \<Rightarrow> Inl session_error
    | Some s \<Rightarrow>
        if \<not> bs_genuine (ss_breaker s) \<or> ss_contract_version s \<noteq> ''account_submission.v1'' then Inl session_error
        else if ss_broker s \<noteq> ''ibkr'' \<or> ss_release_id s \<noteq> e_release_digest e
                \<or> ss_intent_id s \<noteq> e_intent_digest e \<or> ss_profile s \<noteq> a_strategy_profile a
        then Inl mismatch_error else Inr s)"

definition take_claim :: "'w env \<Rightarrow> ('w, unit) io" where
  "take_claim e = io_bind (case e_claim e of None \<Rightarrow> io_return False | Some c \<Rightarrow> c) (\<lambda>claimed.
     if \<not> claimed then io_bind (e_consult e False) (\<lambda>_. io_raise claim_error)
     else e_consult e True)"

definition is_new_risk :: "'w env \<Rightarrow> order_intent \<Rightarrow> bool" where
  "is_new_risk e i = (lower (strip (oi_side i)) = ''buy'' \<and> is_account_new_risk_gate_enabled (e_gate e))"

definition authorize :: "'w env \<Rightarrow> args \<Rightarrow> order_intent \<Rightarrow> ('w, 'w submission_session) io" where
  "authorize e a i =
    io_bind (io_lift (check_session e a)) (\<lambda>s.
    io_bind (take_claim e) (\<lambda>_.
    io_bind (if is_new_risk e i then
        io_bind (evaluate_persistent_account_new_risk_admission (e_lib e) (e_gate e) (a_account_values a) (a_metadata a)
                   (ss_breaker s)) (\<lambda>latest.
          if new_risk_buy_prohibited latest then io_raise new_risk_error else io_return ())
      else io_return ()) (\<lambda>_. io_return s)))"

definition submit_plain ::
    "'w env \<Rightarrow> args \<Rightarrow> order_intent \<Rightarrow> (pyfloat \<times> pyfloat) option \<Rightarrow> ('w, exec_report) io" where
  "submit_plain e a i reduction =
    io_bind (authorize e a i) (\<lambda>s.
    io_bind (ss_reserve s i (is_new_risk e i)) (\<lambda>grant. e_delegate e i grant reduction))"

definition submit_guarded ::
    "'w env \<Rightarrow> args \<Rightarrow> deadline_ib \<Rightarrow> order_intent \<Rightarrow> ('w, exec_report \<times> deadline_ib) io" where
  "submit_guarded e a g i = io_bind (authorize e a i) (\<lambda>s. e_delegate_guarded e g i)"

section \<open>Same-day fills and the lock\<close>

definition fills_stage :: "'w env \<Rightarrow> args \<Rightarrow> run \<Rightarrow> ('w, stage) io" where
  "fills_stage e a r =
    io_bind (collect_same_day_filled_symbols (e_to_iso e) (e_fills e) (set (r_symbols r) \<union> set (r_underliers r))
               (r_trade_date r) (ids_value (r_ids r))) (\<lambda>same_day.
      if same_day \<noteq> [] then
        stop_blocked (''same_day_fills_detected:'' @ join '','' same_day)
          (e_tr e ''same_day_fills_detected'' [(''profile'', VStr (profile_text a)), (''mode'', VStr (r_mode r)),
             (''symbols'', VStr (join '','' same_day)), (''trade_date'', VStr (opt_display (r_trade_date r)))]) r
      else io_return (Go r))"

definition with_files :: "'w env \<Rightarrow> (files, 'a) io \<Rightarrow> ('w, 'a) io" where
  "with_files e m w = (let (x, fs) = m (e_get_files e w) in (x, e_put_files e fs w))"

definition scope_of :: "args \<Rightarrow> run \<Rightarrow> lock_scope" where
  "scope_of a r = \<lparr>ls_strategy_profile = a_strategy_profile a, ls_account_group = a_account_group a,
     ls_service_name = a_service_name a, ls_trade_date = r_trade_date r, ls_snapshot_date = r_snapshot_date r,
     ls_execution_mode = r_mode r\<rparr>"

text \<open>\<open>_read_execution_lock(path) or {}\<close>, used through \<open>.get\<close>.\<close>

definition lock_record :: "pyval option \<Rightarrow> row res" where
  "lock_record found = (case found of None \<Rightarrow> Inr []
     | Some v \<Rightarrow> if \<not> truthy v then Inr []
        else (case v of VDict d \<Rightarrow> Inr d | _ \<Rightarrow> Inl (AttributeError ''get'')))"

definition lock_stage :: "'w env \<Rightarrow> args \<Rightarrow> run \<Rightarrow> ('w, stage) io" where
  "lock_stage e a r =
    (let path = resolve_execution_lock_path (e_tempdir e) (scope_of a r) (a_lock_dir a);
         payload = build_execution_lock_payload (e_now_text e) (scope_of a r) (r_ids r) (r_target_hash r);
         r1 = upd_summary (\<lambda>s. s\<lparr>lock_path := Some path\<rparr>) r in
     io_bind (with_files e (try_create_execution_lock (e_lock_disk e) path payload)) (\<lambda>created.
       if created then
         io_return (Go (upd_summary (\<lambda>s. s\<lparr>execution_status := ''executing''\<rparr>)
           (log (e_tr e ''execution_lock_acquired'' [(''mode'', VStr (r_mode r)),
              (''trade_date'', VStr (opt_display (r_trade_date r))),
              (''snapshot_date'', VStr (opt_display (r_snapshot_date r))), (''lock_path'', VStr path)]) r1)))
       else
         io_bind (with_files e (read_execution_lock path)) (\<lambda>found.
         io_bind (io_lift (lock_record found)) (\<lambda>existing.
           let hash = (case dict_get existing ''target_hash'' of None \<Rightarrow> ''<unknown>'' | Some v \<Rightarrow> v_str v) in
           stop_blocked (''same_day_execution_locked:mode='' @ r_mode r @ '':target_hash='' @ hash)
             (e_tr e ''same_day_execution_locked'' [(''profile'', VStr (profile_text a)), (''mode'', VStr (r_mode r)),
                (''trade_date'', VStr (opt_display (r_trade_date r))),
                (''snapshot_date'', VStr (opt_display (r_snapshot_date r))),
                (''target_hash'', VStr (display_text (vd_get existing ''target_hash'') ''<unknown>'')),
                (''lock_path'', VStr path)]) r1))))"

section \<open>Selling\<close>

text \<open>The variables of the sell loop beside the run: \<open>None\<close> means the loop returned early.\<close>

record sell_state =
  sl_run :: run
  sl_executed :: bool
  sl_released :: pyfloat
  sl_pending_release :: "string list"
  sl_dry_proceeds :: pyfloat
  sl_halted :: bool

definition skip_row :: "string \<Rightarrow> string \<Rightarrow> string \<Rightarrow> row" where
  "skip_row s side reason = [(''symbol'', VStr s), (''side'', VStr side), (''reason'', VStr reason)]"

definition sell_skip :: "string \<Rightarrow> string \<Rightarrow> sell_state \<Rightarrow> sell_state" where
  "sell_skip s reason st = st\<lparr>sl_run := upd_summary (add_skipped [skip_row s ''sell'' reason]) (sl_run st)\<rparr>"

definition missing_price_skip :: "string \<Rightarrow> sell_state \<Rightarrow> sell_state" where
  "missing_price_skip s st = (let st' = sell_skip s ''missing_price'' st in
     st'\<lparr>sl_run := upd_summary (add_reason (''missing_price:'' @ s)) (sl_run st')\<rparr>)"

text \<open>
  The quantity to sell (as the value reported and as a number) with its price, or the reason
  why the symbol is passed over.
\<close>

datatype sell_choice = SellNothing | SellMissingPrice | SellZero bool | SellOrder pyval pyfloat pyfloat

definition choose_sale :: "'w env \<Rightarrow> args \<Rightarrow> run \<Rightarrow> string \<Rightarrow> sell_choice res" where
  "choose_sale e a r s =
    (let current = fget (r_current_mv r) s; target = fget (r_target_mv r) s;
         over = flt (fadd target (r_threshold r)) current;
         quantity = (\<lambda>price. sell_order_quantity (e_ql e) current target price (position_quantity (a_positions a) s) (r_step r)) in
     if Some s = safe_haven (r_allocation r) \<and> 0 < r_cash_sweep_quantity r then
       (case usable_price (r_prices r) s of None \<Rightarrow> Inr SellMissingPrice
        | Some price \<Rightarrow>
            res_bind (quantity price) (\<lambda>regular.
            res_bind (f_int regular) (\<lambda>k.
              let q = max (r_cash_sweep_quantity r) k in
              if q \<le> 0 then Inr (SellZero over) else Inr (SellOrder (VInt q) (Fin (of_int q)) price))))
     else if over then
       (case usable_price (r_prices r) s of None \<Rightarrow> Inr SellMissingPrice
        | Some price \<Rightarrow> res_bind (quantity price) (\<lambda>q.
            if fle q (Fin 0) then Inr (SellZero True) else Inr (SellOrder (VFloat q) q price)))
     else Inr SellNothing)"

definition sell_limit_error :: pyexn where
  "sell_limit_error = RuntimeError ''IBKR live sell exceeds approved position or has invalid pricing''"

definition held_quantity :: "args \<Rightarrow> string \<Rightarrow> pyfloat" where
  "held_quantity a s = f_or (position_quantity (a_positions a) s) (Fin 0)"

definition sale_allowed :: "args \<Rightarrow> run \<Rightarrow> string \<Rightarrow> pyfloat \<Rightarrow> pyfloat \<Rightarrow> bool" where
  "sale_allowed a r s q price \<longleftrightarrow>
     s \<in> set (wa_strategy_symbols (r_allocation r)) \<and> isfinite q \<and> \<not> fle q (Fin 0)
     \<and> \<not> flt (fadd (held_quantity a s) tol_weight) q \<and> isfinite price \<and> \<not> fle price (Fin 0)"

definition report_payload :: "string \<Rightarrow> string \<Rightarrow> pyval \<Rightarrow> row \<Rightarrow> string option \<Rightarrow> exec_report \<Rightarrow> row" where
  "report_payload s side q extra account rep =
    [(''symbol'', VStr s), (''side'', VStr side), (''quantity'', q)] @ extra @
    [(''status'', VStr (v_str (v_or (rep_status rep) (VStr [])))), (''broker_order_id'', broker_order_id rep),
     (''account_id'', opt_str account), (''filled_quantity'', rep_filled_quantity rep),
     (''average_fill_price'', rep_average_fill_price rep)]"

definition sell_intent :: "run \<Rightarrow> string \<Rightarrow> pyfloat \<Rightarrow> order_intent" where
  "sell_intent r s q = \<lparr>oi_symbol = s, oi_side = ''sell'', oi_quantity = q, oi_order_type = None,
     oi_limit_price = None, oi_time_in_force = None, oi_account_id = r_order_account r, oi_metadata = None\<rparr>"

definition status_text :: "exec_report \<Rightarrow> string" where
  "status_text rep = v_str (v_or (rep_status rep) (VStr []))"

text \<open>Recording a sell report; an unknown outcome ends the run.\<close>

definition record_sale ::
    "'w env \<Rightarrow> string \<Rightarrow> pyval \<Rightarrow> pyfloat \<Rightarrow> pyfloat \<Rightarrow> exec_report \<Rightarrow> sell_state \<Rightarrow> sell_state res" where
  "record_sale e s qv q price rep st =
    (let r = sl_run st;
         (outcome, sm) = record_order_outcome False (VStr (status_text rep))
            (report_payload s ''sell'' qv [] (r_order_account r) rep) (r_summary r);
         r1 = r\<lparr>r_summary := sm\<rparr> in
     if outcome = OutUnknown then
       Inr (st\<lparr>sl_run := log (failed_line e ''broker_order_outcome_unknown'') r1, sl_halted := True\<rparr>)
     else res_bind (check_order_submitted (ql_format (e_ql e)) (e_tr e) rep) (\<lambda>(_, msg).
       let st1 = st\<lparr>sl_run := log (e_tr e ''market_sell'' [(''symbol'', VStr s), (''qty'', VStr (ql_format (e_ql e) qv))]
                      @ '' '' @ msg) r1\<rparr> in
       if outcome = OutFailed then Inr st1
       else res_bind (projected_sell_release_value_for_report rep price q) (\<lambda>v.
         Inr (st1\<lparr>sl_executed := True, sl_released := fadd (sl_released st) v\<rparr>))))"

definition sell_order ::
    "'w env \<Rightarrow> args \<Rightarrow> string \<Rightarrow> pyval \<Rightarrow> pyfloat \<Rightarrow> pyfloat \<Rightarrow> sell_state \<Rightarrow> ('w, sell_state) io" where
  "sell_order e a s qv q price st =
    (let r = sl_run st in
     if \<not> sale_allowed a r s q price then io_raise sell_limit_error
     else if r_new_risk_blocked r \<and> \<not> e_risk_reducing e (held_quantity a s) q then
       io_return (sell_skip s ''risk_reduction_unproven'' st)
     else if a_dry_run a then
       io_return (st\<lparr>sl_run := log (''DRY_RUN sell '' @ s @ '' '' @ ql_format (e_ql e) qv)
            (upd_summary (upd_buckets False (\<lambda>b. b\<lparr>submitted := submitted b @
               [[(''symbol'', VStr s), (''side'', VStr ''sell''), (''quantity'', qv), (''status'', VStr ''dry_run'')]]\<rparr>)) r),
          sl_dry_proceeds := fadd (sl_dry_proceeds st) (fmul q price)\<rparr>)
     else io_bind (submit_plain e a (sell_intent r s q)
            (if r_new_risk_blocked r then Some (held_quantity a s, Fin 0) else None)) (\<lambda>rep.
          io_lift (record_sale e s qv q price rep st)))"

definition sell_step :: "'w env \<Rightarrow> args \<Rightarrow> string \<Rightarrow> sell_state \<Rightarrow> ('w, sell_state) io" where
  "sell_step e a s st =
    (if sl_halted st then io_return st
     else io_bind (io_lift (choose_sale e a (sl_run st) s)) (\<lambda>choice. case choice of
        SellNothing \<Rightarrow> io_return st
      | SellMissingPrice \<Rightarrow> io_return (missing_price_skip s st)
      | SellZero over \<Rightarrow> io_return (sell_skip s ''quantity_zero''
           (if over then st\<lparr>sl_pending_release := sl_pending_release st @ [s]\<rparr> else st))
      | SellOrder qv q price \<Rightarrow> sell_order e a s qv q price st))"

definition sell_loop :: "'w env \<Rightarrow> args \<Rightarrow> run \<Rightarrow> ('w, sell_state) io" where
  "sell_loop e a r = io_fold (sell_step e a) (r_symbols r)
     \<lparr>sl_run = r, sl_executed = False, sl_released = Fin 0, sl_pending_release = [],
      sl_dry_proceeds = Fin 0, sl_halted = False\<rparr>"

section \<open>The budget of the buys\<close>

record buy_state =
  bu_run :: run
  bu_buying_power :: pyfloat
  bu_investable :: pyfloat
  bu_halted :: bool

definition settled_or_zero :: "pyfloat option \<Rightarrow> pyfloat" where
  "settled_or_zero v = py_max (Fin 0) (f_or (case v of None \<Rightarrow> Fin 0 | Some x \<Rightarrow> x) (Fin 0))"

definition observe_settled :: "'w env \<Rightarrow> args \<Rightarrow> run \<Rightarrow> ('w, pyfloat option) io" where
  "observe_settled e a r = settled_cash_for_currency (e_account e) (a_market_currency a) (ids_value (r_ids r))"

definition mark_unknown :: "run \<Rightarrow> run" where
  "mark_unknown r = upd_summary (\<lambda>s. s\<lparr>settled_cash_ledger_status := Some ''UNKNOWN''\<rparr>) r"

definition fallback_buying_power :: "args \<Rightarrow> pyval" where
  "fallback_buying_power a = (case dict_get (a_account_values a) ''buying_power'' of None \<Rightarrow> VInt 0 | Some v \<Rightarrow> v)"

definition budget_stage :: "'w env \<Rightarrow> args \<Rightarrow> sell_state \<Rightarrow> ('w, buy_state) io" where
  "budget_stage e a st =
    (let r = sl_run st; r1 = upd_summary (\<lambda>s. s\<lparr>projected_sell_release_value := sl_released st\<rparr>) r;
         result = (\<lambda>r bp. \<lparr>bu_run = r, bu_buying_power = bp,
                      bu_investable = investable_buying_power bp (r_reserved r), bu_halted = False\<rparr>) in
     if a_cash_only a then
       io_bind (observe_settled e a r) (\<lambda>observed.
         io_return (result (if observed = None then mark_unknown r1 else r1) (settled_or_zero observed)))
     else if a_dry_run a then
       io_return (result r1 (py_max (Fin 0) (fadd (r_anticipated r) (sl_dry_proceeds st))))
     else if sl_executed st then
       io_bind (e_sleep e (a_sell_settle_delay a)) (\<lambda>_.
       io_bind (api_cached (e_account e)) (\<lambda>rows.
       io_bind (io_lift (get_available_buying_power rows (fallback_buying_power a) (ids_value (r_ids r))
                  (a_market_currency a) False)) (\<lambda>bp. io_return (result r1 bp))))
     else io_return (result r1 (r_anticipated r)))"

definition buy_needed_symbols :: "run \<Rightarrow> string list" where
  "buy_needed_symbols r = List.map fst (filter (\<lambda>(s, t).
     flt (fget (r_current_mv r) s) (fsub (f_or t (Fin 0)) (r_threshold r))) (r_target_mv r))"

section \<open>Reasons to defer all buys\<close>

definition money :: "pyfloat \<Rightarrow> pyval" where
  "money x = VStr (fmt_fixed True 2 x)"

definition block_small_account :: "'w env \<Rightarrow> args \<Rightarrow> run \<Rightarrow> run res" where
  "block_small_account e a r =
    res_bind (float_of_or_zero (vd_get (a_metadata a) ''min_recommended_equity_usd'')) (\<lambda>m.
      let reason = ''small_account_below_recommended_equity'' in
      Inr (log (e_tr e ''buy_deferred_small_account''
             [(''portfolio_equity'', money (f_or (r_equity r) (Fin 0))), (''min_recommended_equity'', money m)])
        (upd_summary (\<lambda>s. add_reason reason (s\<lparr>small_account_buy_blocked := True,
             small_account_buy_block_reason := Some reason\<rparr>)) r)))"

definition block_new_risk :: "'w env \<Rightarrow> run \<Rightarrow> run" where
  "block_new_risk e r =
    (let reason = ''account_new_risk_gate''; text = join '', '' (r_reason_codes r) in
     log (gate_reason_line e (if text = [] then ''NEW_RISK_PROHIBITED'' else text))
       (upd_summary (\<lambda>s. add_reason reason (s\<lparr>account_new_risk_buy_blocked := True,
          account_new_risk_block_reason := Some reason, account_new_risk_reason_codes := r_reason_codes r\<rparr>)) r))"

definition params_of :: "args \<Rightarrow> run \<Rightarrow> buy_params" where
  "params_of a r = \<lparr>bp_threshold = r_threshold r, bp_limit_buy_premium = a_limit_buy_premium a,
     bp_premium_by_symbol = a_limit_buy_premium_by_symbol a, bp_quantity_step = r_step r,
     bp_minimum_order_notional = r_min_notional r\<rparr>"

definition block_pending_release :: "'w env \<Rightarrow> string list \<Rightarrow> run \<Rightarrow> run" where
  "block_pending_release e release r =
    log (e_tr e ''buy_deferred_pending_sell_release'' [(''symbols'', VStr (format_symbol_preview release))])
      (upd_summary (\<lambda>s. add_reason (''pending_sell_release:'' @ join '','' release)
         (s\<lparr>pending_sell_release_symbols := Some release\<rparr>)) r)"

text \<open>The first reasons need no broker; the last reads the raw cash once more.\<close>

definition first_blocks ::
    "'w env \<Rightarrow> args \<Rightarrow> string list \<Rightarrow> pyfloat \<Rightarrow> run \<Rightarrow> (string option \<times> run) res" where
  "first_blocks e a release investable r =
    (let needed = buy_needed_symbols r in
     if truthy (vd_get (a_metadata a) ''small_account_warning'') \<and> needed \<noteq> [] then
       res_bind (block_small_account e a r) (\<lambda>r1. Inr (Some ''small_account_below_recommended_equity'', r1))
     else if r_new_risk_blocked r \<and> needed \<noteq> [] then
       Inr (Some ''account_new_risk_gate'', block_new_risk e r)
     else if a_cash_only a \<and> release \<noteq> [] \<and> needed \<noteq> [] then
       res_bind (rotation_guard_should_block_buys (e_ql e) (params_of a r) release needed (r_current_mv r)
           (r_target_mv r) investable (r_prices r)) (\<lambda>guarded.
         Inr (if guarded then (Some ''pending_sell_release'', block_pending_release e release r) else (None, r)))
     else Inr (None, r))"

definition negative_cash_block :: "'w env \<Rightarrow> args \<Rightarrow> run \<Rightarrow> ('w, string option \<times> run) io" where
  "negative_cash_block e a r =
    io_bind (api_cached (e_account e)) (\<lambda>rows.
    io_bind (io_lift (cash_value_for_currency rows (a_market_currency a) (ids_value (r_ids r)))) (\<lambda>raw.
      case raw of
        None \<Rightarrow> io_return (None, r)
      | Some x \<Rightarrow>
          if flt x (Fin 0) \<and> buy_needed_symbols r \<noteq> [] then
            io_return (Some ''negative_cash'',
              log (e_tr e ''buy_deferred_negative_cash'' [(''cash'', money x)])
                (upd_summary (add_reason (''negative_cash:'' @ fmt_fixed False 2 x)) r))
          else io_return (None, r)))"

definition block_stage ::
    "'w env \<Rightarrow> args \<Rightarrow> string list \<Rightarrow> buy_state \<Rightarrow> ('w, string option \<times> buy_state) io" where
  "block_stage e a release st =
    io_bind (io_lift (first_blocks e a release (bu_investable st) (bu_run st))) (\<lambda>(reason, r).
      if reason = None \<and> a_cash_only a then
        io_bind (negative_cash_block e a r) (\<lambda>(reason2, r2). io_return (reason2, st\<lparr>bu_run := r2\<rparr>))
      else io_return (reason, st\<lparr>bu_run := r\<rparr>))"

section \<open>Buying\<close>

definition buy_skip :: "string \<Rightarrow> string \<Rightarrow> buy_state \<Rightarrow> buy_state" where
  "buy_skip s reason st = st\<lparr>bu_run := upd_summary (add_skipped [skip_row s ''buy'' reason]) (bu_run st)\<rparr>"

definition buy_skip_noted :: "string \<Rightarrow> string \<Rightarrow> buy_state \<Rightarrow> buy_state" where
  "buy_skip_noted s reason st = (let st' = buy_skip s reason st in
     st'\<lparr>bu_run := upd_summary (add_reason (reason @ '':'' @ s)) (bu_run st')\<rparr>)"

definition buy_limit_error :: pyexn where
  "buy_limit_error = RuntimeError ''IBKR live buy exceeds the approved RiskEngine order limit''"

definition tol_order :: pyfloat where "tol_order = to_float (1 / 10 ^ 6)"

text \<open>Quantity, limit price and cost of a buy, or the reason why it is skipped.\<close>

datatype buy_choice = BuySkip string bool | BuyOrder pyfloat pyfloat pyfloat

definition choose_buy :: "'w env \<Rightarrow> args \<Rightarrow> run \<Rightarrow> string \<Rightarrow> pyfloat \<Rightarrow> pyfloat \<Rightarrow> buy_choice res" where
  "choose_buy e a r s target investable =
    (let current = fget (r_current_mv r) s; buy_value = py_min (fsub target current) (fmul investable f095) in
     case usable_price (r_prices r) s of None \<Rightarrow> Inr (BuySkip ''missing_price'' True)
     | Some price \<Rightarrow>
       if flt buy_value (r_min_notional r) then Inr (BuySkip ''min_notional'' False)
       else res_bind (limit_buy_price s price (a_limit_buy_premium a) (a_limit_buy_premium_by_symbol a)) (\<lambda>lp.
            res_bind (planned_buy_order_quantity (e_ql e) buy_value lp (r_step r)) (\<lambda>q0.
            if fle q0 (Fin 0) then Inr (BuySkip ''quantity_zero'' False)
            else let cost0 = fmul q0 lp in
            res_bind (if flt investable cost0
                      then res_bind (fdiv investable lp) (\<lambda>x. Inr (floor_order_quantity (e_ql e) x (r_step r)))
                      else Inr q0) (\<lambda>q.
              let cost = (if flt investable cost0 then fmul q lp else cost0) in
              if fle q (Fin 0) \<or> flt investable cost then Inr (BuySkip ''insufficient_buying_power'' True)
              else Inr (BuyOrder q lp cost)))))"

definition buy_allowed :: "run \<Rightarrow> string \<Rightarrow> pyfloat \<Rightarrow> pyfloat \<Rightarrow> pyfloat \<Rightarrow> pyfloat \<Rightarrow> bool" where
  "buy_allowed r s cap q lp cost \<longleftrightarrow>
     s \<in> set (wa_strategy_symbols (r_allocation r)) \<and> isfinite q \<and> isfinite lp \<and> \<not> fle q (Fin 0)
     \<and> \<not> fle lp (Fin 0)
     \<and> \<not> flt (fadd (fsub cap (f_or (fget (r_current_mv r) s) (Fin 0))) tol_order) cost"

definition buy_intent :: "run \<Rightarrow> string \<Rightarrow> pyfloat \<Rightarrow> pyfloat \<Rightarrow> order_intent" where
  "buy_intent r s q lp = \<lparr>oi_symbol = s, oi_side = ''buy'', oi_quantity = q, oi_order_type = Some ''limit'',
     oi_limit_price = Some lp, oi_time_in_force = Some ''DAY'', oi_account_id = r_order_account r, oi_metadata = None\<rparr>"

definition record_buy :: "'w env \<Rightarrow> string \<Rightarrow> pyfloat \<Rightarrow> pyfloat \<Rightarrow> exec_report \<Rightarrow> buy_state \<Rightarrow> buy_state res" where
  "record_buy e s q lp rep st =
    (let r = bu_run st;
         (outcome, sm) = record_order_outcome False (VStr (status_text rep))
            (report_payload s ''buy'' (VFloat q) [(''limit_price'', VFloat lp)] (r_order_account r) rep) (r_summary r);
         r1 = r\<lparr>r_summary := sm\<rparr> in
     if outcome = OutUnknown then
       Inr (st\<lparr>bu_run := log (failed_line e ''broker_order_outcome_unknown'') r1, bu_halted := True\<rparr>)
     else res_bind (check_order_submitted (ql_format (e_ql e)) (e_tr e) rep) (\<lambda>(_, msg).
       Inr (st\<lparr>bu_run := log (e_tr e ''limit_buy'' [(''symbol'', VStr s), (''qty'', VStr (ql_format (e_ql e) (VFloat q))),
                     (''price'', VStr (fmt_fixed False 2 lp))] @ '' '' @ msg) r1,
               bu_investable := (if outcome = OutFailed then bu_investable st
                                 else fsub (bu_investable st) (fmul q lp))\<rparr>)))"

definition submit_buy ::
    "'w env \<Rightarrow> args \<Rightarrow> pyfloat \<Rightarrow> string \<Rightarrow> pyfloat \<Rightarrow> pyfloat \<Rightarrow> buy_state \<Rightarrow> ('w, buy_state) io" where
  "submit_buy e a started s q lp st =
    (let r = bu_run st; intent = buy_intent r s q lp in
     if a_cash_only a then
       io_bind (submit_guarded e a (new_deadline_ib started (r_order_account r) (a_market_currency a) (bu_investable st)
                  (r_reserved r) (r_step r) (r_min_notional r)) intent) (\<lambda>(rep, g).
         io_lift (record_buy e s (case dl_prepared_quantity g of None \<Rightarrow> q | Some k \<Rightarrow> k) lp rep
           (st\<lparr>bu_investable := py_min (bu_investable st) (dl_remaining g)\<rparr>)))
     else io_bind (submit_plain e a intent None) (\<lambda>rep. io_lift (record_buy e s q lp rep st)))"

definition dry_buy :: "'w env \<Rightarrow> string \<Rightarrow> pyfloat \<Rightarrow> pyfloat \<Rightarrow> buy_state \<Rightarrow> buy_state" where
  "dry_buy e s q lp st =
     st\<lparr>bu_run := log (''DRY_RUN buy '' @ s @ '' '' @ ql_format (e_ql e) (VFloat q) @ '' @'' @ fmt_fixed False 2 lp)
            (upd_summary (upd_buckets False (\<lambda>b. b\<lparr>submitted := submitted b @
               [[(''symbol'', VStr s), (''side'', VStr ''buy''), (''quantity'', VFloat q), (''limit_price'', VFloat lp),
                 (''status'', VStr ''dry_run'')]]\<rparr>)) (bu_run st)),
        bu_investable := fsub (bu_investable st) (fmul q lp)\<rparr>"

text \<open>A chosen buy: the order limit, the age of the cash observation, then the order.\<close>

definition place_buy ::
    "'w env \<Rightarrow> args \<Rightarrow> pyfloat \<Rightarrow> string \<Rightarrow> pyfloat \<Rightarrow> pyfloat \<Rightarrow> pyfloat \<Rightarrow> buy_state \<Rightarrow> ('w, buy_state) io" where
  "place_buy e a started s q lp cost st =
    (case dict_get (r_caps (bu_run st)) s of
       None \<Rightarrow> io_raise (KeyError s)
     | Some cap \<Rightarrow>
       if \<not> buy_allowed (bu_run st) s cap q lp cost then io_raise buy_limit_error
       else io_bind (if a_cash_only a then io_bind (e_monotonic e) (\<lambda>t. io_return (in_window (fsub t started) settled_cash_max_age))
                     else io_return True) (\<lambda>fresh.
         if \<not> fresh then
           io_return (buy_skip_noted s ''settled_cash_stale'' (st\<lparr>bu_run := mark_unknown (bu_run st)\<rparr>))
         else if a_dry_run a then io_return (dry_buy e s q lp st)
         else submit_buy e a started s q lp st))"

definition try_buy :: "'w env \<Rightarrow> args \<Rightarrow> pyfloat \<Rightarrow> string \<Rightarrow> pyfloat \<Rightarrow> buy_state \<Rightarrow> ('w, buy_state) io" where
  "try_buy e a started s target st =
    io_bind (io_lift (choose_buy e a (bu_run st) s target (bu_investable st))) (\<lambda>choice. case choice of
      BuySkip reason noted \<Rightarrow> io_return (if noted then buy_skip_noted s reason st else buy_skip s reason st)
    | BuyOrder q lp cost \<Rightarrow> place_buy e a started s q lp cost st)"

text \<open>The fresh settled-cash observation before each candidate only ever lowers the budget.\<close>

definition refresh_budget ::
    "'w env \<Rightarrow> args \<Rightarrow> string \<Rightarrow> buy_state \<Rightarrow> ('w, (pyfloat \<times> buy_state) option \<times> buy_state) io" where
  "refresh_budget e a s st =
    io_bind (e_monotonic e) (\<lambda>started.
    io_bind (observe_settled e a (bu_run st)) (\<lambda>observed.
      let st1 = st\<lparr>bu_investable := py_min (bu_investable st)
                    (investable_buying_power (settled_or_zero observed) (r_reserved (bu_run st)))\<rparr> in
      case observed of
        None \<Rightarrow> io_return (None, buy_skip_noted s ''settled_cash_ledger_unverified'' (st1\<lparr>bu_run := mark_unknown (bu_run st1)\<rparr>))
      | Some x \<Rightarrow> if fle x (Fin 0) then io_return (None, buy_skip_noted s ''insufficient_settled_cash'' st1)
                 else io_return (Some (started, st1), st1)))"

definition buy_step ::
    "'w env \<Rightarrow> args \<Rightarrow> string option \<Rightarrow> string list \<Rightarrow> string \<times> pyfloat \<Rightarrow> buy_state \<Rightarrow> ('w, buy_state) io" where
  "buy_step e a reason needed st_target st =
    (let (s, target) = st_target in
     if bu_halted st then io_return st
     else case reason of
       Some why \<Rightarrow> io_return (if s \<in> set needed then buy_skip s why st else st)
     | None \<Rightarrow>
       if \<not> flt (fget (r_current_mv (bu_run st)) s) (fsub target (r_threshold (bu_run st))) then io_return st
       else if a_cash_only a then
         io_bind (refresh_budget e a s st) (\<lambda>(go, st1). case go of
             None \<Rightarrow> io_return st1
           | Some (started, st2) \<Rightarrow> try_buy e a started s target st2)
       else try_buy e a (Fin 0) s target st)"

definition buy_loop ::
    "'w env \<Rightarrow> args \<Rightarrow> string option \<Rightarrow> buy_state \<Rightarrow> ('w, buy_state) io" where
  "buy_loop e a reason st =
    io_fold (buy_step e a reason (buy_needed_symbols (bu_run st))) (r_target_mv (bu_run st)) st"

section \<open>The end of a run\<close>

definition has_terminal_order :: "exec_summary \<Rightarrow> bool" where
  "has_terminal_order s = (\<exists>b \<in> {orders s, option_orders s}. submitted b \<noteq> [] \<or> filled b \<noteq> [] \<or> partially_filled b \<noteq> [])"

definition has_pending_order :: "exec_summary \<Rightarrow> bool" where
  "has_pending_order s = (pending (orders s) \<noteq> [] \<or> pending (option_orders s) \<noteq> [])"

definition submission_failure :: "exec_summary \<Rightarrow> string option" where
  "submission_failure s = find (\<lambda>t. startswith t ''submit_failed:'' \<or> startswith t ''option_submit_failed:'') (skipped_reasons s)"

definition final_status :: "'w env \<Rightarrow> run \<Rightarrow> run" where
  "final_status e r =
    (let s = r_summary r; set = (\<lambda>st no. upd_summary (\<lambda>s. s\<lparr>execution_status := st, no_op_reason := no\<rparr>) r) in
     if has_pending_order s then set ''pending_reconciliation'' (Some ''broker_order_pending_confirmation'')
     else if has_terminal_order s then set ''executed'' None
     else case submission_failure s of
       Some reason \<Rightarrow> log (failed_line e reason) (set ''blocked'' (Some reason))
     | None \<Rightarrow> upd_summary (\<lambda>s. s\<lparr>execution_status := ''no_op''\<rparr>) r)"

definition finish_stage :: "'w env \<Rightarrow> args \<Rightarrow> buy_state \<Rightarrow> ('w, stage) io" where
  "finish_stage e a st =
    (if bu_halted st then io_return (Stop (bu_run st))
     else io_bind (execute_option_order_intents (\<lambda>i. submit_plain e a i None) (e_ql e) (e_tr e) (a_dry_run a)
            (r_order_account (bu_run st)) (r_options (bu_run st))
            \<lparr>os_summary = r_summary (bu_run st), os_logs = r_logs (bu_run st), os_buying_power = bu_buying_power st\<rparr>) (\<lambda>os.
          let r = (bu_run st)\<lparr>r_summary := os_summary os, r_logs := os_logs os\<rparr>;
              r1 = upd_summary (\<lambda>s. s\<lparr>residual_cash_estimate := py_max (os_buying_power os) (Fin 0)\<rparr>) (final_status e r) in
          io_bind (io_lift (append_drift_notes e a r1)) (\<lambda>r2. io_return (Stop r2))))"

definition buy_stage :: "'w env \<Rightarrow> args \<Rightarrow> sell_state \<Rightarrow> ('w, stage) io" where
  "buy_stage e a st =
    io_bind (budget_stage e a st) (\<lambda>b.
    io_bind (block_stage e a (fromkeys (sl_pending_release st)) b) (\<lambda>(reason, b1).
    io_bind (buy_loop e a reason b1) (finish_stage e a)))"

definition trade_stage :: "'w env \<Rightarrow> args \<Rightarrow> run \<Rightarrow> ('w, stage) io" where
  "trade_stage e a r =
    io_bind (sell_loop e a r) (\<lambda>st.
      if sl_halted st then io_return (Stop (sl_run st)) else buy_stage e a st)"

text \<open>The whole function; every path ends in \<open>Stop\<close> with the logs and the summary.\<close>

definition execute_rebalance :: "'w env \<Rightarrow> args \<Rightarrow> ('w, string list \<times> exec_summary) io" where
  "execute_rebalance e a =
    io_bind (stage_bind (plan_rebalance e a) (\<lambda>r0.
             stage_bind (fills_stage e a r0) (\<lambda>r1.
             stage_bind (lock_stage e a r1) (\<lambda>r2.
               trade_stage e a r2)))) (\<lambda>s.
      case s of Stop r \<Rightarrow> io_return (r_logs r, r_summary r) | Go r \<Rightarrow> io_return (r_logs r, r_summary r))"

end
