(* ===== verification/RebalanceFacts.thy ===== *)
theory RebalanceFacts
  imports RebalanceRun Effects
begin

text \<open>
  What \<open>execute_rebalance\<close> may and may not do: planning and dry runs never reach the
  submitter, every order handed to it is within the approved limits, a prohibition of new
  risk stops every buy, submissions need the session, claim and reservation, and the final
  status says what the order lists show.  The order log \<open>olog\<close> is any record of the intents
  handed to the submitter; \<open>reads_quiet\<close> says that nothing else writes to it.
\<close>

definition session_quiet :: "('w \<Rightarrow> order_intent list) \<Rightarrow> 'w submission_session \<Rightarrow> bool" where
  "session_quiet olog s \<longleftrightarrow> (\<forall>x. is_quiet olog (bs_record_open (ss_breaker s) x))
     \<and> is_quiet olog (bs_read_state (ss_breaker s)) \<and> (\<forall>i b. is_quiet olog (ss_reserve s i b))"

definition trades_quiet :: "('w \<Rightarrow> order_intent list) \<Rightarrow> 'w trade_api \<Rightarrow> bool" where
  "trades_quiet olog t \<longleftrightarrow> (\<forall>m st. ta_all_open_orders t = Some m \<longrightarrow> is_quiet olog (m st))
     \<and> (\<forall>m st. ta_open_trades t = Some m \<longrightarrow> is_quiet olog (m st))"

definition account_quiet :: "('w \<Rightarrow> order_intent list) \<Rightarrow> 'w account_api \<Rightarrow> bool" where
  "account_quiet olog b \<longleftrightarrow> is_quiet olog (api_cached b) \<and> (\<forall>a. is_quiet olog (api_refresh b a))
     \<and> is_quiet olog (api_get_timeout b) \<and> (\<forall>x. is_quiet olog (api_set_timeout b x))
     \<and> is_quiet olog (api_get_raise b) \<and> (\<forall>x. is_quiet olog (api_set_raise b x))
     \<and> is_quiet olog (api_connect b) \<and> is_quiet olog (api_disconnect b)"

definition reads_quiet :: "('w \<Rightarrow> order_intent list) \<Rightarrow> 'w env \<Rightarrow> bool" where
  "reads_quiet olog e \<longleftrightarrow>
     (\<forall>ss. is_quiet olog (e_fetch_quotes e ss)) \<and> trades_quiet olog (e_trades e)
     \<and> (\<forall>m. e_fills e = Some m \<longrightarrow> is_quiet olog m)
     \<and> account_quiet olog (e_account e)
     \<and> is_quiet olog (e_monotonic e) \<and> (\<forall>d. is_quiet olog (e_sleep e d))
     \<and> (\<forall>x p s. is_quiet olog (e_publish e x p s)) \<and> is_quiet olog (e_clear_snapshot e)
     \<and> (\<forall>fs w. olog (e_put_files e fs w) = olog w)
     \<and> (\<forall>s. e_session e = Some s \<longrightarrow> session_quiet olog s)
     \<and> (\<forall>c. e_claim e = Some c \<longrightarrow> is_quiet olog c) \<and> (\<forall>b. is_quiet olog (e_consult e b))"

lemmas quiet_rules = quiet.keeps_return quiet.keeps_raise quiet.keeps_lift quiet.keeps_bind
  quiet.keeps_catch keeps_split

section \<open>Reads are quiet\<close>

lemma quiet_settled:
  assumes "account_quiet olog api"
  shows "is_quiet olog (settled_cash_for_currency api currency ids)"
proof -
  have q: "is_quiet olog (api_cached api)" "\<And>a. is_quiet olog (api_refresh api a)" "is_quiet olog (api_get_timeout api)"
    "\<And>x. is_quiet olog (api_set_timeout api x)" "is_quiet olog (api_get_raise api)" "\<And>x. is_quiet olog (api_set_raise api x)"
    "is_quiet olog (api_connect api)" "is_quiet olog (api_disconnect api)"
    using assms by (auto simp: account_quiet_def)
  have "is_quiet olog (settled_refresh api currency original sel)" for original sel
    unfolding settled_refresh_def selected_or_cached_def
    by (intro quiet_rules q) (auto intro!: quiet_rules q split: list.split)
  moreover have "is_quiet olog (settled_restore api t x)" for t x
    unfolding settled_restore_def by (intro quiet_rules q)
  ultimately show ?thesis
    unfolding settled_cash_for_currency_def by (intro quiet_rules q)
qed

lemma quiet_load_trades:
  assumes "trades_quiet olog api"
  shows "olog (snd (snd (load_read_only_open_trades api original w))) = olog w"
proof (cases "ta_all_open_orders api")
  case (Some request)
  show ?thesis
  proof (cases "ta_open_trades api")
    case (Some opens)
    have q: "is_quiet olog (request st)" "is_quiet olog (opens st)" for st
      using assms \<open>ta_all_open_orders api = Some request\<close> Some by (auto simp: trades_quiet_def)
    have "is_quiet olog (io_bind (request st) (\<lambda>snapshot. io_bind (opens st) (\<lambda>cached.
            case (snapshot, cached) of (Rows a, Rows b) \<Rightarrow> io_return (unique_trades (a @ b))
            | _ \<Rightarrow> io_raise (read_error ''snapshot is incomplete''))))" for st
      by (intro quiet.keeps_bind q) (auto intro!: quiet_rules split: response.split)
    from quiet_same [OF this] show ?thesis
      using Some \<open>ta_all_open_orders api = Some request\<close>
      by (auto simp: load_read_only_open_trades_def Let_def split: sum.split prod.split)
        (metis snd_conv)+
  qed (use Some in \<open>simp add: load_read_only_open_trades_def\<close>)
qed (simp add: load_read_only_open_trades_def)

lemma quiet_observe_pending:
  assumes "trades_quiet olog api"
  shows "is_quiet olog (observe_pending_orders api settings symbols ids)"
  unfolding observe_pending_orders_def
proof (intro quiet_rules)
  show "is_quiet olog (\<lambda>w. case load_read_only_open_trades api settings w of
              (Inl e, s, w') \<Rightarrow> (if raised_as ''IBKRReconciliationReadError'' e
                then Inl (pending_unavailable ''all-client open-order snapshot unavailable'') else Inl e, w')
            | (Inr ts, s, w') \<Rightarrow> (Inr ts, w'))"
    unfolding io_keeps_def same_log_def
  proof
    fix w
    from quiet_load_trades [OF assms, of settings w]
    show "olog (snd (case load_read_only_open_trades api settings w of
              (Inl e, s, w') \<Rightarrow> (if raised_as ''IBKRReconciliationReadError'' e
                then Inl (pending_unavailable ''all-client open-order snapshot unavailable'') else Inl e, w')
            | (Inr ts, s, w') \<Rightarrow> (Inr ts, w'))) = olog w"
      by (auto split: prod.split sum.split)
  qed
qed

lemma quiet_persistent:
  assumes "\<And>x. is_quiet olog (bs_record_open s x)" and "is_quiet olog (bs_read_state s)"
  shows "is_quiet olog (evaluate_persistent_account_new_risk_admission lib env av m s)"
  unfolding evaluate_persistent_account_new_risk_admission_def breaker_reading_def
  by (intro quiet_rules assms) (auto intro!: quiet_rules assms split: pyval.split)

lemma quiet_same_day:
  assumes "\<And>m. fills = Some m \<Longrightarrow> is_quiet olog m"
  shows "is_quiet olog (collect_same_day_filled_symbols to_iso fills symbols td ids)"
  unfolding collect_same_day_filled_symbols_def
  by (intro quiet_rules) (auto intro!: quiet_rules assms)

lemma quiet_stage_bind [keeps]:
  assumes "is_quiet olog m" and "\<And>r. is_quiet olog (f r)"
  shows "is_quiet olog (stage_bind m f)"
  unfolding stage_bind_def by (intro quiet.keeps_bind assms) (auto split: stage.split intro!: quiet_rules assms)

section \<open>Planning is quiet\<close>

lemmas reads_defs = reads_quiet_def session_quiet_def trades_quiet_def account_quiet_def

lemma quiet_start: "is_quiet olog (start_stage e a)"
  unfolding start_stage_def by (intro quiet_rules)

lemma quiet_gate:
  assumes "reads_quiet olog e"
  shows "is_quiet olog (gate_stage e a r)"
proof -
  have adm: "is_quiet olog (gate_admission e a r)"
    unfolding gate_admission_def using assms
    by (intro quiet_rules quiet_persistent) (auto simp: reads_defs intro: quiet_rules)
  show ?thesis
    unfolding gate_stage_def using assms by (intro quiet_rules adm) (auto simp: reads_defs)
qed

lemma quiet_price:
  assumes "reads_quiet olog e"
  shows "is_quiet olog (price_stage e a r)"
  unfolding price_stage_def using assms by (intro quiet_rules) (auto simp: reads_defs)

lemma quiet_target: "is_quiet olog (target_stage e a r)"
  unfolding target_stage_def by (intro quiet_rules)

lemma quiet_stop_blocked: "is_quiet olog (stop_blocked reason line r)"
  unfolding stop_blocked_def by (intro quiet_rules)

lemma quiet_admission: "is_quiet olog (admission_stage e a r)"
  unfolding admission_stage_def Let_def by (intro quiet_rules quiet_stop_blocked)

lemma quiet_pending:
  assumes "reads_quiet olog e"
  shows "is_quiet olog (pending_stage e a r)"
  unfolding io_keeps_def same_log_def
proof
  fix w
  have q: "is_quiet olog (observe_pending_orders (e_trades e) (e_settings e)
      (set (r_symbols r) \<union> set (r_underliers r)) (ids_value (r_ids r)))"
    using assms by (intro quiet_observe_pending) (simp add: reads_quiet_def)
  from quiet_same [OF q, of w] show "olog (snd (pending_stage e a r w)) = olog w"
    by (auto simp: pending_stage_def stop_blocked_def split: prod.split sum.split)
qed

lemma quiet_observe_settled:
  assumes "reads_quiet olog e"
  shows "is_quiet olog (settled_cash_for_currency (e_account e) c ids)"
  using assms by (intro quiet_settled) (auto simp: reads_quiet_def)

lemma quiet_settled_stage:
  assumes "reads_quiet olog e"
  shows "is_quiet olog (settled_stage e a r)"
  unfolding settled_stage_def by (intro quiet_rules quiet_observe_settled assms)

lemma quiet_plan_stage:
  assumes "reads_quiet olog e"
  shows "is_quiet olog (plan_stage e a r)"
proof -
  have "is_quiet olog (anticipated_stage e a r)" for r
    unfolding anticipated_stage_def using assms by (intro quiet_rules) (auto simp: reads_defs)
  moreover have "is_quiet olog (unproven_stop e r)" for r
    unfolding unproven_stop_def by (rule quiet_stop_blocked)
  ultimately show ?thesis
    unfolding plan_stage_def by (intro quiet_rules) auto
qed

lemma quiet_plan:
  assumes "reads_quiet olog e"
  shows "is_quiet olog (plan_rebalance e a)"
  unfolding plan_rebalance_def
  by (intro quiet_stage_bind quiet_start quiet_gate quiet_price quiet_target quiet_admission
      quiet_pending quiet_settled_stage quiet_plan_stage assms)

lemma quiet_fills:
  assumes "reads_quiet olog e"
  shows "is_quiet olog (fills_stage e a r)"
  unfolding fills_stage_def using assms
  by (intro quiet_rules quiet_same_day quiet_stop_blocked) (auto simp: reads_quiet_def)

lemma quiet_with_files: "reads_quiet olog e \<Longrightarrow> is_quiet olog (with_files e m)"
  by (auto simp: io_keeps_def same_log_def with_files_def reads_quiet_def split: prod.split)

lemma quiet_lock: "reads_quiet olog e \<Longrightarrow> is_quiet olog (lock_stage e a r)"
  unfolding lock_stage_def Let_def by (intro quiet_rules quiet_stop_blocked quiet_with_files)

text \<open>
  C18.  Planning never trades: whatever the arguments, all of \<open>execute_rebalance\<close> up to the
  decision to trade, the check of the fills and the lock leave the record of submitted intents
  unchanged, also when they raise, provided only the submitter itself writes to that record.
\<close>

theorem plan_never_submits:
  assumes "reads_quiet olog e"
  shows "olog (snd (plan_rebalance e a w)) = olog w
    \<and> olog (snd (fills_stage e a r w)) = olog w \<and> olog (snd (lock_stage e a r w)) = olog w"
  using quiet_same [OF quiet_plan [OF assms]] quiet_same [OF quiet_fills [OF assms]]
    quiet_same [OF quiet_lock [OF assms]] by simp

section \<open>A rehearsal environment\<close>

text \<open>
  A broker that fills every order and writes it down: the world is the list of orders received
  and the lock files.  One strategy symbol, quoted at 100, in an account of 10000 in cash.
\<close>

type_synonym rehearsal_world = "order_intent list \<times> files"

definition rehearsal_quote :: quote where
  "rehearsal_quote = \<lparr>qu_symbol = VStr ''QQQ'', qu_as_of = VNone, qu_last_price = Fin 100, qu_bid_price = VNone,
     qu_ask_price = VNone, qu_currency = VStr ''USD''\<rparr>"

definition rehearsal_report :: "order_intent \<Rightarrow> exec_report" where
  "rehearsal_report i = \<lparr>broker_order_id = VStr ''1'', rep_status = VStr ''Filled'', rep_symbol = VStr (oi_symbol i),
     rep_side = VStr (oi_side i), rep_quantity = VFloat (oi_quantity i), rep_filled_quantity = VFloat (oi_quantity i),
     rep_average_fill_price = VFloat (Fin 100)\<rparr>"

definition rehearsal_breaker :: "rehearsal_world breaker_session" where
  "rehearsal_breaker = \<lparr>bs_genuine = True, bs_record_open = (\<lambda>s. io_return ()),
     bs_read_state = io_return [(''circuit_breaker_open'', VBool False)]\<rparr>"

definition rehearsal_session :: "rehearsal_world submission_session" where
  "rehearsal_session = \<lparr>ss_breaker = rehearsal_breaker, ss_contract_version = ''account_submission.v1'',
     ss_broker = ''ibkr'', ss_release_id = ''r1'', ss_intent_id = ''i1'', ss_profile = Some ''p'',
     ss_reserve = (\<lambda>i new_risk. io_return (VStr ''grant''))\<rparr>"

definition rehearsal_env :: "rehearsal_world env" where
  "rehearsal_env = \<lparr>e_ql = whole_share_lib, e_tr = (\<lambda>k r. k), e_lib = sample_lib, e_gate = sample_env,
     e_today = Date 2026 5 1, e_to_iso = (\<lambda>v. Inr (v_str v)), e_set_order = (\<lambda>xs. xs),
     e_fetch_quotes = (\<lambda>ss. io_return (List.map (\<lambda>s. (s, rehearsal_quote)) ss)),
     e_trades = \<lparr>ta_all_open_orders = Some (\<lambda>s. io_return (Rows [])),
        ta_open_trades = Some (\<lambda>s. io_return (Rows [])), ta_executions = None\<rparr>,
     e_settings = \<lparr>rs_request_timeout = VInt 4, rs_raise_request_errors = VBool False\<rparr>,
     e_fills = Some (io_return []),
     e_account = \<lparr>api_callable = True, api_get_timeout = io_return (VInt 4), api_set_timeout = (\<lambda>x. io_return ()),
        api_get_raise = io_return (VBool False), api_set_raise = (\<lambda>x. io_return ()), api_connect = io_return (), api_disconnect = io_return (),
        api_cached = io_return [], api_refresh = (\<lambda>a. io_return \<lparr>ro_rows = [], ro_started = Fin 0,
           ro_completed = Fin 0, ro_now = 0\<rparr>)\<rparr>,
     e_monotonic = io_return (Fin 0), e_sleep = (\<lambda>d. io_return ()), e_get_files = snd,
     e_put_files = (\<lambda>fs w. (fst w, fs)), e_sha256 = (\<lambda>s. s), e_tempdir = ''/tmp'', e_lock_disk = DiskOk, e_now_text = ''now'',
     e_publish = (\<lambda>x p s. io_return ()), e_clear_snapshot = io_return (),
     e_small_account = (\<lambda>t p c h s. Inr \<lparr>sa_targets = t, sa_whole_share_symbols = [], sa_safe_haven_symbols = [], sa_notes = []\<rparr>),
     e_format_cash_notes = (\<lambda>n. []), e_drift_notes = (\<lambda>a b c d r x y. Inr []), e_format_drift_notes = (\<lambda>n. []),
     e_paper_admission = (\<lambda>p t. Inr [(''broker_write_allowed'', VBool True)]),
     e_sell_sweep = (\<lambda>a b c d. False), e_risk_reducing = (\<lambda>held q. fle q held),
     e_session = Some rehearsal_session, e_claim = Some (io_return True), e_release_digest = ''r1'',
     e_intent_digest = ''i1'', e_consult = (\<lambda>b. io_return ()),
     e_delegate = (\<lambda>i g red w. (Inr (rehearsal_report i), (fst w @ [i], snd w))),
     e_delegate_guarded = (\<lambda>g i w. (Inr (rehearsal_report i, g), (fst w @ [i], snd w)))\<rparr>"

definition rehearsal_args :: args where
  "rehearsal_args = \<lparr>a_metadata = sample_metadata,
     a_account_values = [(''equity'', VInt 10000), (''buying_power'', VInt 10000)],
     a_positions = [], a_strategy_profile = Some ''p'', a_account_group = None, a_service_name = None,
     a_account_ids = VTuple [VStr ''U1''], a_dry_run = False, a_execution_mode = None, a_cash_reserve_ratio = Fin 0,
     a_rebalance_threshold_ratio = Fin (1/100), a_limit_buy_premium = VInt 1, a_limit_buy_premium_by_symbol = VNone,
     a_sell_settle_delay = Fin 0, a_cash_reserve_floor = Fin 0, a_quantity_step = Fin 1, a_min_order_notional = Fin 50,
     a_safe_haven_threshold = Fin 1000, a_market_currency = ''USD'', a_lock_dir = Some ''/locks'', a_cash_only = False,
     a_paper_admission = True\<rparr>"

lemma rehearsal_quiet: "reads_quiet fst rehearsal_env"
  by (auto simp: reads_defs rehearsal_env_def rehearsal_session_def rehearsal_breaker_def intro: quiet_rules)

theorem plan_never_submits_witness:
  "fst (snd (plan_rebalance rehearsal_env rehearsal_args ([], []))) = []"
  using plan_never_submits [OF rehearsal_quiet, of rehearsal_args "([], [])" undefined] by simp

section \<open>Submission\<close>

lemma quiet_authorize:
  assumes "reads_quiet olog e"
  shows "is_quiet olog (authorize e a i)"
proof -
  have p: "is_quiet olog (evaluate_persistent_account_new_risk_admission lib env av m (ss_breaker s))"
    if "check_session e a = Inr s" for s lib env av m
    using assms that
    by (intro quiet_persistent) (auto simp: check_session_def reads_defs split: option.split_asm if_split_asm)
  have c: "is_quiet olog (take_claim e)"
    unfolding take_claim_def using assms
    by (intro quiet_rules) (auto simp: reads_quiet_def intro: quiet_rules)
  show ?thesis
    unfolding authorize_def by (intro quiet_rules c) (auto intro!: p quiet_rules)
qed

lemma authorize_session:
  "authorize e a i w = (Inr s, w') \<Longrightarrow> check_session e a = Inr s"
  by (auto simp: authorize_def elim!: io_bind_InrE)

text \<open>The submitter records at most the intent it is given.\<close>

definition submits_at_most :: "('w \<Rightarrow> order_intent list) \<Rightarrow> 'w env \<Rightarrow> bool" where
  "submits_at_most olog e \<longleftrightarrow> (\<forall>i g red. logs_at_most olog i (e_delegate e i g red))
     \<and> (\<forall>g i. logs_at_most olog i (e_delegate_guarded e g i))"

lemmas growing_rules = growing.keeps_return growing.keeps_raise growing.keeps_lift growing.keeps_bind
  growing.keeps_catch keeps_split

lemma session_reserve_quiet:
  "reads_quiet olog e \<Longrightarrow> check_session e a = Inr s \<Longrightarrow> is_quiet olog (ss_reserve s i b)"
  by (auto simp: check_session_def reads_defs split: option.split_asm if_split_asm)

lemma submit_plain_grows:
  assumes "reads_quiet olog e" and "submits_at_most olog e" and "P i"
  shows "io_keeps (log_grows olog P) (submit_plain e a i red)"
  unfolding submit_plain_def
proof (intro growing.keeps_bind)
  show "io_keeps (log_grows olog P) (authorize e a i)"
    by (rule quiet_grows) (rule quiet_authorize [OF assms(1)])
  show "io_keeps (log_grows olog P) (ss_reserve s i (is_new_risk e i))"
    if "authorize e a i w = (Inr s, w')" for s w w'
    using that by (intro quiet_grows session_reserve_quiet [OF assms(1)] authorize_session)
  show "io_keeps (log_grows olog P) (e_delegate e i grant red)" for grant
    using assms(2,3) by (auto simp: submits_at_most_def intro: logs_at_most_grows)
qed

lemma submit_guarded_grows:
  assumes "reads_quiet olog e" and "submits_at_most olog e" and "P i"
  shows "io_keeps (log_grows olog P) (submit_guarded e a g i)"
  unfolding submit_guarded_def
proof (intro growing.keeps_bind)
  show "io_keeps (log_grows olog P) (authorize e a i)"
    by (rule quiet_grows) (rule quiet_authorize [OF assms(1)])
  show "io_keeps (log_grows olog P) (e_delegate_guarded e g i)"
    by (rule logs_at_most_grows [where i = i]) (use assms(2,3) in \<open>auto simp: submits_at_most_def\<close>)
qed

text \<open>
  What must have happened, in this order and from world \<open>w\<close> on, before an order is handed over at
  \<open>w'\<close>: a genuine session bound to this run, a claim that was won, and for new risk a fresh reading
  of the breaker that does not prohibit it.
\<close>

definition session_bound :: "'w env \<Rightarrow> args \<Rightarrow> 'w submission_session \<Rightarrow> bool" where
  "session_bound e a s \<longleftrightarrow> e_session e = Some s \<and> bs_genuine (ss_breaker s)
     \<and> ss_contract_version s = ''account_submission.v1'' \<and> ss_broker s = ''ibkr''
     \<and> ss_release_id s = e_release_digest e \<and> ss_intent_id s = e_intent_digest e
     \<and> ss_profile s = a_strategy_profile a"

definition authority_before :: "'w env \<Rightarrow> args \<Rightarrow> order_intent \<Rightarrow> 'w \<Rightarrow> 'w submission_session \<Rightarrow> 'w \<Rightarrow> bool" where
  "authority_before e a i w s w' \<longleftrightarrow> session_bound e a s
     \<and> (\<exists>c wa wb. e_claim e = Some c \<and> c w = (Inr True, wa) \<and> e_consult e True wa = (Inr (), wb)
         \<and> (if is_new_risk e i then \<exists>adm. evaluate_persistent_account_new_risk_admission (e_lib e) (e_gate e)
                (a_account_values a) (a_metadata a) (ss_breaker s) wb = (Inr adm, w') \<and> \<not> new_risk_buy_prohibited adm
            else w' = wb))"

lemma take_claim_won:
  assumes "take_claim e w = (Inr (), w')"
  obtains c wa where "e_claim e = Some c" "c w = (Inr True, wa)" "e_consult e True wa = (Inr (), w')"
  using assms by (cases "e_claim e") (auto simp: take_claim_def elim!: io_bind_InrE split: if_split_asm)

lemma authorize_authority:
  assumes "authorize e a i w = (Inr s, w')"
  shows "authority_before e a i w s w'"
proof -
  from authorize_session [OF assms] have s: "session_bound e a s"
    by (auto simp: session_bound_def check_session_def split: option.split_asm if_split_asm)
  from assms obtain wb where c: "take_claim e w = (Inr (), wb)" and b: "(if is_new_risk e i then
        io_bind (evaluate_persistent_account_new_risk_admission (e_lib e) (e_gate e) (a_account_values a) (a_metadata a)
                   (ss_breaker s)) (\<lambda>latest.
          if new_risk_buy_prohibited latest then io_raise new_risk_error else io_return ())
      else io_return ()) wb = (Inr (), w')"
    by (auto simp: authorize_def elim!: io_bind_InrE)
  have "if is_new_risk e i then \<exists>adm. evaluate_persistent_account_new_risk_admission (e_lib e) (e_gate e)
      (a_account_values a) (a_metadata a) (ss_breaker s) wb = (Inr adm, w') \<and> \<not> new_risk_buy_prohibited adm else w' = wb"
    using b by (auto elim!: io_bind_InrE split: if_split_asm)
  with s c show ?thesis unfolding authority_before_def by (elim take_claim_won) blast
qed

text \<open>
  C19.  An order reaches the submitter only with authority.  Whatever a submission ends with, also
  an exception: if it handed an order over, then from its start on there was a genuine account session
  of the pinned contract version, bound to this broker, this release, this intent and this strategy
  profile; the claim was asked and won; for a buy under an enabled new-risk gate the persistent breaker
  was read again and did not prohibit it.  A plain submission moreover reserved exactly this intent
  after that and handed over nothing but the intent with that grant; a settled-cash submission hands
  over the intent with its guard, which reserves it once it is resized.
\<close>

theorem submission_needs_authority:
  assumes "reads_quiet olog e"
  shows "(olog (snd (submit_plain e a i red w)) \<noteq> olog w \<longrightarrow>
       (\<exists>s w1 grant w2. authority_before e a i w s w1 \<and> ss_reserve s i (is_new_risk e i) w1 = (Inr grant, w2)
          \<and> olog w2 = olog w \<and> submit_plain e a i red w = e_delegate e i grant red w2))
    \<and> (olog (snd (submit_guarded e a g i w)) \<noteq> olog w \<longrightarrow>
       (\<exists>s w1. authority_before e a i w s w1 \<and> olog w1 = olog w
          \<and> submit_guarded e a g i w = e_delegate_guarded e g i w1))"
proof -
  obtain r w1 where 1: "authorize e a i w = (r, w1)" by fastforce
  have q1: "olog w1 = olog w" using quiet_same [OF quiet_authorize [OF assms, of a i], of w] 1 by simp
  show ?thesis
  proof (cases r)
    case (Inl x)
    then have "olog (snd (submit_plain e a i red w)) = olog w" "olog (snd (submit_guarded e a g i w)) = olog w"
      using 1 q1 by (simp_all add: submit_plain_def submit_guarded_def io_bind_apply)
    then show ?thesis by simp
  next
    case (Inr s)
    note auth = authorize_authority [OF 1 [unfolded Inr]]
    obtain r2 w2 where 2: "ss_reserve s i (is_new_risk e i) w1 = (r2, w2)" by fastforce
    have q2: "olog w2 = olog w"
      using quiet_same [OF session_reserve_quiet [OF assms authorize_session [OF 1 [unfolded Inr]], of i "is_new_risk e i"], of w1] 2 q1 by simp
    have g: "submit_guarded e a g i w = e_delegate_guarded e g i w1"
      using 1 Inr by (simp add: submit_guarded_def io_bind_apply)
    show ?thesis
    proof (cases r2)
      case (Inl x)
      then have "olog (snd (submit_plain e a i red w)) = olog w"
        using 1 2 Inr q2 by (simp add: submit_plain_def io_bind_apply)
      with auth q1 g show ?thesis by blast
    next
      case (Inr grant)
      then have "submit_plain e a i red w = e_delegate e i grant red w2"
        using 1 2 \<open>r = Inr s\<close> by (simp add: submit_plain_def io_bind_apply)
      with auth q1 q2 g 2 Inr show ?thesis by blast
    qed
  qed
qed

definition rehearsal_order :: order_intent where
  "rehearsal_order = \<lparr>oi_symbol = ''QQQ'', oi_side = ''buy'', oi_quantity = Fin 50, oi_order_type = Some ''limit'',
     oi_limit_price = Some (Fin 100), oi_time_in_force = Some ''DAY'', oi_account_id = Some ''U1'', oi_metadata = None\<rparr>"

definition admitted :: admission where
  "admitted = \<lparr>ad_disposition = AllowNewRisk, ad_reason_codes = [], ad_hard_brake = False, ad_combined_scale = None\<rparr>"

definition claim_args :: args where
  "claim_args = rehearsal_args\<lparr>a_metadata := []\<rparr>"

definition rehearsal_portfolio :: row where
  "rehearsal_portfolio = [(''total_equity'', VFloat (Fin 10000)),
     (''account_new_risk_snapshot'', VDict [(''equity_usd'', VFloat (Fin 10000)),
        (''circuit_breaker_state'', VStr ''CLOSED''), (''drawdown_from_peak'', VNone),
        (''observation_status'', VStr ''UNAVAILABLE'')])]"

lemma rehearsal_admission:
  "evaluate_persistent_account_new_risk_admission sample_lib sample_env (a_account_values claim_args) []
     rehearsal_breaker w = (Inr admitted, w)"
proof -
  have 1: "build_portfolio_from_account_values (lib_apply_axes sample_lib) sample_env
      (a_account_values claim_args) [] = Inr rehearsal_portfolio"
    by code_simp
  have 2: "evaluate_portfolio_new_risk_admission sample_lib sample_env rehearsal_portfolio None = Inr admitted"
    by code_simp
  show ?thesis
    by (simp add: evaluate_persistent_account_new_risk_admission_def 1 2 io_bind_def io_catch_def
        breaker_reading_def rehearsal_breaker_def vd_get_def dict_get_default_def admitted_def)
qed

definition rehearsal_guard :: deadline_ib where
  "rehearsal_guard = new_deadline_ib (Fin 0) (Some ''U1'') ''USD'' (Fin 5000) (Fin 0) (Fin 1) (Fin 0)"

theorem submission_needs_authority_witness:
  "is_new_risk rehearsal_env rehearsal_order
   \<and> (\<exists>s w1 grant w2. authority_before rehearsal_env claim_args rehearsal_order ([], []) s w1
        \<and> ss_reserve s rehearsal_order True w1 = (Inr grant, w2)
        \<and> e_delegate rehearsal_env rehearsal_order grant None w2 = (Inr (rehearsal_report rehearsal_order), ([rehearsal_order], [])))
   \<and> (\<exists>s w1. authority_before rehearsal_env claim_args rehearsal_order ([], []) s w1
        \<and> e_delegate_guarded rehearsal_env rehearsal_guard rehearsal_order w1 = (Inr (rehearsal_report rehearsal_order, rehearsal_guard), ([rehearsal_order], [])))"
proof -
  have risk: "is_new_risk rehearsal_env rehearsal_order"
    unfolding is_new_risk_def rehearsal_env_def rehearsal_order_def by code_simp
  have env: "e_lib rehearsal_env = sample_lib" "e_gate rehearsal_env = sample_env" "a_metadata claim_args = []"
    by (simp_all add: rehearsal_env_def claim_args_def)
  have check: "check_session rehearsal_env claim_args = Inr rehearsal_session"
    by (simp add: check_session_def rehearsal_env_def claim_args_def rehearsal_args_def rehearsal_session_def rehearsal_breaker_def)
  have breaker: "ss_breaker rehearsal_session = rehearsal_breaker" by (simp add: rehearsal_session_def)
  have claim: "take_claim rehearsal_env w = (Inr (), w)" for w
    by (simp add: take_claim_def rehearsal_env_def io_bind_def)
  have auth: "authorize rehearsal_env claim_args rehearsal_order w = (Inr rehearsal_session, w)" for w
    by (simp add: authorize_def check claim risk env breaker rehearsal_admission io_bind_def
        new_risk_buy_prohibited_def admitted_def)
  have p: "submit_plain rehearsal_env claim_args rehearsal_order None ([], []) =
     (Inr (rehearsal_report rehearsal_order), ([rehearsal_order], []))"
    by (simp add: submit_plain_def auth io_bind_def rehearsal_session_def) (simp add: rehearsal_env_def)
  have g: "submit_guarded rehearsal_env claim_args rehearsal_guard rehearsal_order ([], []) =
     (Inr (rehearsal_report rehearsal_order, rehearsal_guard), ([rehearsal_order], []))"
    by (simp add: submit_guarded_def auth io_bind_def) (simp add: rehearsal_env_def)
  note authority = submission_needs_authority [OF rehearsal_quiet, of claim_args rehearsal_order None "([], [])" rehearsal_guard]
  have changed: "fst (snd (submit_plain rehearsal_env claim_args rehearsal_order None ([], []))) \<noteq> fst ([], [])"
    "fst (snd (submit_guarded rehearsal_env claim_args rehearsal_guard rehearsal_order ([], []))) \<noteq> fst ([], [])"
    by (simp_all add: p g)
  from mp [OF conjunct1 [OF authority] changed(1)] obtain s w1 grant w2
    where 1: "authority_before rehearsal_env claim_args rehearsal_order ([], []) s w1"
      "ss_reserve s rehearsal_order (is_new_risk rehearsal_env rehearsal_order) w1 = (Inr grant, w2)"
      "submit_plain rehearsal_env claim_args rehearsal_order None ([], []) = e_delegate rehearsal_env rehearsal_order grant None w2"
    by blast
  from mp [OF conjunct2 [OF authority] changed(2)] obtain s' w1'
    where 2: "authority_before rehearsal_env claim_args rehearsal_order ([], []) s' w1'"
      "submit_guarded rehearsal_env claim_args rehearsal_guard rehearsal_order ([], []) = e_delegate_guarded rehearsal_env rehearsal_guard rehearsal_order w1'"
    by blast
  from 1 2 risk p g show ?thesis by metis
qed

end
