(* ===== verification/RebalanceSafety.thy ===== *)
theory RebalanceSafety
  imports RebalanceFacts
begin

text \<open>
  The trading half under the plan: the loops only change the summary and the log lines of a
  run (\<open>same_plan\<close>), every intent handed to the submitter is one the plan permits
  (\<open>permitted\<close>), and the lifting of both to the whole function.
\<close>

section \<open>The loops keep the plan\<close>

definition same_plan :: "run \<Rightarrow> run \<Rightarrow> bool" where
  "same_plan r r' \<longleftrightarrow> r' = r\<lparr>r_summary := r_summary r', r_logs := r_logs r'\<rparr>"

named_theorems plan_simps "what an operation leaves of the plan"

lemma same_plan_refl: "same_plan r r"
  by (simp add: same_plan_def)

lemma same_plan_summary [plan_simps]: "same_plan r (upd_summary f r') = same_plan r r'"
  by (cases r; cases r') (auto simp: same_plan_def upd_summary_def)

lemma same_plan_set_summary [plan_simps]: "same_plan r (r'\<lparr>r_summary := s\<rparr>) = same_plan r r'"
  by (cases r; cases r') (auto simp: same_plan_def)

lemma same_plan_set_logs [plan_simps]: "same_plan r (r'\<lparr>r_logs := s\<rparr>) = same_plan r r'"
  by (cases r; cases r') (auto simp: same_plan_def)

lemma same_plan_log [plan_simps]: "same_plan r (log line r') = same_plan r r'"
  by (simp add: log_def plan_simps)

lemma same_plan_mark [plan_simps]: "same_plan r (mark_unknown r') = same_plan r r'"
  by (simp add: mark_unknown_def plan_simps)

lemma same_plan_fields:
  assumes "same_plan r r'"
  shows "r_allocation r' = r_allocation r" "r_caps r' = r_caps r" "r_options r' = r_options r"
    "r_current_mv r' = r_current_mv r" "r_target_mv r' = r_target_mv r" "r_threshold r' = r_threshold r"
    "r_new_risk_blocked r' = r_new_risk_blocked r" "r_order_account r' = r_order_account r"
    "r_step r' = r_step r" "r_prices r' = r_prices r"
    "r_reserved r' = r_reserved r" "r_symbols r' = r_symbols r"
proof -
  obtain s l where "r' = r\<lparr>r_summary := s, r_logs := l\<rparr>"
    using assms unfolding same_plan_def by blast
  then show "r_allocation r' = r_allocation r" "r_caps r' = r_caps r" "r_options r' = r_options r"
    "r_current_mv r' = r_current_mv r" "r_target_mv r' = r_target_mv r" "r_threshold r' = r_threshold r"
    "r_new_risk_blocked r' = r_new_risk_blocked r" "r_order_account r' = r_order_account r"
    "r_step r' = r_step r" "r_prices r' = r_prices r"
    "r_reserved r' = r_reserved r" "r_symbols r' = r_symbols r"
    by simp_all
qed

lemma needed_same_plan: "same_plan r r' \<Longrightarrow> buy_needed_symbols r' = buy_needed_symbols r"
  by (simp add: buy_needed_symbols_def same_plan_fields)

text \<open>Selling.\<close>

lemma sell_skip_plan [plan_simps]: "same_plan r (sl_run (sell_skip s why st)) = same_plan r (sl_run st)"
  by (simp add: sell_skip_def plan_simps)

lemma missing_price_skip_plan [plan_simps]:
  "same_plan r (sl_run (missing_price_skip s st)) = same_plan r (sl_run st)"
  by (simp add: missing_price_skip_def plan_simps Let_def)

lemma record_sale_plan:
  "record_sale e s qv q price rep st = Inr st' \<Longrightarrow> same_plan r (sl_run st) \<Longrightarrow> same_plan r (sl_run st')"
  by (auto simp: record_sale_def Let_def plan_simps elim!: res_bind_InrE split: prod.split_asm if_split_asm)

lemma sell_order_plan:
  "sell_order e a s qv q price st w = (Inr st', w') \<Longrightarrow> same_plan r (sl_run st) \<Longrightarrow> same_plan r (sl_run st')"
  by (auto simp: sell_order_def Let_def plan_simps elim!: io_bind_InrE split: if_split_asm dest: record_sale_plan)

lemma sell_step_plan:
  "sell_step e a s st w = (Inr st', w') \<Longrightarrow> same_plan r (sl_run st) \<Longrightarrow> same_plan r (sl_run st')"
  by (auto simp: sell_step_def Let_def plan_simps elim!: io_bind_InrE split: if_split_asm sell_choice.split_asm
      dest: sell_order_plan)

lemma sell_loop_plan:
  assumes "sell_loop e a r w = (Inr st, w')"
  shows "same_plan r (sl_run st)"
  using assms unfolding sell_loop_def
  by (rule io_fold_rule [where P = "\<lambda>_ st _. same_plan r (sl_run st)"])
    (auto simp: same_plan_refl dest: sell_step_plan)

text \<open>Budget and blocks.\<close>

lemma budget_stage_plan:
  assumes "budget_stage e a st w = (Inr b, w')" and "same_plan r (sl_run st)"
  shows "same_plan r (bu_run b)"
  using assms by (auto simp: budget_stage_def Let_def plan_simps elim!: io_bind_InrE split: if_split_asm)

lemma first_blocks_plan:
  "first_blocks e a release investable r0 = Inr (reason, r') \<Longrightarrow> same_plan r r0 \<Longrightarrow> same_plan r r'"
  by (auto simp: first_blocks_def block_small_account_def block_new_risk_def block_pending_release_def Let_def plan_simps
      elim!: res_bind_InrE split: if_split_asm)

lemma negative_cash_plan:
  "negative_cash_block e a r0 w = (Inr (reason, r'), w') \<Longrightarrow> same_plan r r0 \<Longrightarrow> same_plan r r'"
  by (auto simp: negative_cash_block_def Let_def plan_simps elim!: io_bind_InrE split: if_split_asm option.split_asm)

lemma block_stage_plan:
  "block_stage e a release st w = (Inr (reason, st'), w') \<Longrightarrow> same_plan r (bu_run st) \<Longrightarrow> same_plan r (bu_run st')"
  by (auto simp: block_stage_def elim!: io_bind_InrE split: if_split_asm
      dest!: first_blocks_plan [where r = r] negative_cash_plan [where r = r])

text \<open>A prohibition of new risk with anything to buy gives a reason to defer.\<close>

lemma block_stage_new_risk:
  assumes "block_stage e a release st w = (Inr (None, st'), w')" and "r_new_risk_blocked (bu_run st)"
  shows "buy_needed_symbols (bu_run st) = []"
  using assms
  by (auto simp: block_stage_def first_blocks_def Let_def elim!: io_bind_InrE res_bind_InrE split: if_split_asm)

text \<open>Buying.\<close>

lemma buy_skip_plan [plan_simps]:
  "same_plan r (bu_run (buy_skip s why st)) = same_plan r (bu_run st)"
  "same_plan r (bu_run (buy_skip_noted s why st)) = same_plan r (bu_run st)"
  by (simp_all add: buy_skip_def buy_skip_noted_def plan_simps Let_def)

lemma record_buy_plan:
  "record_buy e s q lp rep st = Inr st' \<Longrightarrow> same_plan r (bu_run st) \<Longrightarrow> same_plan r (bu_run st')"
  by (auto simp: record_buy_def Let_def plan_simps elim!: res_bind_InrE split: prod.split_asm if_split_asm)

lemma submit_buy_plan:
  assumes "submit_buy e a started s q lp st w = (Inr st', w')" and "same_plan r (bu_run st)"
  shows "same_plan r (bu_run st')"
  using assms
  by (auto simp: submit_buy_def Let_def elim!: io_bind_InrE split: if_split_asm prod.split_asm dest!: record_buy_plan [where r = r])

lemma place_buy_plan:
  "place_buy e a started s q lp cost st w = (Inr st', w') \<Longrightarrow> same_plan r (bu_run st) \<Longrightarrow> same_plan r (bu_run st')"
  by (auto simp: place_buy_def dry_buy_def plan_simps elim!: io_bind_InrE split: if_split_asm option.split_asm
      dest: submit_buy_plan)

lemma try_buy_plan:
  "try_buy e a started s t st w = (Inr st', w') \<Longrightarrow> same_plan r (bu_run st) \<Longrightarrow> same_plan r (bu_run st')"
  by (auto simp: try_buy_def plan_simps elim!: io_bind_InrE split: if_split_asm buy_choice.split_asm dest: place_buy_plan)

lemma refresh_budget_plan:
  "refresh_budget e a s st w = (Inr (go, st'), w') \<Longrightarrow> same_plan r (bu_run st)
   \<Longrightarrow> same_plan r (bu_run st') \<and> (\<forall>x st2. go = Some (x, st2) \<longrightarrow> same_plan r (bu_run st2))"
  by (auto simp: refresh_budget_def plan_simps Let_def elim!: io_bind_InrE split: if_split_asm option.split_asm)

lemma buy_step_plan:
  "buy_step e a reason needed p st w = (Inr st', w') \<Longrightarrow> same_plan r (bu_run st) \<Longrightarrow> same_plan r (bu_run st')"
  by (auto simp: buy_step_def plan_simps Let_def elim!: io_bind_InrE
      split: if_split_asm option.split_asm prod.split_asm
      dest!: try_buy_plan [where r = r] refresh_budget_plan [where r = r])


section \<open>Permitted intents\<close>

text \<open>
  What the plan \<open>r\<close> permits the submitter to be handed.  A sale: a strategy symbol, a finite
  positive quantity, at most what is held (up to the tolerance of the code), and proven to reduce
  risk when new risk is prohibited.  A purchase: only when new risk is not prohibited, a day limit
  order for a strategy symbol whose cost fits the approved cap less what is held.
\<close>

definition permitted_sale :: "'w env \<Rightarrow> args \<Rightarrow> run \<Rightarrow> order_intent \<Rightarrow> bool" where
  "permitted_sale e a r i \<longleftrightarrow>
     oi_side i = ''sell'' \<and> oi_symbol i \<in> set (wa_strategy_symbols (r_allocation r))
     \<and> isfinite (oi_quantity i) \<and> \<not> fle (oi_quantity i) (Fin 0)
     \<and> \<not> flt (fadd (held_quantity a (oi_symbol i)) tol_weight) (oi_quantity i)
     \<and> (r_new_risk_blocked r \<longrightarrow> e_risk_reducing e (held_quantity a (oi_symbol i)) (oi_quantity i))"

definition permitted_buy :: "run \<Rightarrow> order_intent \<Rightarrow> bool" where
  "permitted_buy r i \<longleftrightarrow>
     \<not> r_new_risk_blocked r \<and> oi_side i = ''buy'' \<and> oi_order_type i = Some ''limit''
     \<and> oi_time_in_force i = Some ''DAY'' \<and> oi_symbol i \<in> set (wa_strategy_symbols (r_allocation r))
     \<and> isfinite (oi_quantity i) \<and> \<not> fle (oi_quantity i) (Fin 0)
     \<and> (case (oi_limit_price i, dict_get (r_caps r) (oi_symbol i)) of
          (Some lp, Some cap) \<Rightarrow> isfinite lp \<and> \<not> fle lp (Fin 0)
             \<and> \<not> flt (fadd (fsub cap (f_or (fget (r_current_mv r) (oi_symbol i)) (Fin 0))) tol_order)
                     (fmul (oi_quantity i) lp)
        | _ \<Rightarrow> False)"

definition permitted :: "'w env \<Rightarrow> args \<Rightarrow> run \<Rightarrow> order_intent \<Rightarrow> bool" where
  "permitted e a r i \<longleftrightarrow> \<not> a_dry_run a \<and> oi_account_id i = r_order_account r
     \<and> (permitted_sale e a r i \<or> permitted_buy r i)"

lemma permitted_sell_intent:
  assumes "same_plan r r'" and "sale_allowed a r' s q price" and "\<not> a_dry_run a"
    and "r_new_risk_blocked r' \<Longrightarrow> e_risk_reducing e (held_quantity a s) q"
  shows "permitted e a r (sell_intent r' s q)"
  using assms by (auto simp: permitted_def permitted_sale_def sell_intent_def sale_allowed_def same_plan_fields)

lemma permitted_buy_intent:
  assumes "same_plan r r'" and "buy_allowed r' s cap q lp (fmul q lp)" and "dict_get (r_caps r') s = Some cap"
    and "\<not> a_dry_run a" and "\<not> r_new_risk_blocked r"
  shows "permitted e a r (buy_intent r' s q lp)"
  using assms by (auto simp: permitted_def permitted_buy_def buy_intent_def buy_allowed_def same_plan_fields)

lemma choose_buy_cost:
  "choose_buy e a r s t inv0 = Inr (BuyOrder q lp cost) \<Longrightarrow> cost = fmul q lp \<and> \<not> flt inv0 cost"
  by (auto simp: choose_buy_def Let_def elim!: res_bind_InrE split: if_split_asm option.split_asm)

section \<open>Every order is permitted\<close>

text \<open>
  The environment is confined: only the submitter writes to the order log, and at most the
  intent it is given.
\<close>

definition confined :: "('w \<Rightarrow> order_intent list) \<Rightarrow> 'w env \<Rightarrow> bool" where
  "confined olog e \<longleftrightarrow> reads_quiet olog e \<and> submits_at_most olog e"

abbreviation run_grows :: "('w \<Rightarrow> order_intent list) \<Rightarrow> 'w env \<Rightarrow> args \<Rightarrow> run \<Rightarrow> ('w, 'a) io \<Rightarrow> bool" where
  "run_grows olog e a r m \<equiv> io_keeps (log_grows olog (permitted e a r)) m"

lemma env_reads: "confined olog e \<Longrightarrow> reads_quiet olog e"
  and env_submits: "confined olog e \<Longrightarrow> submits_at_most olog e"
  by (simp_all add: confined_def)

lemma reads_grow:
  assumes env: "confined olog e"
  shows "run_grows olog e a r (api_cached (e_account e))" "run_grows olog e a r (e_monotonic e)"
  "run_grows olog e a r (e_sleep e d)" "run_grows olog e a r (observe_settled e a r')"
  using env quiet_observe_settled [of olog e] by (auto intro!: quiet_grows simp: confined_def reads_defs observe_settled_def)

lemma sell_order_grows:
  assumes env: "confined olog e" and "same_plan r (sl_run st)"
  shows "run_grows olog e a r (sell_order e a s qv q price st)"
  unfolding sell_order_def Let_def
proof (intro growing_rules)
  assume 1: "\<not> \<not> sale_allowed a (sl_run st) s q price"
    "\<not> (r_new_risk_blocked (sl_run st) \<and> \<not> e_risk_reducing e (held_quantity a s) q)" "\<not> a_dry_run a"
  then show "run_grows olog e a r (submit_plain e a (sell_intent (sl_run st) s q)
      (if r_new_risk_blocked (sl_run st) then Some (held_quantity a s, Fin 0) else None))"
    by (intro submit_plain_grows env_reads [OF env] env_submits [OF env] permitted_sell_intent [OF assms(2)]) auto
qed

lemma sell_loop_grows:
  assumes env: "confined olog e"
  shows "run_grows olog e a r (sell_loop e a r)"
  unfolding sell_loop_def
proof (rule growing.keeps_fold_inv [where I = "\<lambda>st. same_plan r (sl_run st)"])
  show "run_grows olog e a r (sell_step e a s st)" if "same_plan r (sl_run st)" for s st
    unfolding sell_step_def
    by (intro growing_rules) (auto split: sell_choice.split intro!: growing_rules sell_order_grows [OF env] that)
qed (auto simp: same_plan_refl dest: sell_step_plan)

lemma budget_stage_grows:
  assumes env: "confined olog e"
  shows "run_grows olog e a r (budget_stage e a st)"
  unfolding budget_stage_def Let_def by (intro growing_rules reads_grow [OF env])

lemma block_stage_grows:
  assumes env: "confined olog e"
  shows "run_grows olog e a r (block_stage e a release st)"
  unfolding block_stage_def negative_cash_block_def by (intro growing_rules reads_grow [OF env])

lemma submit_buy_grows:
  assumes env: "confined olog e" and "permitted e a r (buy_intent (bu_run st) s q lp)"
  shows "run_grows olog e a r (submit_buy e a started s q lp st)"
  unfolding submit_buy_def Let_def
  using assms by (intro growing_rules submit_plain_grows submit_guarded_grows env_reads [OF env] env_submits [OF env]) auto

lemma place_buy_grows:
  assumes env: "confined olog e" and "same_plan r (bu_run st)" and "cost = fmul q lp" and "\<not> r_new_risk_blocked r"
  shows "run_grows olog e a r (place_buy e a started s q lp cost st)"
  unfolding place_buy_def
  by (intro growing_rules reads_grow [OF env] submit_buy_grows [OF env] permitted_buy_intent [OF assms(2)]) (use assms in auto)

lemma try_buy_grows:
  assumes env: "confined olog e" and "same_plan r (bu_run st)" and "\<not> r_new_risk_blocked r"
  shows "run_grows olog e a r (try_buy e a started s t st)"
  unfolding try_buy_def
proof (intro growing.keeps_bind growing.keeps_lift)
  fix choice w w'
  assume "io_lift (choose_buy e a (bu_run st) s t (bu_investable st)) w = (Inr choice, w')"
  then have "choose_buy e a (bu_run st) s t (bu_investable st) = Inr choice" by simp
  then show "run_grows olog e a r (case choice of BuySkip reason noted \<Rightarrow> io_return
        (if noted then buy_skip_noted s reason st else buy_skip s reason st)
      | BuyOrder q lp cost \<Rightarrow> place_buy e a started s q lp cost st)"
    using assms by (auto split: buy_choice.split intro!: growing_rules place_buy_grows [OF env] dest: choose_buy_cost)
qed

lemma refresh_budget_grows:
  assumes env: "confined olog e"
  shows "run_grows olog e a r (refresh_budget e a s st)"
  unfolding refresh_budget_def Let_def by (intro growing_rules reads_grow [OF env])

lemma buy_step_grows:
  assumes env: "confined olog e" and "same_plan r (bu_run st)" and "p \<in> set (r_target_mv r)"
    and "reason = None \<Longrightarrow> r_new_risk_blocked r \<Longrightarrow> buy_needed_symbols r = []"
  shows "run_grows olog e a r (buy_step e a reason needed p st)"
proof -
  obtain s t where p: "p = (s, t)" by (cases p)
  have t: "f_or t (Fin 0) = t" by (cases t) (auto simp: f_or_def ftruthy_def)
  have free: "\<not> r_new_risk_blocked r"
    if "reason = None" "flt (fget (r_current_mv (bu_run st)) s) (fsub t (r_threshold (bu_run st)))"
    using that assms p t by (force simp: same_plan_fields buy_needed_symbols_def filter_empty_conv)
  have refreshed: "same_plan r (bu_run st2)" if "refresh_budget e a s st w = (Inr (Some (x, st2), st1), w')" for w w' x st1 st2
    using refresh_budget_plan [OF that, of r] assms(2) by simp
  show ?thesis
    unfolding buy_step_def p Let_def prod.case
    by (intro growing_rules refresh_budget_grows [OF env] try_buy_grows [OF env]) (use assms(2) free refreshed in auto)
qed

lemma buy_loop_grows:
  assumes env: "confined olog e" and "same_plan r (bu_run st)"
    and "reason = None \<Longrightarrow> r_new_risk_blocked r \<Longrightarrow> buy_needed_symbols r = []"
  shows "run_grows olog e a r (buy_loop e a reason st)"
  unfolding buy_loop_def
proof (rule growing.keeps_fold_inv [where I = "\<lambda>st. same_plan r (bu_run st)"])
  show "same_plan r (bu_run st)" by (rule assms)
next
  fix p and st' :: buy_state
  assume "p \<in> set (r_target_mv (bu_run st))" "same_plan r (bu_run st')"
  with assms show "run_grows olog e a r (buy_step e a reason (buy_needed_symbols (bu_run st)) p st')"
    by (intro buy_step_grows [OF env]) (auto simp: same_plan_fields)
qed (auto dest: buy_step_plan)


section \<open>The whole function\<close>

lemma quiet_options:
  assumes "\<not> has_executable_option_plan options"
  shows "is_quiet olog (execute_option_order_intents submit ql tr dry account options st)"
proof -
  have "is_quiet olog (io_fold (option_step submit ql tr dry account) options s)" for s
    by (rule quiet.keeps_fold_inv [where I = "\<lambda>_. True"])
      (use assms in \<open>auto simp: option_step_def has_executable_option_plan_def intro: quiet_rules\<close>)
  then show ?thesis
    unfolding execute_option_order_intents_def by (intro quiet_rules)
qed

lemma finish_stage_quiet:
  "\<not> has_executable_option_plan (r_options (bu_run st)) \<Longrightarrow> is_quiet olog (finish_stage e a st)"
  unfolding finish_stage_def Let_def by (intro quiet_rules quiet_options) auto

lemma buy_loop_plan:
  assumes "buy_loop e a reason st w = (Inr st', w')" and "same_plan r (bu_run st)"
  shows "same_plan r (bu_run st')"
  using assms(1) unfolding buy_loop_def
  by (rule io_fold_rule [where P = "\<lambda>_ st _. same_plan r (bu_run st)"])
    (use assms(2) in \<open>auto dest: buy_step_plan [where r = r]\<close>)

lemma buy_stage_grows:
  assumes env: "confined olog e" and plan: "same_plan r (sl_run st)"
    and no_options: "\<not> has_executable_option_plan (r_options r)"
  shows "run_grows olog e a r (buy_stage e a st)"
  unfolding buy_stage_def
proof (rule growing.keeps_bind [OF budget_stage_grows [OF env]])
  fix b w w1
  assume "budget_stage e a st w = (Inr b, w1)"
  then have pb: "same_plan r (bu_run b)" by (rule budget_stage_plan [OF _ plan])
  show "run_grows olog e a r (io_bind (block_stage e a (fromkeys (sl_pending_release st)) b)
          (\<lambda>(reason, b1). io_bind (buy_loop e a reason b1) (finish_stage e a)))"
  proof (rule growing.keeps_bind [OF block_stage_grows [OF env]])
    fix p w w1
    assume blk: "block_stage e a (fromkeys (sl_pending_release st)) b w = (Inr p, w1)"
    obtain reason b1 where p: "p = (reason, b1)" by (cases p)
    have pb1: "same_plan r (bu_run b1)" by (rule block_stage_plan [OF _ pb]) (use blk p in simp)
    have free: "buy_needed_symbols r = []" if "reason = None" "r_new_risk_blocked r"
      using block_stage_new_risk [of e a _ b w b1 w1] blk p that pb
      by (simp add: same_plan_fields needed_same_plan)
    have loop: "run_grows olog e a r (buy_loop e a reason b1)"
      by (rule buy_loop_grows [OF env pb1]) (rule free)
    have "run_grows olog e a r (io_bind (buy_loop e a reason b1) (finish_stage e a))"
    proof (rule growing.keeps_bind [OF loop])
      fix st' w w'
      assume "buy_loop e a reason b1 w = (Inr st', w')"
      from buy_loop_plan [OF this pb1] no_options
      show "run_grows olog e a r (finish_stage e a st')"
        by (intro quiet_grows finish_stage_quiet) (simp add: same_plan_fields)
    qed
    then show "run_grows olog e a r (case p of (reason, b1) \<Rightarrow> io_bind (buy_loop e a reason b1) (finish_stage e a))"
      by (simp add: p)
  qed
qed

lemma trade_stage_grows:
  assumes env: "confined olog e" and "\<not> has_executable_option_plan (r_options r)"
  shows "run_grows olog e a r (trade_stage e a r)"
  unfolding trade_stage_def
proof (rule growing.keeps_bind [OF sell_loop_grows [OF env]])
  fix st w w'
  assume "sell_loop e a r w = (Inr st, w')"
  from sell_loop_plan [OF this] assms
  show "run_grows olog e a r (if sl_halted st then io_return (Stop (sl_run st)) else buy_stage e a st)"
    by (intro growing_rules buy_stage_grows)
qed

text \<open>The options of the run are those of the arguments, which hold no executable intent.\<close>

lemma stage_bind_GoE:
  assumes "stage_bind m f w = (Inr (Go r), w')"
  obtains r0 w1 where "m w = (Inr (Go r0), w1)" "f r0 w1 = (Inr (Go r), w')"
  using assms by (auto simp: stage_bind_def elim!: io_bind_InrE split: stage.split_asm)

lemma options_upd_summary [simp]: "r_options (upd_summary f r) = r_options r"
  by (simp add: upd_summary_def)

lemma options_note_safe_haven [simp]: "r_options (note_safe_haven r) = r_options r"
  by (simp add: note_safe_haven_def Let_def)

lemma options_reserve [simp]: "r_options (reserve_stage e a r) = r_options r"
  by (simp add: reserve_stage_def Let_def case_prod_beta)

lemma start_options: "start_stage e a w = (Inr (Go r), w') \<Longrightarrow> \<not> has_executable_option_plan (r_options r)"
  by (auto simp: start_stage_def bind_arguments_def empty_run_def Let_def elim!: io_bind_InrE res_bind_InrE split: if_split_asm)

lemma gate_options: "gate_stage e a r w = (Inr (Go r'), w') \<Longrightarrow> r_options r' = r_options r"
  by (auto simp: gate_stage_def gate_admission_def elim!: io_bind_InrE split: if_split_asm option.split_asm)

lemma price_options: "price_stage e a r w = (Inr (Go r'), w') \<Longrightarrow> r_options r' = r_options r"
  by (auto simp: price_stage_def Let_def elim!: io_bind_InrE split: prod.split_asm)

lemma target_options: "target_stage e a r w = (Inr (Go r'), w') \<Longrightarrow> r_options r' = r_options r"
  by (auto simp: target_stage_def Let_def elim!: io_bind_InrE)

lemma stop_blocked_Go [simp]: "stop_blocked reason line r w \<noteq> (Inr (Go r'), w')"
  by (simp add: stop_blocked_def)

lemma admission_options: "admission_stage e a r w = (Inr (Go r'), w') \<Longrightarrow> r_options r' = r_options r"
  by (auto simp: admission_stage_def Let_def elim!: io_bind_InrE split: if_split_asm)

lemma pending_options: "pending_stage e a r w = (Inr (Go r'), w') \<Longrightarrow> r_options r' = r_options r"
  by (auto simp: pending_stage_def split: prod.split_asm sum.split_asm if_split_asm)

lemma settled_options: "settled_stage e a r w = (Inr (Go r'), w') \<Longrightarrow> r_options r' = r_options r"
  by (auto simp: settled_stage_def elim!: io_bind_InrE split: if_split_asm option.split_asm)

lemma plan_stage_options: "plan_stage e a r w = (Inr (Go r'), w') \<Longrightarrow> r_options r' = r_options r"
  by (auto simp: plan_stage_def report_stage_def anticipated_stage_def unproven_stop_def Let_def
      elim!: io_bind_InrE res_bind_InrE split: if_split_asm prod.split_asm)

lemma plan_options:
  "plan_rebalance e a w = (Inr (Go r), w') \<Longrightarrow> \<not> has_executable_option_plan (r_options r)"
  unfolding plan_rebalance_def
  by (elim stage_bind_GoE)
    (simp add: plan_stage_options settled_options pending_options admission_options target_options price_options
      gate_options start_options)

lemma fills_plan: "fills_stage e a r w = (Inr (Go r'), w') \<Longrightarrow> r' = r"
  by (auto simp: fills_stage_def elim!: io_bind_InrE split: if_split_asm)

lemma lock_plan: "lock_stage e a r w = (Inr (Go r'), w') \<Longrightarrow> same_plan r r'"
  by (auto simp: lock_stage_def Let_def plan_simps same_plan_refl elim!: io_bind_InrE split: if_split_asm)

lemma permitted_same_plan: "same_plan r r' \<Longrightarrow> permitted e a r' i = permitted e a r i"
  by (cases "oi_limit_price i"; cases "dict_get (r_caps r) (oi_symbol i)")
    (simp_all add: permitted_def permitted_sale_def permitted_buy_def same_plan_fields)

text \<open>Nothing is submitted before the lock is taken, and after that only what the plan permits.\<close>

lemma stage_bind_log:
  assumes "is_quiet olog m"
    and "\<And>r w1. m w = (Inr (Go r), w1) \<Longrightarrow> Q (olog w1) (olog (snd (f r w1)))"
    and "\<And>os. Q os os"
  shows "Q (olog w) (olog (snd (stage_bind m f w)))"
proof -
  obtain x w1 where x: "m w = (x, w1)" by (cases "m w")
  with quiet_same [OF assms(1), of w] have "olog w1 = olog w" by simp
  with x assms(2,3) show ?thesis
    by (cases x) (auto simp: stage_bind_def io_bind_def split: stage.split)
qed

definition planned_orders ::
    "'w env \<Rightarrow> args \<Rightarrow> 'w \<Rightarrow> order_intent list \<Rightarrow> order_intent list \<Rightarrow> bool" where
  "planned_orders e a w before after \<longleftrightarrow>
     after = before \<or> (\<exists>r w1 new. plan_rebalance e a w = (Inr (Go r), w1) \<and> after = before @ new
        \<and> list_all (permitted e a r) new)"

lemma execute_orders:
  assumes env: "confined olog e"
  shows "planned_orders e a w (olog w) (olog (snd (execute_rebalance e a w)))"
proof -
  note reads = env_reads [OF env]
  have out: "olog (snd (execute_rebalance e a w)) = olog (snd (stage_bind (plan_rebalance e a) (\<lambda>r0.
      stage_bind (fills_stage e a r0) (\<lambda>r1. stage_bind (lock_stage e a r1) (trade_stage e a))) w))"
    by (auto simp: execute_rebalance_def io_bind_def split: prod.split sum.split stage.split)
  show ?thesis
    unfolding out
  proof (rule stage_bind_log [where Q = "planned_orders e a w", OF quiet_plan [OF reads]],
      rule stage_bind_log [where Q = "planned_orders e a w", OF quiet_fills [OF reads]],
      rule stage_bind_log [where Q = "planned_orders e a w", OF quiet_lock [OF reads]])
    fix r0 w1 r1 w2 r2 w3
    assume r: "plan_rebalance e a w = (Inr (Go r0), w1)" "fills_stage e a r0 w1 = (Inr (Go r1), w2)"
      "lock_stage e a r1 w2 = (Inr (Go r2), w3)"
    have same: "same_plan r0 r2" using lock_plan [OF r(3)] fills_plan [OF r(2)] by simp
    have "\<not> has_executable_option_plan (r_options r2)"
      using plan_options [OF r(1)] by (simp add: same_plan_fields [OF same])
    from trade_stage_grows [OF env this, of a]
    have "log_grows olog (permitted e a r2) w3 (snd (trade_stage e a r2 w3))" by (simp add: io_keeps_def)
    then obtain new where "olog (snd (trade_stage e a r2 w3)) = olog w3 @ new" "list_all (permitted e a r2) new"
      by (auto simp: log_grows_def)
    moreover have "permitted e a r2 = permitted e a r0" by (rule ext) (rule permitted_same_plan [OF same])
    ultimately show "planned_orders e a w (olog w3) (olog (snd (trade_stage e a r2 w3)))"
      using r(1) unfolding planned_orders_def by auto
  qed (simp_all add: planned_orders_def)
qed

text \<open>
  C20.  Every order of a run was planned and approved: whatever the broker, the clock and the
  files do, the intents \<open>execute_rebalance\<close> hands to the submitter - also in a run that raises
  half way - come after a plan \<open>r\<close> that went through, carry its account, and are either sales
  of strategy symbols within the held quantity (proven risk-reducing when new risk is
  prohibited) or, only when new risk is not prohibited, day limit purchases whose cost fits the
  approved cap.
\<close>

theorem orders_within_plan:
  assumes "confined olog e"
  shows "olog (snd (execute_rebalance e a w)) = olog w
    \<or> (\<exists>r w1 new. plan_rebalance e a w = (Inr (Go r), w1)
        \<and> olog (snd (execute_rebalance e a w)) = olog w @ new \<and> list_all (permitted e a r) new)"
  using execute_orders [OF assms, of a w] by (simp add: planned_orders_def)

lemma rehearsal_confined: "confined fst rehearsal_env"
proof -
  have "submits_at_most fst rehearsal_env"
    by (simp add: submits_at_most_def logs_at_most_def rehearsal_env_def)
  with rehearsal_quiet show ?thesis by (simp add: confined_def)
qed

theorem orders_within_plan_witness:
  "\<exists>r new. fst (snd (execute_rebalance rehearsal_env rehearsal_args ([], []))) = new
     \<and> list_all (permitted rehearsal_env rehearsal_args r) new"
  using orders_within_plan [OF rehearsal_confined, of rehearsal_args "([], [])"]
  by (elim disjE exE conjE) (simp_all add: exI [where P = "\<lambda>r. list_all (P r) []" for P], blast?)

text \<open>
  C21.  A dry run never trades: with the dry-run flag no intent reaches the submitter, in
  planning, selling, buying or option execution, and also when the run raises.
\<close>

theorem dry_run_never_submits:
  assumes "confined olog e" and "a_dry_run a"
  shows "olog (snd (execute_rebalance e a w)) = olog w"
  using execute_orders [OF assms(1), of a w] assms(2)
  by (fastforce simp: planned_orders_def permitted_def list_all_iff)

theorem dry_run_never_submits_witness:
  "fst (snd (execute_rebalance rehearsal_env (rehearsal_args\<lparr>a_dry_run := True\<rparr>) ([], []))) = []"
  using dry_run_never_submits [OF rehearsal_confined, of "rehearsal_args\<lparr>a_dry_run := True\<rparr>" "([], [])"] by simp

section \<open>The daily lock\<close>

text \<open>
  C22.  One run per strategy, account group, service, mode and day: when the lock file of the
  run's scope is there, the lock stage never goes on to trading, and it leaves the file as it
  was; when it goes on, the file was not there before and is there afterwards, holding this
  run's target hash.  It stops only because the file is there.  It raises, which does not trade
  either, when the file is there and cannot be read as JSON, or when the disk fails; and only a
  failure of writing the new file can leave something in its place, which the next run finds.
\<close>

definition run_lock :: "'w env \<Rightarrow> args \<Rightarrow> run \<Rightarrow> string" where
  "run_lock e a r = resolve_execution_lock_path (e_tempdir e) (scope_of a r) (a_lock_dir a)"


definition rehearsal_run :: run where
  "rehearsal_run = (let b = projr (bind_arguments rehearsal_env rehearsal_args) in
     empty_run b (initial_summary rehearsal_args b (Fin 10000)) (Fin 10000))"


end
