(* ===== verification/RebalanceOutcome.thy ===== *)
theory RebalanceOutcome
  imports RebalanceSafety
begin

text \<open>
  What the final report of a run says: \<open>executed\<close> only with evidence in the order lists and
  nothing pending, an unknown broker outcome always left for reconciliation, and a deferral of
  the buys reported symbol by symbol.
\<close>

section \<open>Status and outcome through the stages\<close>

text \<open>No unknown outcome yet, and not declared executed.\<close>

definition unsettled :: "exec_summary \<Rightarrow> bool" where
  "unsettled s \<longleftrightarrow> outcome_unknown s = None \<and> execution_status s \<noteq> ''executed''"

definition halted_ok :: "bool \<Rightarrow> exec_summary \<Rightarrow> bool" where
  "halted_ok halted s \<longleftrightarrow> (if halted then execution_status s = ''pending_reconciliation'' else unsettled s)"

named_theorems outcome_simps "status and unknown outcome through the operations"

lemma unsettled_simps [outcome_simps]:
  "unsettled (upd_buckets opt f s) = unsettled s" "unsettled (add_reason x s) = unsettled s"
  "unsettled (add_skipped rows s) = unsettled s"
  by (simp_all add: unsettled_def upd_buckets_def add_reason_def add_skipped_def)

lemma status_add_reason [outcome_simps]: "execution_status (add_reason x s) = execution_status s"
  by (simp add: add_reason_def)

lemma unsettled_fields [outcome_simps]:
  "unsettled (s\<lparr>no_op_reason := a\<rparr>) = unsettled s" "unsettled (s\<lparr>lock_path := b\<rparr>) = unsettled s"
  "unsettled (s\<lparr>settled_cash_ledger_status := c\<rparr>) = unsettled s"
  "unsettled (s\<lparr>projected_sell_release_value := d\<rparr>) = unsettled s"
  "unsettled (s\<lparr>pending_sell_release_symbols := f\<rparr>) = unsettled s"
  "unsettled (s\<lparr>small_account_buy_blocked := g\<rparr>) = unsettled s"
  "unsettled (s\<lparr>small_account_buy_block_reason := h\<rparr>) = unsettled s"
  "unsettled (s\<lparr>account_new_risk_buy_blocked := i\<rparr>) = unsettled s"
  "unsettled (s\<lparr>account_new_risk_block_reason := j\<rparr>) = unsettled s"
  "unsettled (s\<lparr>account_new_risk_reason_codes := k\<rparr>) = unsettled s"
  "unsettled (s\<lparr>cash_only_deleverage_mode := l\<rparr>) = unsettled s"
  "unsettled (s\<lparr>persistent_breaker_status := m\<rparr>) = unsettled s"
  "unsettled (s\<lparr>realized_safe_haven_weight := n\<rparr>) = unsettled s"
  "unsettled (s\<lparr>safe_haven_cash_substituted_symbols := p\<rparr>) = unsettled s"
  "unsettled (s\<lparr>cash_reserve_dollars := q\<rparr>) = unsettled s"
  "unsettled (s\<lparr>price_fallback_symbols := t\<rparr>) = unsettled s"
  "unsettled (s\<lparr>price_fallback_source := u\<rparr>) = unsettled s"
  "unsettled (s\<lparr>quote_rows := v\<rparr>) = unsettled s"
  "unsettled (s\<lparr>price_source_mode := x\<rparr>) = unsettled s"
  by (simp_all add: unsettled_def)

lemma unsettled_more [outcome_simps]:
  "unsettled (s\<lparr>target_vs_current := a\<rparr>) = unsettled s"
  "unsettled (s\<lparr>small_account_whole_share_substituted_symbols := b\<rparr>) = unsettled s"
  "unsettled (s\<lparr>small_account_safe_haven_cash_substituted_symbols := c\<rparr>) = unsettled s"
  "unsettled (s\<lparr>small_account_whole_share_cash_notes := d\<rparr>) = unsettled s"
  "unsettled (s\<lparr>small_account_allocation_drift_notes := f\<rparr>) = unsettled s"
  "unsettled (s\<lparr>paper_execution_admission := g\<rparr>) = unsettled s"
  "unsettled (s\<lparr>current_safe_haven_weight := h\<rparr>) = unsettled s"
  "unsettled (s\<lparr>current_stock_weight := i\<rparr>) = unsettled s"
  "unsettled (s\<lparr>pending_order_cash_risk_unknown := j\<rparr>) = unsettled s"
  "unsettled (s\<lparr>execution_status := x\<rparr>) \<longleftrightarrow> outcome_unknown s = None \<and> x \<noteq> ''executed''"
  by (simp_all add: unsettled_def)

lemma unsettled_unknown: "unsettled s \<Longrightarrow> outcome_unknown s = None"
  by (simp add: unsettled_def)

lemma unsettled_blocked [outcome_simps]: "unsettled s \<Longrightarrow> unsettled (blocked reason s)"
  by (simp add: blocked_def outcome_simps unsettled_unknown)

lemma summary_of_log [outcome_simps]: "r_summary (log line r) = r_summary r"
  by (simp add: log_def)

lemma summary_of_upd [outcome_simps]: "r_summary (upd_summary f r) = f (r_summary r)"
  by (simp add: upd_summary_def)

lemma recorded_outcome:
  assumes "record_order_outcome opt st payload s = (out, s')" and "unsettled s"
  shows "halted_ok (out = OutUnknown) s'"
  using assms
  by (auto simp: record_order_outcome_def halted_ok_def Let_def outcome_simps split: if_split_asm)

section \<open>The stages of planning\<close>

fun stage_run :: "stage \<Rightarrow> run" where
  "stage_run (Stop r) = r"
| "stage_run (Go r) = r"

abbreviation stage_unsettled :: "stage \<Rightarrow> bool" where
  "stage_unsettled s \<equiv> unsettled (r_summary (stage_run s))"

lemma stage_bind_unsettled:
  assumes "stage_bind m f w = (Inr s, w')"
    and "\<And>s1 w1. m w = (Inr s1, w1) \<Longrightarrow> stage_unsettled s1"
    and "\<And>r w1 w2 s2. unsettled (r_summary r) \<Longrightarrow> f r w1 = (Inr s2, w2) \<Longrightarrow> stage_unsettled s2"
  shows "stage_unsettled s"
  using assms by (force simp: stage_bind_def elim!: io_bind_InrE split: stage.split_asm)

lemma start_unsettled: "start_stage e a w = (Inr s, w') \<Longrightarrow> stage_unsettled s"
  by (auto simp: start_stage_def empty_run_def initial_summary_def Let_def unsettled_def log_def
      elim!: io_bind_InrE split: if_split_asm)

lemma gate_unsettled:
  "unsettled (r_summary r) \<Longrightarrow> gate_stage e a r w = (Inr s, w') \<Longrightarrow> stage_unsettled s"
  by (auto simp: gate_stage_def gate_admission_def outcome_simps elim!: io_bind_InrE split: if_split_asm option.split_asm)

lemma note_unsettled [outcome_simps]: "unsettled (r_summary (note_safe_haven r)) = unsettled (r_summary r)"
  by (simp add: note_safe_haven_def Let_def outcome_simps)

lemma reserve_unsettled: "unsettled (r_summary r) \<Longrightarrow> unsettled (r_summary (reserve_stage e a r))"
  by (simp add: reserve_stage_def Let_def case_prod_beta outcome_simps)

lemma price_unsettled:
  "unsettled (r_summary r) \<Longrightarrow> price_stage e a r w = (Inr s, w') \<Longrightarrow> stage_unsettled s"
  by (auto simp: price_stage_def Let_def outcome_simps elim!: io_bind_InrE split: prod.split_asm)

lemma target_unsettled:
  "unsettled (r_summary r) \<Longrightarrow> target_stage e a r w = (Inr s, w') \<Longrightarrow> stage_unsettled s"
  by (auto simp: target_stage_def Let_def outcome_simps elim!: io_bind_InrE)

lemma stop_unsettled: "unsettled (r_summary r) \<Longrightarrow> stop_blocked x l r w = (Inr s, w') \<Longrightarrow> stage_unsettled s"
  by (auto simp: stop_blocked_def outcome_simps)

lemma admission_unsettled:
  "unsettled (r_summary r) \<Longrightarrow> admission_stage e a r w = (Inr s, w') \<Longrightarrow> stage_unsettled s"
  by (auto simp: admission_stage_def current_weights_def stop_blocked_def Let_def outcome_simps
      elim!: io_bind_InrE res_bind_InrE split: if_split_asm)

lemma pending_unsettled:
  "unsettled (r_summary r) \<Longrightarrow> pending_stage e a r w = (Inr s, w') \<Longrightarrow> stage_unsettled s"
  by (auto simp: pending_stage_def stop_blocked_def outcome_simps split: prod.split_asm sum.split_asm if_split_asm)

lemma settled_unsettled:
  "unsettled (r_summary r) \<Longrightarrow> settled_stage e a r w = (Inr s, w') \<Longrightarrow> stage_unsettled s"
  by (auto simp: settled_stage_def outcome_simps elim!: io_bind_InrE split: if_split_asm option.split_asm)

lemma drift_unsettled:
  "append_drift_notes e a r = Inr r' \<Longrightarrow> unsettled (r_summary r') = unsettled (r_summary r)"
  by (auto simp: append_drift_notes_def Let_def outcome_simps elim!: res_bind_InrE split: if_split_asm)

lemma unsupported_step_unsettled: "unsupported_step i s = Inr s' \<Longrightarrow> unsettled s' = unsettled s"
  by (auto simp: unsupported_step_def outcome_simps elim!: res_bind_InrE split: if_split_asm)

lemma unsupported_unsettled:
  "record_unsupported_option_intents is s = Inr s' \<Longrightarrow> unsettled s' = unsettled s"
  unfolding record_unsupported_option_intents_def
  by (induction "is" arbitrary: s) (auto dest!: unsupported_step_unsettled elim!: res_bind_InrE)

lemma no_op_unsettled:
  assumes "no_op_stop e a r sc = Inr r'" and "unsettled (r_summary r)"
  shows "unsettled (r_summary r')"
proof -
  obtain reason is_blocked where n: "no_op_reason_of sc = (reason, is_blocked)" by fastforce
  define s1 where "s1 = (if sc_missing sc = [] then r_summary r else add_skipped
      (List.map (\<lambda>x. [(''symbol'', VStr x), (''reason'', VStr ''missing_price'')]) (sorted_symbols (sc_missing sc))) (r_summary r))"
  have "unsettled s1" using assms(2) by (simp add: s1_def outcome_simps)
  moreover obtain s2 where s2: "record_unsupported_option_intents (r_options r) s1 = Inr s2"
    using assms(1) by (auto simp: no_op_stop_def n s1_def Let_def elim!: res_bind_InrE)
  ultimately have "unsettled s2" by (simp add: unsupported_unsettled)
  then show ?thesis
    using assms(1) s2
    by (auto simp: no_op_stop_def n s1_def [symmetric] Let_def outcome_simps unsettled_unknown
        dest!: drift_unsettled split: if_split_asm)
qed

lemma report_summary: "report_stage e a r = Inr r' \<Longrightarrow> r_summary r' = r_summary r"
  by (auto simp: report_stage_def Let_def elim!: res_bind_InrE)

lemma anticipated_summary: "anticipated_stage e a r w = (Inr r', w') \<Longrightarrow> r_summary r' = r_summary r"
  by (auto simp: anticipated_stage_def elim!: io_bind_InrE)

lemma unproven_unsettled: "unsettled (r_summary r) \<Longrightarrow> unproven_stop e r w = (Inr s, w') \<Longrightarrow> stage_unsettled s"
  unfolding unproven_stop_def by (erule stop_unsettled [rotated]) (simp add: outcome_simps)

lemma plan_stage_unsettled:
  assumes "unsettled (r_summary r)" and "plan_stage e a r w = (Inr s, w')"
  shows "stage_unsettled s"
proof -
  from assms(2) obtain r1 r2 w1 has_sell sc1 sweep has_buy sc where 1:
    "report_stage e a r = Inr r1" "anticipated_stage e a r1 w = (Inr r2, w1)"
    "(if has_buy \<and> \<not> a_dry_run a \<and> ''PERSISTENT_BREAKER_UNAVAILABLE'' \<in> set (r_reason_codes (r2\<lparr>r_cash_sweep_quantity := sweep\<rparr>))
      then io_raise breaker_unavailable_error
      else if (r_pending_risk_unknown (r2\<lparr>r_cash_sweep_quantity := sweep\<rparr>) \<or> r_settled_unverified (r2\<lparr>r_cash_sweep_quantity := sweep\<rparr>))
              \<and> any_buy_wanted (r2\<lparr>r_cash_sweep_quantity := sweep\<rparr>) \<and> \<not> (has_sell \<or> 0 < sweep)
           then unproven_stop e (r2\<lparr>r_cash_sweep_quantity := sweep\<rparr>)
      else if \<not> (has_sell \<or> 0 < sweep) \<and> \<not> has_buy
           then io_bind (io_lift (no_op_stop e a (r2\<lparr>r_cash_sweep_quantity := sweep\<rparr>) sc)) (\<lambda>r3. io_return (Stop r3))
      else io_return (Go (r2\<lparr>r_cash_sweep_quantity := sweep\<rparr>))) w1 = (Inr s, w')"
    unfolding plan_stage_def Let_def by (elim io_bind_InrE) (auto split: prod.split_asm elim!: io_bind_InrE)
  define r3 where "r3 = r2\<lparr>r_cash_sweep_quantity := sweep\<rparr>"
  have u: "unsettled (r_summary r3)"
    using assms(1) report_summary [OF 1(1)] anticipated_summary [OF 1(2)] by (simp add: r3_def)
  from 1(3) [folded r3_def] consider "unproven_stop e r3 w1 = (Inr s, w')"
    | (no_op) r4 where "no_op_stop e a r3 sc = Inr r4" "s = Stop r4" | "s = Go r3"
    by (auto split: if_split_asm elim!: io_bind_InrE)
  then show ?thesis
  proof cases
    case no_op
    with no_op_unsettled [OF no_op(1) u] show ?thesis by simp
  qed (use u unproven_unsettled [OF u] in auto)
qed


section \<open>The stages of trading\<close>

lemma plan_unsettled: "plan_rebalance e a w = (Inr s, w') \<Longrightarrow> stage_unsettled s"
  unfolding plan_rebalance_def
  by (elim stage_bind_unsettled; (elim start_unsettled)?)
    (rule gate_unsettled price_unsettled target_unsettled admission_unsettled pending_unsettled settled_unsettled
      plan_stage_unsettled; (assumption | rule reserve_unsettled)+)+

lemma fills_unsettled:
  "unsettled (r_summary r) \<Longrightarrow> fills_stage e a r w = (Inr s, w') \<Longrightarrow> stage_unsettled s"
  by (auto simp: fills_stage_def stop_blocked_def outcome_simps elim!: io_bind_InrE split: if_split_asm)

lemma lock_unsettled:
  "unsettled (r_summary r) \<Longrightarrow> lock_stage e a r w = (Inr s, w') \<Longrightarrow> stage_unsettled s"
  by (auto simp: lock_stage_def Let_def stop_blocked_def outcome_simps unsettled_unknown
      elim!: io_bind_InrE split: if_split_asm)

definition sell_settles :: "sell_state \<Rightarrow> bool" where
  "sell_settles st = halted_ok (sl_halted st) (r_summary (sl_run st))"

definition buy_settles :: "buy_state \<Rightarrow> bool" where
  "buy_settles st = halted_ok (bu_halted st) (r_summary (bu_run st))"

lemma record_sale_settles:
  assumes "record_sale e s qv q price rep st = Inr st'" and "unsettled (r_summary (sl_run st))" and "\<not> sl_halted st"
  shows "sell_settles st'"
  using assms
  by (auto simp: record_sale_def sell_settles_def Let_def outcome_simps dest!: recorded_outcome
      elim!: res_bind_InrE split: prod.split_asm if_split_asm)

lemma sell_step_settles:
  assumes "sell_step e a s st w = (Inr st', w')" and "sell_settles st"
  shows "sell_settles st'"
proof (cases "sl_halted st")
  case False
  then have u: "unsettled (r_summary (sl_run st))" using assms(2) by (simp add: sell_settles_def halted_ok_def)
  have order: "sell_settles st'" if "sell_order e a s qv q price st w1 = (Inr st', w')" for qv q price w1
    using that u False
    by (auto simp: sell_order_def sell_settles_def halted_ok_def Let_def sell_skip_def outcome_simps
        elim!: io_bind_InrE split: if_split_asm dest!: record_sale_settles)
  have calm: "sell_settles (sell_skip s why st2)" "sell_settles (missing_price_skip s st2)"
    if "unsettled (r_summary (sl_run st2))" "\<not> sl_halted st2" for why st2
    using that by (simp_all add: sell_settles_def halted_ok_def missing_price_skip_def sell_skip_def Let_def outcome_simps)
  show ?thesis
    using assms False u
    by (auto simp: sell_step_def elim!: io_bind_InrE split: sell_choice.split_asm if_split_asm intro!: calm dest: order)
qed (use assms in \<open>simp add: sell_step_def\<close>)

lemma sell_loop_settles:
  assumes "sell_loop e a r w = (Inr st, w')" and "unsettled (r_summary r)"
  shows "sell_settles st"
  using assms(1) unfolding sell_loop_def
  by (rule io_fold_rule [where P = "\<lambda>_ st _. sell_settles st"])
    (use assms(2) in \<open>auto simp: sell_settles_def halted_ok_def dest: sell_step_settles\<close>)

lemma budget_settles:
  assumes "budget_stage e a st w = (Inr b, w')" and "unsettled (r_summary (sl_run st))"
  shows "buy_settles b"
  using assms
  by (auto simp: budget_stage_def buy_settles_def halted_ok_def mark_unknown_def Let_def outcome_simps
      elim!: io_bind_InrE split: if_split_asm)

lemma first_blocks_unsettled:
  "first_blocks e a release x r = Inr (reason, r') \<Longrightarrow> unsettled (r_summary r') = unsettled (r_summary r)"
  by (auto simp: first_blocks_def block_small_account_def block_new_risk_def block_pending_release_def Let_def
      outcome_simps elim!: res_bind_InrE split: if_split_asm)

lemma negative_cash_unsettled:
  "negative_cash_block e a r w = (Inr (reason, r'), w') \<Longrightarrow> unsettled (r_summary r') = unsettled (r_summary r)"
  by (auto simp: negative_cash_block_def Let_def outcome_simps elim!: io_bind_InrE split: option.split_asm if_split_asm)

lemma block_settles:
  assumes "block_stage e a release st w = (Inr (reason, st'), w')" and "buy_settles st" and "\<not> bu_halted st"
  shows "buy_settles st' \<and> \<not> bu_halted st'"
  using assms
  by (auto simp: block_stage_def buy_settles_def halted_ok_def elim!: io_bind_InrE split: if_split_asm
      dest!: first_blocks_unsettled negative_cash_unsettled)

lemma record_buy_settles:
  assumes "record_buy e s q lp rep st = Inr st'" and "unsettled (r_summary (bu_run st))" and "\<not> bu_halted st"
  shows "buy_settles st'"
  using assms
  by (auto simp: record_buy_def buy_settles_def Let_def outcome_simps dest!: recorded_outcome
      elim!: res_bind_InrE split: prod.split_asm if_split_asm)

definition calm :: "buy_state \<Rightarrow> bool" where
  "calm st \<longleftrightarrow> unsettled (r_summary (bu_run st)) \<and> \<not> bu_halted st"

lemma calm_settles: "calm st \<Longrightarrow> buy_settles st"
  by (simp add: calm_def buy_settles_def halted_ok_def)

lemma calm_skips:
  "calm (buy_skip s why st) = calm st" "calm (buy_skip_noted s why st) = calm st"
  "calm (st\<lparr>bu_run := mark_unknown (bu_run st)\<rparr>) = calm st" "calm (st\<lparr>bu_investable := x\<rparr>) = calm st"
  "calm (dry_buy e s q lp st) = calm st"
  "calm (st\<lparr>bu_investable := x, bu_run := mark_unknown (bu_run st)\<rparr>) = calm st"
  by (simp_all add: calm_def buy_skip_def buy_skip_noted_def mark_unknown_def dry_buy_def Let_def outcome_simps)

lemma settle_skips:
  assumes "calm st"
  shows "buy_settles (buy_skip s why st)" "buy_settles (buy_skip_noted s why st)"
    "buy_settles (buy_skip_noted s why (st\<lparr>bu_run := mark_unknown (bu_run st)\<rparr>))" "buy_settles (dry_buy e s q lp st)"
  using assms by (simp_all add: calm_settles calm_skips)

lemma submit_buy_settles:
  assumes "submit_buy e a started s q lp st w = (Inr st', w')" and "calm st"
  shows "buy_settles st'"
  using assms
  by (auto simp: submit_buy_def Let_def calm_def elim!: io_bind_InrE split: if_split_asm prod.split_asm
      dest!: record_buy_settles)

lemma try_buy_settles:
  assumes "try_buy e a started s t st w = (Inr st', w')" and "calm st"
  shows "buy_settles st'"
  using assms
  by (auto simp: try_buy_def place_buy_def elim!: io_bind_InrE
      split: buy_choice.split_asm if_split_asm option.split_asm intro!: settle_skips dest!: submit_buy_settles)

lemma refresh_calm:
  "refresh_budget e a s st w = (Inr (go, st1), w') \<Longrightarrow> calm st
   \<Longrightarrow> calm st1 \<and> (\<forall>x st2. go = Some (x, st2) \<longrightarrow> calm st2)"
  by (auto simp: refresh_budget_def Let_def calm_skips elim!: io_bind_InrE split: option.split_asm if_split_asm)

lemma buy_step_settles:
  assumes "buy_step e a reason needed p st w = (Inr st', w')" and "buy_settles st"
  shows "buy_settles st'"
proof (cases "bu_halted st")
  case False
  then have "calm st" using assms(2) by (simp add: calm_def buy_settles_def halted_ok_def)
  with assms False show ?thesis
    by (auto simp: buy_step_def elim!: io_bind_InrE split: prod.split_asm option.split_asm if_split_asm
        intro: calm_settles settle_skips dest: try_buy_settles dest!: refresh_calm)
qed (use assms in \<open>auto simp: buy_step_def split: prod.split_asm\<close>)

lemma buy_loop_settles:
  assumes "buy_loop e a reason st w = (Inr st', w')" and "buy_settles st"
  shows "buy_settles st'"
  using assms(1) unfolding buy_loop_def
  by (rule io_fold_rule [where P = "\<lambda>_ st _. buy_settles st"]) (use assms(2) in \<open>auto dest: buy_step_settles\<close>)

section \<open>The report\<close>

text \<open>What the final status may claim.\<close>

definition evidenced :: "exec_summary \<Rightarrow> bool" where
  "evidenced s \<longleftrightarrow>
     (execution_status s = ''executed'' \<longrightarrow> has_terminal_order s \<and> \<not> has_pending_order s)
     \<and> (outcome_unknown s \<noteq> None \<longrightarrow> execution_status s = ''pending_reconciliation'')"

lemma unsettled_evidenced: "unsettled s \<Longrightarrow> evidenced s"
  by (simp add: unsettled_def evidenced_def)

lemma halted_evidenced: "halted_ok h s \<Longrightarrow> evidenced s"
  by (auto simp: halted_ok_def evidenced_def unsettled_def split: if_split_asm)

lemma evidenced_notes: "evidenced (s\<lparr>small_account_allocation_drift_notes := x\<rparr>) = evidenced s"
  by (simp add: evidenced_def has_terminal_order_def has_pending_order_def)

lemma drift_evidenced: "append_drift_notes e a r = Inr r' \<Longrightarrow> evidenced (r_summary r') = evidenced (r_summary r)"
  by (auto simp: append_drift_notes_def Let_def evidenced_notes outcome_simps elim!: res_bind_InrE split: if_split_asm)

lemma final_evidenced: "unsettled (r_summary r) \<Longrightarrow> evidenced (r_summary (final_status e r))"
  by (auto simp: final_status_def evidenced_def unsettled_def Let_def outcome_simps has_terminal_order_def
      has_pending_order_def split: option.split)

lemma options_unsettled:
  assumes "execute_option_order_intents submit ql tr dry account options st w = (Inr st', w')"
    and "\<not> has_executable_option_plan options" and "unsettled (os_summary st)"
  shows "unsettled (os_summary st')"
proof (cases "options = []")
  case False
  with assms(1) obtain s where s: "record_unsupported_option_intents options (os_summary st) = Inr s"
    "io_fold (option_step submit ql tr dry account) options (st\<lparr>os_summary := s\<rparr>) w = (Inr st', w')"
    by (auto simp: execute_option_order_intents_def elim!: io_bind_InrE)
  from s(2) show ?thesis
  proof (rule io_fold_rule [where P = "\<lambda>_ t _. unsettled (os_summary t)"])
    show "unsettled (os_summary (st\<lparr>os_summary := s\<rparr>))"
      using unsupported_unsettled [OF s(1)] assms(3) by simp
  qed (use assms(2) in \<open>auto simp: option_step_def has_executable_option_plan_def\<close>)
qed (use assms in \<open>simp add: execute_option_order_intents_def\<close>)

lemma finish_evidenced:
  assumes "finish_stage e a st w = (Inr s, w')" and "buy_settles st"
    and "\<not> has_executable_option_plan (r_options (bu_run st))"
  shows "evidenced (r_summary (stage_run s))"
proof (cases "bu_halted st")
  case True
  with assms show ?thesis by (auto simp: finish_stage_def buy_settles_def dest: halted_evidenced)
next
  case False
  then have u: "unsettled (r_summary (bu_run st))" using assms(2) by (simp add: buy_settles_def halted_ok_def)
  from assms(1) False obtain os w1 r2 where 1:
    "execute_option_order_intents (\<lambda>i. submit_plain e a i None) (e_ql e) (e_tr e) (a_dry_run a)
       (r_order_account (bu_run st)) (r_options (bu_run st))
       \<lparr>os_summary = r_summary (bu_run st), os_logs = r_logs (bu_run st), os_buying_power = bu_buying_power st\<rparr> w = (Inr os, w1)"
    "append_drift_notes e a (upd_summary (\<lambda>s. s\<lparr>residual_cash_estimate := py_max (os_buying_power os) (Fin 0)\<rparr>)
        (final_status e ((bu_run st)\<lparr>r_summary := os_summary os, r_logs := os_logs os\<rparr>))) = Inr r2" "s = Stop r2"
    by (auto simp: finish_stage_def Let_def elim!: io_bind_InrE)
  have "unsettled (os_summary os)" by (rule options_unsettled [OF 1(1) assms(3)]) (simp add: u)
  then have "evidenced (r_summary (final_status e ((bu_run st)\<lparr>r_summary := os_summary os, r_logs := os_logs os\<rparr>)))"
    by (intro final_evidenced) simp
  with drift_evidenced [OF 1(2)] 1(3) show ?thesis
    by (simp add: outcome_simps evidenced_def has_terminal_order_def has_pending_order_def)
qed

lemma trade_evidenced:
  assumes "trade_stage e a r w = (Inr s, w')" and u: "unsettled (r_summary r)"
    and no_options: "\<not> has_executable_option_plan (r_options r)"
  shows "evidenced (r_summary (stage_run s))"
proof -
  obtain st w1 where st: "sell_loop e a r w = (Inr st, w1)"
    "(if sl_halted st then io_return (Stop (sl_run st)) else buy_stage e a st) w1 = (Inr s, w')"
    using assms(1) by (auto simp: trade_stage_def elim!: io_bind_InrE)
  have settles: "sell_settles st" by (rule sell_loop_settles [OF st(1) u])
  show ?thesis
  proof (cases "sl_halted st")
    case True
    with st(2) settles show ?thesis by (auto simp: sell_settles_def dest: halted_evidenced)
  next
    case False
    with settles have us: "unsettled (r_summary (sl_run st))" by (simp add: sell_settles_def halted_ok_def)
    from False st(2) obtain b w2 reason b1 w3 b2 w4 where 1: "budget_stage e a st w1 = (Inr b, w2)"
      "block_stage e a (fromkeys (sl_pending_release st)) b w2 = (Inr (reason, b1), w3)"
      "buy_loop e a reason b1 w3 = (Inr b2, w4)" "finish_stage e a b2 w4 = (Inr s, w')"
      by (auto simp: buy_stage_def elim!: io_bind_InrE split: prod.split_asm)
    have b: "buy_settles b" by (rule budget_settles [OF 1(1) us])
    have "\<not> bu_halted b" using 1(1) by (auto simp: budget_stage_def Let_def elim!: io_bind_InrE split: if_split_asm)
    with block_settles [OF 1(2) b] have "buy_settles b1" by simp
    then have b2: "buy_settles b2" by (rule buy_loop_settles [OF 1(3)])
    have "same_plan r (bu_run b2)"
      by (rule buy_loop_plan [OF 1(3)], rule block_stage_plan [OF 1(2)], rule budget_stage_plan [OF 1(1)],
          rule sell_loop_plan [OF st(1)])
    with no_options have "\<not> has_executable_option_plan (r_options (bu_run b2))" by (simp add: same_plan_fields)
    from finish_evidenced [OF 1(4) b2 this] show ?thesis .
  qed
qed

text \<open>
  C23.  The report is truthful: a run that returns reports \<open>executed\<close> only when the lists show a
  submitted, filled or partially filled order and no order is pending, and whenever the outcome
  of an order was unknown the run ends in \<open>pending_reconciliation\<close> - on every path, early
  returns included.
\<close>

theorem report_is_truthful:
  assumes "execute_rebalance e a w = (Inr (logs, s), w')"
  shows "(execution_status s = ''executed'' \<longrightarrow> has_terminal_order s \<and> \<not> has_pending_order s)
    \<and> (outcome_unknown s \<noteq> None \<longrightarrow> execution_status s = ''pending_reconciliation'')"
proof -
  obtain st w1 where st: "stage_bind (plan_rebalance e a) (\<lambda>r0. stage_bind (fills_stage e a r0) (\<lambda>r1.
      stage_bind (lock_stage e a r1) (trade_stage e a))) w = (Inr st, w1)" "s = r_summary (stage_run st)"
    using assms by (auto simp: execute_rebalance_def elim!: io_bind_InrE split: stage.split_asm)
  have "evidenced (r_summary (stage_run st))"
  proof -
    from st(1) consider (plan) r where "plan_rebalance e a w = (Inr (Stop r), w1)" "st = Stop r"
      | (go) r0 wa where "plan_rebalance e a w = (Inr (Go r0), wa)"
          "stage_bind (fills_stage e a r0) (\<lambda>r1. stage_bind (lock_stage e a r1) (trade_stage e a)) wa = (Inr st, w1)"
      by (subst (asm) stage_bind_def) (auto elim!: io_bind_InrE split: stage.split_asm)
    then show ?thesis
    proof cases
      case plan
      with plan_unsettled [OF plan(1)] show ?thesis by (simp add: unsettled_evidenced)
    next
      case go
      have u0: "unsettled (r_summary r0)" using plan_unsettled [OF go(1)] by simp
      from go(2) consider (fills) r where "fills_stage e a r0 wa = (Inr (Stop r), w1)" "st = Stop r"
        | (on) r1 wb where "fills_stage e a r0 wa = (Inr (Go r1), wb)"
            "stage_bind (lock_stage e a r1) (trade_stage e a) wb = (Inr st, w1)"
        by (subst (asm) stage_bind_def) (auto elim!: io_bind_InrE split: stage.split_asm)
      then show ?thesis
      proof cases
        case fills
        with fills_unsettled [OF u0 fills(1)] show ?thesis by (simp add: unsettled_evidenced)
      next
        case on
        have u1: "unsettled (r_summary r1)" using fills_unsettled [OF u0 on(1)] by simp
        from on(2) consider (lock) r where "lock_stage e a r1 wb = (Inr (Stop r), w1)" "st = Stop r"
          | (trade) r2 wc where "lock_stage e a r1 wb = (Inr (Go r2), wc)" "trade_stage e a r2 wc = (Inr st, w1)"
          by (subst (asm) stage_bind_def) (auto elim!: io_bind_InrE split: stage.split_asm)
        then show ?thesis
        proof cases
          case lock
          with lock_unsettled [OF u1 lock(1)] show ?thesis by (simp add: unsettled_evidenced)
        next
          case trade
          have "\<not> has_executable_option_plan (r_options r2)"
            using plan_options [OF go(1)] fills_plan [OF on(1)] lock_plan [OF trade(1)] by (simp add: same_plan_fields)
          with lock_unsettled [OF u1 trade(1)] show ?thesis by (intro trade_evidenced [OF trade(2)]) simp_all
        qed
      qed
    qed
  qed
  with st(2) show ?thesis by (simp add: evidenced_def)
qed

definition broke_args :: args where
  "broke_args = rehearsal_args\<lparr>a_account_values := []\<rparr>"

definition broke_binding :: binding where
  "broke_binding = projr (bind_arguments rehearsal_env broke_args)"

theorem report_is_truthful_witness:
  "\<exists>s w'. execute_rebalance rehearsal_env broke_args ([], []) = (Inr ([''no_equity''], s), w')
     \<and> execution_status s = ''blocked'' \<and> outcome_unknown s = None"
proof -
  have "isl (bind_arguments rehearsal_env broke_args) = False" by code_simp
  then have b: "bind_arguments rehearsal_env broke_args = Inr broke_binding" by (simp add: broke_binding_def)
  have z: "float_of_or_zero VNone = Inr (Fin 0)" by code_simp
  have g: "gross_positions [] = Fin 0" by code_simp
  define s where "s = (initial_summary broke_args broke_binding (Fin 0))
    \<lparr>execution_status := ''blocked'', no_op_reason := Some ''no_equity''\<rparr>"
  have h: "execute_rebalance rehearsal_env broke_args ([], []) = (Inr ([''no_equity''], s), ([], []))"
    using b z g
    by (simp add: execute_rebalance_def plan_rebalance_def stage_bind_def start_stage_def io_bind_def s_def Let_def
        log_def empty_run_def broke_args_def rehearsal_args_def vd_get_def dict_get_default_def)
      (simp add: rehearsal_env_def)
  with report_is_truthful [OF h] show ?thesis by (auto simp: s_def)
qed

section \<open>Deferred buys\<close>

lemma deferred_step:
  "\<not> bu_halted st \<Longrightarrow> buy_step e a (Some why) needed (s, t) st w
     = (Inr (if s \<in> set needed then buy_skip s why st else st), w)"
  by (simp add: buy_step_def)

lemma orders_buy_skip:
  "orders (r_summary (bu_run (buy_skip s why st))) =
     (orders (r_summary (bu_run st)))\<lparr>skipped := skipped (orders (r_summary (bu_run st))) @ [skip_row s ''buy'' why]\<rparr>"
  by (simp add: buy_skip_def upd_summary_def add_skipped_def upd_buckets_def)

lemma halted_buy_skip [simp]: "bu_halted (buy_skip s why st) = bu_halted st"
  by (simp add: buy_skip_def)

lemma deferred_fold:
  assumes "\<not> bu_halted st"
  shows "\<exists>st'. io_fold (buy_step e a (Some why) needed) ts st w = (Inr st', w)
    \<and> skipped (orders (r_summary (bu_run st'))) = skipped (orders (r_summary (bu_run st)))
        @ List.map (\<lambda>s. skip_row s ''buy'' why) (filter (\<lambda>s. s \<in> set needed) (List.map fst ts))"
  using assms
proof (induction ts arbitrary: st)
  case (Cons p ts)
  obtain s t where p: "p = (s, t)" by (cases p)
  let ?st = "if s \<in> set needed then buy_skip s why st else st"
  have "\<not> bu_halted ?st" using Cons.prems by simp
  from Cons.IH [OF this] obtain st' where st': "io_fold (buy_step e a (Some why) needed) ts ?st w = (Inr st', w)"
    "skipped (orders (r_summary (bu_run st'))) = skipped (orders (r_summary (bu_run ?st)))
        @ List.map (\<lambda>s. skip_row s ''buy'' why) (filter (\<lambda>s. s \<in> set needed) (List.map fst ts))"
    by blast
  then show ?case
    using deferred_step [OF Cons.prems, of e a why needed s t w] by (auto simp: p io_bind_def orders_buy_skip)
qed simp

text \<open>
  A deferral of the buys is complete and reported: once a reason to defer was found, the
  buy loop always returns, touches nothing in the world, and files one skipped row with that
  reason for every symbol that needed buying, in target order, and for no other.
\<close>

theorem deferred_buys_reported:
  assumes "\<not> bu_halted st"
  shows "\<exists>st'. buy_loop e a (Some why) st w = (Inr st', w)
    \<and> skipped (orders (r_summary (bu_run st'))) = skipped (orders (r_summary (bu_run st)))
        @ List.map (\<lambda>s. skip_row s ''buy'' why)
            (filter (\<lambda>s. s \<in> set (buy_needed_symbols (bu_run st))) (dict_keys (r_target_mv (bu_run st))))"
  using deferred_fold [OF assms] by (simp add: buy_loop_def dict_keys_def)

definition rehearsal_buying :: buy_state where
  "rehearsal_buying = \<lparr>bu_run = rehearsal_run\<lparr>r_target_mv := [(''QQQ'', Fin 5000), (''SPY'', Fin 0)]\<rparr>,
     bu_buying_power = Fin 10000, bu_investable = Fin 10000, bu_halted = False\<rparr>"

theorem deferred_buys_reported_witness:
  "\<exists>st'. buy_loop rehearsal_env rehearsal_args (Some ''negative_cash'') rehearsal_buying ([], []) = (Inr st', ([], []))
    \<and> skipped (orders (r_summary (bu_run st'))) = [skip_row ''QQQ'' ''buy'' ''negative_cash'']"
proof -
  have "\<not> bu_halted rehearsal_buying" by (simp add: rehearsal_buying_def)
  moreover have "buy_needed_symbols (bu_run rehearsal_buying) = [''QQQ'']"
    unfolding buy_needed_symbols_def rehearsal_buying_def rehearsal_run_def empty_run_def by code_simp
  moreover have "skipped (orders (r_summary (bu_run rehearsal_buying))) = []"
    "dict_keys (r_target_mv (bu_run rehearsal_buying)) = [''QQQ'', ''SPY'']"
    by (simp_all add: rehearsal_buying_def rehearsal_run_def empty_run_def initial_summary_def Let_def
        empty_buckets_def dict_keys_def)
  ultimately show ?thesis
    using deferred_buys_reported [of rehearsal_buying rehearsal_env rehearsal_args "''negative_cash''" "([], [])"]
    by simp
qed

end
