(* ===== verification/FlexState.thy ===== *)
theory FlexState
  imports Dates
begin

text \<open>
  The coverage state of the daily Flex collector (\<open>application/flex_daily/state.py\<close>): which
  broker days and monthly controls are complete for which account, which windows to fetch
  next, when a failed window may be tried again, and the summary that is published.

  Days are keys of type \<open>date\<close> (the code uses their ISO text, which orders like the dates,
  \<open>iso_date_less\<close>); a monthly control is keyed by the first of its month and the checkpoint
  day.  A missing key of a JSON object is \<open>None\<close>, \<open>False\<close> or the default the code reads.
\<close>

section \<open>The state\<close>

record account_item =
  it_status :: "string option"
  it_issues :: "string list"
  it_reconciliation :: "string option"
  it_forward_checked :: bool

definition empty_item :: "string \<Rightarrow> account_item" where
  "empty_item st = \<lparr>it_status = Some st, it_issues = [], it_reconciliation = None, it_forward_checked = False\<rparr>"

text \<open>One day, or one monthly control; \<open>'e\<close> is the forward evidence of an account.\<close>

record 'e slot =
  dy_accounts :: "(string, account_item) dict"
  dy_attempts :: int
  dy_last_error :: "string option"
  dy_next_attempt :: "instant option"
  dy_done :: bool
  dy_raw :: "string option"
  dy_sha256 :: "string option"
  dy_derived :: "string option"
  dy_checked_at :: "instant option"
  dy_quarantine :: "string option"
  dy_validated_at :: "instant option"
  dy_reconciliation :: "string option"
  dy_comparison :: "string option"
  dy_forward :: "(string, 'e) dict"

definition empty_slot :: "'e slot" where
  "empty_slot = \<lparr>dy_accounts = [], dy_attempts = 0, dy_last_error = None, dy_next_attempt = None, dy_done = False,
     dy_raw = None, dy_sha256 = None, dy_derived = None, dy_checked_at = None, dy_quarantine = None,
     dy_validated_at = None, dy_reconciliation = None, dy_comparison = None, dy_forward = []\<rparr>"

record run_counts =
  rc_planned :: nat
  rc_fetched :: nat
  rc_succeeded :: nat
  rc_failed :: nat
  rc_last_code :: "string option"

record 'e coverage =
  cv_days :: "(date, 'e slot) dict"
  cv_months :: "(date \<times> int, 'e slot) dict"
  cv_forward_start :: "date option"
  cv_forward_target :: "date option"
  cv_backfill_start :: "date option"
  cv_blocked :: "string option"
  cv_blocked_code :: "string option"
  cv_last_started :: "instant option"
  cv_last_finished :: "instant option"
  cv_last_run :: "run_counts option"

section \<open>Days\<close>

text \<open>\<open>days(start, end)\<close>: every date of the interval.\<close>

definition days :: "date \<Rightarrow> date \<Rightarrow> date list" where
  "days start end = List.map (\<lambda>k. from_ordinal k) [ordinal start..ordinal end]"

definition setdefault :: "('k, 'v) dict \<Rightarrow> 'k \<Rightarrow> 'v \<Rightarrow> ('k, 'v) dict" where
  "setdefault d k v = (case dict_get d k of None \<Rightarrow> dict_set d k v | Some _ \<Rightarrow> d)"

definition seed_slot :: "string list \<Rightarrow> 'e slot \<Rightarrow> 'e slot" where
  "seed_slot accounts s =
     s\<lparr>dy_accounts := foldl (\<lambda>d a. setdefault d a (empty_item ''missing'')) (dy_accounts s) accounts\<rparr>"

definition seed_day :: "string list \<Rightarrow> (date, 'e slot) dict \<Rightarrow> date \<Rightarrow> (date, 'e slot) dict" where
  "seed_day accounts ds d = dict_set ds d
     (seed_slot accounts (case dict_get ds d of None \<Rightarrow> empty_slot | Some s \<Rightarrow> s))"

definition seed_from :: "'e coverage \<Rightarrow> date \<Rightarrow> date" where
  "seed_from st start = (case cv_forward_start st of None \<Rightarrow> start | Some f \<Rightarrow> max start f)"

definition seed :: "'e coverage \<Rightarrow> date \<Rightarrow> date \<Rightarrow> string list \<Rightarrow> 'e coverage" where
  "seed st start target accounts =
     st\<lparr>cv_days := foldl (seed_day accounts) (cv_days st) (days (seed_from st start) target)\<rparr>"

definition complete :: "'e slot \<Rightarrow> bool" where
  "complete s \<longleftrightarrow> dy_accounts s \<noteq> [] \<and> list_all (\<lambda>i. it_status i = Some ''complete'') (dict_values (dy_accounts s))"

definition due :: "'e slot \<Rightarrow> instant \<Rightarrow> bool" where
  "due s now = (case dy_next_attempt s of None \<Rightarrow> True | Some t \<Rightarrow> t \<le> now)"

definition failed :: "instant \<Rightarrow> string \<Rightarrow> 'e slot \<Rightarrow> 'e slot" where
  "failed now reason s = (let n = dy_attempts s + 1; hours = (if 3 \<le> n then 24 else 1) in
     s\<lparr>dy_attempts := n, dy_last_error := Some reason, dy_next_attempt := Some (now + hours * hour)\<rparr>)"

section \<open>The reported part of the history\<close>

definition unchecked_missing :: "account_item \<Rightarrow> account_item" where
  "unchecked_missing i = (if it_forward_checked i then i else i\<lparr>it_status := Some ''missing''\<rparr>)"

definition view_slot :: "'e slot \<Rightarrow> 'e slot" where
  "view_slot s = s\<lparr>dy_accounts := List.map (\<lambda>(a, i). (a, unchecked_missing i)) (dy_accounts s)\<rparr>"

definition reporting_view :: "'e coverage \<Rightarrow> 'e coverage" where
  "reporting_view st = (case cv_forward_start st of None \<Rightarrow> st
     | Some start \<Rightarrow>
        (let upper = (case cv_forward_target st of None \<Rightarrow> Date 9999 12 31 | Some t \<Rightarrow> t) in
         st\<lparr>cv_days := List.map (\<lambda>(d, s). (d, view_slot s)) (filter (\<lambda>(d, s). start \<le> d \<and> d \<le> upper) (cv_days st)),
            cv_months := filter (\<lambda>((m, c), s). start \<le> m \<and> m \<le> upper) (cv_months st)\<rparr>))"

section \<open>Windows\<close>

datatype kind = Daily | Control date int

record window =
  wi_kind :: kind
  wi_start :: date
  wi_end :: date

definition month_start :: "date \<Rightarrow> date" where
  "month_start d = Date (year d) (month d) 1"

text \<open>\<open>(month.replace(day=28) + timedelta(days=4)).replace(day=1)\<close>\<close>

definition next_month :: "date \<Rightarrow> date" where
  "next_month d = month_start (add_days (Date (year d) (month d) 28) 4)"

definition daily_window :: "date \<Rightarrow> window" where
  "daily_window d = \<lparr>wi_kind = Daily, wi_start = d, wi_end = d\<rparr>"

definition control_window :: "date \<Rightarrow> int \<Rightarrow> window" where
  "control_window m c = \<lparr>wi_kind = Control m c, wi_start = m, wi_end = add_days (next_month m) (- 1)\<rparr>"

definition recent_days :: "date \<Rightarrow> date list" where
  "recent_days target = List.map (\<lambda>n. add_days target (- n)) [0..6]"

definition recent_windows :: "'e coverage \<Rightarrow> date \<Rightarrow> instant \<Rightarrow> window list" where
  "recent_windows st target now = List.map daily_window
     (filter (\<lambda>d. case dict_get (cv_days st) d of None \<Rightarrow> False | Some s \<Rightarrow> due s now) (recent_days target))"

text \<open>The first month to control, and the loop over the months before the current one.\<close>

definition earliest_day :: "'e coverage \<Rightarrow> date \<Rightarrow> date" where
  "earliest_day st target = (case dict_keys (cv_days st) of [] \<Rightarrow> target | d # ds \<Rightarrow> foldl min d ds)"

definition history_start :: "'e coverage \<Rightarrow> date \<Rightarrow> date" where
  "history_start st target = (case cv_forward_start st of Some d \<Rightarrow> d
     | None \<Rightarrow> (case cv_backfill_start st of Some d \<Rightarrow> d | None \<Rightarrow> earliest_day st target))"

definition first_control :: "date \<Rightarrow> date" where
  "first_control start = (if month_start start < start then next_month (month_start start) else month_start start)"

partial_function (option) control_months :: "date \<Rightarrow> date \<Rightarrow> date list option" where
  "control_months m target =
     (if m < month_start target
      then Option.bind (control_months (next_month m) target) (\<lambda>ms. Some (m # ms))
      else Some [])"

declare control_months.simps [code]

definition control_open :: "(date \<times> int, 'e slot) dict \<Rightarrow> instant \<Rightarrow> date \<times> int \<Rightarrow> bool" where
  "control_open months now key =
    (let (m, c) = key; s = (case dict_get months key of None \<Rightarrow> empty_slot | Some s \<Rightarrow> s);
         opens_on = Date (year (next_month m)) (month (next_month m)) c in
     opens_on \<le> utc_date now \<and> \<not> dy_done s \<and> due s now)"

definition control_windows :: "(date \<times> int, 'e slot) dict \<Rightarrow> instant \<Rightarrow> (date \<times> int) list \<Rightarrow> window list" where
  "control_windows months now keys = List.map (\<lambda>(m, c). control_window m c) (filter (control_open months now) keys)"

definition control_keys :: "date list \<Rightarrow> (date \<times> int) list" where
  "control_keys ms = concat (List.map (\<lambda>m. [(m, 3), (m, 10)]) ms)"

definition hole_windows :: "'e coverage \<Rightarrow> date \<Rightarrow> instant \<Rightarrow> window list" where
  "hole_windows st target now = List.map (\<lambda>(d, s). daily_window d)
     (filter (\<lambda>(d, s). d \<notin> set (recent_days target) \<and> \<not> complete s \<and> due s now) (sort_key fst (cv_days st)))"

text \<open>
  \<open>windows\<close>: recent days, then due monthly controls, then the oldest holes, cut off at the
  limit.  \<open>None\<close> would be a run that never returns.
\<close>

definition all_windows :: "'e coverage \<Rightarrow> date \<Rightarrow> instant \<Rightarrow> window list option" where
  "all_windows st0 target now =
    (let st = reporting_view st0 in
     case control_months (first_control (history_start st target)) target of None \<Rightarrow> None
     | Some ms \<Rightarrow> Some (recent_windows st target now @ control_windows (cv_months st) now (control_keys ms)
         @ hole_windows st target now))"

definition windows :: "'e coverage \<Rightarrow> date \<Rightarrow> instant \<Rightarrow> nat \<Rightarrow> window list option" where
  "windows st target now limit = map_option (take limit) (all_windows st target now)"

section \<open>Summary\<close>

record coverage_summary =
  cs_checked_at :: instant
  cs_target_date :: "date option"
  cs_missing_account_days :: nat
  cs_oldest_gap :: "date option"
  cs_continuous_through :: "(string, date option) dict"
  cs_reconciliation_status :: string
  cs_field_issue_count :: nat
  cs_residual_nonzero :: bool
  cs_last_run :: "run_counts option"
  cs_blocked :: "string option"
  cs_last_started :: "instant option"
  cs_last_finished :: "instant option"

definition missing_account_days :: "'e coverage \<Rightarrow> (date \<times> string) list" where
  "missing_account_days st = concat (List.map (\<lambda>(d, s). List.map (\<lambda>(a, i). (d, a))
     (filter (\<lambda>(a, i). it_status i \<noteq> Some ''complete'') (dy_accounts s))) (sort_key fst (cv_days st)))"

definition account_complete :: "string \<Rightarrow> 'e slot \<Rightarrow> bool" where
  "account_complete a s = (case dict_get (dy_accounts s) a of None \<Rightarrow> False | Some i \<Rightarrow> it_status i = Some ''complete'')"

text \<open>The last day before the first one that is not complete for the account.\<close>

definition continuous_through :: "'e coverage \<Rightarrow> string \<Rightarrow> date option" where
  "continuous_through st a =
    (case takeWhile (\<lambda>(d, s). account_complete a s) (sort_key fst (cv_days st)) of [] \<Rightarrow> None | ds \<Rightarrow> Some (fst (last ds)))"

definition summary :: "'e coverage \<Rightarrow> instant \<Rightarrow> coverage_summary" where
  "summary st0 now =
    (let st = reporting_view st0; missing = missing_account_days st; slots = dict_values (cv_days st);
         items = concat (List.map (\<lambda>s. dict_values (dy_accounts s)) slots);
         accounts = (case slots of [] \<Rightarrow> [] | s # _ \<Rightarrow> dict_keys (dy_accounts s)) in
     \<lparr>cs_checked_at = now,
      cs_target_date = (case dict_keys (cv_days st) of [] \<Rightarrow> None | d # ds \<Rightarrow> Some (foldl max d ds)),
      cs_missing_account_days = length missing,
      cs_oldest_gap = (case missing of [] \<Rightarrow> None | (d, a) # _ \<Rightarrow> Some d),
      cs_continuous_through = List.map (\<lambda>a. (a, continuous_through st a)) accounts,
      cs_reconciliation_status = ''partial'',
      cs_field_issue_count = sum_list (List.map (\<lambda>i. length (it_issues i)) items),
      cs_residual_nonzero = (list_ex (\<lambda>i. it_reconciliation i = Some ''difference'') items
         \<or> list_ex (\<lambda>s. dy_reconciliation s = Some ''difference'' \<or> dy_comparison s = Some ''difference'')
              (dict_values (cv_months st))),
      cs_last_run = cv_last_run st, cs_blocked = cv_blocked st, cs_last_started = cv_last_started st,
      cs_last_finished = cv_last_finished st\<rparr>)"

section \<open>Dates of a month\<close>

lemma length_month_lengths [simp]: "length (month_lengths y) = 12"
  by (simp add: month_lengths_def)

lemma days_in_month_bounds: "1 \<le> m \<Longrightarrow> m \<le> 12 \<Longrightarrow> 28 \<le> days_in_month y m \<and> days_in_month y m \<le> 31"
proof -
  assume "1 \<le> m" "m \<le> 12"
  then have "m = 1 \<or> m = 2 \<or> m = 3 \<or> m = 4 \<or> m = 5 \<or> m = 6 \<or> m = 7 \<or> m = 8 \<or> m = 9 \<or> m = 10 \<or> m = 11 \<or> m = 12"
    by arith
  then show ?thesis by (auto simp: days_in_month_def month_lengths_def)
qed

lemma days_before_next_month:
  assumes "1 \<le> m" "m \<le> 11"
  shows "days_before_month y (m + 1) = days_before_month y m + days_in_month y m"
proof -
  have "nat m = Suc (nat (m - 1))" "nat (m - 1) < length (month_lengths y)" using assms by auto
  then show ?thesis by (simp add: days_before_month_def days_in_month_def take_Suc_conv_app_nth)
qed

lemma days_in_year: "days_before_month y 12 + days_in_month y 12 = (if leap y then 366 else 365)"
  by (simp add: days_before_month_def days_in_month_def month_lengths_def)

text \<open>The code's way of stepping to the next month does step to the next month.\<close>

definition following_month :: "date \<Rightarrow> date" where
  "following_month d = (if month d = 12 then Date (year d + 1) 1 1 else Date (year d) (month d + 1) 1)"

lemma next_month:
  assumes "1 \<le> month d" "month d \<le> 12"
  shows "next_month d = following_month d"
proof -
  obtain y m where ym: "year d = y" "month d = m" by simp
  define k where "k = 32 - days_in_month y m"
  have k: "1 \<le> k" "k \<le> 4" using days_in_month_bounds [of m y] assms ym by (auto simp: k_def)
  let ?d = "if m = 12 then Date (y + 1) 1 k else Date y (m + 1) k"
  have b: "28 \<le> days_in_month y (m + 1)" if "m \<noteq> 12"
    using days_in_month_bounds [of "m + 1" y] assms ym that by simp
  have b1: "days_in_month (y + 1) 1 = 31" by (simp add: days_in_month_def month_lengths_def)
  have wf: "wf_date ?d" using k assms ym b b1 by (auto simp: wf_date_def)
  have ord: "ordinal ?d = ordinal (Date y m 28) + 4"
  proof (cases "m = 12")
    case True
    have "days_before_month (y + 1) 1 = 0" by (simp add: days_before_month_def)
    with True days_in_year [of y] show ?thesis by (simp add: ordinal_def k_def days_before_year_Suc)
  next
    case False
    with days_before_next_month [of m y] assms ym show ?thesis by (simp add: ordinal_def k_def)
  qed
  have "add_days (Date y m 28) 4 = ?d"
    using from_ordinal_ordinal [OF wf] by (simp add: add_days_def ord [symmetric])
  then show ?thesis by (simp add: next_month_def following_month_def month_start_def ym)
qed

section \<open>The control loop ends\<close>

definition month_index :: "date \<Rightarrow> int" where
  "month_index d = 12 * year d + month d"

definition month_first :: "date \<Rightarrow> bool" where
  "month_first d \<longleftrightarrow> 1 \<le> month d \<and> month d \<le> 12 \<and> day d = 1"

lemma month_first_next [simp]: "month_first d \<Longrightarrow> month_first (next_month d)"
  by (auto simp: next_month following_month_def month_first_def)

lemma month_index_next [simp]: "month_first d \<Longrightarrow> month_index (next_month d) = month_index d + 1"
  by (auto simp: next_month following_month_def month_first_def month_index_def)

lemma month_first_less: "month_first a \<Longrightarrow> month_first b \<Longrightarrow> a < b \<longleftrightarrow> month_index a < month_index b"
  by (cases a; cases b) (auto simp: month_first_def month_index_def less_date_def less_prod_def)

lemma control_months_Some:
  assumes "month_first m" and "month_first (month_start target)"
  shows "\<exists>ms. control_months m target = Some ms
    \<and> length ms = nat (month_index (month_start target) - month_index m)
    \<and> list_all (\<lambda>x. month_first x \<and> m \<le> x \<and> x < month_start target) ms"
  using assms
proof (induction "nat (month_index (month_start target) - month_index m)" arbitrary: m)
  case 0
  then have "\<not> m < month_start target" by (simp add: month_first_less)
  then show ?case using 0 by (subst control_months.simps) simp
next
  case (Suc n)
  have less: "m < month_start target" using Suc by (simp add: month_first_less)
  have "month_first (next_month m)" using Suc.prems by simp
  moreover have "n = nat (month_index (month_start target) - month_index (next_month m))" using Suc by simp
  ultimately obtain ms where ms: "control_months (next_month m) target = Some ms"
    "length ms = n" "list_all (\<lambda>x. month_first x \<and> next_month m \<le> x \<and> x < month_start target) ms"
    using Suc.hyps(1) [of "next_month m"] Suc.prems by auto
  have "m \<le> next_month m" using month_first_less [of m "next_month m"] Suc.prems by (simp add: less_imp_le)
  then show ?case
    using ms Suc.hyps(2) less Suc.prems
    by (subst control_months.simps) (auto simp: list_all_iff)
qed

lemma month_start_first [simp]: "wf_date d \<Longrightarrow> month_first (month_start d)"
  by (simp add: month_first_def month_start_def wf_date_def)

lemma first_control_first: "wf_date d \<Longrightarrow> month_first (first_control d)"
  by (simp add: first_control_def)

section \<open>Properties of the schedule\<close>



lemma all_windows_shape:
  assumes "wf_date target" and "wf_date (history_start (reporting_view st) target)"
  shows "\<exists>controls. all_windows st target now =
      Some (recent_windows (reporting_view st) target now @ controls @ hole_windows (reporting_view st) target now)
    \<and> (\<forall>w \<in> set controls. wi_kind w \<noteq> Daily \<and> month_first (wi_start w) \<and> wi_start w < month_start target)"
proof -
  let ?v = "reporting_view st"
  let ?m = "first_control (history_start ?v target)"
  obtain ms where ms: "control_months ?m target = Some ms"
    "list_all (\<lambda>x. month_first x \<and> ?m \<le> x \<and> x < month_start target) ms"
    using control_months_Some [OF first_control_first [OF assms(2)] month_start_first [OF assms(1)]] by auto
  have "\<forall>w \<in> set (control_windows (cv_months ?v) now (control_keys ms)).
      wi_kind w \<noteq> Daily \<and> month_first (wi_start w) \<and> wi_start w < month_start target"
    using ms(2) by (auto simp: control_windows_def control_keys_def control_window_def list_all_iff)
  then show ?thesis using ms(1) by (auto simp: all_windows_def Let_def)
qed

text \<open>
  C25.  Scheduling always ends: for dates of the calendar the loop over the monthly controls
  stops, so \<open>windows\<close> returns, with at most the limit of windows.
\<close>

theorem windows_return:
  assumes "wf_date target" and "wf_date (history_start (reporting_view st) target)"
  shows "\<exists>ws. windows st target now limit = Some ws \<and> length ws \<le> limit
    \<and> list_all (\<lambda>w. wi_kind w = Daily \<or> month_first (wi_start w) \<and> wi_start w < month_start target) ws"
proof -
  obtain cs where w: "all_windows st target now =
      Some (recent_windows (reporting_view st) target now @ cs @ hole_windows (reporting_view st) target now)"
    and cs: "\<forall>w \<in> set cs. wi_kind w \<noteq> Daily \<and> month_first (wi_start w) \<and> wi_start w < month_start target"
    using all_windows_shape [OF assms] by blast
  have "wi_kind w = Daily" if "w \<in> set (recent_windows (reporting_view st) target now) \<union> set (hole_windows (reporting_view st) target now)" for w
    using that by (auto simp: recent_windows_def hole_windows_def daily_window_def)
  with w cs show ?thesis by (auto simp: windows_def list_all_iff dest!: in_set_takeD)
qed

definition sample_coverage :: "unit coverage" where
  "sample_coverage = \<lparr>cv_days = [(Date 2026 11 20, empty_slot\<lparr>dy_accounts := [(''account-1'', empty_item ''missing'')]\<rparr>),
       (Date 2026 12 30, empty_slot\<lparr>dy_accounts := [(''account-1'', empty_item ''complete'')]\<rparr>)],
     cv_months = [], cv_forward_start = None, cv_forward_target = None, cv_backfill_start = Some (Date 2026 11 20),
     cv_blocked = None, cv_blocked_code = None, cv_last_started = None, cv_last_finished = None, cv_last_run = None\<rparr>"

definition sample_now :: instant where
  "sample_now = wall_clock (Date 2027 1 1) (15 * hour)"

lemma sample_dates: "wf_date (Date 2026 12 31)" "wf_date (history_start (reporting_view sample_coverage) (Date 2026 12 31))"
  by code_simp+

theorem windows_return_witness:
  "\<exists>ws. windows sample_coverage (Date 2026 12 31) sample_now 30 = Some ws \<and> length ws \<le> 30
     \<and> list_all (\<lambda>w. wi_kind w = Daily \<or> month_first (wi_start w) \<and> wi_start w < month_start (Date 2026 12 31)) ws"
  by (rule windows_return [OF sample_dates])

text \<open>Cutting a list off prefers its prefix, and in a sorted rest the smaller elements.\<close>

lemma cut_prefers:
  assumes "sorted (List.map f ys)" and "y \<in> set (xs @ ys)" and "y \<notin> set (take n (xs @ ys))"
    and "x \<in> set (take n (xs @ ys))"
  shows "x \<in> set xs \<or> f x \<le> f y"
proof -
  obtain k where k: "k < length (xs @ ys)" "y = (xs @ ys) ! k" using assms(2) by (metis in_set_conv_nth)
  obtain j where j: "j < n" "j < length (xs @ ys)" "x = (xs @ ys) ! j"
    using assms(4) unfolding in_set_conv_nth by (metis length_take min_less_iff_conj nth_take)
  have "n \<le> k"
  proof (rule ccontr)
    assume "\<not> n \<le> k"
    with k have "take n (xs @ ys) ! k = y" "k < length (take n (xs @ ys))" by (simp_all del: take_append)
    with assms(3) show False by (metis nth_mem)
  qed
  show ?thesis
  proof (cases "j < length xs")
    case True
    with j(3) show ?thesis by (simp add: nth_append)
  next
    case False
    with j k \<open>n \<le> k\<close> have "x = ys ! (j - length xs)" "y = ys ! (k - length xs)"
      "j - length xs \<le> k - length xs" "k - length xs < length ys" by (simp_all add: nth_append)
    with sorted_nth_mono [OF assms(1), of "j - length xs" "k - length xs"] show ?thesis by simp
  qed
qed

text \<open>
  C26.  No hole starves: a day whose accounts are not all complete and whose retry time has come
  is fetched, unless the limit is used up - and then only by recent days, monthly controls and
  holes that are not younger.
\<close>

theorem no_hole_starves:
  assumes "wf_date target" and "wf_date (history_start (reporting_view st) target)"
    and hole: "(d, s) \<in> set (cv_days (reporting_view st))" "\<not> complete s" "due s now"
    and ok: "dict_ok (cv_days (reporting_view st))"
    and w: "windows st target now limit = Some ws" "daily_window d \<notin> set ws"
  shows "length ws = limit
    \<and> list_all (\<lambda>w. wi_kind w \<noteq> Daily \<or> wi_start w \<in> set (recent_days target) \<or> wi_start w \<le> d) ws"
proof -
  let ?v = "reporting_view st"
  obtain controls where all: "all_windows st target now =
      Some (recent_windows ?v target now @ controls @ hole_windows ?v target now)"
    and ctl: "\<forall>w \<in> set controls. wi_kind w \<noteq> Daily"
    using all_windows_shape [OF assms(1,2)] by blast
  let ?first = "recent_windows ?v target now @ controls"
  let ?holes = "hole_windows ?v target now"
  have ws: "ws = take limit (?first @ ?holes)" using w(1) all by (auto simp: windows_def)
  have get: "dict_get (cv_days ?v) d = Some s" by (rule dict_get_mem [OF ok hole(1)])
  have in_all: "daily_window d \<in> set (?first @ ?holes)"
  proof (cases "d \<in> set (recent_days target)")
    case True
    with get hole(3) show ?thesis by (auto simp: recent_windows_def)
  next
    case False
    with hole have "(d, s) \<in> set (filter (\<lambda>(d, s). d \<notin> set (recent_days target) \<and> \<not> complete s \<and> due s now) (sort_key fst (cv_days ?v)))"
      by simp
    then show ?thesis unfolding hole_windows_def by (fastforce simp: image_iff)
  qed
  have len: "limit \<le> length (?first @ ?holes) \<and> length ws = limit"
    using in_all w(2) ws by (cases "limit \<le> length (?first @ ?holes)") auto
  have sorted: "sorted (List.map wi_start ?holes)"
  proof -
    let ?keep = "\<lambda>(d, s). d \<notin> set (recent_days target) \<and> \<not> complete s \<and> due s now"
    have "sorted (List.map fst (filter ?keep (sort_key fst (cv_days ?v))))" by (simp add: sorted_filter)
    moreover have "List.map wi_start ?holes = List.map fst (filter ?keep (sort_key fst (cv_days ?v)))"
      by (auto simp: hole_windows_def daily_window_def)
    ultimately show ?thesis by simp
  qed
  have "wi_kind x \<noteq> Daily \<or> wi_start x \<in> set (recent_days target) \<or> wi_start x \<le> d" if x: "x \<in> set ws" for x
  proof -
    from cut_prefers [OF sorted in_all] w(2) x have "x \<in> set ?first \<or> wi_start x \<le> wi_start (daily_window d)"
      unfolding ws by blast
    with ctl show ?thesis by (auto simp: recent_windows_def daily_window_def)
  qed
  with len show ?thesis by (simp add: list_all_iff)
qed

theorem no_hole_starves_witness:
  "windows sample_coverage (Date 2026 12 31) sample_now 1 = Some [daily_window (Date 2026 12 30)]
   \<and> list_all (\<lambda>w. wi_kind w \<noteq> Daily \<or> wi_start w \<in> set (recent_days (Date 2026 12 31)) \<or> wi_start w \<le> Date 2026 11 20)
       [daily_window (Date 2026 12 30)]"
proof -
  have w: "windows sample_coverage (Date 2026 12 31) sample_now 1 = Some [daily_window (Date 2026 12 30)]"
    by code_simp
  let ?s = "empty_slot\<lparr>dy_accounts := [(''account-1'', empty_item ''missing'')]\<rparr> :: unit slot"
  have "(Date 2026 11 20, ?s) \<in> set (cv_days (reporting_view sample_coverage))" "\<not> complete ?s" "due ?s sample_now"
    "dict_ok (cv_days (reporting_view sample_coverage))" "daily_window (Date 2026 11 20) \<noteq> daily_window (Date 2026 12 30)"
    by (simp_all add: sample_coverage_def reporting_view_def complete_def due_def empty_slot_def empty_item_def
        dict_values_def dict_ok_def dict_keys_def daily_window_def)
  with no_hole_starves [OF sample_dates _ _ _ _ w, of "Date 2026 11 20" ?s] w show ?thesis by simp
qed

section \<open>Seeding, failures and the view\<close>

text \<open>
  A failed window waits: after the first two failures it is due again one hour later, from
  the third on only after a day, and never before; nothing else of the slot changes.
\<close>

theorem failed_backs_off:
  "due (failed now reason s) t = (now + (if dy_attempts s < 2 then hour else day_length) \<le> t)
   \<and> dy_attempts (failed now reason s) = dy_attempts s + 1
   \<and> dy_accounts (failed now reason s) = dy_accounts s \<and> dy_done (failed now reason s) = dy_done s
   \<and> dy_raw (failed now reason s) = dy_raw s \<and> dy_forward (failed now reason s) = dy_forward s"
  by (auto simp: failed_def due_def Let_def day_length_def)

lemma setdefault_get [simp]:
  "dict_get (setdefault d k v) = (case dict_get d k of None \<Rightarrow> (dict_get d)(k \<mapsto> v) | Some _ \<Rightarrow> dict_get d)"
  by (simp add: setdefault_def split: option.split)

lemma seed_accounts_get:
  "dict_get (foldl (\<lambda>d a. setdefault d a (empty_item ''missing'')) d accounts) a =
     (case dict_get d a of Some i \<Rightarrow> Some i | None \<Rightarrow> if a \<in> set accounts then Some (empty_item ''missing'') else None)"
  by (induction accounts arbitrary: d) (auto split: option.split)

lemma seed_slot_idem: "seed_slot accounts (seed_slot accounts s) = seed_slot accounts s"
proof -
  have "foldl (\<lambda>d a. setdefault d a (empty_item ''missing'')) d as = d"
    if "\<forall>a \<in> set as. dict_get d a \<noteq> None" for as and d :: "(string, account_item) dict"
    using that by (induction as) (auto simp: setdefault_def split: option.split)
  then show ?thesis unfolding seed_slot_def by (simp add: seed_accounts_get split: option.split)
qed

lemma seed_day_get: "dict_get (seed_day accounts d y) x = (if x = y
    then Some (seed_slot accounts (case dict_get d y of None \<Rightarrow> empty_slot | Some s \<Rightarrow> s)) else dict_get d x)"
  by (simp add: seed_day_def)

lemma seed_days_get:
  "dict_get (foldl (seed_day accounts) d ds) x =
     (if x \<in> set ds then Some (seed_slot accounts (case dict_get d x of None \<Rightarrow> empty_slot | Some s \<Rightarrow> s))
      else dict_get d x)"
  by (induction ds arbitrary: d) (auto simp: seed_day_get seed_slot_idem)

lemma ordinal_mono: "wf_date a \<Longrightarrow> wf_date b \<Longrightarrow> ordinal a \<le> ordinal b \<longleftrightarrow> a \<le> b"
  using ordinal_less_iff [of b a] by (auto simp: not_less [symmetric])

lemma set_days:
  assumes "wf_date a" and "wf_date b"
  shows "set (days a b) = {d. wf_date d \<and> a \<le> d \<and> d \<le> b}"
proof -
  have "d \<in> set (days a b)" if "wf_date d" "a \<le> d" "d \<le> b" for d
    unfolding days_def using that assms ordinal_mono [of a d] ordinal_mono [of d b]
    by (simp add: image_iff) (metis atLeastAtMost_iff from_ordinal_ordinal)
  moreover have "wf_date d \<and> a \<le> d \<and> d \<le> b" if "d \<in> set (days a b)" for d
    using that assms ordinal_mono [of a d] ordinal_mono [of d b] by (auto simp: days_def)
  ultimately show ?thesis by blast
qed

text \<open>
  Seeding covers and keeps: afterwards every day of the interval has an entry for every
  configured account, entries that were there are unchanged, days outside the interval are
  untouched, and seeding again changes nothing.
\<close>

theorem seed_covers_and_keeps:
  assumes "wf_date (seed_from st start)" and "wf_date target"
  shows "dict_get (cv_days (seed st start target accounts)) d =
      (if wf_date d \<and> seed_from st start \<le> d \<and> d \<le> target
       then Some (seed_slot accounts (case dict_get (cv_days st) d of None \<Rightarrow> empty_slot | Some s \<Rightarrow> s))
       else dict_get (cv_days st) d)
    \<and> dict_get (dy_accounts (seed_slot accounts s)) a =
        (case dict_get (dy_accounts s) a of Some i \<Rightarrow> Some i
         | None \<Rightarrow> if a \<in> set accounts then Some (empty_item ''missing'') else None)
    \<and> dict_get (cv_days (seed (seed st start target accounts) start target accounts))
        = dict_get (cv_days (seed st start target accounts))"
proof -
  have get: "dict_get (cv_days (seed st' start target accounts)) x =
      (if x \<in> set (days (seed_from st' start) target)
       then Some (seed_slot accounts (case dict_get (cv_days st') x of None \<Rightarrow> empty_slot | Some s \<Rightarrow> s))
       else dict_get (cv_days st') x)" for st' :: "'a coverage" and x
    by (simp add: seed_def seed_days_get)
  have again: "seed_from (seed st start target accounts) start = seed_from st start"
    by (simp add: seed_from_def seed_def)
  have "dict_get (cv_days (seed (seed st start target accounts) start target accounts)) x
      = dict_get (cv_days (seed st start target accounts)) x" for x
    by (auto simp: get again seed_slot_idem split: option.split)
  then show ?thesis
    using get [of st d] set_days [OF assms] by (auto simp: seed_slot_def seed_accounts_get fun_eq_iff)
qed

theorem seed_covers_and_keeps_witness:
  "dict_get (cv_days (seed sample_coverage (Date 2026 12 29) (Date 2026 12 31) [''account-1'', ''account-2''])) (Date 2026 12 31)
     \<noteq> None \<and> seed_from sample_coverage (Date 2026 12 29) = Date 2026 12 29"
proof -
  have f: "seed_from sample_coverage (Date 2026 12 29) = Date 2026 12 29" by code_simp
  have w: "wf_date (seed_from sample_coverage (Date 2026 12 29))" "wf_date (Date 2026 12 31)" by code_simp+
  have le: "Date 2026 12 29 \<le> Date 2026 12 31" by code_simp
  have "dict_get (cv_days (seed sample_coverage (Date 2026 12 29) (Date 2026 12 31) [''account-1'', ''account-2''])) (Date 2026 12 31)
      = Some (seed_slot [''account-1'', ''account-2'']
          (case dict_get (cv_days sample_coverage) (Date 2026 12 31) of None \<Rightarrow> empty_slot | Some s \<Rightarrow> s))"
    using conjunct1 [OF seed_covers_and_keeps [OF w, of "[''account-1'', ''account-2'']" "Date 2026 12 31" empty_slot "''a''"]]
      w(2) f le by (simp only: if_True simp_thms order_refl)
  then show ?thesis using f by simp
qed

section \<open>The summary\<close>

lemma missing_mem:
  "(d, a) \<in> set (missing_account_days st) \<longleftrightarrow>
     (\<exists>s i. (d, s) \<in> set (cv_days st) \<and> (a, i) \<in> set (dy_accounts s) \<and> it_status i \<noteq> Some ''complete'')"
  by (auto simp: missing_account_days_def) force+

lemma complete_iff:
  "complete s \<longleftrightarrow> dy_accounts s \<noteq> [] \<and> (\<forall>(a, i) \<in> set (dy_accounts s). it_status i = Some ''complete'')"
  by (auto simp: complete_def list_all_iff dict_values_def)

lemma sorted_key_filter: "sorted (List.map fst (sort_key fst xs))"
  by simp

lemma takeWhile_strict_prefix:
  assumes "sorted (List.map fst xs)" and "distinct (List.map fst xs)" and "x \<in> set xs"
  shows "(\<forall>y \<in> set xs. fst y \<le> fst x \<longrightarrow> P y)
      \<longleftrightarrow> takeWhile P xs \<noteq> [] \<and> fst x \<le> fst (last (takeWhile P xs))"
proof -
  obtain ys zs where split: "ys = takeWhile P xs" "xs = ys @ zs" "zs = dropWhile P xs"
    by (metis takeWhile_dropWhile_id)
  have ys: "\<forall>y \<in> set ys. P y" unfolding split(1) by (auto dest: set_takeWhileD)
  have ord: "\<forall>y \<in> set ys. \<forall>z \<in> set zs. fst y < fst z"
    using assms(1,2) unfolding split(2) by (force simp: sorted_append order_less_le)
  have ys_last: "\<forall>y \<in> set ys. fst y \<le> fst (last ys)"
    using assms(1) unfolding split(2)
    by (cases ys rule: rev_cases) (auto simp: sorted_append)
  have zs_hd: "\<not> P (hd zs) \<and> (\<forall>z \<in> set zs. fst (hd zs) \<le> fst z)" if "zs \<noteq> []"
  proof
    show "\<not> P (hd zs)" using that hd_dropWhile [of P xs] by (simp add: split(3))
    show "\<forall>z \<in> set zs. fst (hd zs) \<le> fst z"
      using that assms(1) unfolding split(2) by (cases zs) (auto simp: sorted_append)
  qed
  show ?thesis
  proof (cases "x \<in> set ys")
    case True
    with ys_last have "ys \<noteq> []" "fst x \<le> fst (last ys)" by auto
    moreover have "P y" if "y \<in> set xs" "fst y \<le> fst x" for y
      using that True ord ys unfolding split(2) by force
    ultimately show ?thesis by (simp add: split(1))
  next
    case False
    with assms(3) have x: "x \<in> set zs" by (simp add: split(2))
    then have "zs \<noteq> []" by auto
    with zs_hd x have "hd zs \<in> set xs \<and> fst (hd zs) \<le> fst x \<and> \<not> P (hd zs)" by (simp add: split(2))
    moreover have "fst (last ys) < fst x" if "ys \<noteq> []" using ord x that by simp
    ultimately show ?thesis by (auto simp: split(1) [symmetric] not_le)
  qed
qed

text \<open>What is reported as continuous is exactly the complete beginning of the reported days.\<close>

lemma continuous_through_exact:
  assumes "dict_ok (cv_days st)" and "(d, s) \<in> set (cv_days st)"
  shows "list_all (\<lambda>(d', s'). d' \<le> d \<longrightarrow> account_complete a s') (cv_days st)
      \<longleftrightarrow> (case continuous_through st a of None \<Rightarrow> False | Some l \<Rightarrow> d \<le> l)"
proof -
  let ?xs = "sort_key fst (cv_days st)"
  have "distinct (List.map fst ?xs)" using assms(1) by (simp add: dict_ok_def dict_keys_def distinct_map)
  from takeWhile_strict_prefix [OF sorted_key_filter this, of "(d, s)" "\<lambda>(d, s). account_complete a s"] assms(2)
  show ?thesis
    by (auto simp: continuous_through_def list_all_iff split: list.split)
qed

lemma continuous_through_reported:
  assumes "continuous_through st a = Some l"
  shows "l \<in> set (dict_keys (cv_days st))"
proof -
  let ?ys = "takeWhile (\<lambda>(d, s). account_complete a s) (sort_key fst (cv_days st))"
  from assms have "?ys \<noteq> []" "l = fst (last ?ys)" by (auto simp: continuous_through_def split: list.split_asm)
  moreover have "last ?ys \<in> set ?ys" using calculation(1) by (rule last_in_set)
  ultimately have "last ?ys \<in> set (sort_key fst (cv_days st))" using set_takeWhileD [THEN conjunct1] by fast
  then have "last ?ys \<in> set (cv_days st)" by simp
  then show ?thesis unfolding dict_keys_def \<open>l = fst (last ?ys)\<close> by simp
qed

text \<open>
  C29.  The published summary tells the truth.  No account day is reported missing exactly when
  every reported day that has accounts is complete, and in forward mode every complete entry was
  forward-checked.  An account's continuous day is exact: it is a reported day, and any reported
  day is at or before it precisely when the account is complete on that day and on every earlier
  reported day - so the account is complete on the continuous day itself and not on the next one.
  Without a continuous day the account is already incomplete on the first reported day.
\<close>

theorem summary_sound:
  assumes "dict_ok (cv_days (reporting_view st))"
  shows "(cs_missing_account_days (summary st now) = 0
      \<longleftrightarrow> list_all (\<lambda>(d, s). dy_accounts s = [] \<or> complete s) (cv_days (reporting_view st)))
   \<and> (cv_forward_start st \<noteq> None \<and> (d, s) \<in> set (cv_days (reporting_view st)) \<and> (a, i) \<in> set (dy_accounts s)
        \<and> it_status i = Some ''complete'' \<longrightarrow> it_forward_checked i)
   \<and> ((b, c) \<in> set (cs_continuous_through (summary st now)) \<longrightarrow>
        (case c of None \<Rightarrow> True | Some l \<Rightarrow> l \<in> set (dict_keys (cv_days (reporting_view st))))
        \<and> ((d, s) \<in> set (cv_days (reporting_view st)) \<longrightarrow>
             (list_all (\<lambda>(d', s'). d' \<le> d \<longrightarrow> account_complete b s') (cv_days (reporting_view st))
                \<longleftrightarrow> (case c of None \<Rightarrow> False | Some l \<Rightarrow> d \<le> l))))"
proof (intro conjI impI)
  let ?v = "reporting_view st"
  have "cs_missing_account_days (summary st now) = length (missing_account_days ?v)"
    by (simp add: summary_def Let_def)
  moreover have "missing_account_days ?v = [] \<longleftrightarrow> (\<forall>d a. (d, a) \<notin> set (missing_account_days ?v))"
    by (cases "missing_account_days ?v") auto
  ultimately show "cs_missing_account_days (summary st now) = 0
      \<longleftrightarrow> list_all (\<lambda>(d, s). dy_accounts s = [] \<or> complete s) (cv_days ?v)"
    unfolding missing_mem list_all_iff complete_iff by fastforce
next
  assume h: "cv_forward_start st \<noteq> None \<and> (d, s) \<in> set (cv_days (reporting_view st)) \<and> (a, i) \<in> set (dy_accounts s)
        \<and> it_status i = Some ''complete''"
  then obtain s0 where "s = view_slot s0" by (auto simp: reporting_view_def Let_def split: option.split_asm)
  with h show "it_forward_checked i"
    by (auto simp: view_slot_def unchecked_missing_def split: if_split_asm)
next
  assume "(b, c) \<in> set (cs_continuous_through (summary st now))"
  then have c: "c = continuous_through (reporting_view st) b" by (auto simp: summary_def Let_def)
  then show "case c of None \<Rightarrow> True | Some l \<Rightarrow> l \<in> set (dict_keys (cv_days (reporting_view st)))"
    using continuous_through_reported by (auto split: option.split)
  assume "(d, s) \<in> set (cv_days (reporting_view st))"
  from continuous_through_exact [OF assms this, of b] c
  show "list_all (\<lambda>(d', s'). d' \<le> d \<longrightarrow> account_complete b s') (cv_days (reporting_view st))
      \<longleftrightarrow> (case c of None \<Rightarrow> False | Some l \<Rightarrow> d \<le> l)" by simp
qed

definition checked_item :: account_item where
  "checked_item = (empty_item ''complete'')\<lparr>it_forward_checked := True\<rparr>"

definition checked_slot :: "unit slot" where
  "checked_slot = empty_slot\<lparr>dy_accounts := [(''account-1'', checked_item)]\<rparr>"

definition missed_slot :: "unit slot" where
  "missed_slot = empty_slot\<lparr>dy_accounts := [(''account-1'', empty_item ''missing'')]\<rparr>"

definition sample_forward :: "unit coverage" where
  "sample_forward = sample_coverage\<lparr>cv_forward_start := Some (Date 2026 11 3),
     cv_days := [(Date 2026 11 5, missed_slot), (Date 2026 11 4, checked_slot), (Date 2026 11 3, checked_slot)]\<rparr>"

theorem summary_sound_witness:
  "cs_missing_account_days (summary sample_forward sample_now) = 1
   \<and> cs_continuous_through (summary sample_forward sample_now) = [(''account-1'', Some (Date 2026 11 4))]
   \<and> Date 2026 11 4 \<in> set (dict_keys (cv_days (reporting_view sample_forward)))
   \<and> list_all (\<lambda>(d, s). d \<le> Date 2026 11 4 \<longrightarrow> account_complete ''account-1'' s) (cv_days (reporting_view sample_forward))
   \<and> \<not> list_all (\<lambda>(d, s). d \<le> Date 2026 11 5 \<longrightarrow> account_complete ''account-1'' s) (cv_days (reporting_view sample_forward))
   \<and> it_forward_checked checked_item"
proof -
  let ?v = "reporting_view sample_forward"
  have 1: "cs_continuous_through (summary sample_forward sample_now) = [(''account-1'', Some (Date 2026 11 4))]" by code_simp
  have 2: "cs_missing_account_days (summary sample_forward sample_now) = 1" by code_simp
  have v: "cv_days ?v = [(Date 2026 11 5, missed_slot), (Date 2026 11 4, checked_slot), (Date 2026 11 3, checked_slot)]"
    by (simp add: reporting_view_def sample_forward_def sample_coverage_def Let_def checked_slot_def missed_slot_def
        view_slot_def unchecked_missing_def checked_item_def empty_item_def less_eq_date_def)
  have ok: "dict_ok (cv_days ?v)" by (simp add: v dict_ok_def dict_keys_def)
  have item: "(''account-1'', checked_item) \<in> set (dy_accounts checked_slot)" "it_status checked_item = Some ''complete''"
    "cv_forward_start sample_forward \<noteq> None"
    by (simp_all add: checked_slot_def checked_item_def empty_item_def sample_forward_def)
  have days: "(Date 2026 11 4, checked_slot) \<in> set (cv_days ?v)" "(Date 2026 11 5, missed_slot) \<in> set (cv_days ?v)"
    by (simp_all add: v)
  have later: "\<not> Date 2026 11 5 \<le> Date 2026 11 4" by code_simp
  from summary_sound [OF ok, of sample_now "Date 2026 11 4" checked_slot "''account-1''" checked_item "''account-1''" "Some (Date 2026 11 4)"]
    summary_sound [OF ok, of sample_now "Date 2026 11 5" missed_slot "''account-1''" checked_item "''account-1''" "Some (Date 2026 11 4)"]
    1 2 item days later
  show ?thesis by simp
qed

end
