(* ===== verification/Xml.thy ===== *)
theory Xml
  imports PyValue Dates
begin

text \<open>
  What the Flex sources use of the standard library besides floats and JSON: element trees
  (\<open>xml.etree\<close>: tag, attributes, children), \<open>Decimal\<close> values with the 50-digit context the
  checks compute in, and the two \<open>strptime\<close> formats of the reports.

  A decimal is its exact rational value (the exponent it is written with is not kept).
\<close>

section \<open>Element trees\<close>

datatype xml = Element (tag_of: string) (attributes: "(string, string) dict") (children: "xml list")

definition attr :: "xml \<Rightarrow> string \<Rightarrow> string option" where
  "attr e k = dict_get (attributes e) k"

definition attr_or :: "xml \<Rightarrow> string \<Rightarrow> string \<Rightarrow> string" where
  "attr_or e k d = (case attr e k of None \<Rightarrow> d | Some v \<Rightarrow> v)"

text \<open>\<open>if not row.get(k)\<close>: absent or empty.\<close>

definition attr_blank :: "xml \<Rightarrow> string \<Rightarrow> bool" where
  "attr_blank e k \<longleftrightarrow> attr_or e k [] = []"

definition find_all :: "xml \<Rightarrow> string \<Rightarrow> xml list" where
  "find_all e t = filter (\<lambda>c. tag_of c = t) (children e)"

definition find_path :: "xml \<Rightarrow> string \<Rightarrow> string \<Rightarrow> xml list" where
  "find_path e t u = concat (List.map (\<lambda>c. find_all c u) (find_all e t))"

definition find_first :: "xml \<Rightarrow> string \<Rightarrow> xml option" where
  "find_first e t = (case find_all e t of [] \<Rightarrow> None | c # _ \<Rightarrow> Some c)"

fun iter :: "xml \<Rightarrow> xml list" where
  "iter (Element t a cs) = Element t a cs # concat (List.map iter cs)"

lemma iter_self: "e \<in> set (iter e)"
  by (cases e) simp

lemma iter_children: "c \<in> set (children e) \<Longrightarrow> set (iter c) \<subseteq> set (iter e)"
  by (cases e) auto

lemma find_all_iter: "c \<in> set (find_all e t) \<Longrightarrow> set (iter c) \<subseteq> set (iter e)"
  using iter_children by (simp add: find_all_def)

lemma find_path_iter: "c \<in> set (find_path e t u) \<Longrightarrow> set (iter c) \<subseteq> set (iter e)"
proof -
  assume "c \<in> set (find_path e t u)"
  then obtain d where "d \<in> set (find_all e t)" "c \<in> set (find_all d u)" by (auto simp: find_path_def)
  then show ?thesis using find_all_iter by blast
qed

section \<open>Decimals\<close>

datatype decimal_text = NotNumber | NonFinite | Number rat

definition nan_text :: "string \<Rightarrow> bool" where
  "nan_text b = (let t = (if startswith b ''s'' then drop 1 b else b) in startswith t ''nan'' \<and> list_all is_digit (drop 3 t))"

definition decimal_of_text :: "string \<Rightarrow> decimal_text" where
  "decimal_of_text s = (let (neg, b) = split_sign (lower (filter (\<lambda>c. c \<noteq> CHR ''_'') (strip s))) in
     if b = ''inf'' \<or> b = ''infinity'' \<or> nan_text b then NonFinite
     else let (m, e) = split_at (CHR ''e'') b in
       (case (parse_mantissa m, parse_exponent e) of
          (Some r, Some k) \<Rightarrow> Number ((if neg then - r else r) * pow10 k)
        | _ \<Rightarrow> NotNumber))"

text \<open>
  The context of the checks: 50 significant digits, half to even, exponents up to 999999;
  beyond it the \<open>Overflow\<close> signal is raised.
\<close>

definition dec_magnitude :: "rat \<Rightarrow> int" where
  "dec_magnitude x = (if 1 \<le> x then int (length (int_text \<lfloor>x\<rfloor>)) - 1
     else - int (scale_up (length (int_text (snd (quotient_of x)))) x))"

definition dec_round :: "rat \<Rightarrow> rat res" where
  "dec_round x = (if x = 0 then Inr 0
     else let k = dec_magnitude \<bar>x\<bar>; q = pow10 (max (k - 49) (- 1000048)); r = of_int (rhe (x / q)) * q in
       if 999999 < k \<or> (k = 999999 \<and> pow10 1000000 \<le> \<bar>r\<bar>) then Inl (OtherError ''Overflow: '') else Inr r)"

definition dec_add :: "rat \<Rightarrow> rat \<Rightarrow> rat res" where "dec_add a b = dec_round (a + b)"
definition dec_sub :: "rat \<Rightarrow> rat \<Rightarrow> rat res" where "dec_sub a b = dec_round (a - b)"

text \<open>\<open>sum(values, Decimal(0))\<close>, where computing a value may raise.\<close>

definition dec_sum :: "rat res list \<Rightarrow> rat res" where
  "dec_sum vs = res_fold (\<lambda>v acc. res_bind v (dec_add acc)) vs 0"

lemma dec_round_0 [simp]: "dec_round 0 = Inr 0"
  by (simp add: dec_round_def)

section \<open>Report dates\<close>

type_synonym scanner = "string \<Rightarrow> (int \<times> string) list"

text \<open>One or two digits within bounds, two first; a literal; and a sequence of them.\<close>

definition scan_two :: "int \<Rightarrow> int \<Rightarrow> scanner" where
  "scan_two lo hi s = (case s of a # b # r \<Rightarrow>
       (if is_digit a \<and> is_digit b \<and> lo \<le> digits_value [a, b] \<and> digits_value [a, b] \<le> hi then [(digits_value [a, b], r)] else [])
     | _ \<Rightarrow> [])"

definition scan_one :: "int \<Rightarrow> scanner" where
  "scan_one lo s = (case s of a # r \<Rightarrow> (if is_digit a \<and> lo \<le> digit_value a then [(digit_value a, r)] else []) | _ \<Rightarrow> [])"

definition scan_char :: "char \<Rightarrow> scanner" where
  "scan_char c s = (case s of a # r \<Rightarrow> (if a = c then [(0, r)] else []) | _ \<Rightarrow> [])"

definition scan_year :: scanner where
  "scan_year s = (if 4 \<le> length s \<and> list_all is_digit (take 4 s) then [(digits_value (take 4 s), drop 4 s)] else [])"

definition scan_month :: scanner where "scan_month s = scan_two 1 12 s @ scan_one 1 s"

definition scan_day :: scanner where
  "scan_day s = scan_two 1 31 s @ scan_one 1 s @ concat (List.map (\<lambda>(_, r). scan_one 1 r) (scan_char (CHR '' '') s))"

definition scan_hour :: scanner where "scan_hour s = scan_two 0 23 s @ scan_one 0 s"
definition scan_sixty :: "int \<Rightarrow> scanner" where "scan_sixty hi s = scan_two 0 hi s @ scan_one 0 s"

fun scan_all :: "scanner list \<Rightarrow> string \<Rightarrow> (int list \<times> string) list" where
  "scan_all [] s = [([], s)]"
| "scan_all (f # fs) s = concat (List.map (\<lambda>(v, r). List.map (\<lambda>(vs, t). (v # vs, t)) (scan_all fs r)) (f s))"

text \<open>\<open>strptime(s, '%Y%m%d')\<close> and \<open>strptime(s, '%Y%m%d;%H%M%S')\<close>: the first match must use up the text.\<close>

definition strptime_ymd :: "string \<Rightarrow> date option" where
  "strptime_ymd s = (case scan_all [scan_year, scan_month, scan_day] s of
      ([y, m, d], []) # _ \<Rightarrow> checked_date (Some y) (Some m) (Some d)
    | _ \<Rightarrow> None)"

definition strptime_stamp :: "string \<Rightarrow> bool" where
  "strptime_stamp s = (case scan_all [scan_year, scan_month, scan_day, scan_char (CHR '';''), scan_hour, scan_sixty 59, scan_sixty 61] s of
      ([y, m, d, _, h, mi, sec], []) # _ \<Rightarrow> checked_date (Some y) (Some m) (Some d) \<noteq> None \<and> sec \<le> 59
    | _ \<Rightarrow> False)"

text \<open>\<open>text.replace('-', '')\<close> and the compact form of a date.\<close>

definition undash :: "string \<Rightarrow> string" where
  "undash s = filter (\<lambda>c. c \<noteq> CHR ''-'') s"

definition compact_date :: "date \<Rightarrow> string" where
  "compact_date d = undash (iso_date d)"

end
