(* ===== verification/FlexStore.thy ===== *)
theory FlexStore
  imports Dates Json Xml
begin

text \<open>
  The object store of the daily Flex collector (\<open>application/flex_daily/storage.py\<close>):
  generation-matched reads and writes of known objects, write-once objects, and the lease
  that lets one job at a time work on them.

  The bucket is the Google Cloud Storage client, a parameter of the model: its requests may
  fail in any way the client reports.  What the code relies on (\<open>generation_matched\<close>) is the
  documented meaning of \<open>if_generation_match\<close>.  An object's body is JSON text or
  an XML document, represented by its value, or other bytes - among them those whose XML
  declaration names an encoding that the parser does not know, or one that is not single-byte.  \<open>Conflict\<close> and the client's exceptions carry their class name.
\<close>

section \<open>Bucket and store\<close>

datatype body = JsonBody pyval | XmlBody xml | RawBody string | UnknownEncoding string | MultiByteEncoding string

record 'w bucket =
  bk_reload :: "string \<Rightarrow> ('w, int) io"
  bk_download :: "string \<Rightarrow> int \<Rightarrow> ('w, body) io"
  bk_upload :: "string \<Rightarrow> body \<Rightarrow> int \<Rightarrow> ('w, int) io"

definition conflict :: "string \<Rightarrow> pyexn" where
  "conflict m = OtherError (''Conflict: '' @ m)"

definition store_read :: "'w bucket \<Rightarrow> string \<Rightarrow> ('w, body option \<times> int) io" where
  "store_read bk key = io_catch
     (io_bind (bk_reload bk key) (\<lambda>g. io_bind (bk_download bk key g) (\<lambda>b. io_return (Some b, g))))
     (\<lambda>e. if raised_as ''NotFound'' e then io_return (None, 0)
          else if raised_as ''PreconditionFailed'' e then io_raise (conflict ''object_changed'')
          else io_raise e)"

definition store_write :: "'w bucket \<Rightarrow> string \<Rightarrow> body \<Rightarrow> int \<Rightarrow> ('w, int) io" where
  "store_write bk key b g = io_catch (bk_upload bk key b g)
     (\<lambda>e. if raised_as ''PreconditionFailed'' e then io_raise (conflict ''object_changed'') else io_raise e)"

definition loads :: "body \<Rightarrow> pyval res" where
  "loads b = (case b of JsonBody v \<Rightarrow> Inr v | _ \<Rightarrow> Inl (ValueError ''invalid json''))"

definition store_json :: "'w bucket \<Rightarrow> string \<Rightarrow> pyval \<Rightarrow> ('w, pyval \<times> int) io" where
  "store_json bk key dflt = io_bind (store_read bk key) (\<lambda>(b, g).
     case b of None \<Rightarrow> io_return (dflt, g)
     | Some b \<Rightarrow> io_bind (io_lift (loads b)) (\<lambda>v. io_return (v, g)))"

definition store_put :: "'w bucket \<Rightarrow> string \<Rightarrow> pyval \<Rightarrow> int \<Rightarrow> ('w, int) io" where
  "store_put bk key v g = store_write bk key (JsonBody (json_plain v)) g"

definition store_immutable :: "'w bucket \<Rightarrow> string \<Rightarrow> body \<Rightarrow> ('w, unit) io" where
  "store_immutable bk key b = io_catch
     (io_bind (store_write bk key b 0) (\<lambda>_. io_return ()))
     (\<lambda>e. if raised_as ''Conflict'' e
          then io_bind (store_read bk key) (\<lambda>(existing, _).
            if existing \<noteq> Some b then io_raise (conflict ''immutable_content_mismatch'') else io_return ())
          else io_raise e)"

section \<open>The lease\<close>

record lease =
  le_owner :: string
  le_expires :: instant
  le_generation :: int

definition lease_value :: "lease \<Rightarrow> pyval" where
  "lease_value l = VDict [(''owner'', VStr (le_owner l)), (''expires'', VStr (iso_utc (le_expires l)))]"

text \<open>\<open>datetime.fromisoformat(value['expires'])\<close>, as compared with an aware clock.\<close>

definition expires_of :: "pyval \<Rightarrow> instant res" where
  "expires_of v = (case v of
      VDict d \<Rightarrow> (case dict_get d ''expires'' of
          None \<Rightarrow> Inl (KeyError ''expires'')
        | Some (VStr s) \<Rightarrow> (case parse_iso_datetime s of
              None \<Rightarrow> Inl (ValueError ''Invalid isoformat string'')
            | Some p \<Rightarrow> (case instant_of p of
                None \<Rightarrow> Inl (TypeError ''can't compare offset-naive and offset-aware datetimes'') | Some t \<Rightarrow> Inr t))
        | Some _ \<Rightarrow> Inl (TypeError ''fromisoformat: argument must be str''))
    | VStr _ \<Rightarrow> Inl (TypeError ''string indices must be integers'')
    | _ \<Rightarrow> Inl (TypeError ''not subscriptable''))"

definition lease_minutes :: int where "lease_minutes = 31"

text \<open>
  \<open>Lease.__init__\<close> in its two requests, which other jobs may interleave: look at the
  current object, then replace exactly the generation that was seen.
\<close>

definition lease_look :: "'w bucket \<Rightarrow> string \<Rightarrow> instant \<Rightarrow> ('w, int) io" where
  "lease_look bk key now = io_bind (store_json bk key (VDict [])) (\<lambda>(current, g).
     if \<not> truthy current then io_return g
     else io_bind (io_lift (expires_of current)) (\<lambda>t.
       if now < t then io_raise (conflict ''already_running'') else io_return g))"

definition lease_claim :: "'w bucket \<Rightarrow> string \<Rightarrow> string \<Rightarrow> instant \<Rightarrow> int \<Rightarrow> ('w, lease) io" where
  "lease_claim bk key owner now g =
     (let l = \<lparr>le_owner = owner, le_expires = now + lease_minutes * minute, le_generation = g\<rparr> in
      if \<not> valid_date (utc_date (le_expires l)) then io_raise OverflowError else
      io_bind (store_put bk key (lease_value l) g) (\<lambda>g'. io_return (l\<lparr>le_generation := g'\<rparr>)))"

definition acquire :: "'w bucket \<Rightarrow> string \<Rightarrow> string \<Rightarrow> instant \<Rightarrow> ('w, lease) io" where
  "acquire bk key owner now = io_bind (lease_look bk key now) (lease_claim bk key owner now)"

definition lease_check :: "'w bucket \<Rightarrow> string \<Rightarrow> lease \<Rightarrow> instant \<Rightarrow> ('w, unit) io" where
  "lease_check bk key l now = io_bind (store_json bk key VNone) (\<lambda>(v, g).
     if \<not> v_eq v (lease_value l) \<or> g \<noteq> le_generation l then io_raise (conflict ''lease_lost'')
     else io_bind (io_lift (expires_of v)) (\<lambda>t.
       if t \<le> now then io_raise (conflict ''lease_lost'') else io_return ()))"

definition release :: "'w bucket \<Rightarrow> string \<Rightarrow> lease \<Rightarrow> instant \<Rightarrow> ('w, unit) io" where
  "release bk key l now = io_bind (store_put bk key (lease_value (l\<lparr>le_expires := now\<rparr>)) (le_generation l))
     (\<lambda>_. io_return ())"

section \<open>Generation matching\<close>

text \<open>
  The contract of the bucket: \<open>cur w\<close> is what it holds.  A request may fail for reasons of its
  own, and then a write may or may not have happened; but a read never changes an object, it
  returns what is there under the generation asked for, and a write replaces exactly the
  generation it names by a larger one.
\<close>

type_synonym objects = "string \<Rightarrow> (body \<times> int) option"

definition generation_at :: "objects \<Rightarrow> string \<Rightarrow> int" where
  "generation_at m k = (case m k of None \<Rightarrow> 0 | Some (_, g) \<Rightarrow> g)"

definition reload_ok :: "'w bucket \<Rightarrow> ('w \<Rightarrow> objects) \<Rightarrow> string \<Rightarrow> 'w \<Rightarrow> bool" where
  "reload_ok bk cur k w = (case bk_reload bk k w of (r, w') \<Rightarrow> cur w' = cur w \<and>
     (case r of Inr g \<Rightarrow> cur w k \<noteq> None \<and> g = generation_at (cur w) k
      | Inl e \<Rightarrow> raised_as ''NotFound'' e \<longrightarrow> cur w k = None))"

definition download_ok :: "'w bucket \<Rightarrow> ('w \<Rightarrow> objects) \<Rightarrow> string \<Rightarrow> int \<Rightarrow> 'w \<Rightarrow> bool" where
  "download_ok bk cur k g w = (case bk_download bk k g w of (r, w') \<Rightarrow> cur w' = cur w \<and>
     (case r of Inr b \<Rightarrow> cur w k = Some (b, g)
      | Inl e \<Rightarrow> raised_as ''NotFound'' e \<longrightarrow> cur w k = None))"

definition replaced :: "objects \<Rightarrow> string \<Rightarrow> body \<Rightarrow> int \<Rightarrow> objects \<Rightarrow> int \<Rightarrow> bool" where
  "replaced m k b g m' g' \<longleftrightarrow> generation_at m k = g \<and> g < g' \<and> m' = m(k \<mapsto> (b, g'))"

definition upload_ok :: "'w bucket \<Rightarrow> ('w \<Rightarrow> objects) \<Rightarrow> string \<Rightarrow> body \<Rightarrow> int \<Rightarrow> 'w \<Rightarrow> bool" where
  "upload_ok bk cur k b g w = (case bk_upload bk k b g w of (r, w') \<Rightarrow>
     (case r of Inr g' \<Rightarrow> replaced (cur w) k b g (cur w') g'
      | Inl e \<Rightarrow> \<not> raised_as ''NotFound'' e \<and>
          (cur w' = cur w \<or> \<not> raised_as ''PreconditionFailed'' e \<and> \<not> raised_as ''Conflict'' e
             \<and> (\<exists>g'. replaced (cur w) k b g (cur w') g'))))"

definition generation_matched :: "'w bucket \<Rightarrow> ('w \<Rightarrow> objects) \<Rightarrow> bool" where
  "generation_matched bk cur \<longleftrightarrow>
     (\<forall>k w. reload_ok bk cur k w \<and> (\<forall>g. download_ok bk cur k g w) \<and> (\<forall>b g. upload_ok bk cur k b g w)
        \<and> (cur w k \<noteq> None \<longrightarrow> 0 < generation_at (cur w) k))"

section \<open>What the store promises\<close>

lemma raised_conflict [simp]: "raised_as ''Conflict'' (conflict m)" "\<not> raised_as ''NotFound'' (conflict m)"
    "\<not> raised_as ''PreconditionFailed'' (conflict m)"
  by (simp_all add: raised_as_def conflict_def startswith_def)

lemma generation_matchedD:
  assumes "generation_matched bk cur"
  shows "reload_ok bk cur k w" and "download_ok bk cur k g w" and "upload_ok bk cur k b g w"
    and "cur w k \<noteq> None \<Longrightarrow> 0 < generation_at (cur w) k"
  using assms unfolding generation_matched_def by blast+

lemma reload_facts:
  assumes "generation_matched bk cur" and "bk_reload bk k w = (r, w')"
  shows "cur w' = cur w" and "r = Inr g \<Longrightarrow> cur w k \<noteq> None \<and> g = generation_at (cur w) k"
    and "r = Inl e \<Longrightarrow> raised_as ''NotFound'' e \<Longrightarrow> cur w k = None"
  using generation_matchedD(1) [OF assms(1), of k w] by (auto simp: reload_ok_def assms(2))

lemma download_facts:
  assumes "generation_matched bk cur" and "bk_download bk k g w = (r, w')"
  shows "cur w' = cur w" and "r = Inr b \<Longrightarrow> cur w k = Some (b, g)"
    and "r = Inl e \<Longrightarrow> raised_as ''NotFound'' e \<Longrightarrow> cur w k = None"
  using generation_matchedD(2) [OF assms(1), of k g w] by (auto simp: download_ok_def assms(2))

lemma upload_facts:
  assumes "generation_matched bk cur" and "bk_upload bk k b g w = (r, w')"
  shows "r = Inr g' \<Longrightarrow> replaced (cur w) k b g (cur w') g'"
    and "r = Inl e \<Longrightarrow> cur w' = cur w \<or> \<not> raised_as ''PreconditionFailed'' e \<and> \<not> raised_as ''Conflict'' e
      \<and> (\<exists>g'. replaced (cur w) k b g (cur w') g')"
  using generation_matchedD(3) [OF assms(1), of k b g w] by (auto simp: upload_ok_def assms(2))

lemma generation_pos: "generation_matched bk cur \<Longrightarrow> cur w k = Some (b, g) \<Longrightarrow> 0 < g"
  using generation_matchedD(4) [of bk cur w k] by (simp add: generation_at_def)

lemma generation_at_None: "m k = None \<Longrightarrow> generation_at m k = 0"
  by (simp add: generation_at_def)

lemma generation_at_upd [simp]: "generation_at (m(k \<mapsto> (b, g))) k = g"
  by (simp add: generation_at_def)

lemma generation_at_Some: "m k = Some (b, g) \<Longrightarrow> generation_at m k = g"
  by (simp add: generation_at_def)

lemma store_read_facts:
  assumes gm: "generation_matched bk cur" and r: "store_read bk k w = (r, w')"
  shows "cur w' = cur w" and "r = Inr (Some b, g) \<Longrightarrow> cur w k = Some (b, g)"
    and "r = Inr (None, g) \<Longrightarrow> cur w k = None \<and> g = 0"
proof -
  obtain x w1 where rel: "bk_reload bk k w = (x, w1)" by (cases "bk_reload bk k w")
  have all: "cur w' = cur w \<and> (\<forall>b g. r = Inr (Some b, g) \<longrightarrow> cur w k = Some (b, g))
      \<and> (\<forall>g. r = Inr (None, g) \<longrightarrow> cur w k = None \<and> g = 0)"
  proof (cases x)
    case (Inl e)
    with rel r show ?thesis using reload_facts [OF gm rel]
      by (auto simp: store_read_def io_catch_def split: if_split_asm)
  next
    case (Inr g)
    obtain y w2 where dow: "bk_download bk k g w1 = (y, w2)" by (cases "bk_download bk k g w1")
    have c: "cur w1 = cur w" "cur w2 = cur w" using reload_facts(1) [OF gm rel] download_facts(1) [OF gm dow] by simp_all
    show ?thesis
    proof (cases y)
      case (Inl e)
      then have n: "raised_as ''NotFound'' e \<Longrightarrow> cur w k = None" using download_facts(3) [OF gm dow] c by simp
      have "store_read bk k w = (if raised_as ''NotFound'' e then (Inr (None, 0), w2)
          else if raised_as ''PreconditionFailed'' e then (Inl (conflict ''object_changed''), w2) else (Inl e, w2))"
        using rel dow \<open>x = Inr g\<close> Inl by (simp add: store_read_def io_catch_def)
      with r n c show ?thesis by (auto split: if_split_asm)
    next
      case (Inr b)
      then have n: "cur w k = Some (b, g)" using download_facts(2) [OF gm dow] c by simp
      have "store_read bk k w = (Inr (Some b, g), w2)"
        using rel dow \<open>x = Inr g\<close> Inr by (simp add: store_read_def io_catch_def)
      with r n c show ?thesis by auto
    qed
  qed
  show "cur w' = cur w" and "r = Inr (Some b, g) \<Longrightarrow> cur w k = Some (b, g)"
    and "r = Inr (None, g) \<Longrightarrow> cur w k = None \<and> g = 0" using all by simp_all
qed

lemma store_write_facts:
  assumes gm: "generation_matched bk cur" and r: "store_write bk k b g w = (r, w')"
  shows "r = Inr g' \<Longrightarrow> replaced (cur w) k b g (cur w') g'"
    and "r = Inl e \<Longrightarrow> cur w' = cur w \<or> \<not> raised_as ''Conflict'' e \<and> (\<exists>g'. replaced (cur w) k b g (cur w') g')"
proof -
  obtain x w1 where u: "bk_upload bk k b g w = (x, w1)" by (cases "bk_upload bk k b g w")
  show "r = Inr g' \<Longrightarrow> replaced (cur w) k b g (cur w') g'"
    and "r = Inl e \<Longrightarrow> cur w' = cur w \<or> \<not> raised_as ''Conflict'' e \<and> (\<exists>g'. replaced (cur w) k b g (cur w') g')"
    using u r upload_facts [OF gm u]
    by (cases x; simp add: store_write_def io_catch_def split: if_split_asm)+
qed

lemma store_json_facts:
  assumes gm: "generation_matched bk cur" and r: "store_json bk k dflt w = (Inr (v, g), w')"
  shows "cur w' = cur w" and "g = generation_at (cur w) k"
    and "(cur w k = None \<and> v = dflt) \<or> cur w k = Some (JsonBody v, g)"
proof -
  from r obtain b g1 w1 where b: "store_read bk k w = (Inr (b, g1), w1)"
    and rest: "(case b of None \<Rightarrow> io_return (dflt, g1)
     | Some b \<Rightarrow> io_bind (io_lift (loads b)) (\<lambda>v. io_return (v, g1))) w1 = (Inr (v, g), w')"
    by (auto simp: store_json_def elim!: io_bind_InrE)
  have all: "cur w' = cur w \<and> g = generation_at (cur w) k \<and> ((cur w k = None \<and> v = dflt) \<or> cur w k = Some (JsonBody v, g))"
  proof (cases b)
    case None
    with rest store_read_facts [OF gm b] show ?thesis by (auto simp: generation_at_None)
  next
    case (Some x)
    with rest store_read_facts [OF gm b] show ?thesis
      by (cases x) (auto simp: loads_def generation_at_def elim!: io_bind_InrE)
  qed
  show "cur w' = cur w" and "g = generation_at (cur w) k"
    and "(cur w k = None \<and> v = dflt) \<or> cur w k = Some (JsonBody v, g)" using all by blast+
qed

lemma store_json_keeps:
  assumes gm: "generation_matched bk cur" and r: "store_json bk k dflt w = (r, w')"
  shows "cur w' = cur w"
proof -
  obtain x w1 where b: "store_read bk k w = (x, w1)" by (cases "store_read bk k w")
  with store_read_facts(1) [OF gm b] r show ?thesis
    by (cases x) (auto simp: store_json_def io_bind_def split: prod.split_asm option.split_asm sum.split_asm)
qed

lemma store_put_facts:
  assumes gm: "generation_matched bk cur" and r: "store_put bk k v g w = (r, w')"
  shows "r = Inr g' \<Longrightarrow> replaced (cur w) k (JsonBody (json_plain v)) g (cur w') g'"
    and "cur w' = cur w \<or> (\<exists>g'. replaced (cur w) k (JsonBody (json_plain v)) g (cur w') g')"
  using store_write_facts [OF gm r [unfolded store_put_def]] by (cases r; auto)+

text \<open>A bucket that also serves every request it can, and one such bucket: a dictionary.\<close>

definition serving :: "'w bucket \<Rightarrow> ('w \<Rightarrow> objects) \<Rightarrow> bool" where
  "serving bk cur \<longleftrightarrow> (\<forall>k w.
     (case cur w k of
        None \<Rightarrow> (\<exists>e. bk_reload bk k w = (Inl e, w) \<and> raised_as ''NotFound'' e)
      | Some (b, g) \<Rightarrow> bk_reload bk k w = (Inr g, w) \<and> bk_download bk k g w = (Inr b, w))
     \<and> (\<forall>b. \<exists>g' w'. bk_upload bk k b (generation_at (cur w) k) w = (Inr g', w')))"

definition dict_objects :: "(string, body \<times> nat) dict \<Rightarrow> objects" where
  "dict_objects w k = map_option (\<lambda>(b, n). (b, int n + 1)) (dict_get w k)"

definition dict_bucket :: "(string, body \<times> nat) dict bucket" where
  "dict_bucket = \<lparr>
     bk_reload = (\<lambda>k w. case dict_get w k of None \<Rightarrow> (Inl (OtherError ''NotFound: ''), w) | Some (b, n) \<Rightarrow> (Inr (int n + 1), w)),
     bk_download = (\<lambda>k g w. case dict_get w k of None \<Rightarrow> (Inl (OtherError ''NotFound: ''), w)
        | Some (b, n) \<Rightarrow> (if int n + 1 = g then Inr b else Inl (OtherError ''PreconditionFailed: ''), w)),
     bk_upload = (\<lambda>k b g w. case dict_get w k of
          None \<Rightarrow> (if g = 0 then (Inr 1, dict_set w k (b, 0)) else (Inl (OtherError ''PreconditionFailed: ''), w))
        | Some (b', n) \<Rightarrow> (if int n + 1 = g then (Inr (2 + int n), dict_set w k (b, n + 1))
            else (Inl (OtherError ''PreconditionFailed: ''), w)))\<rparr>"

lemma raised_names:
  "raised_as ''NotFound'' (OtherError ''NotFound: '')" "raised_as ''PreconditionFailed'' (OtherError ''PreconditionFailed: '')"
  "\<not> raised_as ''NotFound'' (OtherError ''PreconditionFailed: '')" "\<not> raised_as ''Conflict'' (OtherError ''PreconditionFailed: '')"
  by (simp_all add: raised_as_def startswith_def)

lemma dict_objects_set: "dict_objects (dict_set w k (b, n)) = (dict_objects w)(k \<mapsto> (b, int n + 1))"
  by (auto simp: dict_objects_def fun_eq_iff dict_simps)

lemma dict_bucket_matched: "generation_matched dict_bucket dict_objects"
  unfolding generation_matched_def
proof (intro allI conjI impI)
  fix k b g and w :: "(string, body \<times> nat) dict"
  show "reload_ok dict_bucket dict_objects k w"
    by (auto simp: reload_ok_def dict_bucket_def dict_objects_def generation_at_def split: option.split)
  show "download_ok dict_bucket dict_objects k g w"
    by (auto simp: download_ok_def dict_bucket_def dict_objects_def raised_names split: option.split)
  show "upload_ok dict_bucket dict_objects k b g w"
    by (cases "dict_get w k")
      (auto simp: upload_ok_def dict_bucket_def replaced_def generation_at_def dict_objects_set raised_names dict_objects_def
        split: if_split_asm)
  assume "dict_objects w k \<noteq> None"
  then show "0 < generation_at (dict_objects w) k"
    by (auto simp: dict_objects_def generation_at_def split: option.split_asm)
qed

lemma dict_bucket_serving: "serving dict_bucket dict_objects"
  unfolding serving_def
proof (intro allI conjI)
  fix k b and w :: "(string, body \<times> nat) dict"
  show "case dict_objects w k of
        None \<Rightarrow> (\<exists>e. bk_reload dict_bucket k w = (Inl e, w) \<and> raised_as ''NotFound'' e)
      | Some (b, g) \<Rightarrow> bk_reload dict_bucket k w = (Inr g, w) \<and> bk_download dict_bucket k g w = (Inr b, w)"
    by (auto simp: dict_bucket_def dict_objects_def raised_names split: option.split)
  show "\<exists>g' w'. bk_upload dict_bucket k b (generation_at (dict_objects w) k) w = (Inr g', w')"
    by (cases "dict_get w k") (auto simp: dict_bucket_def generation_at_def dict_objects_def)
qed

section \<open>Objects read back and write-once objects\<close>

text \<open>
  C30.  Round trip of the store: putting a value at the current generation succeeds, and reading
  the key then gives the value as JSON keeps it, with the generation of the write; putting at
  any other generation raises or fails but never changes the object.
\<close>

theorem put_reads_back:
  assumes gm: "generation_matched bk cur" and sv: "serving bk cur"
  shows "(\<exists>g' w'. store_put bk k v (generation_at (cur w) k) w = (Inr g', w')
      \<and> fst (store_json bk k dflt w') = Inr (json_plain v, g'))
    \<and> (g \<noteq> generation_at (cur w) k \<longrightarrow> cur (snd (store_put bk k v g w)) = cur w)"
proof (intro conjI impI)
  obtain g' w' where u: "bk_upload bk k (JsonBody (json_plain v)) (generation_at (cur w) k) w = (Inr g', w')"
    using sv unfolding serving_def by blast
  then have "cur w' k = Some (JsonBody (json_plain v), g')"
    using upload_facts(1) [OF gm u] by (simp add: replaced_def)
  with sv [unfolded serving_def, THEN spec, THEN spec, of k w']
  have "bk_reload bk k w' = (Inr g', w')" "bk_download bk k g' w' = (Inr (JsonBody (json_plain v)), w')"
    by simp_all
  then have "fst (store_json bk k dflt w') = Inr (json_plain v, g')"
    by (simp add: store_json_def store_read_def io_catch_def io_bind_def loads_def)
  moreover have "store_put bk k v (generation_at (cur w) k) w = (Inr g', w')"
    using u by (simp add: store_put_def store_write_def io_catch_def)
  ultimately show "\<exists>g' w'. store_put bk k v (generation_at (cur w) k) w = (Inr g', w')
      \<and> fst (store_json bk k dflt w') = Inr (json_plain v, g')" by blast
next
  assume "g \<noteq> generation_at (cur w) k"
  then have "\<not> replaced (cur w) k b g m' g2" for b m' g2 by (simp add: replaced_def)
  then show "cur (snd (store_put bk k v g w)) = cur w"
    using store_put_facts(2) [OF gm, of k v g w] by (metis prod.collapse)
qed

theorem put_reads_back_witness:
  "\<exists>g' w'. store_put dict_bucket ''k'' (VTuple [VInt 1]) 0 [] = (Inr g', w')
      \<and> fst (store_json dict_bucket ''k'' VNone w') = Inr (VList [VInt 1], g')"
  using put_reads_back [OF dict_bucket_matched dict_bucket_serving, of "''k''" "VTuple [VInt 1]" "[]" VNone 0]
  by (simp add: dict_objects_def generation_at_None)

text \<open>
  C31.  Write-once objects: when \<open>immutable\<close> returns, the key holds exactly the given bytes;
  an object that was already there is never replaced, whatever the bucket answers.
\<close>

theorem immutable_never_replaces:
  assumes gm: "generation_matched bk cur" and r: "store_immutable bk k b w = (r, w')"
  shows "(r = Inr () \<longrightarrow> (\<exists>g. cur w' k = Some (b, g))) \<and> (cur w k \<noteq> None \<longrightarrow> cur w' = cur w)"
proof -
  obtain x w1 where wr: "store_write bk k b 0 w = (x, w1)" by (cases "store_write bk k b 0 w")
  have kept: "cur w1 = cur w" if "cur w k \<noteq> None"
  proof -
    have "\<not> replaced (cur w) k b 0 (cur w1) g'" for g'
      using that generation_matchedD(4) [OF gm that] by (simp add: replaced_def)
    with store_write_facts [OF gm wr] show ?thesis by (cases x) auto
  qed
  show ?thesis
  proof (cases x)
    case (Inr g')
    with r wr have "r = Inr ()" "w' = w1" by (simp_all add: store_immutable_def io_catch_def)
    with store_write_facts(1) [OF gm wr Inr] kept show ?thesis by (auto simp: replaced_def)
  next
    case (Inl e)
    obtain y w2 where rd: "store_read bk k w1 = (y, w2)" by (cases "store_read bk k w1")
    have c: "cur w2 = cur w1" using store_read_facts(1) [OF gm rd] .
    have "w' = w1 \<and> r = Inl e \<or> w' = w2 \<and> (r = Inr () \<longrightarrow> (\<exists>g. y = Inr (Some b, g)))"
      using r wr Inl rd by (cases y) (auto simp: store_immutable_def io_catch_def split: if_split_asm)
    moreover have "\<exists>g. cur w2 k = Some (b, g)" if "y = Inr (Some b, g)" for g
      using store_read_facts(2) [OF gm rd that] c by simp
    ultimately show ?thesis using kept c by auto
  qed
qed

theorem immutable_never_replaces_witness:
  "fst (store_immutable dict_bucket ''raw/1.xml'' (RawBody ''new'') [(''raw/1.xml'', RawBody ''old'', 0)])
      = Inl (conflict ''immutable_content_mismatch'')
   \<and> dict_objects (snd (store_immutable dict_bucket ''raw/1.xml'' (RawBody ''new'') [(''raw/1.xml'', RawBody ''old'', 0)]))
      = dict_objects [(''raw/1.xml'', RawBody ''old'', 0)]"
proof -
  let ?w = "[(''raw/1.xml'', RawBody ''old'', 0)] :: (string, body \<times> nat) dict"
  obtain r w' where r: "store_immutable dict_bucket ''raw/1.xml'' (RawBody ''new'') ?w = (r, w')"
    by (cases "store_immutable dict_bucket ''raw/1.xml'' (RawBody ''new'') ?w")
  have "fst (store_immutable dict_bucket ''raw/1.xml'' (RawBody ''new'') ?w) = Inl (conflict ''immutable_content_mismatch'')"
    by code_simp
  with immutable_never_replaces [OF dict_bucket_matched r] r show ?thesis by (simp add: dict_objects_def)
qed

section \<open>The lease among many jobs\<close>

text \<open>
  Jobs interleave at their requests: a job looks, later replaces the generation it saw, may fail
  at either, works, releases, or is killed; the clock runs; anything may happen to other
  objects.  A job's \<open>now\<close> is the clock when it looked.
\<close>

record ('a, 'w) lease_state =
  lw_world :: 'w
  lw_now :: instant
  lw_looked :: "'a \<Rightarrow> (instant \<times> int) option"
  lw_held :: "'a \<Rightarrow> lease option"

inductive lease_step :: "'w bucket \<Rightarrow> ('w \<Rightarrow> objects) \<Rightarrow> string \<Rightarrow> ('a, 'w) lease_state \<Rightarrow> ('a, 'w) lease_state \<Rightarrow> bool"
  for bk cur key where
  tick: "lw_now s \<le> t \<Longrightarrow> lease_step bk cur key s (s\<lparr>lw_now := t\<rparr>)"
| look: "lw_held s a = None \<Longrightarrow> lease_look bk key (lw_now s) (lw_world s) = (Inr g, w)
    \<Longrightarrow> lease_step bk cur key s (s\<lparr>lw_world := w, lw_looked := (lw_looked s)(a := Some (lw_now s, g))\<rparr>)"
| look_fails: "lease_look bk key (lw_now s) (lw_world s) = (Inl e, w)
    \<Longrightarrow> lease_step bk cur key s (s\<lparr>lw_world := w, lw_looked := (lw_looked s)(a := None)\<rparr>)"
| claim: "lw_held s a = None \<Longrightarrow> lw_looked s a = Some (t, g)
    \<Longrightarrow> lease_claim bk key owner t g (lw_world s) = (Inr l, w)
    \<Longrightarrow> lease_step bk cur key s (s\<lparr>lw_world := w, lw_looked := (lw_looked s)(a := None), lw_held := (lw_held s)(a \<mapsto> l)\<rparr>)"
| claim_fails: "lw_held s a = None \<Longrightarrow> lw_looked s a = Some (t, g)
    \<Longrightarrow> lease_claim bk key owner t g (lw_world s) = (Inl e, w)
    \<Longrightarrow> lease_step bk cur key s (s\<lparr>lw_world := w, lw_looked := (lw_looked s)(a := None)\<rparr>)"
| release: "lw_held s a = Some l \<Longrightarrow> release bk key l (lw_now s) (lw_world s) = (r, w)
    \<Longrightarrow> lease_step bk cur key s (s\<lparr>lw_world := w, lw_held := (lw_held s)(a := None)\<rparr>)"
| crash: "lease_step bk cur key s (s\<lparr>lw_looked := (lw_looked s)(a := None), lw_held := (lw_held s)(a := None)\<rparr>)"
| elsewhere: "cur w key = cur (lw_world s) key \<Longrightarrow> lease_step bk cur key s (s\<lparr>lw_world := w\<rparr>)"

definition lease_start :: "'w \<Rightarrow> instant \<Rightarrow> ('a, 'w) lease_state" where
  "lease_start w now = \<lparr>lw_world = w, lw_now = now, lw_looked = (\<lambda>_. None), lw_held = (\<lambda>_. None)\<rparr>"

definition lease_reachable :: "'w bucket \<Rightarrow> ('w \<Rightarrow> objects) \<Rightarrow> string \<Rightarrow> ('a, 'w) lease_state \<Rightarrow> bool" where
  "lease_reachable bk cur key s \<longleftrightarrow> (\<exists>w now. (lease_step bk cur key)\<^sup>*\<^sup>* (lease_start w now) s)"

text \<open>The specification: a lock held by at most one job; it passes only when it is free.\<close>

definition holders :: "('a, 'w) lease_state \<Rightarrow> 'a set" where
  "holders s = {a. \<exists>l. lw_held s a = Some l \<and> lw_now s < le_expires l}"

definition lock_step :: "'a set \<Rightarrow> 'a set \<Rightarrow> bool" where
  "lock_step H H' \<longleftrightarrow> H' \<subseteq> H \<or> H = {} \<and> (\<exists>a. H' \<subseteq> {a})"

definition lease_inv :: "('w \<Rightarrow> objects) \<Rightarrow> string \<Rightarrow> ('a, 'w) lease_state \<Rightarrow> bool" where
  "lease_inv cur key s \<longleftrightarrow> (let m = cur (lw_world s); n = generation_at m key in
     (\<forall>a l. lw_held s a = Some l \<longrightarrow> valid_date (utc_date (le_expires l)) \<and> le_generation l \<le> n
        \<and> (le_generation l = n \<longrightarrow> m key = Some (JsonBody (lease_value l), n))
        \<and> (le_generation l < n \<longrightarrow> le_expires l \<le> lw_now s)
        \<and> (\<forall>b l'. lw_held s b = Some l' \<and> le_generation l' = le_generation l \<longrightarrow> b = a))
     \<and> (\<forall>a t g. lw_looked s a = Some (t, g) \<longrightarrow> t \<le> lw_now s \<and> g \<le> n
        \<and> (\<forall>b l. lw_held s b = Some l \<and> le_generation l = g \<longrightarrow> le_expires l \<le> t)))"

lemma json_plain_lease [simp]: "json_plain (lease_value l) = lease_value l"
  by (simp add: lease_value_def)

lemma expires_of_lease [simp]:
  "valid_date (utc_date (le_expires l)) \<Longrightarrow> expires_of (lease_value l) = Inr (le_expires l)"
  by (simp add: expires_of_def lease_value_def parse_iso_utc instant_of_def)

lemma lease_look_facts:
  assumes gm: "generation_matched bk cur" and r: "lease_look bk key now w = (r, w')"
  shows "cur w' = cur w"
    and "r = Inr g \<Longrightarrow> g = generation_at (cur w) key"
    and "r = Inr g \<Longrightarrow> cur w key = Some (JsonBody (lease_value l), n) \<Longrightarrow> valid_date (utc_date (le_expires l))
      \<Longrightarrow> le_expires l \<le> now"
proof -
  obtain x w1 where j: "store_json bk key (VDict []) w = (x, w1)" by (cases "store_json bk key (VDict []) w")
  have c: "cur w1 = cur w" by (rule store_json_keeps [OF gm j])
  have w': "w' = w1"
    using r j by (cases x) (auto simp: lease_look_def io_bind_def split: prod.split_asm if_split_asm sum.split_asm)
  then show "cur w' = cur w" using c by simp
  assume "r = Inr g"
  with r obtain v where v: "x = Inr (v, g)" and
      rest: "\<not> truthy v \<or> (\<exists>t. expires_of v = Inr t \<and> \<not> now < t)"
    using j by (cases x) (auto simp: lease_look_def io_bind_def split: prod.split_asm if_split_asm sum.split_asm)
  note f = store_json_facts [OF gm j [unfolded v]]
  show "g = generation_at (cur w) key" by (rule f(2))
  assume "cur w key = Some (JsonBody (lease_value l), n)" and val: "valid_date (utc_date (le_expires l))"
  with f(3) have "v = lease_value l" by auto
  moreover have "truthy (lease_value l)" by (simp add: lease_value_def)
  ultimately show "le_expires l \<le> now" using rest val by auto
qed

lemma lease_claim_facts:
  assumes gm: "generation_matched bk cur" and r: "lease_claim bk key owner t g w = (r, w')"
  shows "r = Inr l \<Longrightarrow> valid_date (utc_date (le_expires l)) \<and> replaced (cur w) key (JsonBody (lease_value l)) g (cur w') (le_generation l)"
    and "cur w' = cur w \<or> (\<exists>b g'. replaced (cur w) key b g (cur w') g')"
proof -
  let ?l = "\<lparr>le_owner = owner, le_expires = t + lease_minutes * minute, le_generation = g\<rparr>"
  obtain x w1 where p: "store_put bk key (lease_value ?l) g w = (x, w1)" by (cases "store_put bk key (lease_value ?l) g w")
  from store_put_facts(1) [OF gm p] r p
  show "r = Inr l \<Longrightarrow> valid_date (utc_date (le_expires l)) \<and> replaced (cur w) key (JsonBody (lease_value l)) g (cur w') (le_generation l)"
    by (cases x) (auto simp: lease_claim_def Let_def lease_value_def split: if_split_asm)
  show "cur w' = cur w \<or> (\<exists>b g'. replaced (cur w) key b g (cur w') g')"
    using store_put_facts(2) [OF gm p] r p
    by (cases x) (auto simp: lease_claim_def Let_def split: if_split_asm)
qed

lemma release_facts:
  assumes gm: "generation_matched bk cur" and r: "release bk key l now w = (r, w')"
  shows "cur w' = cur w \<or> (\<exists>b g'. replaced (cur w) key b (le_generation l) (cur w') g')"
proof -
  let ?v = "lease_value (l\<lparr>le_expires := now\<rparr>)"
  obtain x w1 where p: "store_put bk key ?v (le_generation l) w = (x, w1)" by (cases "store_put bk key ?v (le_generation l) w")
  then have "w' = w1" using r by (cases x) (auto simp: release_def)
  with store_put_facts(2) [OF gm p] show ?thesis by blast
qed

text \<open>A replacement at the seen generation can only meet expired leases.\<close>

lemma lease_invD:
  assumes "lease_inv cur key s"
  shows "lw_held s a = Some l \<Longrightarrow> valid_date (utc_date (le_expires l))"
    and "lw_held s a = Some l \<Longrightarrow> le_generation l \<le> generation_at (cur (lw_world s)) key"
    and "lw_held s a = Some l \<Longrightarrow> le_generation l = generation_at (cur (lw_world s)) key
      \<Longrightarrow> cur (lw_world s) key = Some (JsonBody (lease_value l), le_generation l)"
    and "lw_held s a = Some l \<Longrightarrow> le_generation l < generation_at (cur (lw_world s)) key \<Longrightarrow> le_expires l \<le> lw_now s"
    and "lw_held s a = Some l \<Longrightarrow> lw_held s b = Some l' \<Longrightarrow> le_generation l' = le_generation l \<Longrightarrow> b = a"
    and "lw_looked s a = Some (t, g) \<Longrightarrow> t \<le> lw_now s \<and> g \<le> generation_at (cur (lw_world s)) key"
    and "lw_looked s a = Some (t, g) \<Longrightarrow> lw_held s b = Some l \<Longrightarrow> le_generation l = g \<Longrightarrow> le_expires l \<le> t"
  using assms unfolding lease_inv_def Let_def by metis+

lemma lease_invI:
  assumes "\<And>a l. lw_held s a = Some l \<Longrightarrow> valid_date (utc_date (le_expires l))
        \<and> le_generation l \<le> generation_at (cur (lw_world s)) key
        \<and> (le_generation l = generation_at (cur (lw_world s)) key
            \<longrightarrow> cur (lw_world s) key = Some (JsonBody (lease_value l), le_generation l))
        \<and> (le_generation l < generation_at (cur (lw_world s)) key \<longrightarrow> le_expires l \<le> lw_now s)"
    and "\<And>a b l l'. lw_held s a = Some l \<Longrightarrow> lw_held s b = Some l' \<Longrightarrow> le_generation l' = le_generation l \<Longrightarrow> b = a"
    and "\<And>a t g. lw_looked s a = Some (t, g) \<Longrightarrow> t \<le> lw_now s \<and> g \<le> generation_at (cur (lw_world s)) key"
    and "\<And>a t g b l. lw_looked s a = Some (t, g) \<Longrightarrow> lw_held s b = Some l \<Longrightarrow> le_generation l = g \<Longrightarrow> le_expires l \<le> t"
  shows "lease_inv cur key s"
  unfolding lease_inv_def Let_def using assms by metis

text \<open>The world moved on to a larger generation, everyone who held the old one had expired or left.\<close>

lemma lease_inv_replaced:
  assumes inv: "lease_inv cur key s" and g: "g = generation_at (cur (lw_world s)) key"
    and rep: "replaced (cur (lw_world s)) key b g (cur w) g'"
    and held: "\<And>b l. lw_held s' b = Some l \<Longrightarrow> lw_held s b = Some l \<and> (le_generation l = g \<longrightarrow> le_expires l \<le> lw_now s)"
    and looked: "\<And>a x. lw_looked s' a = Some x \<Longrightarrow> lw_looked s a = Some x"
    and s': "lw_world s' = w" "lw_now s' = lw_now s"
  shows "lease_inv cur key s'"
proof (rule lease_invI, unfold s')
  have n: "generation_at (cur w) key = g'" "g < g'" using rep by (auto simp: replaced_def)
  fix a l
  assume a: "lw_held s' a = Some l"
  then have b: "lw_held s a = Some l" "le_generation l = g \<longrightarrow> le_expires l \<le> lw_now s" using held by blast+
  have le: "le_generation l \<le> g" using lease_invD(2) [OF inv b(1)] g by simp
  have "le_expires l \<le> lw_now s"
  proof (cases "le_generation l = g")
    case False
    with le lease_invD(4) [OF inv b(1)] g show ?thesis by simp
  qed (use b in simp)
  with n le lease_invD(1) [OF inv b(1)]
  show "valid_date (utc_date (le_expires l)) \<and> le_generation l \<le> generation_at (cur w) key
     \<and> (le_generation l = generation_at (cur w) key \<longrightarrow> cur w key = Some (JsonBody (lease_value l), le_generation l))
     \<and> (le_generation l < generation_at (cur w) key \<longrightarrow> le_expires l \<le> lw_now s)" by simp
next
  fix a b l l'
  assume "lw_held s' a = Some l" "lw_held s' b = Some l'" "le_generation l' = le_generation l"
  then show "b = a" using held lease_invD(5) [OF inv] by blast
next
  fix a t g1
  assume "lw_looked s' a = Some (t, g1)"
  then have "t \<le> lw_now s \<and> g1 \<le> g" using looked lease_invD(6) [OF inv] g by blast
  with rep show "t \<le> lw_now s \<and> g1 \<le> generation_at (cur w) key" by (auto simp: replaced_def)
next
  fix a t g1 b l
  assume "lw_looked s' a = Some (t, g1)" "lw_held s' b = Some l" "le_generation l = g1"
  then show "le_expires l \<le> t" using looked held lease_invD(7) [OF inv] by blast
qed

lemma lease_inv_same:
  assumes inv: "lease_inv cur key s" and c: "cur (lw_world s') key = cur (lw_world s) key" and n: "lw_now s \<le> lw_now s'"
    and held: "\<And>b l. lw_held s' b = Some l \<Longrightarrow> lw_held s b = Some l"
    and looked: "\<And>a x. lw_looked s' a = Some x \<Longrightarrow> lw_looked s a = Some x"
  shows "lease_inv cur key s'"
proof (rule lease_invI)
  have g: "generation_at (cur (lw_world s')) key = generation_at (cur (lw_world s)) key"
    using c by (simp add: generation_at_def)
  fix a l
  assume "lw_held s' a = Some l"
  then have h: "lw_held s a = Some l" by (rule held)
  have "le_expires l \<le> lw_now s \<Longrightarrow> le_expires l \<le> lw_now s'" using n by simp
  with lease_invD(1-4) [OF inv h]
  show "valid_date (utc_date (le_expires l)) \<and> le_generation l \<le> generation_at (cur (lw_world s')) key
     \<and> (le_generation l = generation_at (cur (lw_world s')) key
          \<longrightarrow> cur (lw_world s') key = Some (JsonBody (lease_value l), le_generation l))
     \<and> (le_generation l < generation_at (cur (lw_world s')) key \<longrightarrow> le_expires l \<le> lw_now s')"
    unfolding g c by blast
next
  fix a b l l'
  assume "lw_held s' a = Some l" "lw_held s' b = Some l'" "le_generation l' = le_generation l"
  then show "b = a" using held lease_invD(5) [OF inv] by blast
next
  fix a t g1
  assume "lw_looked s' a = Some (t, g1)"
  then have "t \<le> lw_now s \<and> g1 \<le> generation_at (cur (lw_world s)) key" using looked lease_invD(6) [OF inv] by blast
  with c n show "t \<le> lw_now s' \<and> g1 \<le> generation_at (cur (lw_world s')) key" by (simp add: generation_at_def)
next
  fix a t g1 b l
  assume "lw_looked s' a = Some (t, g1)" "lw_held s' b = Some l" "le_generation l = g1"
  then show "le_expires l \<le> t" using looked held lease_invD(7) [OF inv] by blast
qed

lemma claim_meets_free:
  assumes inv: "lease_inv cur key s" and l: "lw_looked s a = Some (t, g)"
    and g: "g = generation_at (cur (lw_world s)) key"
  shows "lw_held s b = Some l \<Longrightarrow> le_expires l \<le> lw_now s"
proof -
  assume b: "lw_held s b = Some l"
  show "le_expires l \<le> lw_now s"
  proof (cases "le_generation l = g")
    case True
    with lease_invD(7) [OF inv l b] lease_invD(6) [OF inv l] show ?thesis by simp
  next
    case False
    with lease_invD(2) [OF inv b] lease_invD(4) [OF inv b] g show ?thesis by simp
  qed
qed

lemma lease_inv_claim:
  assumes gm: "generation_matched bk cur" and inv: "lease_inv cur key s" and free: "lw_held s a = None"
    and looked: "lw_looked s a = Some (t, g)" and r: "lease_claim bk key owner t g (lw_world s) = (Inr l, w)"
  shows "lease_inv cur key (s\<lparr>lw_world := w, lw_looked := (lw_looked s)(a := None), lw_held := (lw_held s)(a \<mapsto> l)\<rparr>)"
    and "b \<noteq> a \<Longrightarrow> lw_held s b = Some l' \<Longrightarrow> le_expires l' \<le> lw_now s"
proof -
  have v: "valid_date (utc_date (le_expires l))"
    and rep: "replaced (cur (lw_world s)) key (JsonBody (lease_value l)) g (cur w) (le_generation l)"
    using lease_claim_facts(1) [OF gm r refl] by blast+
  then have g: "g = generation_at (cur (lw_world s)) key" and n: "generation_at (cur w) key = le_generation l"
    "g < le_generation l" "cur w key = Some (JsonBody (lease_value l), le_generation l)"
    by (auto simp: replaced_def)
  note freed = claim_meets_free [OF inv looked g]
  then show "b \<noteq> a \<Longrightarrow> lw_held s b = Some l' \<Longrightarrow> le_expires l' \<le> lw_now s" by blast
  let ?s1 = "s\<lparr>lw_world := w, lw_looked := (lw_looked s)(a := None)\<rparr>"
  have inv1: "lease_inv cur key ?s1"
    by (rule lease_inv_replaced [OF inv g rep]) (use freed in \<open>auto split: if_split_asm\<close>)
  have below: "le_generation l' \<le> g" if "lw_held s b = Some l'" for b l'
    using lease_invD(2) [OF inv that] g by simp
  show "lease_inv cur key (s\<lparr>lw_world := w, lw_looked := (lw_looked s)(a := None), lw_held := (lw_held s)(a \<mapsto> l)\<rparr>)"
  proof (rule lease_invI, goal_cases)
    case (1 b l')
    then show ?case using lease_invD(1-4) [OF inv1, of b l'] v n
      by (auto split: if_split_asm)
  next
    case (2 b c l1 l2)
    then show ?case using lease_invD(5) [OF inv, of b l1 c l2] below n by (fastforce split: if_split_asm)
  next
    case (3 b t1 g1)
    then show ?case using lease_invD(6) [OF inv1, of b t1 g1] by (auto split: if_split_asm)
  next
    case (4 b t1 g1 c l1)
    then have "lw_looked s b = Some (t1, g1)" by (auto split: if_split_asm)
    then have "g1 \<le> g" using lease_invD(6) [OF inv] g by blast
    with 4 n have "lw_held s c = Some l1" by (auto split: if_split_asm)
    with 4 show ?case using lease_invD(7) [OF inv \<open>lw_looked s b = Some (t1, g1)\<close>] by simp
  qed
qed

lemma lease_inv_look:
  assumes gm: "generation_matched bk cur" and inv: "lease_inv cur key s"
    and r: "lease_look bk key (lw_now s) (lw_world s) = (Inr g, w)"
  shows "lease_inv cur key (s\<lparr>lw_world := w, lw_looked := (lw_looked s)(a := Some (lw_now s, g))\<rparr>)"
proof (rule lease_invI, goal_cases)
  have c: "cur w = cur (lw_world s)" and g: "g = generation_at (cur (lw_world s)) key"
    using lease_look_facts(1,2) [OF gm r] by simp_all
  have seen: "le_expires l \<le> lw_now s" if "lw_held s b = Some l" "le_generation l = g" for b l
  proof -
    have "le_generation l = generation_at (cur (lw_world s)) key" using that(2) g by simp
    from lease_invD(3) [OF inv that(1) this] show ?thesis
      by (rule lease_look_facts(3) [OF gm r refl _ lease_invD(1) [OF inv that(1)]])
  qed
  {
    case (1 b l)
    then have h: "lw_held s b = Some l" by simp
    show ?case using lease_invD(1-4) [OF inv h] c by simp
  next
    case (2 b c l1 l2)
    then show ?case using lease_invD(5) [OF inv, of b l1 c l2] by simp
  next
    case (3 b t1 g1)
    then show ?case using lease_invD(6) [OF inv, of b t1 g1] c g by (auto split: if_split_asm)
  next
    case (4 b t1 g1 c l1)
    then show ?case using lease_invD(7) [OF inv, of b t1 g1 c l1] seen [of c l1] by (auto split: if_split_asm)
  }
qed

lemma lease_inv_step:
  assumes gm: "generation_matched bk cur" and st: "lease_step bk cur key s s'" and inv: "lease_inv cur key s"
  shows "lease_inv cur key s'"
  using st
proof cases
  case (tick t)
  show ?thesis unfolding tick(1) by (rule lease_inv_same [OF inv]) (use tick in simp_all)
next
  case (look a g w)
  show ?thesis unfolding look(1) by (rule lease_inv_look [OF gm inv look(3)])
next
  case (look_fails e w a)
  show ?thesis unfolding look_fails(1)
    by (rule lease_inv_same [OF inv]) (use lease_look_facts(1) [OF gm look_fails(2)] in \<open>auto split: if_split_asm\<close>)
next
  case (claim a t g owner l w)
  show ?thesis unfolding claim(1) by (rule lease_inv_claim(1) [OF gm inv claim(2-4)])
next
  case (claim_fails a t g owner e w)
  from lease_claim_facts(2) [OF gm claim_fails(4)] show ?thesis
  proof
    assume "cur w = cur (lw_world s)"
    then show ?thesis unfolding claim_fails(1) by (intro lease_inv_same [OF inv]) (auto split: if_split_asm)
  next
    assume "\<exists>b g'. replaced (cur (lw_world s)) key b g (cur w) g'"
    then obtain b g' where rep: "replaced (cur (lw_world s)) key b g (cur w) g'" by blast
    then have g: "g = generation_at (cur (lw_world s)) key" by (simp add: replaced_def)
    show ?thesis unfolding claim_fails(1)
      by (rule lease_inv_replaced [OF inv g rep])
        (use claim_meets_free [OF inv claim_fails(3) g] in \<open>auto split: if_split_asm\<close>)
  qed
next
  case (release a l r w)
  from release_facts [OF gm release(3)] show ?thesis
  proof
    assume "cur w = cur (lw_world s)"
    then show ?thesis unfolding release(1) by (intro lease_inv_same [OF inv]) (auto split: if_split_asm)
  next
    assume "\<exists>b g'. replaced (cur (lw_world s)) key b (le_generation l) (cur w) g'"
    then obtain b g' where rep: "replaced (cur (lw_world s)) key b (le_generation l) (cur w) g'" by blast
    then have g: "le_generation l = generation_at (cur (lw_world s)) key" by (simp add: replaced_def)
    have "b = a" if "lw_held s b = Some l'" "le_generation l' = le_generation l" for b l'
      using lease_invD(5) [OF inv release(2) that] .
    then show ?thesis unfolding release(1)
      by (intro lease_inv_replaced [OF inv g rep]) (auto split: if_split_asm)
  qed
next
  case (crash a)
  show ?thesis unfolding crash(1) by (rule lease_inv_same [OF inv]) (auto split: if_split_asm)
next
  case (elsewhere w)
  show ?thesis unfolding elsewhere(1) by (rule lease_inv_same [OF inv]) (use elsewhere in auto)
qed

lemma lease_inv_reachable:
  assumes gm: "generation_matched bk cur" and "lease_reachable bk cur key s"
  shows "lease_inv cur key s"
proof -
  obtain w now where "(lease_step bk cur key)\<^sup>*\<^sup>* (lease_start w now) s" using assms(2) by (auto simp: lease_reachable_def)
  then show ?thesis
  proof induction
    case base
    show ?case by (simp add: lease_inv_def lease_start_def Let_def)
  next
    case (step s1 s2)
    then show ?case using lease_inv_step [OF gm] by blast
  qed
qed

text \<open>
  C32.  The lease refines a lock: however the jobs interleave, are killed or meet failing
  requests, each step leaves the set of jobs with an unexpired lease as it is, shrinks it, or
  gives the free lock to one job.
\<close>

theorem lease_refines_lock:
  assumes gm: "generation_matched bk cur" and re: "lease_reachable bk cur key s" and st: "lease_step bk cur key s s'"
  shows "lock_step (holders s) (holders s')"
proof -
  note inv = lease_inv_reachable [OF gm re]
  show ?thesis using st
  proof cases
    case (claim a t g owner l w)
    have old: "\<not> lw_now s < le_expires l'" if "lw_held s b = Some l'" for b l'
      using lease_inv_claim(2) [OF gm inv claim(2-4), of b l'] that claim(2) by fastforce
    have "holders s = {}" using old by (simp add: holders_def)
    moreover have "holders s' \<subseteq> {a}" using old unfolding claim(1) holders_def by (auto split: if_split_asm)
    ultimately show ?thesis by (auto simp: lock_step_def)
  qed (auto simp: lock_step_def holders_def)
qed

text \<open>
  C33.  Fencing: at most one job has an unexpired lease, and when a job's \<open>check\<close> passes, its
  lease is unexpired, it is the object in the bucket, and no other job holds one.
\<close>

theorem checked_lease_is_sole:
  assumes gm: "generation_matched bk cur" and re: "lease_reachable bk cur key s" and a: "lw_held s a = Some l"
    and ok: "lease_check bk key l (lw_now s) (lw_world s) = (Inr (), w)"
  shows "holders s = {a} \<and> cur (lw_world s) key = Some (JsonBody (lease_value l), le_generation l) \<and> cur w = cur (lw_world s)"
proof -
  note inv = lease_inv_reachable [OF gm re]
  obtain v g w1 where v: "store_json bk key VNone (lw_world s) = (Inr (v, g), w1)"
    using ok by (auto simp: lease_check_def elim!: io_bind_InrE)
  with ok have g: "g = le_generation l" and w: "w = w1" and eq: "v_eq v (lease_value l)"
    and exp: "\<exists>t. expires_of v = Inr t \<and> \<not> t \<le> lw_now s"
    by (auto simp: lease_check_def io_bind_def split: if_split_asm sum.split_asm)
  note f = store_json_facts [OF gm v]
  have obj: "cur (lw_world s) key = Some (JsonBody (lease_value l), le_generation l)"
    using lease_invD(3) [OF inv a] f(2) g by simp
  with f(3) have "v = lease_value l" by auto
  with exp lease_invD(1) [OF inv a] have live: "lw_now s < le_expires l" by auto
  have only: "b = a" if b: "lw_held s b = Some l'" "lw_now s < le_expires l'" for b l'
  proof -
    have n: "generation_at (cur (lw_world s)) key = le_generation l" by (simp add: generation_at_def obj)
    have "le_generation l' \<le> le_generation l" using lease_invD(2) [OF inv b(1)] n by simp
    moreover have "\<not> le_generation l' < le_generation l"
      using lease_invD(4) [OF inv b(1)] b(2) unfolding n by linarith
    ultimately have "le_generation l' = le_generation l" by simp
    then show ?thesis using lease_invD(5) [OF inv a b(1)] by blast
  qed
  have "holders s \<subseteq> {a}" unfolding holders_def using only by blast
  moreover have "a \<in> holders s" using a live by (simp add: holders_def)
  ultimately have "holders s = {a}" by blast
  with obj f(1) show ?thesis unfolding w by blast
qed

text \<open>A run of two jobs over a dictionary: one takes the lease, the other meets it.\<close>

definition lease_key :: string where "lease_key = ''state/pull-lease.json''"

definition sample_instant :: instant where "sample_instant = wall_clock (Date 2026 11 3) 0"

definition first_lease :: lease where
  "first_lease = \<lparr>le_owner = ''job1'', le_expires = sample_instant + lease_minutes * minute, le_generation = 1\<rparr>"

definition leased_world :: "(string, body \<times> nat) dict" where
  "leased_world = [(lease_key, JsonBody (lease_value first_lease), 0)]"

definition looked_state :: "(nat, (string, body \<times> nat) dict) lease_state" where
  "looked_state = (lease_start [] sample_instant)\<lparr>lw_looked := (\<lambda>_. None)(1 := Some (sample_instant, 0))\<rparr>"

definition leased_state :: "(nat, (string, body \<times> nat) dict) lease_state" where
  "leased_state = (lease_start leased_world sample_instant)\<lparr>lw_held := (\<lambda>_. None)(1 \<mapsto> first_lease)\<rparr>"

lemma run_looks: "lease_look dict_bucket lease_key sample_instant [] = (Inr 0, [])"
  by code_simp

lemma run_claims: "lease_claim dict_bucket lease_key ''job1'' sample_instant 0 [] = (Inr first_lease, leased_world)"
  by code_simp

lemma run_checks: "lease_check dict_bucket lease_key first_lease sample_instant leased_world = (Inr (), leased_world)"
  by code_simp

lemma step_looks: "lease_step dict_bucket dict_objects lease_key (lease_start [] sample_instant) looked_state"
  using lease_step.look [of "lease_start [] sample_instant :: (nat, (string, body \<times> nat) dict) lease_state" 1 dict_bucket lease_key 0 "[]" dict_objects]
  by (simp add: looked_state_def lease_start_def run_looks)

lemma step_claims: "lease_step dict_bucket dict_objects lease_key looked_state leased_state"
  using lease_step.claim [of looked_state 1 sample_instant 0 dict_bucket lease_key "''job1''" first_lease leased_world dict_objects]
  by (simp add: looked_state_def leased_state_def lease_start_def run_claims)

lemma run_reachable:
  "lease_reachable dict_bucket dict_objects lease_key looked_state"
  "lease_reachable dict_bucket dict_objects lease_key leased_state"
  unfolding lease_reachable_def using step_looks step_claims by (meson rtranclp.simps)+

theorem lease_refines_lock_witness:
  "lock_step (holders looked_state) (holders leased_state) \<and> holders leased_state = {1}"
proof
  show "lock_step (holders looked_state) (holders leased_state)"
    by (rule lease_refines_lock [OF dict_bucket_matched run_reachable(1) step_claims])
  have "0 < lease_minutes * minute" by code_simp
  then show "holders leased_state = {1}"
    by (auto simp: holders_def leased_state_def lease_start_def first_lease_def)
qed

theorem checked_lease_is_sole_witness:
  "holders leased_state = {1} \<and> dict_objects leased_world lease_key = Some (JsonBody (lease_value first_lease), 1)"
proof -
  have "lw_held leased_state 1 = Some first_lease" "lw_now leased_state = sample_instant" "lw_world leased_state = leased_world"
    by (simp_all add: leased_state_def lease_start_def)
  with checked_lease_is_sole [OF dict_bucket_matched run_reachable(2), of 1 first_lease leased_world] run_checks
  show ?thesis by (simp add: first_lease_def)
qed

end
