(* ===== verification/FlexReport.thy ===== *)
theory FlexReport
  imports FlexStore "HOL-Library.Multiset"
begin

text \<open>
  The structural checks of a broker report (\<open>application/flex_daily/checks.py\<close>): whose accounts
  it speaks of, which sections, fields, dates and identities it must have, the exact residuals
  of its balances, the bridge from the previous day, and the comparison of a month with its
  days.  A report is an element tree; bytes that are not one (or that carry a document type or
  an entity declaration) are refused by \<open>_xml_root\<close> of \<open>application/ibkr_flex_source.py\<close>,
  except that it lets the parser's errors about the declared encoding through.
\<close>

section \<open>Fields\<close>

definition balance_sections :: "string list" where
  "balance_sections = [''CashReport'', ''EquitySummaryInBase'', ''InterestAccruals'', ''ConversionRates'']"

definition report_fields :: "(string \<times> string \<times> string list) list" where
  "report_fields = [
    (''OpenPositions'', ''OpenPosition'', [''conid'', ''currency'', ''position'', ''levelOfDetail'', ''reportDate'']),
    (''Trades'', ''Trade'', [''conid'', ''currency'', ''quantity'', ''tradeID'', ''originalTradeID'', ''levelOfDetail'', ''reportDate'']),
    (''Transfers'', ''Transfer'', [''conid'', ''currency'', ''quantity'', ''transactionID'', ''direction'', ''date'']),
    (''TradeTransfers'', ''TradeTransfer'', [''conid'', ''currency'', ''quantity'', ''tradeID'', ''originalTradeID'', ''direction'']),
    (''UnsettledTransfers'', ''UnsettledTransfer'', [''conid'', ''currency'', ''quantity'', ''transactionID'', ''stage'']),
    (''CorporateActions'', ''CorporateAction'', [''conid'', ''currency'', ''quantity'', ''transactionID'', ''reportDate'']),
    (''CashReport'', ''CashReportCurrency'', [''currency'', ''startingCash'', ''endingCash'', ''fromDate'', ''toDate'']),
    (''CashTransactions'', ''CashTransaction'', [''currency'', ''amount'', ''type'', ''dateTime'', ''transactionID'']),
    (''StmtFunds'', ''StatementOfFundsLine'', [''currency'', ''amount'', ''activityCode'', ''date'', ''transactionID'']),
    (''InterestAccruals'', ''InterestAccrualsCurrency'', [''currency'', ''fromDate'', ''toDate'', ''startingAccrualBalance'',
       ''interestAccrual'', ''accrualReversal'', ''endingAccrualBalance'']),
    (''OpenDividendAccruals'', ''OpenDividendAccrual'', [''conid'', ''currency'', ''quantity'', ''grossAmount'', ''netAmount'', ''tax'', ''fee'']),
    (''ChangeInDividendAccruals'', ''ChangeInDividendAccrual'', [''conid'', ''currency'', ''quantity'', ''grossAmount'', ''netAmount'',
       ''tax'', ''fee'', ''code'']),
    (''EquitySummaryInBase'', ''EquitySummaryByReportDateInBase'', [''currency'', ''reportDate'', ''total'']),
    (''ConversionRates'', ''ConversionRate'', [''fromCurrency'', ''toCurrency'', ''rate'', ''reportDate''])]"

definition number_fields :: "string list" where
  "number_fields = [''position'', ''quantity'', ''amount'', ''startingCash'', ''endingCash'', ''startingAccrualBalance'',
    ''interestAccrual'', ''accrualReversal'', ''endingAccrualBalance'', ''grossAmount'', ''netAmount'',
    ''tax'', ''fee'', ''total'', ''rate'']"

definition cash_fields :: "string list" where
  "cash_fields = [''clientFees'', ''commissions'', ''billableCommissions'', ''depositWithdrawals'',
    ''accountTransfers'', ''linkingAdjustments'', ''internalTransfers'', ''debitCardActivity'', ''billPay'',
    ''dividends'', ''brokerInterest'', ''bondInterest'', ''cashSettlingMtm'', ''netTradesSales'', ''netTradesPurchases'',
    ''otherFees'', ''advisorFees'', ''feesReceivables'', ''paymentInLieu'', ''transactionTax'', ''taxReceivables'',
    ''withholdingTax'', ''withholding871m'', ''fxTranslationGainLoss'', ''salesTax'', ''billableSalesTax'',
    ''brokerFees'', ''carbonCredits'', ''cfdCharges'', ''commissionCreditsRedemption'', ''donations'', ''excessFundSweep'',
    ''insuredDepositInterest'', ''ipoSubscription'', ''other'', ''otherIncome'', ''paxosTransfers'', ''realizedForexVm'',
    ''realizedVm'', ''referralFee'', ''withholdingCollectedTax'', ''slbNetSecuritiesLentActivity'']"

definition nav_fields :: "string list" where
  "nav_fields = [''mtm'', ''depositsWithdrawals'', ''internalCashTransfers'', ''assetTransfers'', ''dividends'',
    ''withholdingTax'', ''withholding871m'', ''changeInDividendAccruals'', ''interest'', ''changeInInterestAccruals'',
    ''advisorFees'', ''clientFees'', ''otherFees'', ''feesReceivables'', ''commissions'', ''commissionReceivables'',
    ''transactionTax'', ''taxReceivables'', ''salesTax'', ''softDollars'', ''netFxTrading'', ''fxTranslation'', ''linkingAdjustments'',
    ''other'', ''billPay'', ''billableSalesTax'', ''brokerFees'', ''carbonCredits'', ''changeInBrokerFeeAccruals'',
    ''changeInCGTWithholdingAccruals'', ''changeInIncentiveCouponAccruals'', ''changeInLiteSurchargeAccruals'',
    ''commissionCreditsRedemption'', ''commissionsAtPaxos'', ''corporateActionProceeds'', ''costAdjustments'',
    ''debitCardActivity'', ''donations'', ''excessFundSweep'', ''grantActivity'', ''mtmAtPaxos'', ''otherIncome'', ''paxosTransfers'',
    ''referralFee'', ''transferredPnlAdjustments'', ''withholdingTaxCollected'']"

section \<open>Numbers and scope\<close>

definition number :: "xml \<Rightarrow> string \<Rightarrow> rat res" where
  "number row field = (case attr row field of
      None \<Rightarrow> Inl (ValueError ''numeric_field_missing_or_invalid'')
    | Some t \<Rightarrow> (case decimal_of_text t of
        NotNumber \<Rightarrow> Inl (ValueError ''numeric_field_missing_or_invalid'')
      | NonFinite \<Rightarrow> Inl (ValueError ''numeric_field_nonfinite'')
      | Number x \<Rightarrow> Inr x))"

text \<open>\<open>FlexSourceError\<close> and \<open>ReportScopeError\<close> are subclasses of \<open>ValueError\<close>.\<close>

definition is_value_error :: "pyexn \<Rightarrow> bool" where
  "is_value_error e = (case e of ValueError _ \<Rightarrow> True
     | _ \<Rightarrow> raised_as ''FlexSourceError'' e \<or> raised_as ''ReportScopeError'' e)"

definition has_part :: "string \<Rightarrow> string \<Rightarrow> bool" where
  "has_part part s \<longleftrightarrow> list_ex (\<lambda>n. startswith (drop n s) part) [0..<Suc (length s)]"

definition unsupported :: "string \<Rightarrow> bool" where
  "unsupported b \<longleftrightarrow> b = [] \<or> has_part ''<!DOCTYPE'' (upper b) \<or> has_part ''<!ENTITY'' (upper b)"

definition lookup_error :: pyexn where
  "lookup_error = OtherError ''LookupError: unknown encoding''"

text \<open>
  What \<open>ElementTree.fromstring\<close> raises on a body that is no document: \<open>ParseError\<close>, or, for
  the encoding its declaration names, \<open>LookupError\<close> or a plain \<open>ValueError\<close>.
\<close>

definition parse_xml :: "body \<Rightarrow> xml res" where
  "parse_xml content = (case content of
      XmlBody e \<Rightarrow> Inr e
    | UnknownEncoding b \<Rightarrow> Inl lookup_error
    | MultiByteEncoding b \<Rightarrow> Inl (ValueError ''multi-byte encodings are not supported'')
    | _ \<Rightarrow> Inl (OtherError ''ParseError: ''))"

definition unsupported_body :: "body \<Rightarrow> bool" where
  "unsupported_body content = (case content of
      RawBody b \<Rightarrow> unsupported b | UnknownEncoding b \<Rightarrow> unsupported b | MultiByteEncoding b \<Rightarrow> unsupported b
    | _ \<Rightarrow> False)"

definition xml_root :: "body \<Rightarrow> xml res" where
  "xml_root content =
     (if unsupported_body content then Inl (OtherError ''FlexSourceError: xml'')
      else case parse_xml content of
          Inr e \<Rightarrow> Inr e
        | Inl x \<Rightarrow> (if raised_as ''ParseError'' x then Inl (OtherError ''FlexSourceError: xml'') else Inl x))"

lemma xml_root_xml [simp]: "xml_root (XmlBody e) = Inr e"
  by (simp add: xml_root_def unsupported_body_def parse_xml_def)

lemma xml_root_Inr: "xml_root b = Inr e \<longleftrightarrow> b = XmlBody e"
  by (auto simp: xml_root_def unsupported_body_def parse_xml_def split: body.split_asm if_split_asm)

definition scope_error :: "string \<Rightarrow> pyexn" where
  "scope_error m = OtherError (''ReportScopeError: '' @ m)"

definition statements_of :: "xml \<Rightarrow> xml list" where
  "statements_of doc = find_path doc ''FlexStatements'' ''FlexStatement''"

definition foreign_account :: "(string, string) dict \<Rightarrow> xml \<Rightarrow> bool" where
  "foreign_account accounts row = (case attr row ''accountId'' of
      None \<Rightarrow> False | Some a \<Rightarrow> a \<noteq> [] \<and> a \<notin> set (dict_keys accounts))"

definition require_account_scope :: "body \<Rightarrow> (string, string) dict \<Rightarrow> xml res" where
  "require_account_scope content accounts = res_bind (xml_root content) (\<lambda>doc.
     if tag_of doc \<noteq> ''FlexQueryResponse'' \<or> attr doc ''type'' \<noteq> Some ''AF'' then Inl (scope_error ''not_activity_report'')
     else let ids = List.map (\<lambda>s. attr s ''accountId'') (statements_of doc) in
       if ids = [] \<or> \<not> distinct ids \<or> \<not> list_all (\<lambda>i. i \<in> Some ` set (dict_keys accounts)) ids
       then Inl (scope_error ''account_scope_mismatch'')
       else if list_ex (foreign_account accounts) (iter doc) then Inl (scope_error ''unknown_nested_account'')
       else Inr doc)"

section \<open>Rows\<close>

definition row_date_issues :: "string \<Rightarrow> date \<Rightarrow> date \<Rightarrow> xml \<Rightarrow> string list" where
  "row_date_issues section start until row = concat (List.map (\<lambda>field. case attr row field of
      None \<Rightarrow> []
    | Some v \<Rightarrow> (case strptime_ymd v of
        None \<Rightarrow> [''row_date_invalid:'' @ section]
      | Some d \<Rightarrow> (if start \<le> d \<and> d \<le> until then [] else [''row_period_mismatch:'' @ section])))
    [''reportDate'', ''fromDate'', ''toDate''])"

definition row_identity :: "xml \<Rightarrow> string option" where
  "row_identity row = (if \<not> attr_blank row ''tradeID'' then attr row ''tradeID''
     else if \<not> attr_blank row ''transactionID'' then attr row ''transactionID'' else None)"

definition well_shaped :: "string \<Rightarrow> string list \<Rightarrow> xml \<Rightarrow> bool" where
  "well_shaped tag required row \<longleftrightarrow> tag_of row = tag \<and> children row = [] \<and> list_all (\<lambda>f. attr row f \<noteq> None) required"

definition identity_fields :: "string list" where
  "identity_fields = [''currency'', ''conid'', ''levelOfDetail'', ''fromCurrency'', ''toCurrency'']"

definition row_issues :: "string \<Rightarrow> string list \<Rightarrow> date \<Rightarrow> date \<Rightarrow> xml \<Rightarrow> string list" where
  "row_issues section required start until row =
     (if list_ex (\<lambda>f. f \<in> set required \<and> strip (attr_or row f []) = []) identity_fields
        then [''identity_field_empty:'' @ section] else [])
   @ row_date_issues section start until row
   @ (if section = ''OpenPositions'' \<and> undash (attr_or row ''reportDate'' []) \<noteq> compact_date until
        then [''position_snapshot_date_mismatch''] else [])
   @ (if list_all (\<lambda>f. case number row f of Inr _ \<Rightarrow> True | Inl _ \<Rightarrow> False) (filter (\<lambda>f. f \<in> set number_fields) required)
        then [] else [''numeric_invalid:'' @ section])
   @ (if section = ''OpenPositions'' \<and> attr row ''levelOfDetail'' \<noteq> Some ''SUMMARY'' then [''position_level_invalid''] else [])
   @ (if section = ''Trades'' \<and> (attr row ''levelOfDetail'' \<noteq> Some ''EXECUTION'' \<or> \<not> attr_blank row ''originalTradeID'')
        then [''trade_level_or_correction_requires_review''] else [])"

definition check_row ::
    "string \<Rightarrow> string \<Rightarrow> string list \<Rightarrow> date \<Rightarrow> date \<Rightarrow> xml \<Rightarrow> string list \<times> string list \<Rightarrow> string list \<times> string list" where
  "check_row section tag required start until row acc = (let (issues, seen) = acc in
     if \<not> well_shaped tag required row then (issues @ [''field_or_shape_missing:'' @ section], seen)
     else let more = row_issues section required start until row in
       case row_identity row of
         None \<Rightarrow> (issues @ more, seen)
       | Some i \<Rightarrow> (issues @ more @ (if i \<in> set seen then [''duplicate_identity:'' @ section] else []), i # seen))"

definition section_issues :: "string list \<Rightarrow> date \<Rightarrow> date \<Rightarrow> xml \<Rightarrow> string \<times> string \<times> string list \<Rightarrow> string list" where
  "section_issues configured start until statement spec = (let (section, tag, required) = spec in
     case find_all statement section of
       [c] \<Rightarrow> (if section \<notin> set configured then [''section_missing_or_unconfigured:'' @ section]
         else (if children c = [] \<and> section \<in> set balance_sections then [''balance_rows_missing:'' @ section] else [])
           @ fst (fold (check_row section tag required start until) (children c) ([], [])))
     | _ \<Rightarrow> [''section_missing_or_unconfigured:'' @ section])"

definition nav_issues :: "string list \<Rightarrow> date \<Rightarrow> date \<Rightarrow> xml \<Rightarrow> string list" where
  "nav_issues configured start until statement = (case find_all statement ''ChangeInNAV'' of
      [nav] \<Rightarrow> (if ''ChangeInNAV'' \<notin> set configured then [''section_missing_or_unconfigured:ChangeInNAV'']
        else if undash (attr_or nav ''fromDate'' []) \<noteq> compact_date start \<or> undash (attr_or nav ''toDate'' []) \<noteq> compact_date until
          \<or> attr_blank nav ''currency'' then [''nav_period_or_currency_unqualified''] else [])
    | _ \<Rightarrow> [''section_missing_or_unconfigured:ChangeInNAV''])"

section \<open>Residuals\<close>

text \<open>Names are filled in until computing one raises.\<close>

fun keep_until :: "(string \<times> rat res) list \<Rightarrow> (string, rat) dict \<Rightarrow> (string, rat) dict \<times> pyexn option" where
  "keep_until [] d = (d, None)"
| "keep_until ((k, Inl e) # rest) d = (d, Some e)"
| "keep_until ((k, Inr x) # rest) d = keep_until rest (dict_set d k x)"

definition indexed :: "string \<Rightarrow> nat \<Rightarrow> string" where
  "indexed prefix i = prefix @ int_text (int i)"

definition difference_less :: "rat res \<Rightarrow> rat res \<Rightarrow> rat res list \<Rightarrow> rat res" where
  "difference_less closing opening parts =
     res_bind closing (\<lambda>c. res_bind opening (\<lambda>b. res_bind (dec_sub c b) (\<lambda>x. res_bind (dec_sum parts) (dec_sub x))))"

definition cash_rows :: "xml \<Rightarrow> (nat \<times> xml) list" where
  "cash_rows statement = enumerate 0 (find_path statement ''CashReport'' ''CashReportCurrency'')"

definition cash_residuals :: "xml \<Rightarrow> (string \<times> rat res) list" where
  "cash_residuals statement = List.map (\<lambda>(i, row). (indexed ''cash_'' i,
      difference_less (number row ''endingCash'') (number row ''startingCash'') (List.map (number row) cash_fields)))
    (cash_rows statement)"

definition funds_residuals :: "string list \<Rightarrow> xml \<Rightarrow> (string \<times> rat res) list" where
  "funds_residuals configured statement = (case find_first statement ''StmtFunds'' of
      None \<Rightarrow> []
    | Some funds \<Rightarrow> (if ''StmtFunds'' \<notin> set configured then [] else
        List.map (\<lambda>(i, row). (indexed ''cash_funds_'' i,
            difference_less (number row ''endingCash'') (number row ''startingCash'')
              (List.map (\<lambda>r. number r ''amount'') (filter (\<lambda>r. attr r ''currency'' = attr row ''currency'') (children funds)))))
          (filter (\<lambda>(i, row). attr row ''currency'' \<noteq> Some ''BASE_SUMMARY'') (cash_rows statement))))"

definition nav_known :: "string list" where
  "nav_known = nav_fields @ [''accountId'', ''model'', ''currency'', ''fromDate'', ''toDate'', ''startingValue'',
     ''endingValue'', ''twr'', ''realized'', ''changeInUnrealized'', ''forexCommissions'']"

definition nav_residual :: "xml \<Rightarrow> rat res" where
  "nav_residual nav =
     res_bind (res_fold (\<lambda>f found. if found then Inr True else res_bind (number nav f) (\<lambda>x. Inr (x \<noteq> 0)))
         [''realized'', ''changeInUnrealized'', ''forexCommissions''] False) (\<lambda>overlap.
     if overlap then Inl (ValueError ''nav_overlap_unqualified'')
     else if \<not> list_all (\<lambda>k. k \<in> set nav_known) (dict_keys (attributes nav)) then Inl (ValueError ''nav_unknown_component'')
     else difference_less (number nav ''endingValue'') (number nav ''startingValue'') (List.map (number nav) nav_fields))"

definition nav_residuals :: "xml \<Rightarrow> (string \<times> rat res) list" where
  "nav_residuals statement = (case find_first statement ''ChangeInNAV'' of None \<Rightarrow> [] | Some nav \<Rightarrow> [(''nav'', nav_residual nav)])"

section \<open>The bridge from the previous day\<close>

definition add_balance :: "string \<Rightarrow> string \<Rightarrow> string \<Rightarrow> xml \<Rightarrow> (string, rat) dict \<Rightarrow> (string, rat) dict res" where
  "add_balance section key amount row d = (case attr row key of
      None \<Rightarrow> Inl (ValueError ''ambiguous_balance'')
    | Some i \<Rightarrow> (if i = [] \<or> i \<in> set (dict_keys d) then Inl (ValueError ''ambiguous_balance'')
        else if section = ''OpenPositions'' \<and> attr row ''levelOfDetail'' \<noteq> Some ''SUMMARY'' then Inl (ValueError ''position_level'')
        else res_bind (number row amount) (\<lambda>x. Inr (dict_set d i x))))"

definition balances :: "xml \<Rightarrow> string \<Rightarrow> string \<Rightarrow> string \<Rightarrow> string \<Rightarrow> (string, rat) dict res" where
  "balances statement section tag key amount = (case find_first statement section of
      None \<Rightarrow> Inl (ValueError ''opening_section_missing'')
    | Some c \<Rightarrow> res_fold (add_balance section key amount) (find_all c tag) [])"

definition cash_opening :: "(string, rat) dict \<Rightarrow> nat \<times> xml \<Rightarrow> (string, rat) dict \<Rightarrow> (string, rat) dict res" where
  "cash_opening opening_cash irow d = (let (i, row) = irow in
     case attr row ''currency'' of
       None \<Rightarrow> Inl (ValueError ''opening_currency_missing'')
     | Some c \<Rightarrow> (case dict_get opening_cash c of
         None \<Rightarrow> Inl (ValueError ''opening_currency_missing'')
       | Some b \<Rightarrow> res_bind (number row ''startingCash'') (\<lambda>x. res_bind (dec_sub x b) (\<lambda>r.
           Inr (dict_set d (indexed ''cash_opening_'' i) r)))))"

definition quantity_sections :: "(string \<times> string \<times> string) list" where
  "quantity_sections = [(''Trades'', ''Trade'', ''tradeID''), (''Transfers'', ''Transfer'', ''transactionID''),
     (''TradeTransfers'', ''TradeTransfer'', ''tradeID''), (''CorporateActions'', ''CorporateAction'', ''transactionID'')]"

type_synonym movements = "(string, rat) dict \<times> (string \<times> string) list"

definition add_movement :: "string \<Rightarrow> string \<Rightarrow> xml \<Rightarrow> movements \<Rightarrow> movements res" where
  "add_movement section identity_field row acc = (let (moved, seen) = acc in
     if attr row ''assetCategory'' = Some ''CASH'' then Inr (moved, seen)
     else if attr_blank row identity_field \<or> (identity_field, attr_or row identity_field []) \<in> set seen \<or> \<not> attr_blank row ''originalTradeID''
       then Inl (ValueError ''quantity_event_identity_unqualified'')
     else if section = ''Trades'' \<and> attr row ''levelOfDetail'' \<noteq> Some ''EXECUTION'' then Inl (ValueError ''trade_level'')
     else if attr_blank row ''conid'' then Inl (ValueError ''quantity_conid_missing'')
     else let conid = attr_or row ''conid'' [] in
       res_bind (number row ''quantity'') (\<lambda>q. res_bind (dec_add (dict_get_default moved conid 0) q) (\<lambda>s.
         Inr (dict_set moved conid s, (identity_field, attr_or row identity_field []) # seen))))"

definition add_movements :: "xml \<Rightarrow> string \<times> string \<times> string \<Rightarrow> movements \<Rightarrow> movements res" where
  "add_movements current spec acc = (let (section, tag, identity_field) = spec in
     case find_first current section of
       None \<Rightarrow> Inl (ValueError ''quantity_activity_missing'')
     | Some c \<Rightarrow> res_fold (add_movement section identity_field) (find_all c tag) acc)"

definition quantity_residual ::
    "(string, rat) dict \<Rightarrow> (string, rat) dict \<Rightarrow> (string, rat) dict \<Rightarrow> nat \<times> string \<Rightarrow> (string, rat) dict \<Rightarrow> (string, rat) dict res" where
  "quantity_residual before after moved ic d = (let (i, conid) = ic in
     res_bind (dec_sub (dict_get_default after conid 0) (dict_get_default before conid 0)) (\<lambda>x.
     res_bind (dec_sub x (dict_get_default moved conid 0)) (\<lambda>r. Inr (dict_set d (indexed ''quantity_observed_'' i) r))))"

definition nav_opening :: "xml \<Rightarrow> xml \<Rightarrow> (string, rat) dict \<Rightarrow> (string, rat) dict res" where
  "nav_opening previous current d = (case (find_first previous ''ChangeInNAV'', find_first current ''ChangeInNAV'') of
      (Some old, Some new) \<Rightarrow> res_bind (number new ''startingValue'') (\<lambda>x. res_bind (number old ''endingValue'') (\<lambda>y.
        res_bind (dec_sub x y) (\<lambda>r. Inr (dict_set d ''nav_opening'' r))))
    | _ \<Rightarrow> Inr d)"

definition opening_bridges :: "xml \<Rightarrow> xml \<Rightarrow> (string, rat) dict res" where
  "opening_bridges previous current =
     res_bind (balances previous ''CashReport'' ''CashReportCurrency'' ''currency'' ''endingCash'') (\<lambda>opening_cash.
     res_bind (res_fold (cash_opening opening_cash) (cash_rows current) []) (\<lambda>d1.
     res_bind (balances previous ''OpenPositions'' ''OpenPosition'' ''conid'' ''position'') (\<lambda>before.
     res_bind (balances current ''OpenPositions'' ''OpenPosition'' ''conid'' ''position'') (\<lambda>after.
     res_bind (res_fold (add_movements current) quantity_sections ([], [])) (\<lambda>(moved, _).
     res_bind (res_fold (quantity_residual before after moved)
       (enumerate 0 (sort (remdups (dict_keys before @ dict_keys after @ dict_keys moved)))) d1) (\<lambda>d2.
     nav_opening previous current d2))))))"

section \<open>Inspecting a report\<close>

record checked =
  ck_status :: string
  ck_issues :: "string list"
  ck_residuals :: "(string, rat) dict"
  ck_reconciliation :: string

definition missing_checked :: checked where
  "missing_checked = \<lparr>ck_status = ''missing'', ck_issues = [''account_missing''], ck_residuals = [], ck_reconciliation = ''partial''\<rparr>"

definition period_ok :: "date \<Rightarrow> date \<Rightarrow> xml \<Rightarrow> bool" where
  "period_ok start until s \<longleftrightarrow> undash (attr_or s ''fromDate'' []) = compact_date start
     \<and> undash (attr_or s ''toDate'' []) = compact_date until \<and> attr_blank s ''model'' \<and> \<not> attr_blank s ''whenGenerated''"

definition nested_ok :: "string \<Rightarrow> xml \<Rightarrow> bool" where
  "nested_ok account s \<longleftrightarrow> list_all (\<lambda>row. attr row ''accountId'' \<in> {None, Some [], Some account} \<and> attr_blank row ''model'') (iter s)"

definition structure_issues :: "string list \<Rightarrow> date \<Rightarrow> date \<Rightarrow> xml \<Rightarrow> string list" where
  "structure_issues configured start until s =
     (if strptime_stamp (attr_or s ''whenGenerated'' []) then [] else [''generation_format_unqualified''])
   @ concat (List.map (section_issues configured start until s) report_fields)
   @ nav_issues configured start until s"

definition own_residuals :: "string list \<Rightarrow> xml \<Rightarrow> (string, rat) dict \<times> pyexn option" where
  "own_residuals configured s =
     keep_until (cash_residuals s @ funds_residuals configured s @ nav_residuals s) []"

definition previous_statement :: "date \<Rightarrow> string \<Rightarrow> xml \<Rightarrow> xml option" where
  "previous_statement start account prev = (case filter (\<lambda>s. attr s ''accountId'' = Some account
       \<and> undash (attr_or s ''toDate'' []) = compact_date (add_days start (- 1))) (statements_of prev) of
     [] \<Rightarrow> None | s # _ \<Rightarrow> Some s)"

definition present :: "body option \<Rightarrow> body option" where
  "present b = (if b \<in> {Some (RawBody []), Some (UnknownEncoding []), Some (MultiByteEncoding [])} then None else b)"

text \<open>
  The residuals of the bridge and the issue it may add; errors other than \<open>ValueError\<close> are raised.
  The first day of the calendar has no day before it.
\<close>

definition bridge :: "date \<Rightarrow> string \<Rightarrow> xml \<Rightarrow> body option \<Rightarrow> ((string, rat) dict \<times> string list) res" where
  "bridge start account s previous_content = (case present previous_content of
      None \<Rightarrow> Inr ([], [])
    | Some b \<Rightarrow> res_bind (xml_root b) (\<lambda>prev. if start = Date 1 1 1 then Inl OverflowError
      else case previous_statement start account prev of
        None \<Rightarrow> Inr ([], [])
      | Some p \<Rightarrow> (case opening_bridges p s of
          Inr d \<Rightarrow> Inr (d, [])
        | Inl e \<Rightarrow> (if is_value_error e then Inr ([], [''opening_bridge_unqualified'']) else Inl e))))"

definition checked_of :: "string list \<Rightarrow> (string, rat) dict \<Rightarrow> checked" where
  "checked_of issues residuals =
     \<lparr>ck_status = (if issues = [] then ''complete'' else ''received''), ck_issues = sort (remdups issues),
      ck_residuals = residuals,
      ck_reconciliation = (if list_ex (\<lambda>x. x \<noteq> 0) (dict_values residuals) then ''difference'' else ''partial'')\<rparr>"

definition inspect_statement ::
    "date \<Rightarrow> date \<Rightarrow> string list \<Rightarrow> body option \<Rightarrow> string \<Rightarrow> xml \<Rightarrow> checked res" where
  "inspect_statement start until configured previous_content account s =
     (if \<not> period_ok start until s then Inl (ValueError ''period_model_or_generation_missing'')
      else if \<not> nested_ok account s then Inl (ValueError ''nested_scope_mismatch'')
      else let (own, err) = own_residuals configured s; issues = structure_issues configured start until s in
        case err of
          Some e \<Rightarrow>
            (if is_value_error e then
               res_bind (bridge start account s previous_content) (\<lambda>(d, more).
                 Inr (checked_of (issues @ [''reconciliation_fields_unqualified''] @ more) (dict_update own d)))
             else Inl e)
        | None \<Rightarrow>
            res_bind (bridge start account s previous_content) (\<lambda>(d, more).
              Inr (checked_of (issues @ more) (dict_update own d))))"

definition inspect_into ::
    "date \<Rightarrow> date \<Rightarrow> (string, string) dict \<Rightarrow> string list \<Rightarrow> body option \<Rightarrow> xml \<Rightarrow> (string, checked) dict \<Rightarrow> (string, checked) dict res" where
  "inspect_into start until accounts configured previous_content s results =
     (case attr s ''accountId'' of
        None \<Rightarrow> Inl (KeyError ''accountId'')
      | Some a \<Rightarrow> res_bind (inspect_statement start until configured previous_content a s) (\<lambda>c.
          case dict_get accounts a of None \<Rightarrow> Inl (KeyError a) | Some label \<Rightarrow> Inr (dict_set results label c)))"

definition inspect_report ::
    "body \<Rightarrow> date \<Rightarrow> date \<Rightarrow> (string, string) dict \<Rightarrow> string list \<Rightarrow> body option \<Rightarrow> (string, checked) dict res" where
  "inspect_report content start until accounts configured previous_content =
     res_bind (require_account_scope content accounts) (\<lambda>doc.
       res_fold (inspect_into start until accounts configured previous_content) (statements_of doc)
         (List.map (\<lambda>l. (l, missing_checked)) (fromkeys (dict_values accounts))))"

section \<open>A month and its days\<close>

definition activity_sections :: "string list" where
  "activity_sections = [''Trades'', ''Transfers'', ''TradeTransfers'', ''CorporateActions'', ''CashTransactions'', ''StmtFunds'',
     ''ChangeInDividendAccruals'']"

type_synonym activity_row = "string option \<times> string \<times> string \<times> (string \<times> string) list"

definition row_facts :: "xml \<Rightarrow> (string \<times> string) list" where
  "row_facts row = sort (filter (\<lambda>(k, v). k \<notin> {''whenGenerated'', ''fromDate'', ''toDate''}) (attributes row))"

definition statement_activity :: "xml \<Rightarrow> activity_row list" where
  "statement_activity s = concat (List.map (\<lambda>section. concat (List.map (\<lambda>c.
      List.map (\<lambda>row. (attr s ''accountId'', section, tag_of row, row_facts row)) (children c))
    (find_all s section))) activity_sections)"

definition activity_of :: "body \<Rightarrow> activity_row list res" where
  "activity_of payload = res_bind (xml_root payload) (\<lambda>doc. Inr (concat (List.map statement_activity (statements_of doc))))"

definition count_row :: "activity_row \<Rightarrow> (activity_row, nat) dict \<Rightarrow> (activity_row, nat) dict" where
  "count_row r d = dict_set d r (dict_get_default d r 0 + 1)"

definition count_rows :: "body list \<Rightarrow> (activity_row, nat) dict res" where
  "count_rows payloads = res_fold (\<lambda>p d. res_bind (activity_of p) (\<lambda>rows. Inr (fold count_row rows d))) payloads []"

text \<open>Counters are equal when every count is; a missing one counts as zero.\<close>

definition counter_eq :: "('k, nat) dict \<Rightarrow> ('k, nat) dict \<Rightarrow> bool" where
  "counter_eq a b \<longleftrightarrow> list_all (\<lambda>k. dict_get_default a k 0 = dict_get_default b k 0) (dict_keys a @ dict_keys b)"

definition compare_activity :: "body \<Rightarrow> body list \<Rightarrow> bool res" where
  "compare_activity monthly daily = res_bind (count_rows [monthly]) (\<lambda>a. res_bind (count_rows daily) (\<lambda>b. Inr (counter_eq a b)))"

datatype endpoint_key =
    NavKey "string option"
  | BalanceKey "string option" string string
  | PositionKey "string option" "string option" "string option"

type_synonym endpoints = "(endpoint_key, string option \<times> rat) dict"

definition put_balance :: "string option \<Rightarrow> string \<Rightarrow> string \<Rightarrow> string \<Rightarrow> xml \<Rightarrow> endpoints \<Rightarrow> endpoints res" where
  "put_balance account section identity amount row d =
     (if attr_blank row identity \<or> BalanceKey account section (attr_or row identity []) \<in> set (dict_keys d)
      then Inl (ValueError ''month_balance_ambiguous'')
      else res_bind (number row amount) (\<lambda>x. Inr (dict_set d (BalanceKey account section (attr_or row identity [])) (None, x))))"

definition put_balances :: "string option \<Rightarrow> xml \<Rightarrow> string \<times> string \<times> string \<times> string \<Rightarrow> endpoints \<Rightarrow> endpoints res" where
  "put_balances account s spec d = (let (section, tag, identity, amount) = spec in
     case find_first s section of
       None \<Rightarrow> Inl (ValueError ''month_balance_missing'')
     | Some c \<Rightarrow> (if children c = [] then Inl (ValueError ''month_balance_missing'')
         else res_fold (put_balance account section identity amount) (find_all c tag) d))"

definition put_position :: "string option \<Rightarrow> xml \<Rightarrow> endpoints \<Rightarrow> endpoints res" where
  "put_position account row d = (let key = PositionKey account (attr row ''conid'') (attr row ''currency'') in
     if key \<in> set (dict_keys d) \<or> attr row ''levelOfDetail'' \<noteq> Some ''SUMMARY'' then Inl (ValueError ''month_position_ambiguous'')
     else res_bind (number row ''position'') (\<lambda>x. Inr (dict_set d key (None, x))))"

definition put_statement :: "bool \<Rightarrow> xml \<Rightarrow> endpoints \<Rightarrow> endpoints res" where
  "put_statement opening s d = (let account = attr s ''accountId'' in
     case find_first s ''ChangeInNAV'' of
       None \<Rightarrow> Inl (ValueError ''month_nav_missing'')
     | Some nav \<Rightarrow>
         res_bind (number nav (if opening then ''startingValue'' else ''endingValue'')) (\<lambda>x.
         res_bind (res_fold (put_balances account s)
             [(''CashReport'', ''CashReportCurrency'', ''currency'', if opening then ''startingCash'' else ''endingCash''),
              (''InterestAccruals'', ''InterestAccrualsCurrency'', ''currency'',
                 if opening then ''startingAccrualBalance'' else ''endingAccrualBalance'')]
             (dict_set d (NavKey account) (attr nav ''currency'', x))) (\<lambda>d1.
         if opening then Inr d1
         else (case find_first s ''OpenPositions'' of
             None \<Rightarrow> Inl (ValueError ''month_position_missing'')
           | Some c \<Rightarrow> res_fold (put_position account) (find_all c ''OpenPosition'') d1))))"

definition endpoints_of :: "body \<Rightarrow> bool \<Rightarrow> endpoints res" where
  "endpoints_of payload opening = res_bind (xml_root payload) (\<lambda>doc. res_fold (put_statement opening) (statements_of doc) [])"

definition dict_eq :: "('k, 'v) dict \<Rightarrow> ('k, 'v) dict \<Rightarrow> bool" where
  "dict_eq a b \<longleftrightarrow> length a = length b \<and> list_all (\<lambda>(k, v). dict_get b k = Some v) a"

definition same_endpoints :: "body \<Rightarrow> body \<Rightarrow> bool \<Rightarrow> bool res" where
  "same_endpoints a b opening = res_bind (endpoints_of a opening) (\<lambda>x. res_bind (endpoints_of b opening) (\<lambda>y. Inr (dict_eq x y)))"

definition compare_month :: "body \<Rightarrow> body list \<Rightarrow> bool res" where
  "compare_month monthly daily =
     (if daily = [] then Inr False
      else res_bind (compare_activity monthly daily) (\<lambda>same.
        if \<not> same then Inr False
        else res_bind (same_endpoints monthly (hd daily) True) (\<lambda>opens.
          if \<not> opens then Inr False else same_endpoints monthly (last daily) False)))"

definition private_projection :: "body \<Rightarrow> pyval res" where
  "private_projection content = res_bind (parse_xml content) (\<lambda>e.
     Inr (VList (List.map (\<lambda>n. VDict [(''tag'', VStr (tag_of n)),
          (''attributes'', VDict (List.map (\<lambda>(k, v). (k, VStr v)) (attributes n)))]) (iter e))))"

section \<open>What a complete report is\<close>

lemma check_row_issues:
  "fst (fold (check_row section tag required start until) rows (issues, seen)) = [] \<Longrightarrow>
     issues = [] \<and> list_all (\<lambda>r. well_shaped tag required r \<and> row_issues section required start until r = []) rows
     \<and> distinct (List.map_filter row_identity rows) \<and> set (List.map_filter row_identity rows) \<inter> set seen = {}"
proof (induction rows arbitrary: issues seen)
  case Nil
  then show ?case by (simp add: List.map_filter_def)
next
  case (Cons r rows)
  obtain issues1 seen1 where step: "check_row section tag required start until r (issues, seen) = (issues1, seen1)"
    by (cases "check_row section tag required start until r (issues, seen)")
  from Cons.prems have "fst (fold (check_row section tag required start until) rows (issues1, seen1)) = []"
    by (simp add: step)
  note ih = Cons.IH [OF this]
  show ?case
  proof (cases "row_identity r")
    case None
    with step ih show ?thesis
      by (auto simp: check_row_def Let_def List.map_filter_simps split: if_split_asm)
  next
    case (Some i)
    with step ih show ?thesis
      by (auto simp: check_row_def Let_def List.map_filter_simps split: if_split_asm)
  qed
qed

text \<open>What \<open>complete\<close> promises of a row, of a section and of the net asset value.\<close>

definition row_sound :: "date \<Rightarrow> date \<Rightarrow> string \<times> string \<times> string list \<Rightarrow> xml \<Rightarrow> bool" where
  "row_sound start until spec row = (let (section, tag, required) = spec in
     tag_of row = tag \<and> children row = []
     \<and> list_all (\<lambda>f. attr row f \<noteq> None) required
     \<and> list_all (\<lambda>f. f \<in> set required \<longrightarrow> strip (attr_or row f []) \<noteq> [])
         [''currency'', ''conid'', ''levelOfDetail'', ''fromCurrency'', ''toCurrency'']
     \<and> list_all (\<lambda>f. f \<in> set number_fields \<longrightarrow> (\<exists>x. number row f = Inr x)) required
     \<and> list_all (\<lambda>f. \<forall>v. attr row f = Some v \<longrightarrow> (\<exists>d. strptime_ymd v = Some d \<and> start \<le> d \<and> d \<le> until))
         [''reportDate'', ''fromDate'', ''toDate'']
     \<and> (section = ''OpenPositions'' \<longrightarrow> attr row ''levelOfDetail'' = Some ''SUMMARY''
          \<and> undash (attr_or row ''reportDate'' []) = compact_date until)
     \<and> (section = ''Trades'' \<longrightarrow> attr row ''levelOfDetail'' = Some ''EXECUTION'' \<and> attr_blank row ''originalTradeID''))"

definition section_sound :: "string list \<Rightarrow> date \<Rightarrow> date \<Rightarrow> xml \<Rightarrow> string \<times> string \<times> string list \<Rightarrow> bool" where
  "section_sound configured start until s spec =
     (fst spec \<in> set configured \<and> (\<exists>c. find_all s (fst spec) = [c]
       \<and> (fst spec \<in> set balance_sections \<longrightarrow> children c \<noteq> [])
       \<and> list_all (row_sound start until spec) (children c)
       \<and> distinct (List.map_filter row_identity (children c))))"

definition nav_sound :: "string list \<Rightarrow> date \<Rightarrow> date \<Rightarrow> xml \<Rightarrow> bool" where
  "nav_sound configured start until s =
     (''ChangeInNAV'' \<in> set configured \<and> (\<exists>nav. find_all s ''ChangeInNAV'' = [nav]
       \<and> undash (attr_or nav ''fromDate'' []) = compact_date start \<and> undash (attr_or nav ''toDate'' []) = compact_date until
       \<and> \<not> attr_blank nav ''currency''))"

lemma nav_issues_none: "nav_issues configured start until s = [] \<Longrightarrow> nav_sound configured start until s"
  by (auto simp: nav_issues_def nav_sound_def split: list.split_asm if_split_asm)

lemma row_date_issues_none:
  "row_date_issues section start until row = [] \<Longrightarrow>
     list_all (\<lambda>f. \<forall>v. attr row f = Some v \<longrightarrow> (\<exists>d. strptime_ymd v = Some d \<and> start \<le> d \<and> d \<le> until))
       [''reportDate'', ''fromDate'', ''toDate'']"
  unfolding row_date_issues_def list_all_iff by (fastforce split: option.split_asm if_split_asm)

lemma row_issues_none:
  assumes "row_issues section required start until row = []" and "well_shaped tag required row"
  shows "row_sound start until (section, tag, required) row"
proof -
  have numeric: "list_all (\<lambda>f. case number row f of Inr _ \<Rightarrow> True | Inl _ \<Rightarrow> False) (filter (\<lambda>f. f \<in> set number_fields) required)"
    using assms(1) unfolding row_issues_def by (simp split: if_split_asm)
  have "\<exists>x. number row f = Inr x" if "f \<in> set required" "f \<in> set number_fields" for f
    using numeric that by (cases "number row f") (auto simp: list_all_iff)
  then have numbers: "list_all (\<lambda>f. f \<in> set number_fields \<longrightarrow> (\<exists>x. number row f = Inr x)) required"
    by (simp add: list_all_iff)
  have identity: "\<not> list_ex (\<lambda>f. f \<in> set required \<and> strip (attr_or row f []) = []) identity_fields"
    using assms(1) unfolding row_issues_def by (simp split: if_split_asm)
  have positions: "section = ''OpenPositions'' \<longrightarrow> attr row ''levelOfDetail'' = Some ''SUMMARY''
      \<and> undash (attr_or row ''reportDate'' []) = compact_date until"
    using assms(1) unfolding row_issues_def by (simp split: if_split_asm)
  have trades: "section = ''Trades'' \<longrightarrow> attr row ''levelOfDetail'' = Some ''EXECUTION'' \<and> attr_blank row ''originalTradeID''"
    using assms(1) unfolding row_issues_def by (simp split: if_split_asm)
  have dates: "row_date_issues section start until row = []" using assms(1) unfolding row_issues_def by simp
  show ?thesis
    using assms(2) numbers identity positions trades row_date_issues_none [OF dates]
    unfolding row_sound_def well_shaped_def by (simp add: identity_fields_def)
qed

lemma section_issues_none:
  assumes "section_issues configured start until s spec = []"
  shows "section_sound configured start until s spec"
proof -
  obtain "section" tag required where spec: "spec = (section, tag, required)" by (cases spec)
  obtain c where c: "find_all s section = [c]" "section \<in> set configured"
    "section \<in> set balance_sections \<longrightarrow> children c \<noteq> []"
    "fst (fold (check_row section tag required start until) (children c) ([], [])) = []"
    using assms by (auto simp: section_issues_def spec split: list.split_asm if_split_asm)
  from check_row_issues [OF c(4)]
  have rows: "list_all (\<lambda>r. well_shaped tag required r \<and> row_issues section required start until r = []) (children c)"
    "distinct (List.map_filter row_identity (children c))" by simp_all
  have "list_all (row_sound start until spec) (children c)"
    using rows(1) row_issues_none unfolding spec list_all_iff [of _ "children c"] by blast
  with c rows(2) show ?thesis unfolding section_sound_def by (simp add: spec)
qed

lemma checked_of_status [simp]:
  "ck_status (checked_of issues d) = (if issues = [] then ''complete'' else ''received'')"
  "ck_residuals (checked_of issues d) = d"
  by (simp_all add: checked_of_def)

lemma inspect_statement_facts:
  assumes "inspect_statement start until configured prev a s = Inr c"
  shows "period_ok start until s \<and> nested_ok a s
    \<and> (ck_status c = ''complete'' \<longrightarrow> structure_issues configured start until s = []
        \<and> (\<exists>own d. own_residuals configured s = (own, None) \<and> bridge start a s prev = Inr (d, [])
             \<and> ck_residuals c = dict_update own d))
    \<and> (\<exists>issues d. c = checked_of issues d)"
proof -
  obtain own err where own: "own_residuals configured s = (own, err)" by (cases "own_residuals configured s")
  show ?thesis
    using assms own by (cases err)
      (auto simp: inspect_statement_def Let_def res_bind_Inr_iff split: if_split_asm)
qed

definition inspected_from :: "date \<Rightarrow> date \<Rightarrow> (string, string) dict \<Rightarrow> string list \<Rightarrow> body option \<Rightarrow> xml list \<Rightarrow> string \<Rightarrow> checked \<Rightarrow> bool" where
  "inspected_from start until accounts configured prev ss label c \<longleftrightarrow> c = missing_checked
     \<or> (\<exists>s a. s \<in> set ss \<and> attr s ''accountId'' = Some a \<and> dict_get accounts a = Some label
         \<and> inspect_statement start until configured prev a s = Inr c)"

lemma inspect_fold:
  assumes "res_fold (inspect_into start until accounts configured prev) ss d0 = Inr d"
    and "\<And>label c. dict_get d0 label = Some c \<Longrightarrow> c = missing_checked"
    and "set (dict_values accounts) \<subseteq> set (dict_keys d0)"
  shows "dict_get d label = Some c \<Longrightarrow> inspected_from start until accounts configured prev ss label c"
    and "set (dict_keys d) = set (dict_keys d0)"
proof -
  have "(\<forall>label c. dict_get d label = Some c \<longrightarrow> inspected_from start until accounts configured prev ss label c)
      \<and> set (dict_keys d) = set (dict_keys d0)"
    using assms(1)
  proof (rule res_fold_rule)
    show "(\<forall>label c. dict_get d0 label = Some c \<longrightarrow> inspected_from start until accounts configured prev [] label c)
        \<and> set (dict_keys d0) = set (dict_keys d0)"
      using assms(2) by (auto simp: inspected_from_def)
    fix ys s zs d1 d2
    assume I: "(\<forall>label c. dict_get d1 label = Some c \<longrightarrow> inspected_from start until accounts configured prev ys label c)
        \<and> set (dict_keys d1) = set (dict_keys d0)"
      and step: "inspect_into start until accounts configured prev s d1 = Inr d2"
    then obtain a c label where a: "attr s ''accountId'' = Some a" "dict_get accounts a = Some label"
      "inspect_statement start until configured prev a s = Inr c" "d2 = dict_set d1 label c"
      by (auto simp: inspect_into_def res_bind_Inr_iff split: option.split_asm)
    have "label \<in> set (dict_keys d1)"
      using a(2) I assms(3) by (force simp: dict_values_def dest: map_of_SomeD)
    then have k: "set (dict_keys d2) = set (dict_keys d1)" using a(4) by (auto simp: dict_simps)
    have m: "inspected_from start until accounts configured prev ys l x \<Longrightarrow> inspected_from start until accounts configured prev (ys @ [s]) l x" for l x
      by (auto simp: inspected_from_def)
    show "(\<forall>label c. dict_get d2 label = Some c \<longrightarrow> inspected_from start until accounts configured prev (ys @ [s]) label c)
        \<and> set (dict_keys d2) = set (dict_keys d0)"
    proof (intro conjI allI impI)
      fix l x
      assume "dict_get d2 l = Some x"
      with a I m show "inspected_from start until accounts configured prev (ys @ [s]) l x"
        by (auto simp: inspected_from_def dict_simps split: if_split_asm)
    qed (use k I in simp)
  qed
  then show "dict_get d label = Some c \<Longrightarrow> inspected_from start until accounts configured prev ss label c"
    and "set (dict_keys d) = set (dict_keys d0)" by simp_all
qed

lemma scope_accepts:
  assumes "require_account_scope content accounts = Inr doc"
  shows "content = XmlBody doc" and "list_all (\<lambda>row. \<not> foreign_account accounts row) (iter doc)"
    and "s \<in> set (statements_of doc) \<Longrightarrow> \<exists>a. attr s ''accountId'' = Some a \<and> a \<in> set (dict_keys accounts)"
    and "distinct (List.map (\<lambda>s. attr s ''accountId'') (statements_of doc))" and "statements_of doc \<noteq> []"
  using assms by (auto simp: require_account_scope_def xml_root_Inr res_bind_Inr_iff Let_def list_all_iff list_ex_iff
      split: if_split_asm)

lemma inspect_report_facts:
  assumes "inspect_report content start until accounts configured prev = Inr res"
  obtains doc where "require_account_scope content accounts = Inr doc"
    and "\<And>label c. dict_get res label = Some c \<Longrightarrow> inspected_from start until accounts configured prev (statements_of doc) label c"
    and "set (dict_keys res) = set (dict_values accounts)"
proof -
  let ?d0 = "List.map (\<lambda>l. (l, missing_checked)) (fromkeys (dict_values accounts))"
  obtain doc where doc: "require_account_scope content accounts = Inr doc"
    "res_fold (inspect_into start until accounts configured prev) (statements_of doc) ?d0 = Inr res"
    using assms by (auto simp: inspect_report_def res_bind_Inr_iff)
  have keys: "set (dict_keys ?d0) = set (dict_values accounts)" by (simp add: dict_keys_def comp_def)
  have init: "c = missing_checked" if "dict_get ?d0 label = Some c" for label c
    using map_of_SomeD [OF that] by auto
  have sub: "set (dict_values accounts) \<subseteq> set (dict_keys ?d0)" using keys by simp
  have src: "inspected_from start until accounts configured prev (statements_of doc) label c" if "dict_get res label = Some c" for label c
    by (rule inspect_fold(1) [OF doc(2) _ sub that]) (rule init)
  have "set (dict_keys res) = set (dict_keys ?d0)"
    by (rule inspect_fold(2) [OF doc(2) _ sub]) (rule init)
  with keys have "set (dict_keys res) = set (dict_values accounts)" by simp
  then show ?thesis using that [OF doc(1) src] by blast
qed

text \<open>
  C34.  \<open>complete\<close> is earned: an account reported complete has a statement of its own in the
  report, for exactly the period asked for and with a generation time, in which every required
  section is configured and present once and every row is a leaf that has every field, no blank
  identity field, numbers that are numbers and dates in the period; positions are summaries of
  the last day, trades are executions and no corrections; no identity occurs twice in a section;
  the net asset value is there once, for the period and with a currency.  Every residual could
  be computed, those of the bridge from the previous day too, and they are the ones reported.
  Nothing in the whole report names another account.
\<close>

theorem complete_report_sound:
  assumes "inspect_report content start until accounts configured prev = Inr res"
    and "dict_get res label = Some c" and "ck_status c = ''complete''"
  shows "\<exists>doc s a own d. content = XmlBody doc \<and> s \<in> set (statements_of doc) \<and> attr s ''accountId'' = Some a
    \<and> dict_get accounts a = Some label \<and> period_ok start until s \<and> nested_ok a s
    \<and> strptime_stamp (attr_or s ''whenGenerated'' [])
    \<and> list_all (section_sound configured start until s) report_fields
    \<and> nav_sound configured start until s
    \<and> own_residuals configured s = (own, None) \<and> bridge start a s prev = Inr (d, [])
    \<and> ck_residuals c = dict_update own d
    \<and> list_all (\<lambda>row. \<not> foreign_account accounts row) (iter doc)"
proof -
  obtain doc where doc: "require_account_scope content accounts = Inr doc"
    and src: "inspected_from start until accounts configured prev (statements_of doc) label c"
    using inspect_report_facts [OF assms(1)] assms(2) by metis
  have "c \<noteq> missing_checked" using assms(3) by (auto simp: missing_checked_def)
  with src obtain s a where s: "s \<in> set (statements_of doc)" "attr s ''accountId'' = Some a" "dict_get accounts a = Some label"
    "inspect_statement start until configured prev a s = Inr c" by (auto simp: inspected_from_def)
  note f = inspect_statement_facts [OF s(4)]
  then have "structure_issues configured start until s = []" using assms(3) by simp
  then have "list_all (section_sound configured start until s) report_fields" "nav_sound configured start until s"
      "strptime_stamp (attr_or s ''whenGenerated'' [])"
    using section_issues_none nav_issues_none by (auto simp: structure_issues_def list_all_iff split: if_split_asm)
  with s f assms(3) scope_accepts(1,2) [OF doc] show ?thesis by metis
qed

definition checked_ok :: "checked \<Rightarrow> bool" where
  "checked_ok c \<longleftrightarrow> (ck_status c = ''complete'') = (ck_issues c = [])
     \<and> ck_status c \<in> {''missing'', ''received'', ''complete''} \<and> ck_reconciliation c \<in> {''difference'', ''partial''}"

lemma checked_ok_results: "checked_ok missing_checked" "checked_ok (checked_of issues d)"
proof -
  have "sort (remdups xs) = [] \<longleftrightarrow> xs = []" for xs :: "string list"
    by (metis remdups_eq_nil_iff set_empty set_sort)
  then show "checked_ok (checked_of issues d)" by (simp add: checked_ok_def checked_of_def)
qed (simp add: checked_ok_def missing_checked_def)

text \<open>
  C35.  The result has one entry for every configured account and no other, whatever the report
  contains; its status is missing, received or complete, and complete means no issue.
\<close>

theorem inspection_covers_accounts:
  assumes "inspect_report content start until accounts configured prev = Inr res"
  shows "set (dict_keys res) = set (dict_values accounts)
    \<and> list_all (\<lambda>l. case dict_get res l of None \<Rightarrow> False | Some c \<Rightarrow> checked_ok c) (dict_keys res)"
proof -
  obtain doc where src: "\<And>label c. dict_get res label = Some c
      \<Longrightarrow> inspected_from start until accounts configured prev (statements_of doc) label c"
    and keys: "set (dict_keys res) = set (dict_values accounts)"
    using inspect_report_facts [OF assms] by metis
  have ok: "checked_ok c" if "dict_get res l = Some c" for l c
  proof -
    have "c = missing_checked \<or> (\<exists>issues d. c = checked_of issues d)"
      using src [OF that] inspect_statement_facts unfolding inspected_from_def by blast
    then show ?thesis using checked_ok_results by blast
  qed
  have "case dict_get res l of None \<Rightarrow> False | Some c \<Rightarrow> checked_ok c" if "l \<in> set (dict_keys res)" for l
  proof (cases "dict_get res l")
    case None
    with that show ?thesis by (auto simp: map_of_eq_None_iff dict_keys_def)
  qed (use ok in simp)
  with keys show ?thesis by (simp add: list_all_iff)
qed

section \<open>Errors of the checks\<close>

definition expected_error :: "pyexn \<Rightarrow> bool" where
  "expected_error e \<longleftrightarrow> is_value_error e \<or> raised_as ''Overflow'' e"

definition expected :: "pyexn set \<Rightarrow> 'a res \<Rightarrow> bool" where
  "expected X r \<longleftrightarrow> (case r of Inl e \<Rightarrow> expected_error e \<or> e \<in> X | Inr _ \<Rightarrow> True)"

named_theorems expects "computations that raise only the expected errors"

lemma expected_simps [simp]: "expected X (Inl e) = (expected_error e \<or> e \<in> X)" "expected X (Inr x)"
  by (simp_all add: expected_def)

lemma expected_bind [expects]: "expected X m \<Longrightarrow> (\<And>x. m = Inr x \<Longrightarrow> expected X (f x)) \<Longrightarrow> expected X (res_bind m f)"
  by (cases m) (simp_all add: expected_def)

lemma expected_fold_in: "(\<And>x s. x \<in> set xs \<Longrightarrow> expected X (f x s)) \<Longrightarrow> expected X (res_fold f xs s)"
proof (induction xs arbitrary: s)
  case (Cons x xs)
  then show ?case by (cases "f x s") (simp_all, metis expected_simps(1))
qed simp

lemma expected_fold [expects]: "(\<And>x s. expected X (f x s)) \<Longrightarrow> expected X (res_fold f xs s)"
  by (rule expected_fold_in)

lemma expected_value_errors [simp]:
  "expected_error (ValueError m)" "expected_error (OtherError ''FlexSourceError: xml'')" "expected_error (scope_error m)"
  "expected_error (OtherError ''Overflow: '')"
  by (simp_all add: expected_error_def is_value_error_def scope_error_def raised_as_def startswith_def)

lemma number_expected [expects]: "expected X (number row f)"
  by (simp add: number_def split: option.split decimal_text.split)

lemma dec_expected [expects]: "expected X (dec_add a b)" "expected X (dec_sub a b)"
  by (simp_all add: dec_add_def dec_sub_def dec_round_def Let_def)

lemma dec_sum_expected: "(\<And>v. v \<in> set vs \<Longrightarrow> expected X v) \<Longrightarrow> expected X (dec_sum vs)"
  unfolding dec_sum_def by (rule expected_fold_in) (auto intro: expects)

lemma difference_expected:
  "expected X a \<Longrightarrow> expected X b \<Longrightarrow> (\<And>v. v \<in> set vs \<Longrightarrow> expected X v) \<Longrightarrow> expected X (difference_less a b vs)"
  unfolding difference_less_def by (intro expects dec_sum_expected)

lemma bridges_expected [expects]: "expected X (opening_bridges p s)"
  unfolding opening_bridges_def balances_def nav_opening_def
  by (intro expects; (simp split: option.split prod.split)?)
    (auto simp: add_balance_def cash_opening_def add_movements_def add_movement_def quantity_residual_def Let_def
      split: option.split prod.split intro!: expects)

lemma nav_residual_expected [expects]: "expected X (nav_residual nav)"
  unfolding nav_residual_def
  by (intro expects) (auto intro!: expects difference_expected)

lemma keep_until_expected:
  "(\<And>k v. (k, v) \<in> set steps \<Longrightarrow> expected {} v) \<Longrightarrow> snd (keep_until steps d) = Some e \<Longrightarrow> expected_error e"
proof (induction steps d rule: keep_until.induct)
  case (2 k e' rest d)
  then show ?case using "2.prems"(1) [of k "Inl e'"] by simp
qed auto

lemma own_residuals_expected: "own_residuals configured s = (d, Some e) \<Longrightarrow> expected_error e"
  unfolding own_residuals_def
proof (rule keep_until_expected [where d = "[]"])
  fix k v
  assume "(k, v) \<in> set (cash_residuals s @ funds_residuals configured s @ nav_residuals s)"
  then show "expected {} v"
    by (auto simp: cash_residuals_def funds_residuals_def nav_residuals_def split: option.split_asm if_split_asm
        intro!: difference_expected expects)
qed simp

text \<open>A body whose declared encoding the parser does not know, and what its reading may let through.\<close>

definition unknown_encoding :: "body \<Rightarrow> bool" where
  "unknown_encoding b = (case b of UnknownEncoding t \<Rightarrow> \<not> unsupported t | _ \<Rightarrow> False)"

definition let_through :: "body \<Rightarrow> date \<Rightarrow> body option \<Rightarrow> pyexn set" where
  "let_through content start prev =
     {e. e = lookup_error \<and> (unknown_encoding content \<or> pred_option unknown_encoding (present prev))
       \<or> e = OverflowError \<and> start = Date 1 1 1 \<and> present prev \<noteq> None}"

lemma xml_root_errors:
  "xml_root b = Inl e \<Longrightarrow> expected_error e \<or> e = lookup_error \<and> unknown_encoding b"
  by (auto simp: xml_root_def parse_xml_def unsupported_body_def unknown_encoding_def raised_as_def startswith_def
      split: body.split_asm if_split_asm)

lemma xml_root_expected: "(unknown_encoding b \<Longrightarrow> lookup_error \<in> X) \<Longrightarrow> expected X (xml_root b)"
  using xml_root_errors by (cases "xml_root b") auto

lemma bridge_expected [expects]: "expected (let_through content start prev) (bridge start account s prev)"
proof (cases "present prev")
  case (Some b)
  let ?X = "let_through content start prev"
  have "expected ?X (xml_root b)" by (rule xml_root_expected) (simp add: let_through_def Some)
  moreover have "expected ?X (case opening_bridges p s of Inr d \<Rightarrow> Inr (d, []) | Inl e \<Rightarrow> (if is_value_error e
      then Inr ([], [''opening_bridge_unqualified'']) else Inl e))" for p
    using bridges_expected [of ?X p s] by (cases "opening_bridges p s") simp_all
  moreover have "OverflowError \<in> ?X" if "start = Date 1 1 1" using that by (simp add: let_through_def Some)
  ultimately show ?thesis
    unfolding bridge_def Some by (auto split: option.split intro!: expected_bind)
qed (simp add: bridge_def)

lemma inspect_statement_expected [expects]:
  "expected (let_through content start prev) (inspect_statement start until configured prev a s)"
proof -
  obtain own err where own: "own_residuals configured s = (own, err)" by (cases "own_residuals configured s")
  have "expected_error e" if "err = Some e" for e using own_residuals_expected own that by blast
  with own show ?thesis
    unfolding inspect_statement_def by (auto simp: Let_def split: option.split intro!: expects)
qed

text \<open>
  C36.  The errors of the checks: whatever the report and the configuration, \<open>inspect_report\<close>
  raises a \<open>ValueError\<close> (of one of its classes), the \<open>Overflow\<close> signal of decimal arithmetic,
  a \<open>LookupError\<close> only when the report or the previous one declares an encoding the parser does
  not know, and \<open>OverflowError\<close> only for the day before the first of the calendar.  A report that
  declares an unknown encoding does raise the \<open>LookupError\<close>.
\<close>

theorem inspection_errors:
  "(inspect_report content start until accounts configured prev = Inl e \<longrightarrow>
      is_value_error e \<or> raised_as ''Overflow'' e
      \<or> e = lookup_error \<and> (unknown_encoding content \<or> pred_option unknown_encoding (present prev))
      \<or> e = OverflowError \<and> start = Date 1 1 1 \<and> present prev \<noteq> None)
   \<and> (unknown_encoding content \<longrightarrow> inspect_report content start until accounts configured prev = Inl lookup_error)"
proof (intro conjI impI)
  let ?X = "let_through content start prev"
  assume e: "inspect_report content start until accounts configured prev = Inl e"
  have "expected ?X (xml_root content)" by (rule xml_root_expected) (simp add: let_through_def)
  then have scope: "expected ?X (require_account_scope content accounts)"
    unfolding require_account_scope_def by (rule expected_bind) (auto simp: Let_def)
  have "expected ?X (inspect_report content start until accounts configured prev)"
    unfolding inspect_report_def
  proof (rule expected_bind [OF scope], rule expected_fold_in)
    fix doc s d
    assume doc: "require_account_scope content accounts = Inr doc" and s: "s \<in> set (statements_of doc)"
    obtain a label where "attr s ''accountId'' = Some a" "dict_get accounts a = Some label"
      using scope_accepts(3) [OF doc s] by (auto simp: dict_keys_def dest: weak_map_of_SomeI)
    then show "expected ?X (inspect_into start until accounts configured prev s d)"
      by (auto simp: inspect_into_def intro!: expects)
  qed
  with e show "is_value_error e \<or> raised_as ''Overflow'' e
      \<or> e = lookup_error \<and> (unknown_encoding content \<or> pred_option unknown_encoding (present prev))
      \<or> e = OverflowError \<and> start = Date 1 1 1 \<and> present prev \<noteq> None"
    by (auto simp: expected_error_def let_through_def)
next
  assume "unknown_encoding content"
  then have "xml_root content = Inl lookup_error"
    by (auto simp: unknown_encoding_def xml_root_def unsupported_body_def parse_xml_def lookup_error_def raised_as_def startswith_def
        split: body.split_asm)
  then show "inspect_report content start until accounts configured prev = Inl lookup_error"
    by (simp add: inspect_report_def require_account_scope_def)
qed

section \<open>Comparing activity\<close>

lemma count_row_get: "dict_get_default (count_row r d) x 0 = dict_get_default d x 0 + (if x = r then 1 else 0)"
  by (simp add: count_row_def dict_get_default_def)

lemma count_rows_fold: "dict_get_default (fold count_row rows d) x 0 = dict_get_default d x 0 + count (mset rows) x"
  by (induction rows arbitrary: d) (auto simp: count_row_get)

lemma count_rows_xml:
  "\<exists>d. count_rows (List.map XmlBody ps) = Inr d
     \<and> (\<forall>x. dict_get_default d x 0 = count (mset (concat (List.map (\<lambda>p. concat (List.map statement_activity (statements_of p))) ps))) x)"
proof -
  let ?act = "\<lambda>p. concat (List.map statement_activity (statements_of p))"
  have "\<exists>d. res_fold (\<lambda>p d. res_bind (activity_of p) (\<lambda>rows. Inr (fold count_row rows d))) (List.map XmlBody ps) d0 = Inr d
     \<and> (\<forall>x. dict_get_default d x 0 = dict_get_default d0 x 0 + count (mset (concat (List.map ?act ps))) x)" for d0
  proof (induction ps arbitrary: d0)
    case (Cons p ps)
    from Cons.IH [of "fold count_row (?act p) d0"] show ?case
      by (auto simp: activity_of_def xml_root_xml count_rows_fold)
  qed simp
  from this [of "[]"] show ?thesis by (simp add: count_rows_def dict_get_default_def)
qed

lemma counter_eq_iff: "counter_eq a b \<longleftrightarrow> (\<forall>x. dict_get_default a x 0 = dict_get_default b x 0)"
proof
  assume h: "counter_eq a b"
  show "\<forall>x. dict_get_default a x 0 = dict_get_default b x 0"
  proof
    fix x
    show "dict_get_default a x 0 = dict_get_default b x 0"
    proof (cases "x \<in> set (dict_keys a @ dict_keys b)")
      case True
      with h show ?thesis by (auto simp: counter_eq_def list_all_iff)
    next
      case False
      then have "dict_get a x = None" "dict_get b x = None" by (simp_all add: map_of_eq_None_iff dict_keys_def)
      then show ?thesis by (simp add: dict_get_default_def)
    qed
  qed
qed (simp add: counter_eq_def list_all_iff)

text \<open>
  C37.  Comparing a month with its days is equality of multisets of activity rows: true
  duplicates count, and neither the order of rows nor how they are spread over the days matters.
\<close>

theorem activity_compares_multisets:
  "compare_activity (XmlBody m) (List.map XmlBody ds) =
     Inr (mset (concat (List.map statement_activity (statements_of m)))
        = (\<Sum>d \<leftarrow> ds. mset (concat (List.map statement_activity (statements_of d)))))"
proof -
  obtain a where a: "count_rows [XmlBody m] = Inr a"
    "\<forall>x. dict_get_default a x 0 = count (mset (concat (List.map statement_activity (statements_of m)))) x"
    using count_rows_xml [of "[m]"] by auto
  obtain b where b: "count_rows (List.map XmlBody ds) = Inr b"
    "\<forall>x. dict_get_default b x 0 = count (mset (concat (List.map (\<lambda>p. concat (List.map statement_activity (statements_of p))) ds))) x"
    using count_rows_xml [of ds] by blast
  have "mset (concat (List.map f ds)) = (\<Sum>d \<leftarrow> ds. mset (f d))" for f :: "xml \<Rightarrow> activity_row list"
    by (induction ds) simp_all
  with a b show ?thesis
    by (simp add: compare_activity_def counter_eq_iff multiset_eq_iff)
qed

section \<open>A report of one quiet day\<close>

definition zeros :: "string list \<Rightarrow> (string, string) dict" where
  "zeros fs = List.map (\<lambda>f. (f, ''0'')) fs"

definition sample_row :: "string \<Rightarrow> (string, string) dict" where
  "sample_row section = (
     if section = ''CashReport'' then [(''currency'', ''USD''), (''startingCash'', ''100''), (''endingCash'', ''100''),
        (''fromDate'', ''20261103''), (''toDate'', ''20261103'')] @ zeros cash_fields
     else if section = ''InterestAccruals'' then [(''currency'', ''USD''), (''fromDate'', ''20261103''), (''toDate'', ''20261103''),
        (''startingAccrualBalance'', ''0''), (''interestAccrual'', ''0''), (''accrualReversal'', ''0''), (''endingAccrualBalance'', ''0'')]
     else if section = ''EquitySummaryInBase'' then [(''currency'', ''USD''), (''reportDate'', ''20261103''), (''total'', ''100'')]
     else [(''fromCurrency'', ''EUR''), (''toCurrency'', ''USD''), (''rate'', ''1.1''), (''reportDate'', ''20261103'')])"

definition sample_section :: "string \<times> string \<times> string list \<Rightarrow> xml" where
  "sample_section spec = (case spec of (section, tag, _) \<Rightarrow>
     Element section [] (if section \<in> set balance_sections then [Element tag (sample_row section) []] else []))"

definition sample_nav :: xml where
  "sample_nav = Element ''ChangeInNAV'' ([(''fromDate'', ''20261103''), (''toDate'', ''20261103''), (''currency'', ''USD''),
     (''startingValue'', ''100''), (''endingValue'', ''100''), (''realized'', ''0''), (''changeInUnrealized'', ''0''),
     (''forexCommissions'', ''0'')] @ zeros nav_fields) []"

definition sample_statement :: "string \<Rightarrow> xml" where
  "sample_statement account = Element ''FlexStatement'' [(''accountId'', account), (''fromDate'', ''20261103''),
     (''toDate'', ''20261103''), (''whenGenerated'', ''20261104;010000'')] (List.map sample_section report_fields @ [sample_nav])"

definition sample_report :: body where
  "sample_report = XmlBody (Element ''FlexQueryResponse'' [(''type'', ''AF'')]
     [Element ''FlexStatements'' [] [sample_statement ''U1'']])"

definition sample_accounts :: "(string, string) dict" where
  "sample_accounts = [(''U1'', ''account-1''), (''U2'', ''account-2'')]"

definition sample_sections :: "string list" where
  "sample_sections = List.map fst report_fields @ [''ChangeInNAV'']"

definition sample_checked :: "(string, checked) dict" where
  "sample_checked = [
     (''account-1'', \<lparr>ck_status = ''complete'', ck_issues = [], ck_residuals = [(''cash_0'', 0), (''cash_funds_0'', 0), (''nav'', 0)],
        ck_reconciliation = ''partial''\<rparr>),
     (''account-2'', missing_checked)]"

lemma zero_text: "decimal_of_text ''0'' = Number 0" "decimal_of_text ''100'' = Number 100" "decimal_of_text ''1.1'' = Number (11 / 10)"
  by code_simp+

lemma number_of_zero: "attr row f = Some ''0'' \<Longrightarrow> number row f = Inr 0"
  by (simp add: number_def zero_text)

lemma dec_sum_zeros: "list_all (\<lambda>v. v = Inr 0) vs \<Longrightarrow> dec_sum vs = Inr 0"
  unfolding dec_sum_def by (induction vs) (simp_all add: dec_add_def)

lemma indexed_zero: "indexed prefix 0 = prefix @ ''0''"
proof -
  have "int_text 0 = ''0''" by code_simp
  then show ?thesis by (simp add: indexed_def)
qed

lemma difference_of_zeros:
  "number a f = Inr x \<Longrightarrow> number b g = Inr x \<Longrightarrow> list_all (\<lambda>v. v = Inr 0) vs
   \<Longrightarrow> difference_less (number a f) (number b g) vs = Inr 0"
  using dec_sum_zeros [of vs] by (simp add: difference_less_def dec_sub_def)

definition cash_row :: xml where
  "cash_row = Element ''CashReportCurrency'' (sample_row ''CashReport'') []"

lemma sample_cash:
  "cash_rows (sample_statement a) = [(0, cash_row)]"
  "find_first (sample_statement a) ''StmtFunds'' = Some (Element ''StmtFunds'' [] [])"
  "find_first (sample_statement a) ''ChangeInNAV'' = Some sample_nav"
  by (simp_all add: cash_rows_def find_path_def find_first_def find_all_def sample_statement_def sample_section_def
      report_fields_def balance_sections_def sample_nav_def cash_row_def)

lemma sample_numbers:
  "list_all (\<lambda>f. attr cash_row f = Some ''0'') cash_fields"
  "list_all (\<lambda>f. attr sample_nav f = Some ''0'') (nav_fields @ [''realized'', ''changeInUnrealized'', ''forexCommissions''])"
  "list_all (\<lambda>k. k \<in> set nav_known) (dict_keys (attributes sample_nav))"
  by code_simp+

lemma sample_values:
  "number cash_row ''endingCash'' = Inr 100" "number cash_row ''startingCash'' = Inr 100" "attr cash_row ''currency'' = Some ''USD''"
  "number sample_nav ''endingValue'' = Inr 100" "number sample_nav ''startingValue'' = Inr 100"
  by (simp_all add: number_def attr_def cash_row_def sample_row_def sample_nav_def zero_text)

lemma zero_numbers: "list_all (\<lambda>f. attr row f = Some ''0'') fs \<Longrightarrow> list_all (\<lambda>v. v = Inr 0) (List.map (number row) fs)"
  by (induction fs) (simp_all add: number_of_zero)

lemma sample_own_residuals:
  "own_residuals sample_sections (sample_statement a) = ([(''cash_0'', 0), (''cash_funds_0'', 0), (''nav'', 0)], None)"
proof -
  have cash: "cash_residuals (sample_statement a) = [(''cash_0'', Inr 0)]"
    using difference_of_zeros [OF sample_values(1,2) zero_numbers [OF sample_numbers(1)]]
    by (simp add: cash_residuals_def sample_cash indexed_zero)
  have "''StmtFunds'' \<in> set sample_sections" by code_simp
  then have funds: "funds_residuals sample_sections (sample_statement a) = [(''cash_funds_0'', Inr 0)]"
    using difference_of_zeros [OF sample_values(1,2), of "[]"]
    by (simp add: funds_residuals_def sample_cash indexed_zero sample_values)
  have overlap: "number sample_nav ''realized'' = Inr 0" "number sample_nav ''changeInUnrealized'' = Inr 0"
    "number sample_nav ''forexCommissions'' = Inr 0"
    using sample_numbers(2) by (simp_all add: number_of_zero)
  have fields: "list_all (\<lambda>f. attr sample_nav f = Some ''0'') nav_fields" using sample_numbers(2) by simp
  have "nav_residual sample_nav = Inr 0"
    unfolding nav_residual_def using sample_numbers(3) difference_of_zeros [OF sample_values(4,5) zero_numbers [OF fields]]
    by (simp add: overlap)
  then have nav: "nav_residuals (sample_statement a) = [(''nav'', Inr 0)]"
    by (simp add: nav_residuals_def sample_cash)
  show ?thesis by (simp add: own_residuals_def cash funds nav)
qed

lemma sample_shape:
  "period_ok (Date 2026 11 3) (Date 2026 11 3) (sample_statement ''U1'')"
  "nested_ok ''U1'' (sample_statement ''U1'')"
  "structure_issues sample_sections (Date 2026 11 3) (Date 2026 11 3) (sample_statement ''U1'') = []"
  by code_simp+

definition sample_document :: xml where
  "sample_document = Element ''FlexQueryResponse'' [(''type'', ''AF'')] [Element ''FlexStatements'' [] [sample_statement ''U1'']]"

lemma sample_scope: "require_account_scope sample_report sample_accounts = Inr sample_document"
  by code_simp

lemma sample_inspected:
  "inspect_report sample_report (Date 2026 11 3) (Date 2026 11 3) sample_accounts sample_sections None = Inr sample_checked"
proof -
  have st: "statements_of sample_document = [sample_statement ''U1'']" "attr (sample_statement ''U1'') ''accountId'' = Some ''U1''"
    by (simp_all add: statements_of_def find_path_def find_all_def sample_document_def sample_statement_def attr_def)
  have "inspect_statement (Date 2026 11 3) (Date 2026 11 3) sample_sections None ''U1'' (sample_statement ''U1'')
      = Inr (checked_of [] [(''cash_0'', 0), (''cash_funds_0'', 0), (''nav'', 0)])"
    using sample_shape sample_own_residuals [of "''U1''"]
    by (simp add: inspect_statement_def bridge_def present_def dict_update_def)
  then show ?thesis
    by (simp add: inspect_report_def sample_scope [unfolded sample_accounts_def] st inspect_into_def sample_accounts_def
        sample_checked_def checked_of_def dict_values_def)
qed

theorem complete_report_sound_witness:
  "\<exists>doc s a own d. sample_report = XmlBody doc \<and> s \<in> set (statements_of doc) \<and> attr s ''accountId'' = Some a
    \<and> dict_get sample_accounts a = Some ''account-1'' \<and> period_ok (Date 2026 11 3) (Date 2026 11 3) s \<and> nested_ok a s
    \<and> strptime_stamp (attr_or s ''whenGenerated'' [])
    \<and> list_all (section_sound sample_sections (Date 2026 11 3) (Date 2026 11 3) s) report_fields
    \<and> nav_sound sample_sections (Date 2026 11 3) (Date 2026 11 3) s
    \<and> own_residuals sample_sections s = (own, None) \<and> bridge (Date 2026 11 3) a s None = Inr (d, [])
    \<and> ck_residuals (snd (hd sample_checked)) = dict_update own d
    \<and> list_all (\<lambda>row. \<not> foreign_account sample_accounts row) (iter doc)"
proof (rule complete_report_sound [OF sample_inspected])
  show "dict_get sample_checked ''account-1'' = Some (snd (hd sample_checked))" "ck_status (snd (hd sample_checked)) = ''complete''"
    by (simp_all add: sample_checked_def)
qed

theorem inspection_covers_accounts_witness:
  "set (dict_keys sample_checked) = {''account-1'', ''account-2''}
   \<and> list_all (\<lambda>l. case dict_get sample_checked l of None \<Rightarrow> False | Some c \<Rightarrow> checked_ok c) (dict_keys sample_checked)"
  using inspection_covers_accounts [OF sample_inspected] by (simp add: sample_accounts_def dict_values_def)

definition foreign_body :: body where
  "foreign_body = UnknownEncoding ''<?xml version=1.0 encoding=x-none?><FlexQueryResponse/>''"

theorem inspection_errors_witness:
  "inspect_report (RawBody ''<!DOCTYPE'') (Date 2026 11 3) (Date 2026 11 3) sample_accounts sample_sections None
      = Inl (OtherError ''FlexSourceError: xml'')
   \<and> is_value_error (OtherError ''FlexSourceError: xml'')
   \<and> inspect_report foreign_body (Date 2026 11 3) (Date 2026 11 3) sample_accounts sample_sections None = Inl lookup_error
   \<and> \<not> is_value_error lookup_error"
proof -
  have bad: "unsupported ''<!DOCTYPE''" by code_simp
  have e: "inspect_report (RawBody ''<!DOCTYPE'') (Date 2026 11 3) (Date 2026 11 3) sample_accounts sample_sections None
      = Inl (OtherError ''FlexSourceError: xml'')"
    by (simp add: inspect_report_def require_account_scope_def xml_root_def unsupported_body_def bad)
  have u: "unknown_encoding foreign_body" by code_simp
  have n: "\<not> is_value_error lookup_error" "\<not> raised_as ''Overflow'' (OtherError ''FlexSourceError: xml'')"
    "OtherError ''FlexSourceError: xml'' \<noteq> lookup_error" by code_simp+
  from inspection_errors [of "RawBody ''<!DOCTYPE''" "Date 2026 11 3" "Date 2026 11 3" sample_accounts sample_sections None
      "OtherError ''FlexSourceError: xml''"]
    inspection_errors [of foreign_body "Date 2026 11 3" "Date 2026 11 3" sample_accounts sample_sections None] e u n
  show ?thesis by simp
qed

end
