(* ===== verification/FlexForward.thy ===== *)
theory FlexForward
  imports FlexReport
begin

text \<open>
  Forward evidence (\<open>application/flex_daily/forward.py\<close>): the snapshot time of a statement, the
  anchor it makes, and which of its events fall between the previous anchor and this one.

  The time zone database, SHA-256 and the start of the forward period (midnight of
  \<open>FORWARD_START\<close> in New York) are parameters.  The evidence of an earlier day is stored as JSON;
  its times are read back as the instants they were written from (\<open>parse_iso_utc\<close>).
\<close>

section \<open>Configuration and environment\<close>

record forward_env =
  fv_zone :: "string \<Rightarrow> (instant \<Rightarrow> int) option"
  fv_boundary :: instant
  fv_sha :: "string \<Rightarrow> string"
  fv_digest :: "body \<Rightarrow> string"

record forward_config =
  fc_accounts :: "(string, string) dict"
  fc_forward_start :: "string option"
  fc_snapshot_time_field :: "string option"
  fc_snapshot_timezone_field :: "string option"
  fc_event_time_fields :: "(string, string) dict"

definition forward_start_text :: string where
  "forward_start_text = ''2026-11-03''"

definition validate_config :: "forward_config \<Rightarrow> unit res" where
  "validate_config c =
     (if fc_forward_start c \<noteq> Some forward_start_text then Inl (ValueError ''forward_start_invalid'')
      else if fc_snapshot_time_field c \<in> {Some ''whenGenerated'', Some ''fromDate'', Some ''toDate''}
        then Inl (ValueError ''snapshot_field_not_financial_asof'')
      else Inr ())"

definition event_sections :: "(string \<times> string) list" where
  "event_sections = [(''CashTransactions'', ''transactionID''), (''StmtFunds'', ''transactionID''), (''Trades'', ''tradeID''),
     (''Transfers'', ''transactionID''), (''TradeTransfers'', ''tradeID''), (''CorporateActions'', ''transactionID''),
     (''UnsettledTransfers'', ''transactionID''), (''OpenDividendAccruals'', ''transactionID''),
     (''ChangeInDividendAccruals'', ''transactionID'')]"

definition quantity_events :: "string list" where
  "quantity_events = [''Trades'', ''Transfers'', ''TradeTransfers'', ''CorporateActions'']"

text \<open>\<open>instant(value, zone)\<close>: an explicit offset is required, and it must be the zone's.\<close>

definition qualified_instant :: "string option \<Rightarrow> (instant \<Rightarrow> int) option \<Rightarrow> instant res" where
  "qualified_instant value zone = (case value of
      None \<Rightarrow> Inl (ValueError ''time_unqualified'')
    | Some s \<Rightarrow>
       (if CHR ''T'' \<notin> set s then Inl (ValueError ''time_unqualified'')
        else case parse_iso_datetime s of
          None \<Rightarrow> Inl (ValueError ''Invalid isoformat string'')
        | Some (w, None) \<Rightarrow> Inl (ValueError ''time_unqualified'')
        | Some (w, Some off) \<Rightarrow>
           (let t = w - off in
            if \<not> valid_date (utc_date t) then Inl OverflowError
            else case zone of
              None \<Rightarrow> Inr t
            | Some z \<Rightarrow> (if \<not> valid_date (utc_date (t + z t)) then Inl OverflowError
                else if off \<noteq> z t then Inl (ValueError ''offset_zone_mismatch'') else Inr t))))"

section \<open>Evidence\<close>

record event =
  ev_section :: string
  ev_facts :: "(string, string) dict"
  ev_eligibility :: string
  ev_effective :: "instant option"

record as_of =
  ao_native :: string
  ao_timezone :: string
  ao_utc :: instant
  ao_offset :: int

record evidence =
  fe_account_id :: "string option"
  fe_source_sha :: string
  fe_previous_sha :: "string option"
  fe_as_of :: "as_of option"
  fe_previous_cutoff :: "instant option"
  fe_capture_started :: instant
  fe_capture_finished :: instant
  fe_anchor_qualified :: bool
  fe_events :: "event list"
  fe_cash :: "(string, string option) dict list"
  fe_positions :: "(string, string) dict list"
  fe_seen :: "(string, string) dict"
  fe_issues :: "string list"

definition attr_of_field :: "xml \<Rightarrow> string option \<Rightarrow> string option" where
  "attr_of_field s f = (case f of None \<Rightarrow> None | Some k \<Rightarrow> attr s k)"

text \<open>The snapshot time of a statement; the errors that the code catches make it \<open>None\<close>.\<close>

definition snapshot_time ::
    "forward_env \<Rightarrow> forward_config \<Rightarrow> xml \<Rightarrow> instant \<Rightarrow> instant \<Rightarrow> as_of res" where
  "snapshot_time e c s capture_start capture_end =
     (case attr_of_field s (fc_snapshot_timezone_field c) of
        None \<Rightarrow> Inl (TypeError ''zone'')
      | Some zone_name \<Rightarrow> (case fv_zone e zone_name of
          None \<Rightarrow> Inl (ValueError ''ZoneInfoNotFoundError'')
        | Some z \<Rightarrow>
            res_bind (qualified_instant (attr_of_field s (fc_snapshot_time_field c)) (Some z)) (\<lambda>cutoff.
              if \<not> (fv_boundary e \<le> cutoff \<and> cutoff \<le> capture_end) \<or> capture_end < capture_start
              then Inl (ValueError ''snapshot_outside_forward_capture'')
              else (case strptime_ymd (undash (attr_or s ''toDate'' [])) of
                  None \<Rightarrow> Inl (ValueError ''strptime'')
                | Some d \<Rightarrow> (if utc_date (cutoff + z cutoff) \<noteq> d then Inl (ValueError ''snapshot_report_day_mismatch'')
                    else Inr \<lparr>ao_native = the (attr_of_field s (fc_snapshot_time_field c)), ao_timezone = zone_name,
                           ao_utc = cutoff, ao_offset = z cutoff\<rparr>)))))"

definition caught :: "'a res \<Rightarrow> 'a option res" where
  "caught r = (case r of Inr x \<Rightarrow> Inr (Some x)
     | Inl e \<Rightarrow> (if is_value_error e \<or> (case e of TypeError _ \<Rightarrow> True | KeyError _ \<Rightarrow> True | _ \<Rightarrow> False) then Inr None else Inl e))"

definition cash_fact :: "xml \<Rightarrow> (string, string option) dict" where
  "cash_fact row = [(''currency'', attr row ''currency''), (''definition'', Some ''endingCash''), (''closing'', attr row ''endingCash''),
     (''settled'', attr row ''endingSettledCash''),
     (''settled_definition'', if attr row ''endingSettledCash'' = None then None else Some ''endingSettledCash'')]"

definition native_cash_rows :: "xml \<Rightarrow> xml list" where
  "native_cash_rows s = filter (\<lambda>r. attr r ''currency'' \<noteq> Some ''BASE_SUMMARY'') (find_path s ''CashReport'' ''CashReportCurrency'')"

definition cash_issues :: "xml \<Rightarrow> string list" where
  "cash_issues row = (if attr row ''endingSettledCash'' \<noteq> None \<and> (case number row ''endingSettledCash'' of Inl _ \<Rightarrow> True | Inr _ \<Rightarrow> False)
     then [''settled_cash_unqualified''] else [])"

definition position_issues :: "xml \<Rightarrow> string list" where
  "position_issues row = (if attr row ''assetCategory'' \<noteq> Some ''STK'' then [''instrument_coverage_unqualified''] else [])"

section \<open>Events\<close>

record scan =
  sc_events :: "event list"
  sc_index :: "(string, nat) dict"
  sc_seen :: "(string, string) dict"
  sc_issues :: "string list"

definition flag :: "string \<Rightarrow> scan \<Rightarrow> scan" where
  "flag i sc = sc\<lparr>sc_issues := sc_issues sc @ [i]\<rparr>"

definition upd_event :: "nat \<Rightarrow> (event \<Rightarrow> event) \<Rightarrow> scan \<Rightarrow> scan" where
  "upd_event n f sc = sc\<lparr>sc_events := (sc_events sc)[n := f (sc_events sc ! n)]\<rparr>"

definition event_key :: "event \<Rightarrow> string" where
  "event_key v = ev_section v @ '':'' @ (case dict_get event_sections (ev_section v) of None \<Rightarrow> []
     | Some f \<Rightarrow> dict_get_default (ev_facts v) f [])"

definition fingerprint :: "forward_env \<Rightarrow> xml \<Rightarrow> string" where
  "fingerprint e row = fv_sha e (json_sorted (VDict (List.map (\<lambda>(k, v). (k, VStr v)) (attributes row))))"

definition corrected :: "xml \<Rightarrow> bool" where
  "corrected row \<longleftrightarrow> list_ex (\<lambda>k. \<not> attr_blank row k) [''originalTradeID'', ''originalTransactionID'', ''origTradeID'', ''origTransactionID'']"

text \<open>The effective time of an event, from the configured field of its section.\<close>

definition event_time :: "forward_config \<Rightarrow> string \<Rightarrow> xml \<Rightarrow> instant res" where
  "event_time c section row = (case dict_get (fc_event_time_fields c) section of
      None \<Rightarrow> Inl (ValueError ''event_time_semantics_unqualified'')
    | Some f \<Rightarrow> (if f = [] \<or> f \<in> {''whenGenerated'', ''reportDate''} then Inl (ValueError ''event_time_semantics_unqualified'')
        else res_bind (number row (if section \<in> set quantity_events then ''quantity'' else ''amount'')) (\<lambda>_.
          qualified_instant (attr row f) None)))"

text \<open>An event with a time, whose index is \<open>n\<close>: where it lies between the anchors.\<close>

definition place_event ::
    "forward_env \<Rightarrow> instant option \<Rightarrow> instant option \<Rightarrow> string \<Rightarrow> string \<Rightarrow> nat \<Rightarrow> instant \<Rightarrow> scan \<Rightarrow> scan" where
  "place_event e cutoff lo key fp n effective sc =
     (let known = dict_get (sc_seen sc) key; mark = (\<lambda>w. upd_event n (\<lambda>v. v\<lparr>ev_eligibility := w\<rparr>) sc) in
      if known \<noteq> None \<and> known \<noteq> Some fp then flag ''event_revision_unqualified'' sc
      else if effective < fv_boundary e then mark ''excluded_pre_start''
      else case (cutoff, lo) of
        (Some c, Some l) \<Rightarrow>
          (if effective \<le> l then mark ''excluded_before_or_at_previous''
           else if c < effective then mark ''excluded_after_current''
           else if known \<noteq> None then mark ''duplicate_observation''
           else (mark ''selected'')\<lparr>sc_seen := dict_set (sc_seen sc) key fp\<rparr>)
      | _ \<Rightarrow> flag ''event_interval_unqualified'' sc)"

definition event_step ::
    "forward_env \<Rightarrow> forward_config \<Rightarrow> instant option \<Rightarrow> instant option \<Rightarrow> string \<times> string \<times> xml \<Rightarrow> scan \<Rightarrow> scan res" where
  "event_step e c cutoff lo item sc0 = (let (section, identity_field, row) = item;
       identity = attr_or row identity_field []; key = section @ '':'' @ identity; n = length (sc_events sc0);
       sc = sc0\<lparr>sc_events := sc_events sc0 @ [\<lparr>ev_section = section, ev_facts = attributes row,
          ev_eligibility = ''unknown'', ev_effective = None\<rparr>]\<rparr> in
     if identity = [] then Inr (flag ''event_identity_missing'' sc)
     else case dict_get (sc_index sc) key of
       Some i \<Rightarrow> Inr (flag ''event_identity_duplicate'' (upd_event i (\<lambda>v. v\<lparr>ev_eligibility := ''unknown''\<rparr>) sc))
     | None \<Rightarrow>
       (let sc = sc\<lparr>sc_index := dict_set (sc_index sc) key n\<rparr> in
        if corrected row then Inr (flag ''correction_linkage_unqualified'' sc)
        else if strip (attr_or row ''currency'' []) = [] \<or> attr row ''currency'' = Some ''BASE_SUMMARY''
          then Inr (flag ''event_currency_unqualified'' sc)
        else if section \<in> set quantity_events \<and> (attr_blank row ''conid'' \<or> attr row ''assetCategory'' \<noteq> Some ''STK'')
          then Inr (flag ''instrument_coverage_unqualified'' sc)
        else case event_time c section row of
          Inl x \<Rightarrow> (if is_value_error x then Inr (flag ''event_effective_time_or_amount_unqualified'' sc) else Inl x)
        | Inr effective \<Rightarrow>
            Inr (place_event e cutoff lo key (fingerprint e row) n effective
              (upd_event n (\<lambda>v. v\<lparr>ev_effective := Some effective\<rparr>) sc))))"

definition event_items :: "xml \<Rightarrow> (string \<times> string \<times> xml) list" where
  "event_items s = concat (List.map (\<lambda>(section, idf). List.map (\<lambda>row. (section, idf, row))
     (concat (List.map children (find_all s section)))) event_sections)"

section \<open>Qualification\<close>

text \<open>The previous cutoff that a qualified anchor gives, and the issues about it.\<close>

definition previous_cutoff :: "forward_env \<Rightarrow> instant option \<Rightarrow> evidence option \<Rightarrow> instant option \<times> string list" where
  "previous_cutoff e cutoff prior = (case prior of
      None \<Rightarrow> (None, [''opening_snapshot_missing''])
    | Some p \<Rightarrow>
       (if \<not> fe_anchor_qualified p then (None, [''opening_snapshot_missing''])
        else case (fe_as_of p, cutoff) of
          (Some a, Some c) \<Rightarrow> (if ao_utc a < fv_boundary e \<or> c \<le> ao_utc a
             then (None, [''previous_anchor_unqualified'', ''opening_snapshot_missing'']) else (Some (ao_utc a), []))
        | _ \<Rightarrow> (None, [''previous_anchor_unqualified'', ''opening_snapshot_missing''])))"

definition own_prior :: "xml \<Rightarrow> evidence option \<Rightarrow> evidence option" where
  "own_prior s prior = (case prior of None \<Rightarrow> None
     | Some p \<Rightarrow> (if fe_account_id p = attr s ''accountId'' then Some p else None))"

definition qualify_statement ::
    "forward_env \<Rightarrow> forward_config \<Rightarrow> body \<Rightarrow> checked \<Rightarrow> evidence option \<Rightarrow> instant \<Rightarrow> instant \<Rightarrow> xml \<Rightarrow> evidence res" where
  "qualify_statement e c content ck prior0 capture_start capture_end s =
     (let prior = own_prior s prior0 in
      res_bind (caught (snapshot_time e c s capture_start capture_end)) (\<lambda>snapshot.
      let cutoff = map_option ao_utc snapshot;
          cash = native_cash_rows s; positions = find_path s ''OpenPositions'' ''OpenPosition'';
          issues = (if snapshot = None then [''snapshot_time_unqualified''] else [])
            @ concat (List.map cash_issues cash) @ concat (List.map position_issues positions);
          structural = (ck_status ck = ''complete'' \<and> ck_reconciliation ck \<noteq> ''difference'');
          anchor = (cutoff \<noteq> None \<and> structural \<and> issues = []);
          (lo, more) = previous_cutoff e cutoff prior;
          seen = (case prior of None \<Rightarrow> [] | Some p \<Rightarrow> fe_seen p) in
      res_bind (res_fold (event_step e c cutoff lo) (event_items s)
          \<lparr>sc_events = [], sc_index = [], sc_seen = seen, sc_issues = issues @ more\<rparr>) (\<lambda>sc.
        Inr \<lparr>fe_account_id = attr s ''accountId'', fe_source_sha = fv_digest e content,
             fe_previous_sha = map_option fe_source_sha prior, fe_as_of = snapshot, fe_previous_cutoff = lo,
             fe_capture_started = capture_start, fe_capture_finished = capture_end, fe_anchor_qualified = anchor,
             fe_events = sc_events sc, fe_cash = List.map cash_fact cash, fe_positions = List.map attributes positions,
             fe_seen = sc_seen sc, fe_issues = sort (remdups (sc_issues sc))\<rparr>)))"

definition qualify_into ::
    "forward_env \<Rightarrow> forward_config \<Rightarrow> body \<Rightarrow> (string, checked) dict \<Rightarrow> (string, evidence) dict \<Rightarrow> instant \<Rightarrow> instant
      \<Rightarrow> xml \<Rightarrow> (string, evidence) dict \<Rightarrow> (string, evidence) dict res" where
  "qualify_into e c content checks previous capture_start capture_end s d =
     (case attr s ''accountId'' of None \<Rightarrow> Inl (KeyError ''accountId'')
      | Some a \<Rightarrow> (case dict_get (fc_accounts c) a of None \<Rightarrow> Inl (KeyError a)
        | Some label \<Rightarrow> (case dict_get checks label of None \<Rightarrow> Inl (KeyError label)
          | Some ck \<Rightarrow> res_bind (qualify_statement e c content ck (dict_get previous label) capture_start capture_end s)
              (\<lambda>ev. Inr (dict_set d label ev)))))"

definition qualify ::
    "forward_env \<Rightarrow> body \<Rightarrow> forward_config \<Rightarrow> (string, checked) dict \<Rightarrow> (string, evidence) dict \<Rightarrow> instant \<Rightarrow> instant
      \<Rightarrow> (string, evidence) dict res" where
  "qualify e content c checks previous capture_start capture_end =
     res_bind (require_account_scope content (fc_accounts c)) (\<lambda>doc.
       res_fold (qualify_into e c content checks previous capture_start capture_end) (statements_of doc) [])"

section \<open>Selection\<close>

definition selected :: "event \<Rightarrow> bool" where
  "selected v \<longleftrightarrow> ev_eligibility v = ''selected''"

text \<open>What makes a selected event legitimate: its time lies between the anchors and is in scope.\<close>

definition between :: "forward_env \<Rightarrow> instant option \<Rightarrow> instant option \<Rightarrow> event \<Rightarrow> bool" where
  "between e cutoff lo v \<longleftrightarrow> (\<exists>t c l. ev_effective v = Some t \<and> cutoff = Some c \<and> lo = Some l \<and> l < t \<and> t \<le> c \<and> fv_boundary e \<le> t)"

definition scan_ok :: "forward_env \<Rightarrow> instant option \<Rightarrow> instant option \<Rightarrow> (string, string) dict \<Rightarrow> scan \<Rightarrow> bool" where
  "scan_ok e cutoff lo seen0 sc \<longleftrightarrow>
     (\<forall>key i. dict_get (sc_index sc) key = Some i \<longrightarrow> i < length (sc_events sc))
   \<and> (\<forall>i < length (sc_events sc). selected (sc_events sc ! i) \<longrightarrow>
        dict_get (sc_index sc) (event_key (sc_events sc ! i)) = Some i \<and> between e cutoff lo (sc_events sc ! i)
        \<and> dict_get seen0 (event_key (sc_events sc ! i)) = None \<and> dict_get (sc_seen sc) (event_key (sc_events sc ! i)) \<noteq> None)
   \<and> (\<forall>k. dict_get seen0 k \<noteq> None \<longrightarrow> dict_get (sc_seen sc) k = dict_get seen0 k)"

lemma scan_okD:
  assumes "scan_ok e cutoff lo seen0 sc"
  shows "dict_get (sc_index sc) key = Some i \<Longrightarrow> i < length (sc_events sc)"
    and "i < length (sc_events sc) \<Longrightarrow> selected (sc_events sc ! i) \<Longrightarrow>
        dict_get (sc_index sc) (event_key (sc_events sc ! i)) = Some i \<and> between e cutoff lo (sc_events sc ! i)
        \<and> dict_get seen0 (event_key (sc_events sc ! i)) = None \<and> dict_get (sc_seen sc) (event_key (sc_events sc ! i)) \<noteq> None"
    and "dict_get seen0 k \<noteq> None \<Longrightarrow> dict_get (sc_seen sc) k = dict_get seen0 k"
  using assms unfolding scan_ok_def by blast+

lemma scan_ok_flag [simp]: "scan_ok e cutoff lo seen0 (flag i sc) = scan_ok e cutoff lo seen0 sc"
  by (simp add: scan_ok_def flag_def)

lemma scan_ok_append:
  assumes ok: "scan_ok e cutoff lo seen0 sc" and v: "\<not> selected v"
  shows "scan_ok e cutoff lo seen0 (sc\<lparr>sc_events := sc_events sc @ [v]\<rparr>)"
  unfolding scan_ok_def using scan_okD [OF ok] v by (auto simp: nth_append less_Suc_eq)

lemma scan_ok_index:
  assumes ok: "scan_ok e cutoff lo seen0 sc" and "dict_get (sc_index sc) key = None" and "n < length (sc_events sc)"
  shows "scan_ok e cutoff lo seen0 (sc\<lparr>sc_index := dict_set (sc_index sc) key n\<rparr>)"
  unfolding scan_ok_def using scan_okD [OF ok] assms(2,3) by (auto simp: dict_simps)

text \<open>Changing an event that is not selected afterwards.\<close>

lemma scan_ok_upd:
  assumes ok: "scan_ok e cutoff lo seen0 sc" and "\<not> selected (f (sc_events sc ! n))"
  shows "scan_ok e cutoff lo seen0 (upd_event n f sc)"
proof (cases "n < length (sc_events sc)")
  case True
  then show ?thesis
    unfolding scan_ok_def upd_event_def using scan_okD [OF ok] assms(2)
    by (auto simp: nth_list_update split: if_split_asm)
next
  case False
  with ok show ?thesis by (simp add: upd_event_def scan_ok_def)
qed

lemma scan_ok_select:
  assumes ok: "scan_ok e cutoff lo seen0 sc" and n: "n < length (sc_events sc)"
    and key: "event_key (sc_events sc ! n) = key" "dict_get (sc_index sc) key = Some n"
    and bt: "between e cutoff lo (sc_events sc ! n)" and fresh: "dict_get (sc_seen sc) key = None"
  shows "scan_ok e cutoff lo seen0
     ((upd_event n (\<lambda>v. v\<lparr>ev_eligibility := ''selected''\<rparr>) sc)\<lparr>sc_seen := dict_set (sc_seen sc) key fp\<rparr>)"
proof -
  have k: "event_key (v\<lparr>ev_eligibility := w\<rparr>) = event_key v" for v w by (simp add: event_key_def split: option.split)
  have b: "between e cutoff lo (v\<lparr>ev_eligibility := w\<rparr>) = between e cutoff lo v" for v w by (simp add: between_def)
  have "dict_get seen0 key = None" using scan_okD(3) [OF ok, of key] fresh by (cases "dict_get seen0 key") auto
  then show ?thesis
    unfolding scan_ok_def upd_event_def using scan_okD [OF ok] n key bt fresh
    by (auto simp: nth_list_update dict_simps k b split: if_split_asm)
qed

lemma place_event_ok:
  assumes ok: "scan_ok e cutoff lo seen0 sc" and n: "n < length (sc_events sc)"
    and key: "event_key (sc_events sc ! n) = key" "dict_get (sc_index sc) key = Some n"
    and v: "ev_effective (sc_events sc ! n) = Some t"
  shows "scan_ok e cutoff lo seen0 (place_event e cutoff lo key fp n t sc)"
proof (cases "dict_get (sc_seen sc) key = None \<and> fv_boundary e \<le> t \<and> (\<exists>c l. cutoff = Some c \<and> lo = Some l \<and> l < t \<and> t \<le> c)")
  case True
  then have "between e cutoff lo (sc_events sc ! n)" using v by (auto simp: between_def)
  from scan_ok_select [OF ok n key this, of fp] True show ?thesis
    by (auto simp: place_event_def Let_def)
next
  case False
  have "scan_ok e cutoff lo seen0 (upd_event n (\<lambda>v. v\<lparr>ev_eligibility := w\<rparr>) sc)" if "w \<noteq> ''selected''" for w
    by (rule scan_ok_upd [OF ok]) (use that in \<open>simp add: selected_def\<close>)
  with ok False show ?thesis
    by (auto simp: place_event_def Let_def not_le split: option.split)
qed

lemma event_step_ok:
  assumes ok: "scan_ok e cutoff lo seen0 sc0" and idf: "dict_get event_sections section = Some idf"
    and st: "event_step e c cutoff lo (section, idf, row) sc0 = Inr sc'"
  shows "scan_ok e cutoff lo seen0 sc'"
proof -
  let ?v = "\<lparr>ev_section = section, ev_facts = attributes row, ev_eligibility = ''unknown'', ev_effective = None\<rparr>"
  let ?sc = "sc0\<lparr>sc_events := sc_events sc0 @ [?v]\<rparr>"
  let ?n = "length (sc_events sc0)"
  let ?key = "section @ '':'' @ attr_or row idf []"
  have v: "\<not> selected ?v" "event_key ?v = ?key"
    using idf by (simp_all add: selected_def event_key_def attr_or_def attr_def dict_get_default_def)
  have ok1: "scan_ok e cutoff lo seen0 ?sc" by (rule scan_ok_append [OF ok v(1)])
  show ?thesis
  proof (cases "attr_or row idf [] = []")
    case True
    with st ok1 show ?thesis by (simp add: event_step_def Let_def) (auto simp: scan_ok_flag)
  next
    case named: False
    show ?thesis
    proof (cases "dict_get (sc_index sc0) ?key")
      case (Some i)
      have "scan_ok e cutoff lo seen0 (upd_event i (\<lambda>v. v\<lparr>ev_eligibility := ''unknown''\<rparr>) ?sc)"
        by (rule scan_ok_upd [OF ok1]) (simp add: selected_def)
      with st named Some show ?thesis by (auto simp: event_step_def Let_def)
    next
      case None
      let ?sc1 = "?sc\<lparr>sc_index := dict_set (sc_index sc0) ?key ?n\<rparr>"
      have ok2: "scan_ok e cutoff lo seen0 ?sc1"
        using scan_ok_index [OF ok1, of ?key ?n] None by simp
      have placed: "scan_ok e cutoff lo seen0 (place_event e cutoff lo ?key fp ?n t (upd_event ?n (\<lambda>v. v\<lparr>ev_effective := Some t\<rparr>) ?sc1))" for fp t
      proof (rule place_event_ok)
        have "event_key (?v\<lparr>ev_effective := Some t\<rparr>) = event_key ?v" by (simp add: event_key_def split: option.split)
        with v(2) show "event_key (sc_events (upd_event ?n (\<lambda>v. v\<lparr>ev_effective := Some t\<rparr>) ?sc1) ! ?n) = ?key"
          by (simp add: upd_event_def)
        show "scan_ok e cutoff lo seen0 (upd_event ?n (\<lambda>v. v\<lparr>ev_effective := Some t\<rparr>) ?sc1)"
          by (rule scan_ok_upd [OF ok2]) (simp add: selected_def)
      qed (simp_all add: upd_event_def)
      from st named None show ?thesis
        using ok2 placed
        by (auto simp: event_step_def Let_def split: if_split_asm sum.split_asm)
    qed
  qed
qed

lemma event_items_sections: "(section, idf, row) \<in> set (event_items s) \<Longrightarrow> dict_get event_sections section = Some idf"
proof -
  assume "(section, idf, row) \<in> set (event_items s)"
  then have "(section, idf) \<in> set event_sections" by (auto simp: event_items_def)
  moreover have "distinct (List.map fst event_sections)" by (simp add: event_sections_def)
  ultimately show ?thesis by simp
qed

lemma events_ok:
  assumes "res_fold (event_step e c cutoff lo) (event_items s)
      \<lparr>sc_events = [], sc_index = [], sc_seen = seen0, sc_issues = iss\<rparr> = Inr sc"
  shows "scan_ok e cutoff lo seen0 sc"
  using assms
proof (rule res_fold_rule)
  show "scan_ok e cutoff lo seen0 \<lparr>sc_events = [], sc_index = [], sc_seen = seen0, sc_issues = iss\<rparr>"
    by (simp add: scan_ok_def)
  fix ys x zs s1 s2
  assume "event_items s = ys @ x # zs" and ok: "scan_ok e cutoff lo seen0 s1" and st: "event_step e c cutoff lo x s1 = Inr s2"
  then have mem: "x \<in> set (event_items s)" by simp
  obtain sec idf row where x: "x = (sec, idf, row)" by (cases x)
  show "scan_ok e cutoff lo seen0 s2"
    by (rule event_step_ok [OF ok event_items_sections [OF mem [unfolded x]] st [unfolded x]])
qed

lemma distinct_filter_key:
  "(\<And>i j. i < length xs \<Longrightarrow> j < length xs \<Longrightarrow> P (xs ! i) \<Longrightarrow> P (xs ! j) \<Longrightarrow> f (xs ! i) = f (xs ! j) \<Longrightarrow> i = j)
   \<Longrightarrow> distinct (List.map f (filter P xs))"
proof (induction xs)
  case (Cons x xs)
  have "distinct (List.map f (filter P xs))"
  proof (rule Cons.IH)
    fix i j
    assume "i < length xs" "j < length xs" "P (xs ! i)" "P (xs ! j)" "f (xs ! i) = f (xs ! j)"
    then show "i = j" using Cons.prems [of "Suc i" "Suc j"] by simp
  qed
  moreover have "f y \<noteq> f x" if "y \<in> set xs" "P y" "P x" for y
  proof
    assume eq: "f y = f x"
    obtain j where "j < length xs" "xs ! j = y" using \<open>y \<in> set xs\<close> by (metis in_set_conv_nth)
    with that eq Cons.prems [of 0 "Suc j"] show False by simp
  qed
  ultimately show ?case by fastforce
qed simp

lemma scan_ok_distinct:
  assumes ok: "scan_ok e cutoff lo seen0 sc"
  shows "distinct (List.map event_key (filter selected (sc_events sc)))"
proof (rule distinct_filter_key)
  fix i j
  assume h: "i < length (sc_events sc)" "j < length (sc_events sc)" "selected (sc_events sc ! i)" "selected (sc_events sc ! j)"
    and eq: "event_key (sc_events sc ! i) = event_key (sc_events sc ! j)"
  have "dict_get (sc_index sc) (event_key (sc_events sc ! i)) = Some i" using scan_okD(2) [OF ok h(1,3)] by blast
  moreover have "dict_get (sc_index sc) (event_key (sc_events sc ! j)) = Some j" using scan_okD(2) [OF ok h(2,4)] by blast
  ultimately have "Some i = Some j" unfolding eq by (rule trans [OF sym])
  then show "i = j" by simp
qed

section \<open>Evidence of a report\<close>

definition prior_seen :: "evidence option \<Rightarrow> (string, string) dict" where
  "prior_seen prior = (case prior of None \<Rightarrow> [] | Some p \<Rightarrow> fe_seen p)"

definition selected_keys :: "evidence \<Rightarrow> string list" where
  "selected_keys v = List.map event_key (filter selected (fe_events v))"

definition own_interval :: "forward_env \<Rightarrow> evidence \<Rightarrow> bool" where
  "own_interval e v \<longleftrightarrow> list_all (between e (map_option ao_utc (fe_as_of v)) (fe_previous_cutoff v)) (filter selected (fe_events v))"

lemma previous_cutoff_Some:
  "previous_cutoff e cutoff prior = (Some l, msgs) \<Longrightarrow>
     \<exists>p pa. prior = Some p \<and> fe_anchor_qualified p \<and> fe_as_of p = Some pa \<and> fv_boundary e \<le> ao_utc pa \<and> l = ao_utc pa"
  by (auto simp: previous_cutoff_def not_less split: option.split_asm if_split_asm)

lemma qualify_statement_facts:
  assumes "qualify_statement e c content ck prior a b s = Inr ev"
  shows "fe_account_id ev = attr s ''accountId''" and "own_interval e ev" and "distinct (selected_keys ev)"
    and "k \<in> set (selected_keys ev) \<Longrightarrow> dict_get (prior_seen (own_prior s prior)) k = None \<and> dict_get (fe_seen ev) k \<noteq> None"
      and "dict_get (prior_seen (own_prior s prior)) k \<noteq> None \<Longrightarrow> dict_get (fe_seen ev) k = dict_get (prior_seen (own_prior s prior)) k"
    and "selected_keys ev \<noteq> [] \<Longrightarrow> \<exists>p pa. own_prior s prior = Some p \<and> fe_anchor_qualified p \<and> fe_as_of p = Some pa
      \<and> fv_boundary e \<le> ao_utc pa \<and> fe_previous_cutoff ev = Some (ao_utc pa) \<and> fe_previous_sha ev = Some (fe_source_sha p)"
proof -
  let ?seen = "prior_seen (own_prior s prior)"
  obtain snapshot where snap: "caught (snapshot_time e c s a b) = Inr snapshot"
    using assms by (auto simp: qualify_statement_def Let_def res_bind_Inr_iff)
  obtain lo more where lo: "previous_cutoff e (map_option ao_utc snapshot) (own_prior s prior) = (lo, more)"
    by (cases "previous_cutoff e (map_option ao_utc snapshot) (own_prior s prior)")
  obtain iss sc where fold: "res_fold (event_step e c (map_option ao_utc snapshot) lo) (event_items s)
      \<lparr>sc_events = [], sc_index = [], sc_seen = ?seen, sc_issues = iss\<rparr> = Inr sc"
    and ev: "fe_events ev = sc_events sc" "fe_seen ev = sc_seen sc" "fe_account_id ev = attr s ''accountId''"
      "fe_as_of ev = snapshot" "fe_previous_cutoff ev = lo" "fe_previous_sha ev = map_option fe_source_sha (own_prior s prior)"
    using assms snap lo by (auto simp: qualify_statement_def Let_def res_bind_Inr_iff prior_seen_def)
  note ok = events_ok [OF fold]
  have sel: "\<exists>i < length (sc_events sc). v = sc_events sc ! i \<and> selected (sc_events sc ! i)" if "v \<in> set (filter selected (sc_events sc))" for v
    using that by (auto simp: in_set_conv_nth)
  show "fe_account_id ev = attr s ''accountId''" by (rule ev(3))
  show "own_interval e ev"
    unfolding own_interval_def ev list_all_iff using sel scan_okD(2) [OF ok] by blast
  show "distinct (selected_keys ev)" unfolding selected_keys_def ev by (rule scan_ok_distinct [OF ok])
  show "k \<in> set (selected_keys ev) \<Longrightarrow> dict_get ?seen k = None \<and> dict_get (fe_seen ev) k \<noteq> None"
    unfolding selected_keys_def ev using sel scan_okD(2) [OF ok] by (fastforce simp del: set_filter)
  show "dict_get ?seen k \<noteq> None \<Longrightarrow> dict_get (fe_seen ev) k = dict_get ?seen k"
    using scan_okD(3) [OF ok, of k] unfolding ev by auto
  assume "selected_keys ev \<noteq> []"
  then have "filter selected (sc_events sc) \<noteq> []" unfolding selected_keys_def ev by simp
  then obtain v where "v \<in> set (filter selected (sc_events sc))" by (metis last_in_set)
  from sel [OF this] obtain i where i: "i < length (sc_events sc)" "selected (sc_events sc ! i)" by blast
  have "between e (map_option ao_utc snapshot) lo (sc_events sc ! i)" using scan_okD(2) [OF ok i] by simp
  then obtain l where "lo = Some l" unfolding between_def by auto
  with previous_cutoff_Some [of e "map_option ao_utc snapshot" "own_prior s prior" l more] lo
  obtain p pa where "own_prior s prior = Some p" "fe_anchor_qualified p" "fe_as_of p = Some pa"
    "fv_boundary e \<le> ao_utc pa" "l = ao_utc pa" by blast
  with \<open>lo = Some l\<close> show "\<exists>p pa. own_prior s prior = Some p \<and> fe_anchor_qualified p \<and> fe_as_of p = Some pa
      \<and> fv_boundary e \<le> ao_utc pa \<and> fe_previous_cutoff ev = Some (ao_utc pa) \<and> fe_previous_sha ev = Some (fe_source_sha p)"
    unfolding ev by auto
qed

lemma own_prior_Some: "own_prior s prior = Some p \<longleftrightarrow> prior = Some p \<and> fe_account_id p = attr s ''accountId''"
  by (auto simp: own_prior_def split: option.split)

text \<open>The evidence of an account comes from a statement of its own.\<close>

lemma qualify_evidence:
  assumes "qualify e content c checks previous began ended = Inr out" and "dict_get out label = Some ev"
  obtains s a ck where "attr s ''accountId'' = Some a" "dict_get (fc_accounts c) a = Some label"
    "qualify_statement e c content ck (dict_get previous label) began ended s = Inr ev"
proof -
  let ?own = "\<lambda>label ev. \<exists>s a ck. attr s ''accountId'' = Some a \<and> dict_get (fc_accounts c) a = Some label
    \<and> qualify_statement e c content ck (dict_get previous label) began ended s = Inr ev"
  obtain doc where "res_fold (qualify_into e c content checks previous began ended) (statements_of doc) [] = Inr out"
    using assms(1) by (auto simp: qualify_def res_bind_Inr_iff)
  then have "\<forall>label ev. dict_get out label = Some ev \<longrightarrow> ?own label ev"
  proof (rule res_fold_rule)
    fix ys x zs d1 d2
    assume "\<forall>label ev. dict_get d1 label = Some ev \<longrightarrow> ?own label ev" and "qualify_into e c content checks previous began ended x d1 = Inr d2"
    then show "\<forall>label ev. dict_get d2 label = Some ev \<longrightarrow> ?own label ev"
      unfolding qualify_into_def
      by (auto simp: res_bind_Inr_iff dict_simps split: option.split_asm if_split_asm) blast+
  qed simp
  with assms(2) that show ?thesis by blast
qed

definition sample_forward_env :: forward_env where
  "sample_forward_env = \<lparr>fv_zone = (\<lambda>n. if n = ''America/New_York'' then Some (\<lambda>_. - 5 * hour) else None),
     fv_boundary = wall_clock (Date 2026 11 3) (5 * hour), fv_sha = (\<lambda>t. t), fv_digest = (\<lambda>_. ''digest'')\<rparr>"

definition sample_forward_config :: forward_config where
  "sample_forward_config = \<lparr>fc_accounts = [(''U1'', ''account-1'')], fc_forward_start = Some forward_start_text,
     fc_snapshot_time_field = Some ''asOf'', fc_snapshot_timezone_field = Some ''zone'',
     fc_event_time_fields = [(''CashTransactions'', ''dateTime'')]\<rparr>"

definition cash_event :: "string \<Rightarrow> string \<Rightarrow> xml" where
  "cash_event i t = Element ''CashTransaction'' [(''transactionID'', i), (''currency'', ''USD''), (''amount'', ''5''), (''dateTime'', t)] []"

definition forward_statement :: "string \<Rightarrow> string \<Rightarrow> xml list \<Rightarrow> xml" where
  "forward_statement until asof rows = Element ''FlexStatement'' [(''accountId'', ''U1''), (''toDate'', until), (''asOf'', asof),
     (''zone'', ''America/New_York'')] [Element ''CashTransactions'' [] rows]"

text \<open>Two days: a first anchor, then a deposit between the anchors.\<close>

definition capture :: instant where
  "capture = wall_clock (Date 2026 11 10) 0"

definition first_cutoff :: instant where "first_cutoff = wall_clock (Date 2026 11 4) (21 * hour)"
definition second_cutoff :: instant where "second_cutoff = wall_clock (Date 2026 11 5) (21 * hour)"
definition deposit_time :: instant where "deposit_time = wall_clock (Date 2026 11 5) (15 * hour)"

definition deposit :: xml where
  "deposit = cash_event ''7'' ''2026-11-05T10:00:00-05:00''"

definition first_statement :: xml where
  "first_statement = forward_statement ''20261104'' ''2026-11-04T16:00:00-05:00'' []"

definition second_statement :: xml where
  "second_statement = forward_statement ''20261105'' ''2026-11-05T16:00:00-05:00'' [deposit]"

lemma sample_snapshots:
  "snapshot_time sample_forward_env sample_forward_config first_statement capture capture =
     Inr \<lparr>ao_native = ''2026-11-04T16:00:00-05:00'', ao_timezone = ''America/New_York'', ao_utc = first_cutoff, ao_offset = - 5 * hour\<rparr>"
  "snapshot_time sample_forward_env sample_forward_config second_statement capture capture =
     Inr \<lparr>ao_native = ''2026-11-05T16:00:00-05:00'', ao_timezone = ''America/New_York'', ao_utc = second_cutoff, ao_offset = - 5 * hour\<rparr>"
  by code_simp+

lemma sample_event_time: "event_time sample_forward_config ''CashTransactions'' deposit = Inr deposit_time"
  by code_simp

lemma sample_order: "fv_boundary sample_forward_env \<le> first_cutoff" "first_cutoff < deposit_time" "deposit_time \<le> second_cutoff"
  by code_simp+

lemma sample_items:
  "event_items first_statement = []"
  "event_items second_statement = [(''CashTransactions'', ''transactionID'', deposit)]"
  by (simp_all add: event_items_def event_sections_def find_all_def first_statement_def second_statement_def forward_statement_def)

lemma sample_rows:
  "native_cash_rows first_statement = []" "find_path first_statement ''OpenPositions'' ''OpenPosition'' = []"
  "native_cash_rows second_statement = []" "find_path second_statement ''OpenPositions'' ''OpenPosition'' = []"
  "attr first_statement ''accountId'' = Some ''U1''" "attr second_statement ''accountId'' = Some ''U1''"
  by (simp_all add: native_cash_rows_def find_path_def find_all_def first_statement_def second_statement_def
      forward_statement_def attr_def)

lemma sample_deposit:
  "attr_or deposit ''transactionID'' [] = ''7''" "strip (attr_or deposit ''currency'' []) = ''USD''"
  "attr deposit ''currency'' = Some ''USD''" "\<not> corrected deposit" "''CashTransactions'' \<notin> set quantity_events"
  by code_simp+

lemma sample_step:
  "event_step sample_forward_env sample_forward_config (Some second_cutoff) (Some first_cutoff)
     (''CashTransactions'', ''transactionID'', deposit) \<lparr>sc_events = [], sc_index = [], sc_seen = [], sc_issues = []\<rparr>
   = Inr \<lparr>sc_events = [\<lparr>ev_section = ''CashTransactions'', ev_facts = attributes deposit, ev_eligibility = ''selected'',
        ev_effective = Some deposit_time\<rparr>], sc_index = [(''CashTransactions:7'', 0)],
      sc_seen = [(''CashTransactions:7'', fingerprint sample_forward_env deposit)], sc_issues = []\<rparr>"
  using sample_order
  by (simp add: event_step_def sample_deposit sample_event_time place_event_def upd_event_def Let_def)

end
