(* ===== verification/FlexRunner.thy ===== *)
theory FlexRunner
  imports FlexState FlexForward
begin

text \<open>
  The daily collector (\<open>application/flex_daily/runner.py\<close>, \<open>__main__.py\<close>): the request pacing of
  \<open>Fetcher\<close>, the windows of one run with every exception clause, what is persisted when, and the
  exit code of the job.

  The code mutates one state object in place, also on the way to an exception; so a run is a
  computation over the outside world and that object, and an exception keeps both.  Parameters:
  the bucket, the clocks, the broker requests, the time zone database and SHA-256, and the JSON
  text in which state, status and projection are stored.
\<close>

section \<open>Pacing of broker requests\<close>

record fetcher =
  ft_deadline :: pyfloat
  ft_last :: "pyfloat option"
  ft_floor :: pyfloat

text \<open>\<open>Fetcher.wait\<close>: the clock is read when the pause is computed, at the check, and after sleeping.\<close>

definition wait ::
    "('w, pyfloat) io \<Rightarrow> (pyfloat \<Rightarrow> ('w, unit) io) \<Rightarrow> pyfloat \<Rightarrow> fetcher \<Rightarrow> ('w, fetcher) io" where
  "wait clock sleep delay f =
     (let d = py_max delay (ft_floor f) in
      io_bind (case ft_last f of None \<Rightarrow> io_return (Fin 0)
               | Some l \<Rightarrow> io_bind clock (\<lambda>t. io_return (fsub (fadd l d) t))) (\<lambda>p.
      let pause = py_max (Fin 0) p in
      io_bind clock (\<lambda>t1.
      if fle (ft_deadline f) (fadd (fadd t1 pause) (Fin 25)) then io_raise (OtherError ''TimeoutError: budget_exhausted'')
      else io_bind (sleep pause) (\<lambda>_. io_bind clock (\<lambda>t2. io_return (f\<lparr>ft_last := Some t2\<rparr>))))))"

text \<open>\<open>FlexSourceError\<close> with its safe diagnostic, or its subclass for a pending report.\<close>

datatype fetched =
    Content body
  | Pending
  | Refused (refused_code: "string option") (refused_kind: "string option")

definition retry_delays :: "pyfloat list" where
  "retry_delays = List.map Fin [10, 20, 40, 80, 120, 120]"

fun poll ::
    "('w, pyfloat) io \<Rightarrow> (pyfloat \<Rightarrow> ('w, unit) io) \<Rightarrow> ('w, fetched) io \<Rightarrow> pyfloat list \<Rightarrow> fetcher \<Rightarrow> ('w, fetched \<times> fetcher) io" where
  "poll clock sleep get [] f = io_return (Pending, f)"
| "poll clock sleep get (d # ds) f = io_bind (wait clock sleep d f) (\<lambda>f1.
     io_bind get (\<lambda>r. case r of Pending \<Rightarrow> poll clock sleep get ds f1 | _ \<Rightarrow> io_return (r, f1)))"

text \<open>\<open>Fetcher.__call__\<close>: a throttled refusal raises the floor of every later pause.\<close>

definition fetch_report ::
    "('w, pyfloat) io \<Rightarrow> (pyfloat \<Rightarrow> ('w, unit) io) \<Rightarrow> (date \<Rightarrow> date \<Rightarrow> ('w, fetched + 'h) io) \<Rightarrow> ('h \<Rightarrow> ('w, fetched) io)
      \<Rightarrow> date \<Rightarrow> date \<Rightarrow> fetcher \<Rightarrow> ('w, fetched \<times> fetcher) io" where
  "fetch_report clock sleep ask get start until f =
     io_bind (wait clock sleep (Fin 10) f) (\<lambda>f1.
     io_bind (ask start until) (\<lambda>h.
     io_bind (case h of Inl r \<Rightarrow> io_return (r, f1) | Inr handle \<Rightarrow> poll clock sleep (get handle) retry_delays f1) (\<lambda>(r, f2).
     io_return (r, case r of Refused (Some c) _ \<Rightarrow> (if c = ''1018'' then f2\<lparr>ft_floor := Fin 60\<rparr> else f2) | _ \<Rightarrow> f2))))"

section \<open>Configuration, environment and the run's object\<close>

record run_config =
  rg_forward :: bool
  rg_fields :: forward_config
  rg_ip_restriction :: "string option"
  rg_schema :: "int option"
  rg_query_id :: string
  rg_backfill_start :: "string option"
  rg_sections :: "string list"
  rg_token_expires_at :: "string option"

record flex_status =
  fs_summary :: coverage_summary
  fs_reconciliation :: string
  fs_forward_start :: "date option"
  fs_forward_validation :: "string option"
  fs_token_expires_at :: "string option"

type_synonym state = "evidence coverage"

record 'w collector =
  co_bucket :: "'w bucket"
  co_owner :: string
  co_now :: "('w, instant) io"
  co_clock :: "('w, pyfloat) io"
  co_fetch :: "date \<Rightarrow> date \<Rightarrow> ('w, fetched) io"
  co_target_day :: "instant \<Rightarrow> date"
  co_forward :: forward_env
  co_load_state :: "pyval \<Rightarrow> state res"
  co_save_state :: "state \<Rightarrow> pyval"
  co_save_status :: "flex_status \<Rightarrow> pyval"
  co_projection :: "date \<Rightarrow> date \<Rightarrow> (string, checked) dict \<Rightarrow> string \<Rightarrow> pyval \<Rightarrow> (string, evidence) dict option \<Rightarrow> body"

record run_object =
  ro_state :: state
  ro_generation :: int
  ro_status_generation :: int
  ro_queue :: "window list"
  ro_streak :: nat

type_synonym ('w, 'a) run_io = "('w \<times> run_object, 'a) io"

definition on_world :: "('w, 'a) io \<Rightarrow> ('w, 'a) run_io" where
  "on_world m = (\<lambda>(w, o1). case m w of (r, w') \<Rightarrow> (r, (w', o1)))"

definition get_object :: "('w, run_object) run_io" where
  "get_object = (\<lambda>(w, o1). (Inr o1, (w, o1)))"

definition modify :: "(run_object \<Rightarrow> run_object) \<Rightarrow> ('w, unit) run_io" where
  "modify f = (\<lambda>(w, o1). (Inr (), (w, f o1)))"

definition modify_state :: "(state \<Rightarrow> state) \<Rightarrow> ('w, unit) run_io" where
  "modify_state f = modify (\<lambda>o1. o1\<lparr>ro_state := f (ro_state o1)\<rparr>)"

definition state_key :: string where "state_key = ''state/coverage.json''"
definition status_key :: string where "status_key = ''status/latest.json''"
definition pull_lease_key :: string where "pull_lease_key = ''state/pull-lease.json''"

definition empty_state :: state where
  "empty_state = \<lparr>cv_days = [], cv_months = [], cv_forward_start = None, cv_forward_target = None, cv_backfill_start = None,
     cv_blocked = None, cv_blocked_code = None, cv_last_started = None, cv_last_finished = None, cv_last_run = None\<rparr>"

definition no_counts :: run_counts where
  "no_counts = \<lparr>rc_planned = 0, rc_fetched = 0, rc_succeeded = 0, rc_failed = 0, rc_last_code = None\<rparr>"

definition counts :: "state \<Rightarrow> run_counts" where
  "counts st = (case cv_last_run st of None \<Rightarrow> no_counts | Some c \<Rightarrow> c)"

definition upd_counts :: "(run_counts \<Rightarrow> run_counts) \<Rightarrow> state \<Rightarrow> state" where
  "upd_counts f st = st\<lparr>cv_last_run := Some (f (counts st))\<rparr>"

section \<open>Slots\<close>

definition slot_of :: "window \<Rightarrow> state \<Rightarrow> evidence slot" where
  "slot_of w st = (case wi_kind w of
      Daily \<Rightarrow> (case dict_get (cv_days st) (wi_start w) of None \<Rightarrow> empty_slot | Some s \<Rightarrow> s)
    | Control m c \<Rightarrow> (case dict_get (cv_months st) (m, c) of None \<Rightarrow> empty_slot | Some s \<Rightarrow> s))"

definition upd_slot :: "window \<Rightarrow> (evidence slot \<Rightarrow> evidence slot) \<Rightarrow> state \<Rightarrow> state" where
  "upd_slot w f st = (case wi_kind w of
      Daily \<Rightarrow> st\<lparr>cv_days := dict_set (cv_days st) (wi_start w) (f (slot_of w st))\<rparr>
    | Control m c \<Rightarrow> st\<lparr>cv_months := dict_set (cv_months st) (m, c) (f (slot_of w st))\<rparr>)"

definition revise_item :: "account_item \<Rightarrow> account_item" where
  "revise_item i = i\<lparr>it_status := Some ''pending'', it_issues := [''previous_anchor_revised'']\<rparr>"

text \<open>\<open>invalidate_following\<close>: later days and months were qualified against evidence that changed.\<close>

definition invalidate_following :: "date \<Rightarrow> date \<Rightarrow> state \<Rightarrow> state" where
  "invalidate_following forward_start start st =
     st\<lparr>cv_days := List.map (\<lambda>(d, s).
          (d, if start < d \<and> forward_start \<le> d \<and> (case cv_forward_target st of None \<Rightarrow> False | Some t \<Rightarrow> d \<le> t)
              then s\<lparr>dy_validated_at := None, dy_forward := [],
                     dy_accounts := List.map (\<lambda>(a, i). (a, revise_item i)) (dy_accounts s)\<rparr> else s)) (cv_days st),
        cv_months := List.map (\<lambda>((m, c), s).
          ((m, c), if forward_start \<le> m then s\<lparr>dy_done := False, dy_validated_at := None\<rparr> else s)) (cv_months st)\<rparr>"

section \<open>What is published\<close>

definition window_validated :: "state \<Rightarrow> window \<Rightarrow> bool" where
  "window_validated st w \<longleftrightarrow> (let s = slot_of w st in dy_validated_at s \<noteq> None
     \<and> (case wi_kind w of Daily \<Rightarrow> FlexState.complete s | Control _ _ \<Rightarrow> dy_done s))"

definition forward_validation :: "date \<Rightarrow> date \<Rightarrow> window list \<Rightarrow> state \<Rightarrow> string" where
  "forward_validation target forward_start queue st =
     (let c = counts st in
      if target < forward_start then ''NOT_DUE''
      else if 0 < rc_planned c \<and> rc_succeeded c = rc_planned c \<and> rc_failed c = 0 \<and> list_all (window_validated st) queue
        then ''VALIDATED'' else ''UNRECONCILED'')"

definition forward_date :: "run_config \<Rightarrow> date" where
  "forward_date c = (case fc_forward_start (rg_fields c) of None \<Rightarrow> Date 1 1 1
     | Some t \<Rightarrow> (case parse_iso_date t of None \<Rightarrow> Date 1 1 1 | Some d \<Rightarrow> d))"

definition status_of :: "'w collector \<Rightarrow> run_config \<Rightarrow> instant \<Rightarrow> instant \<Rightarrow> run_object \<Rightarrow> flex_status" where
  "status_of e c started now o1 = (let s = summary (ro_state o1) now in
     \<lparr>fs_summary = s, fs_reconciliation = (if rg_forward c then ''UNRECONCILED'' else cs_reconciliation_status s),
      fs_forward_start = (if rg_forward c then Some (forward_date c) else None),
      fs_forward_validation = (if rg_forward c
         then Some (forward_validation (co_target_day e started) (forward_date c) (ro_queue o1) (ro_state o1)) else None),
      fs_token_expires_at = rg_token_expires_at c\<rparr>)"

definition persist :: "'w collector \<Rightarrow> run_config \<Rightarrow> lease \<Rightarrow> instant \<Rightarrow> bool \<Rightarrow> ('w, flex_status) run_io" where
  "persist e c l started finished =
     io_bind (on_world (co_now e)) (\<lambda>t.
     io_bind (on_world (lease_check (co_bucket e) pull_lease_key l t)) (\<lambda>_.
     io_bind (if finished then io_bind (on_world (co_now e)) (\<lambda>t. modify_state (\<lambda>st. st\<lparr>cv_last_finished := Some t\<rparr>)) else io_return ()) (\<lambda>_.
     io_bind get_object (\<lambda>o1.
     io_bind (on_world (store_put (co_bucket e) state_key (co_save_state e (ro_state o1)) (ro_generation o1))) (\<lambda>g.
     io_bind (modify (\<lambda>o1. o1\<lparr>ro_generation := g\<rparr>)) (\<lambda>_.
     io_bind (on_world (co_now e)) (\<lambda>t.
     io_bind get_object (\<lambda>o2.
     let safe = status_of e c started t o2 in
     io_bind (on_world (store_put (co_bucket e) status_key (co_save_status e safe) (ro_status_generation o2))) (\<lambda>g.
     io_bind (modify (\<lambda>o1. o1\<lparr>ro_status_generation := g\<rparr>)) (\<lambda>_.
     io_return safe))))))))))"

section \<open>One window\<close>

definition validation_pending :: account_item where
  "validation_pending = \<lparr>it_status = Some ''missing'', it_issues = [''validation_pending''], it_reconciliation = None,
     it_forward_checked = True\<rparr>"

text \<open>In forward mode a window starts unvalidated, and that is persisted before anything is fetched.\<close>

definition reset_slot :: "run_config \<Rightarrow> window \<Rightarrow> evidence slot \<Rightarrow> evidence slot" where
  "reset_slot c w s = (let s = s\<lparr>dy_validated_at := None, dy_forward := []\<rparr> in
     case wi_kind w of
       Daily \<Rightarrow> s\<lparr>dy_accounts := List.map (\<lambda>a. (a, validation_pending)) (fromkeys (dict_values (fc_accounts (rg_fields c))))\<rparr>
     | Control _ _ \<Rightarrow> s\<lparr>dy_done := False\<rparr>)"

definition fail_window :: "'w collector \<Rightarrow> run_config \<Rightarrow> window \<Rightarrow> string option \<Rightarrow> string \<Rightarrow> ('w, unit) run_io" where
  "fail_window e c w old_raw reason =
     io_bind get_object (\<lambda>o1.
     io_bind (if rg_forward c \<and> old_raw \<noteq> None \<and> dy_forward (slot_of w (ro_state o1)) = []
         then modify_state (invalidate_following (forward_date c) (wi_start w)) else io_return ()) (\<lambda>_.
     io_bind (on_world (co_now e)) (\<lambda>t.
     modify_state (\<lambda>st. upd_counts (\<lambda>k. k\<lparr>rc_failed := rc_failed k + 1\<rparr>) (upd_slot w (failed t reason) st)))))"

definition raw_key :: "string \<Rightarrow> string" where
  "raw_key digest = ''raw/'' @ digest @ ''.xml''"

definition derived_key :: "string \<Rightarrow> string" where
  "derived_key digest = ''derived/'' @ digest @ ''.json''"

text \<open>The previous day's report, read back only outside forward mode.\<close>

definition previous_content :: "'w collector \<Rightarrow> run_config \<Rightarrow> window \<Rightarrow> ('w, body option) run_io" where
  "previous_content e c w = io_bind get_object (\<lambda>o1.
     case (if rg_forward c then None else dict_get (cv_days (ro_state o1)) (add_days (wi_start w) (- 1))) of
       None \<Rightarrow> io_return None
     | Some s \<Rightarrow> (case dy_raw s of None \<Rightarrow> io_return None
         | Some k \<Rightarrow> io_bind (on_world (store_read (co_bucket e) k)) (\<lambda>(b, g). io_return b)))"

text \<open>The qualified anchors of earlier days, the latest one of each account.\<close>

definition previous_anchors :: "run_config \<Rightarrow> window \<Rightarrow> state \<Rightarrow> (string, evidence) dict" where
  "previous_anchors c w st =
     fold (\<lambda>(d, s) prev. if forward_date c \<le> d \<and> d < wi_start w
         then fold (\<lambda>(label, ev) prev. if fe_anchor_qualified ev then dict_set prev label ev else prev) (dy_forward s) prev
         else prev) (sort_key fst (cv_days st)) []"

record item_check =
  ic_status :: string
  ic_issues :: "string list"
  ic_residuals :: "(string, rat) dict"
  ic_reconciliation :: string
  ic_forward_checked :: bool

definition plain_check :: "checked \<Rightarrow> item_check" where
  "plain_check k = \<lparr>ic_status = ck_status k, ic_issues = ck_issues k, ic_residuals = ck_residuals k,
     ic_reconciliation = ck_reconciliation k, ic_forward_checked = False\<rparr>"

definition forward_check :: "evidence option \<Rightarrow> checked \<Rightarrow> item_check" where
  "forward_check ev k = (let issues = (case ev of None \<Rightarrow> [] | Some v \<Rightarrow> fe_issues v) in
     \<lparr>ic_status = (if ck_status k = ''complete'' \<and> (ev = None \<or> issues \<noteq> [] \<or> ck_reconciliation k = ''difference'')
         then ''received'' else ck_status k),
      ic_issues = (if issues = [] then ck_issues k else sort (remdups (ck_issues k @ issues))),
      ic_residuals = ck_residuals k, ic_reconciliation = ck_reconciliation k, ic_forward_checked = True\<rparr>)"

definition item_of :: "item_check \<Rightarrow> account_item" where
  "item_of k = \<lparr>it_status = Some (ic_status k), it_issues = ic_issues k, it_reconciliation = Some (ic_reconciliation k),
     it_forward_checked = ic_forward_checked k\<rparr>"

text \<open>The report inspected; one that is refused is kept in quarantine.\<close>

definition inspect_window ::
    "'w collector \<Rightarrow> run_config \<Rightarrow> window \<Rightarrow> body \<Rightarrow> string \<Rightarrow> ('w, (string, checked) dict) run_io" where
  "inspect_window e c w content raw =
     io_catch
       (io_bind (previous_content e c w) (\<lambda>prev.
        io_lift (inspect_report content (wi_start w) (wi_end w) (fc_accounts (rg_fields c)) (rg_sections c) prev)))
       (\<lambda>x. if is_value_error x
            then io_bind (modify_state (upd_slot w (\<lambda>s. s\<lparr>dy_quarantine := Some raw\<rparr>))) (\<lambda>_. io_raise x)
            else io_raise x)"

text \<open>In forward mode the report's evidence is qualified and may invalidate later windows.\<close>

definition qualify_window ::
    "'w collector \<Rightarrow> run_config \<Rightarrow> window \<Rightarrow> string option \<Rightarrow> body \<Rightarrow> string \<Rightarrow> instant \<Rightarrow> instant \<Rightarrow> (string, checked) dict
      \<Rightarrow> ('w, (string, item_check) dict \<times> (string, evidence) dict option) run_io" where
  "qualify_window e c w old_raw content raw capture_start capture_end checks =
     (if \<not> rg_forward c then io_return (List.map (\<lambda>(l, k). (l, plain_check k)) checks, None)
      else io_bind get_object (\<lambda>o1.
       io_bind (io_lift (qualify (co_forward e) content (rg_fields c) checks (previous_anchors c w (ro_state o1)) capture_start capture_end))
         (\<lambda>evidence.
       io_bind (modify_state (upd_slot w (\<lambda>s. s\<lparr>dy_forward := evidence\<rparr>))) (\<lambda>_.
       io_bind (if old_raw \<noteq> None \<and> old_raw \<noteq> Some raw
           then modify_state (invalidate_following (forward_date c) (wi_start w)) else io_return ()) (\<lambda>_.
       io_return (List.map (\<lambda>(l, k). (l, forward_check (dict_get evidence l) k)) checks, Some evidence))))))"

definition all_complete :: "(string, item_check) dict \<Rightarrow> bool" where
  "all_complete checks \<longleftrightarrow> list_all (\<lambda>k. ic_status k = ''complete'') (dict_values checks)"

definition in_window :: "window \<Rightarrow> date \<Rightarrow> bool" where
  "in_window w d \<longleftrightarrow> wi_start w \<le> d \<and> d \<le> wi_end w"

definition month_days :: "window \<Rightarrow> state \<Rightarrow> evidence slot list" where
  "month_days w st = List.map snd (filter (\<lambda>(d, s). in_window w d) (sort_key fst (cv_days st)))"

definition day_eligible :: "bool \<Rightarrow> evidence slot \<Rightarrow> bool" where
  "day_eligible forward s \<longleftrightarrow> dy_raw s \<noteq> None
     \<and> list_all (\<lambda>i. (\<not> forward \<or> it_forward_checked i) \<and> it_status i = Some ''complete'') (dict_values (dy_accounts s))"

definition month_eligible :: "run_config \<Rightarrow> window \<Rightarrow> state \<Rightarrow> bool" where
  "month_eligible c w st \<longleftrightarrow> int (length (month_days w st)) = days_between (wi_start w) (wi_end w) + 1
     \<and> list_all (day_eligible (rg_forward c)) (month_days w st)"

definition reopen_day :: "bool \<Rightarrow> evidence slot \<Rightarrow> evidence slot" where
  "reopen_day forward s = (let s = s\<lparr>dy_accounts := List.map (\<lambda>(a, i). (a, i\<lparr>it_status := Some ''pending''\<rparr>)) (dy_accounts s)\<rparr> in
     if forward then s\<lparr>dy_validated_at := None\<rparr> else s)"

definition reopen_days :: "run_config \<Rightarrow> window \<Rightarrow> state \<Rightarrow> state" where
  "reopen_days c w st =
     st\<lparr>cv_days := List.map (\<lambda>(d, s). (d, if in_window w d then reopen_day (rg_forward c) s else s)) (cv_days st)\<rparr>"

definition read_raw :: "'w collector \<Rightarrow> string \<Rightarrow> ('w, body option) run_io" where
  "read_raw e k = io_bind (on_world (store_read (co_bucket e) k)) (\<lambda>(b, g). io_return (present b))"

text \<open>The monthly control: compare the month with its stored days, when all are complete and time allows.\<close>

definition month_control ::
    "'w collector \<Rightarrow> run_config \<Rightarrow> window \<Rightarrow> pyfloat \<Rightarrow> body \<Rightarrow> bool \<Rightarrow> ('w, unit) run_io" where
  "month_control e c w deadline content schema_complete =
     io_bind (modify_state (upd_slot w (\<lambda>s. s\<lparr>dy_done := False\<rparr>))) (\<lambda>_.
     io_bind get_object (\<lambda>o1.
     let slots = month_days w (ro_state o1); eligible = month_eligible c w (ro_state o1) in
     io_bind (modify_state (upd_slot w (\<lambda>s. s\<lparr>dy_comparison := Some ''partial''\<rparr>))) (\<lambda>_.
     if \<not> eligible then io_return ()
     else io_bind (on_world (co_clock e)) (\<lambda>t.
     if \<not> flt (fadd t (Fin 90)) deadline then io_return ()
     else io_bind (io_fold (\<lambda>s acc. case dy_raw s of None \<Rightarrow> io_return acc
            | Some k \<Rightarrow> io_bind (read_raw e k) (\<lambda>b. io_return (acc @ [b]))) slots []) (\<lambda>payloads.
     if \<not> list_all (\<lambda>b. b \<noteq> None) payloads then io_return ()
     else io_bind (io_lift (compare_month content (List.map the payloads))) (\<lambda>same.
       io_bind (modify_state (upd_slot w (\<lambda>s. s\<lparr>dy_comparison := Some (if same then ''controls_matched'' else ''difference''),
           dy_done := (same \<and> schema_complete)\<rparr>))) (\<lambda>_.
       if same then io_return () else modify_state (reopen_days c w))))))))"

definition store_window ::
    "'w collector \<Rightarrow> run_config \<Rightarrow> window \<Rightarrow> string \<Rightarrow> (string, item_check) dict \<Rightarrow> string \<Rightarrow> ('w, unit) run_io" where
  "store_window e c w digest checks derived =
     io_bind (modify_state (upd_slot w (\<lambda>s. s\<lparr>dy_reconciliation :=
         Some (if list_ex (\<lambda>k. ic_reconciliation k = ''difference'') (dict_values checks) then ''difference'' else ''partial'')\<rparr>))) (\<lambda>_.
     io_bind (on_world (co_now e)) (\<lambda>t.
     modify_state (upd_slot w (\<lambda>s. s\<lparr>dy_raw := Some (raw_key digest), dy_sha256 := Some digest,
         dy_derived := Some (derived_key derived), dy_checked_at := Some t\<rparr>))))"

definition close_window ::
    "'w collector \<Rightarrow> run_config \<Rightarrow> window \<Rightarrow> string option \<Rightarrow> (string, item_check) dict \<Rightarrow> ('w, unit) run_io" where
  "close_window e c w old_raw checks =
     io_bind get_object (\<lambda>o1.
     if \<not> all_complete checks \<or> (wi_kind w \<noteq> Daily \<and> \<not> dy_done (slot_of w (ro_state o1)))
     then fail_window e c w old_raw ''incomplete_report_or_daily_control''
     else io_bind (modify_state (\<lambda>st. upd_counts (\<lambda>k. k\<lparr>rc_succeeded := rc_succeeded k + 1\<rparr>)
             (upd_slot w (\<lambda>s. s\<lparr>dy_attempts := 0, dy_next_attempt := None\<rparr>) st))) (\<lambda>_.
       if rg_forward c then io_bind (on_world (co_now e)) (\<lambda>t. modify_state (upd_slot w (\<lambda>s. s\<lparr>dy_validated_at := Some t\<rparr>)))
       else io_return ()))"

definition blocking_codes :: "string list" where
  "blocking_codes = [''1010'', ''1011'', ''1012'', ''1013'', ''1014'', ''1015'', ''1016'', ''1020'']"

definition transient_codes :: "string list" where
  "transient_codes = [''1001'', ''1018'']"

definition max_consecutive_transient :: nat where "max_consecutive_transient = 3"

definition set_streak :: "nat \<Rightarrow> ('w, unit) run_io" where
  "set_streak n = modify (\<lambda>o1. o1\<lparr>ro_streak := n\<rparr>)"

text \<open>A report that arrived: stored, checked, projected, recorded.\<close>

definition process_report ::
    "'w collector \<Rightarrow> run_config \<Rightarrow> lease \<Rightarrow> pyfloat \<Rightarrow> window \<Rightarrow> string option \<Rightarrow> instant \<Rightarrow> body \<Rightarrow> ('w, unit) run_io" where
  "process_report e c l deadline w old_raw capture_start content =
     io_bind (on_world (co_now e)) (\<lambda>capture_end.
     io_bind (if rg_forward c then on_world (lease_check (co_bucket e) pull_lease_key l capture_end) else io_return ()) (\<lambda>_.
     io_bind (modify_state (upd_counts (\<lambda>k. k\<lparr>rc_fetched := rc_fetched k + 1\<rparr>))) (\<lambda>_.
     io_bind (set_streak 0) (\<lambda>_.
     io_bind (io_lift (require_account_scope content (fc_accounts (rg_fields c)))) (\<lambda>_.
     let digest = fv_digest (co_forward e) content; raw = raw_key digest in
     io_bind (on_world (store_immutable (co_bucket e) raw content)) (\<lambda>_.
     io_bind (inspect_window e c w content raw) (\<lambda>inspected.
     io_bind (io_lift (private_projection content)) (\<lambda>rows.
     io_bind (qualify_window e c w old_raw content raw capture_start capture_end inspected) (\<lambda>(checks, evidence).
     let derived = co_projection e (wi_start w) (wi_end w)
           (List.map (\<lambda>(a, k). (a, \<lparr>ck_status = ic_status k, ck_issues = ic_issues k, ck_residuals = ic_residuals k,
              ck_reconciliation = ic_reconciliation k\<rparr>)) checks) digest rows evidence;
         derived_hash = fv_digest (co_forward e) derived in
     io_bind (on_world (store_immutable (co_bucket e) (derived_key derived_hash) derived)) (\<lambda>_.
     io_bind (store_window e c w digest checks derived_hash) (\<lambda>_.
     io_bind (case wi_kind w of
         Daily \<Rightarrow> modify_state (upd_slot w (\<lambda>s. s\<lparr>dy_accounts := List.map (\<lambda>(a, k). (a, item_of k)) checks\<rparr>))
       | Control _ _ \<Rightarrow> month_control e c w deadline content (all_complete checks)) (\<lambda>_.
     close_window e c w old_raw checks))))))))))))"

text \<open>\<open>except FlexSourceError\<close>: whether the run goes on.\<close>

definition refused_window ::
    "'w collector \<Rightarrow> run_config \<Rightarrow> lease \<Rightarrow> instant \<Rightarrow> window \<Rightarrow> string option \<Rightarrow> string option \<Rightarrow> string option \<Rightarrow> ('w, bool) run_io" where
  "refused_window e c l started w old_raw provider_code kind =
     (let code = (case provider_code of None \<Rightarrow> ''transport_or_format'' | Some k \<Rightarrow> if k = [] then ''transport_or_format'' else k) in
      io_bind (fail_window e c w old_raw code) (\<lambda>_.
      io_bind (if provider_code \<noteq> None \<and> provider_code \<noteq> Some []
          then modify_state (upd_counts (\<lambda>k. k\<lparr>rc_last_code := provider_code\<rparr>)) else io_return ()) (\<lambda>_.
      io_bind (if code \<in> set blocking_codes
          then modify_state (\<lambda>st. st\<lparr>cv_blocked := Some (if code = ''1013'' then ''ip_restricted'' else ''authorization_or_configuration''),
                 cv_blocked_code := Some code\<rparr>) else io_return ()) (\<lambda>_.
      io_bind get_object (\<lambda>o1.
      let streak = (if code \<in> set transient_codes then ro_streak o1 + 1 else 0);
          stop = (code \<in> set blocking_codes \<or> max_consecutive_transient \<le> streak
            \<or> (code \<notin> set transient_codes \<and> kind \<in> {Some ''http'', Some ''transport''})) in
      io_bind (set_streak streak) (\<lambda>_.
      io_bind (persist e c l started False) (\<lambda>_. io_return (\<not> stop))))))))"

definition go_on :: "'w collector \<Rightarrow> run_config \<Rightarrow> lease \<Rightarrow> instant \<Rightarrow> ('w, bool) run_io" where
  "go_on e c l started = io_bind (persist e c l started False) (\<lambda>_. io_return True)"

text \<open>The exception clauses of the window, in their order; anything else leaves the run.\<close>

definition window_error ::
    "'w collector \<Rightarrow> run_config \<Rightarrow> lease \<Rightarrow> instant \<Rightarrow> window \<Rightarrow> string option \<Rightarrow> pyexn \<Rightarrow> ('w, bool) run_io" where
  "window_error e c l started w old_raw x =
     (if raised_as ''FlexSourceError'' x then refused_window e c l started w old_raw None (Some ''xml'')
      else if raised_as ''ReportScopeError'' x then
        io_bind (fail_window e c w old_raw ''account_scope_mismatch'') (\<lambda>_.
        io_bind (modify_state (\<lambda>st. st\<lparr>cv_blocked := Some ''account_scope''\<rparr>)) (\<lambda>_.
        io_bind (persist e c l started False) (\<lambda>_. io_return False)))
      else if is_value_error x then
        io_bind (fail_window e c w old_raw ''report_validation_failed'') (\<lambda>_. go_on e c l started)
      else if raised_as ''TimeoutError'' x then io_return False
      else io_raise x)"

definition pending_window ::
    "'w collector \<Rightarrow> run_config \<Rightarrow> lease \<Rightarrow> instant \<Rightarrow> window \<Rightarrow> string option \<Rightarrow> ('w, bool) run_io" where
  "pending_window e c l started w old_raw =
     io_bind (fail_window e c w old_raw ''pending'') (\<lambda>_. io_bind (set_streak 0) (\<lambda>_. go_on e c l started))"

definition prepare_window :: "'w collector \<Rightarrow> run_config \<Rightarrow> lease \<Rightarrow> instant \<Rightarrow> window \<Rightarrow> ('w, string option) run_io" where
  "prepare_window e c l started w =
     io_bind (modify_state (upd_slot w (\<lambda>s. s))) (\<lambda>_.
     io_bind get_object (\<lambda>o1.
     io_bind (if rg_forward c then io_bind (modify_state (upd_slot w (reset_slot c w))) (\<lambda>_.
           io_bind (persist e c l started False) (\<lambda>_. io_return ())) else io_return ()) (\<lambda>_.
     io_return (dy_raw (slot_of w (ro_state o1))))))"

text \<open>What the \<open>try\<close> block of a window did.\<close>

datatype attempt = Processed | NotReady | RefusedBy "string option" "string option" | Failed pyexn

definition attempt_window ::
    "'w collector \<Rightarrow> run_config \<Rightarrow> lease \<Rightarrow> pyfloat \<Rightarrow> window \<Rightarrow> string option \<Rightarrow> ('w, attempt) run_io" where
  "attempt_window e c l deadline w old_raw =
     io_catch
       (io_bind (on_world (co_now e)) (\<lambda>capture_start.
        io_bind (on_world (co_fetch e (wi_start w) (wi_end w))) (\<lambda>r. case r of
          Pending \<Rightarrow> io_return NotReady
        | Refused code kind \<Rightarrow> io_return (RefusedBy code kind)
        | Content content \<Rightarrow> io_bind (process_report e c l deadline w old_raw capture_start content) (\<lambda>_. io_return Processed))))
       (\<lambda>x. io_return (Failed x))"

definition window_step ::
    "'w collector \<Rightarrow> run_config \<Rightarrow> lease \<Rightarrow> instant \<Rightarrow> pyfloat \<Rightarrow> window \<Rightarrow> ('w, bool) run_io" where
  "window_step e c l started deadline w =
     io_bind (prepare_window e c l started w) (\<lambda>old_raw.
     io_bind (attempt_window e c l deadline w old_raw) (\<lambda>a. case a of
       Processed \<Rightarrow> go_on e c l started
     | NotReady \<Rightarrow> pending_window e c l started w old_raw
     | RefusedBy code kind \<Rightarrow> refused_window e c l started w old_raw code kind
     | Failed x \<Rightarrow> window_error e c l started w old_raw x))"

fun run_windows ::
    "'w collector \<Rightarrow> run_config \<Rightarrow> lease \<Rightarrow> instant \<Rightarrow> pyfloat \<Rightarrow> window list \<Rightarrow> ('w, unit) run_io" where
  "run_windows e c l started deadline [] = io_return ()"
| "run_windows e c l started deadline (w # ws) =
     io_bind (on_world (co_clock e)) (\<lambda>t.
     if fle deadline (fadd t (Fin 30)) then io_return ()
     else io_bind (window_step e c l started deadline w) (\<lambda>more.
       if more then run_windows e c l started deadline ws else io_return ()))"

section \<open>The run\<close>

datatype outcome = Unconfirmed | Published flex_status

definition label_ok :: "string \<Rightarrow> bool" where
  "label_ok t \<longleftrightarrow> list_all (\<lambda>ch. (of_char ch :: nat) < 128) t \<and> startswith t ''account-'' \<and> drop 8 t \<noteq> [] \<and> list_all is_digit (drop 8 t)"

definition config_error :: "run_config \<Rightarrow> pyexn option" where
  "config_error c = (let accounts = fc_accounts (rg_fields c); labels = dict_values accounts in
     if accounts = [] \<or> \<not> distinct labels \<or> \<not> list_all label_ok labels then Some (ValueError ''invalid_account_labels'')
     else if rg_schema c \<noteq> Some 1 \<or> rg_query_id c = [] \<or> \<not> list_all is_digit (rg_query_id c)
       then Some (ValueError ''invalid_configuration'')
     else None)"

definition load_state :: "'w collector \<Rightarrow> ('w, state \<times> int) io" where
  "load_state e = io_bind (store_read (co_bucket e) state_key) (\<lambda>(b, g). case b of
      None \<Rightarrow> io_return (empty_state, g)
    | Some b \<Rightarrow> io_bind (io_lift (res_bind (loads b) (co_load_state e))) (\<lambda>st. io_return (st, g)))"

definition run_limit :: nat where "run_limit = 30"

definition seed_text :: "run_config \<Rightarrow> date res" where
  "seed_text c = (case (if rg_forward c then fc_forward_start (rg_fields c) else rg_backfill_start c) of
      None \<Rightarrow> Inl (KeyError ''backfill_start'')
    | Some t \<Rightarrow> (case parse_iso_date t of None \<Rightarrow> Inl (ValueError ''Invalid isoformat string'') | Some d \<Rightarrow> Inr d))"

definition mark_targets :: "'w collector \<Rightarrow> run_config \<Rightarrow> instant \<Rightarrow> date \<Rightarrow> state \<Rightarrow> state" where
  "mark_targets e c started d st =
     (if rg_forward c then st\<lparr>cv_forward_start := Some d, cv_forward_target := Some (co_target_day e started)\<rparr>
      else st\<lparr>cv_backfill_start := Some d\<rparr>)"

definition seeded :: "'w collector \<Rightarrow> run_config \<Rightarrow> instant \<Rightarrow> date \<Rightarrow> state \<Rightarrow> state" where
  "seeded e c started d st =
     (seed (mark_targets e c started d st) (add_days d (if rg_forward c then 0 else - 1)) (co_target_day e started)
        (dict_values (fc_accounts (rg_fields c))))\<lparr>cv_last_started := Some started\<rparr>"

definition plan_run :: "'w collector \<Rightarrow> run_config \<Rightarrow> instant \<Rightarrow> ('w, window list) run_io" where
  "plan_run e c started =
     io_bind (io_lift (seed_text c)) (\<lambda>d.
     io_bind (modify_state (seeded e c started d)) (\<lambda>_.
     io_bind get_object (\<lambda>o1.
     case windows (ro_state o1) (co_target_day e started) started run_limit of
       None \<Rightarrow> io_raise (OtherError ''windows does not return'')
     | Some ws \<Rightarrow> io_bind (modify (\<lambda>o1. o1\<lparr>ro_queue := ws, ro_state := upd_counts (\<lambda>k. k\<lparr>rc_planned := length ws\<rparr>) (ro_state o1)\<rparr>))
         (\<lambda>_. io_return ws))))"

definition run_body :: "'w collector \<Rightarrow> run_config \<Rightarrow> lease \<Rightarrow> instant \<Rightarrow> pyfloat \<Rightarrow> ('w, flex_status) run_io" where
  "run_body e c l started deadline =
     io_bind get_object (\<lambda>o1.
     if (case cv_blocked (ro_state o1) of None \<Rightarrow> False | Some b \<Rightarrow> b \<noteq> []) then persist e c l started False
     else io_bind (plan_run e c started) (\<lambda>ws.
       io_bind (persist e c l started False) (\<lambda>_.
       io_bind (run_windows e c l started deadline ws) (\<lambda>_. persist e c l started True))))"

definition with_object :: "run_object \<Rightarrow> ('w, 'a) run_io \<Rightarrow> ('w, 'a) io" where
  "with_object o1 m = (\<lambda>w. case m (w, o1) of (r, (w', o2)) \<Rightarrow> (r, w'))"

definition release_now :: "'w collector \<Rightarrow> lease \<Rightarrow> ('w, unit) io" where
  "release_now e l = io_bind (co_now e) (\<lambda>t. release (co_bucket e) pull_lease_key l t)"

definition finally_release :: "'w collector \<Rightarrow> lease \<Rightarrow> ('w, 'a) io \<Rightarrow> ('w, 'a) io" where
  "finally_release e l m = (\<lambda>w. case m w of (r, w1) \<Rightarrow> (case release_now e l w1 of
      (Inl x, w2) \<Rightarrow> (Inl x, w2) | (Inr _, w2) \<Rightarrow> (r, w2)))"

definition leased_run :: "'w collector \<Rightarrow> run_config \<Rightarrow> instant \<Rightarrow> lease \<Rightarrow> ('w, flex_status) io" where
  "leased_run e c started l =
     io_bind (load_state e) (\<lambda>(st, g).
     io_bind (store_json (co_bucket e) status_key (VDict [])) (\<lambda>(_, sg).
     if cv_forward_start st \<noteq> None \<and> \<not> rg_forward c
     then io_bind (release_now e l) (\<lambda>_. io_raise (ValueError ''forward_configuration_required''))
     else io_bind (co_clock e) (\<lambda>t.
       finally_release e l (with_object
         \<lparr>ro_state = st\<lparr>cv_last_run := Some no_counts\<rparr>, ro_generation = g, ro_status_generation = sg, ro_queue = [], ro_streak = 0\<rparr>
         (run_body e c l started (fadd t (Fin 1500)))))))"

definition collect :: "'w collector \<Rightarrow> run_config \<Rightarrow> ('w, outcome) io" where
  "collect e c = io_bind (co_now e) (\<lambda>started.
     io_bind (if rg_forward c then io_lift (validate_config (rg_fields c)) else io_return ()) (\<lambda>_.
     if rg_ip_restriction c \<noteq> Some ''none'' then io_return Unconfirmed
     else case config_error c of
       Some x \<Rightarrow> io_raise x
     | None \<Rightarrow> io_bind (acquire (co_bucket e) pull_lease_key (co_owner e) started) (\<lambda>l.
         io_bind (leased_run e c started l) (\<lambda>st. io_return (Published st)))))"

text \<open>\<open>pull_outcome\<close> of \<open>__main__.py\<close>: the printed status and the exit code.\<close>

definition pull_outcome :: "outcome \<Rightarrow> string \<times> int" where
  "pull_outcome r = (case r of
      Unconfirmed \<Rightarrow> (''blocked'', 2)
    | Published st \<Rightarrow>
       (let s = fs_summary st; run = (case cs_last_run s of None \<Rightarrow> no_counts | Some k \<Rightarrow> k) in
        if (case cs_blocked s of None \<Rightarrow> False | Some b \<Rightarrow> b \<noteq> []) then (''blocked'', 2)
        else if fs_forward_start st \<noteq> None \<and> fs_forward_validation st \<notin> {Some ''VALIDATED'', Some ''NOT_DUE''} then (''incomplete'', 3)
        else if 0 < rc_planned run \<and> rc_fetched run = 0 then (''incomplete'', 3)
        else (''finished'', 0)))"

section \<open>What a run may count\<close>

text \<open>Planned windows, fetched reports, and windows decided one way or the other.\<close>

definition run_planned :: "run_object \<Rightarrow> nat" where "run_planned o1 = rc_planned (counts (ro_state o1))"
definition run_fetched :: "run_object \<Rightarrow> nat" where "run_fetched o1 = rc_fetched (counts (ro_state o1))"
definition run_decided :: "run_object \<Rightarrow> nat" where
  "run_decided o1 = rc_succeeded (counts (ro_state o1)) + rc_failed (counts (ro_state o1))"

definition tally_step :: "nat \<Rightarrow> nat \<Rightarrow> nat \<Rightarrow> 'a res \<Rightarrow> run_object \<Rightarrow> run_object \<Rightarrow> bool" where
  "tally_step f d x r o1 o2 \<longleftrightarrow> run_planned o2 = run_planned o1 \<and> run_fetched o2 \<le> run_fetched o1 + f
     \<and> run_decided o2 \<le> run_decided o1 + (case r of Inl _ \<Rightarrow> x | Inr _ \<Rightarrow> d)"

definition tallies :: "('w, 'a) run_io \<Rightarrow> nat \<Rightarrow> nat \<Rightarrow> nat \<Rightarrow> bool" where
  "tallies m f d x \<longleftrightarrow> (\<forall>w o1. case m (w, o1) of (r, (w', o2)) \<Rightarrow> tally_step f d x r o1 o2)"

lemma talliesD: "tallies m f d x \<Longrightarrow> m (w, o1) = (r, (w', o2)) \<Longrightarrow> tally_step f d x r o1 o2"
  unfolding tallies_def by (metis (mono_tags, lifting) case_prod_conv)

lemma talliesI: "(\<And>w o1 r w' o2. m (w, o1) = (r, (w', o2)) \<Longrightarrow> tally_step f d x r o1 o2) \<Longrightarrow> tallies m f d x"
  unfolding tallies_def by (simp split: prod.split)

lemma tallies_mono: "tallies m f d x \<Longrightarrow> f \<le> f' \<Longrightarrow> d \<le> d' \<Longrightarrow> x \<le> x' \<Longrightarrow> tallies m f' d' x'"
proof (rule talliesI)
  fix w o1 r w' o2
  assume t: "tallies m f d x" "f \<le> f'" "d \<le> d'" "x \<le> x'" and r: "m (w, o1) = (r, (w', o2))"
  from talliesD [OF t(1) r] t(2-) show "tally_step f' d' x' r o1 o2" by (cases r) (simp_all add: tally_step_def)
qed

lemma tallies_bind:
  assumes m: "tallies m f1 d1 x1" and g: "\<And>v. tallies (g v) f2 d2 x2"
  shows "tallies (io_bind m g) (f1 + f2) (d1 + d2) (max x1 (d1 + x2))"
proof (rule talliesI)
  fix w o1 r w' o2
  assume run: "io_bind m g (w, o1) = (r, (w', o2))"
  obtain r1 w1 oo where s: "m (w, o1) = (r1, (w1, oo))" by (cases "m (w, o1)") (metis prod.collapse)
  note f1 = talliesD [OF m s]
  show "tally_step (f1 + f2) (d1 + d2) (max x1 (d1 + x2)) r o1 o2"
  proof (cases r1)
    case (Inl y)
    then have "r = Inl y" "oo = o2" using run s by simp_all
    with f1 show ?thesis by (auto simp: tally_step_def Inl max_def)
  next
    case (Inr v)
    then have "g v (w1, oo) = (r, (w', o2))" using run s by simp
    from talliesD [OF g this] f1 show ?thesis by (cases r) (auto simp: tally_step_def Inr)
  qed
qed

text \<open>The usual case: a part that counts nothing, before one that may.\<close>

named_theorems quiets "computations that count nothing"

lemma tallies_quiet_bind: "tallies m 0 0 0 \<Longrightarrow> (\<And>v. tallies (g v) f d x) \<Longrightarrow> tallies (io_bind m g) f d x"
  using tallies_bind [of m 0 0 0 g f d x] by simp

lemma tallies_return [quiets]: "tallies (io_return v) 0 0 0"
  by (simp add: tallies_def tally_step_def)

lemma tallies_raise [quiets]: "tallies (io_raise y) 0 0 0"
  by (simp add: tallies_def tally_step_def)

lemma tallies_lift [quiets]: "tallies (io_lift r) 0 0 0"
  by (simp add: tallies_def tally_step_def split: sum.split)

lemma tallies_on_world [quiets]: "tallies (on_world m) 0 0 0"
  by (simp add: tallies_def tally_step_def on_world_def split: prod.split sum.split)

lemma tallies_get [quiets]: "tallies get_object 0 0 0"
  by (simp add: tallies_def tally_step_def get_object_def)

definition run_tally :: "run_counts \<Rightarrow> nat \<times> nat \<times> nat" where
  "run_tally k = (rc_planned k, rc_fetched k, rc_succeeded k + rc_failed k)"

lemma run_tally_code [simp]: "run_tally (k\<lparr>rc_last_code := code\<rparr>) = run_tally k"
  by (simp add: run_tally_def)

lemma tallies_modify [quiets]:
  "(\<And>o1. run_tally (counts (ro_state (f o1))) = run_tally (counts (ro_state o1))) \<Longrightarrow> tallies (modify f) 0 0 0"
  by (simp add: tallies_def tally_step_def modify_def run_planned_def run_fetched_def run_decided_def run_tally_def)

lemma tallies_modify_state [quiets]:
  "(\<And>st. run_tally (counts (f st)) = run_tally (counts st)) \<Longrightarrow> tallies (modify_state f) 0 0 0"
  unfolding modify_state_def by (rule tallies_modify) simp

lemma tallies_if: "(b \<Longrightarrow> tallies m f d x) \<Longrightarrow> (\<not> b \<Longrightarrow> tallies n f d x) \<Longrightarrow> tallies (if b then m else n) f d x"
  by simp

lemma tallies_option: "tallies m f d x \<Longrightarrow> (\<And>v. tallies (g v) f d x) \<Longrightarrow> tallies (case y of None \<Rightarrow> m | Some v \<Rightarrow> g v) f d x"
  by (cases y) simp_all

lemma tallies_prod: "(\<And>a b. tallies (g a b) f d x) \<Longrightarrow> tallies (case y of (a, b) \<Rightarrow> g a b) f d x"
  by (cases y) simp

lemma tallies_let: "(\<And>y. tallies (g y) f d x) \<Longrightarrow> tallies (let y = v in g y) f d x"
  by simp

lemma tallies_catch: "tallies m 0 0 0 \<Longrightarrow> (\<And>y. tallies (h y) 0 0 0) \<Longrightarrow> tallies (io_catch m h) 0 0 0"
proof (rule talliesI)
  fix w o1 r w' o2
  assume m: "tallies m 0 0 0" and h: "\<And>y. tallies (h y) 0 0 0" and run: "io_catch m h (w, o1) = (r, (w', o2))"
  obtain r1 w1 oo where s: "m (w, o1) = (r1, (w1, oo))" by (cases "m (w, o1)") (metis prod.collapse)
  note f1 = talliesD [OF m s]
  show "tally_step 0 0 0 r o1 o2"
  proof (cases r1)
    case (Inl y)
    then have "h y (w1, oo) = (r, (w', o2))" using run s by (simp add: io_catch_def)
    from talliesD [OF h this] f1 show ?thesis by (cases r) (auto simp: tally_step_def Inl)
  next
    case (Inr v)
    with run s f1 show ?thesis by (auto simp: io_catch_def)
  qed
qed

lemma tallies_io_fold: "(\<And>y s. tallies (g y s) 0 0 0) \<Longrightarrow> tallies (io_fold g ys s) 0 0 0"
proof (induction ys arbitrary: s)
  case Nil
  show ?case unfolding io_fold.simps by (rule tallies_return)
next
  case (Cons y ys)
  show ?case unfolding io_fold.simps by (rule tallies_quiet_bind) (use Cons in simp_all)
qed

lemmas tally_rules = tallies_quiet_bind tallies_if tallies_option tallies_prod tallies_let

lemma counts_upd_slot [simp]: "counts (upd_slot w f st) = counts st"
  by (simp add: counts_def upd_slot_def split: kind.split)

lemma counts_fields [simp]:
  "counts (invalidate_following d s st) = counts st" "counts (reopen_days c w st) = counts st"
  "counts (st\<lparr>cv_last_finished := t\<rparr>) = counts st" "counts (st\<lparr>cv_blocked := b\<rparr>) = counts st"
  "counts (st\<lparr>cv_blocked := b, cv_blocked_code := b'\<rparr>) = counts st" "counts (upd_counts f st) = f (counts st)"
  by (simp_all add: counts_def invalidate_following_def reopen_days_def upd_counts_def)

lemma tallies_persist [quiets]: "tallies (persist e c l started finished) 0 0 0"
  unfolding persist_def by (intro tally_rules quiets; simp)

lemma tallies_set_streak [quiets]: "tallies (set_streak n) 0 0 0"
  unfolding set_streak_def by (intro quiets) simp

lemma tallies_prepare [quiets]: "tallies (prepare_window e c l started w) 0 0 0"
  unfolding prepare_window_def by (intro tally_rules quiets; simp)

lemma tallies_previous [quiets]: "tallies (previous_content e c w) 0 0 0"
  unfolding previous_content_def by (intro tally_rules quiets)

lemma tallies_inspect [quiets]: "tallies (inspect_window e c w content raw) 0 0 0"
  unfolding inspect_window_def by (intro tally_rules quiets tallies_catch; simp)

lemma tallies_qualify [quiets]: "tallies (qualify_window e c w old_raw content raw a b checks) 0 0 0"
  unfolding qualify_window_def by (intro tally_rules quiets; simp)

lemma tallies_read_raw [quiets]: "tallies (read_raw e k) 0 0 0"
  unfolding read_raw_def by (intro tally_rules quiets)

lemma tallies_control [quiets]: "tallies (month_control e c w deadline content b) 0 0 0"
  unfolding month_control_def by (intro tally_rules quiets tallies_io_fold; simp)

lemma tallies_store [quiets]: "tallies (store_window e c w digest checks derived) 0 0 0"
  unfolding store_window_def by (intro tally_rules quiets; simp)

lemma tallies_go_on [quiets]: "tallies (go_on e c l started) 0 0 0"
  unfolding go_on_def by (intro tally_rules quiets)

text \<open>The wall clock answers, so nothing raises between counting a window and leaving it.\<close>

definition clock_answers :: "'w collector \<Rightarrow> bool" where
  "clock_answers e \<longleftrightarrow> (\<forall>w. \<exists>t w'. co_now e w = (Inr t, w'))"

definition calm :: "('w, 'a) run_io \<Rightarrow> bool" where
  "calm m \<longleftrightarrow> (\<forall>s. \<exists>v s'. m s = (Inr v, s'))"

named_theorems calms "computations that do not raise"

lemma calm_bind [calms]: "calm m \<Longrightarrow> (\<And>v. calm (g v)) \<Longrightarrow> calm (io_bind m g)"
  unfolding calm_def by (metis io_bind_eq)

lemma calm_parts [calms]:
  "calm (io_return v)" "calm get_object" "calm (modify f)" "calm (modify_state h)"
  by (simp_all add: calm_def get_object_def modify_def modify_state_def split: prod.split)

lemma calm_if [calms]: "calm m \<Longrightarrow> calm n \<Longrightarrow> calm (if b then m else n)"
  by simp

lemma calm_now [calms]: "clock_answers e \<Longrightarrow> calm (on_world (co_now e))"
  unfolding calm_def clock_answers_def on_world_def by (auto split: prod.split) (metis Pair_inject)

lemma tallies_calm: "calm m \<Longrightarrow> tallies m f d x \<Longrightarrow> tallies m f d y"
proof (rule talliesI)
  fix w o1 r w' o2
  assume m: "calm m" "tallies m f d x" and r: "m (w, o1) = (r, (w', o2))"
  from m(1) r obtain v where "r = Inr v" unfolding calm_def by (metis Pair_inject)
  with talliesD [OF m(2) r] show "tally_step f d y r o1 o2" by (simp add: tally_step_def)
qed

lemma tallies_decide:
  assumes "\<And>o1. run_planned (f o1) = run_planned o1" "\<And>o1. run_fetched (f o1) = run_fetched o1"
    and "\<And>o1. run_decided (f o1) \<le> Suc (run_decided o1)"
  shows "tallies (modify f) 0 (Suc 0) 0"
  using assms by (simp add: tallies_def tally_step_def modify_def)



lemma tallies_first: "tallies m f d 0 \<Longrightarrow> (\<And>v. tallies (g v) 0 0 0) \<Longrightarrow> tallies (io_bind m g) f d d"
  using tallies_bind [of m f d 0 g 0 0 0] by simp

lemma tallies_fail_window: "clock_answers e \<Longrightarrow> tallies (fail_window e c w old_raw code) 0 1 0"
proof (rule tallies_calm [where x = 0])
  show "tallies (fail_window e c w old_raw code) 0 1 0"
    unfolding fail_window_def
    by (intro tallies_quiet_bind quiets tallies_if; simp add: modify_state_def)
      (rule tallies_decide; simp add: run_planned_def run_fetched_def run_decided_def)
qed (unfold fail_window_def, intro calms)

lemma calm_close_window: "clock_answers e \<Longrightarrow> calm (close_window e c w old_raw checks)"
  unfolding close_window_def fail_window_def by (intro calms)

lemma tallies_close_window:
  assumes "clock_answers e"
  shows "tallies (close_window e c w old_raw checks) 0 1 0"
proof (rule tallies_calm [OF calm_close_window [OF assms], where x = 1])
  have s: "tallies (modify_state (\<lambda>st. upd_counts (\<lambda>k. k\<lparr>rc_succeeded := rc_succeeded k + 1\<rparr>) (upd_slot w f st))) 0 (Suc 0) 0" for f
    unfolding modify_state_def
    by (rule tallies_decide) (simp_all add: run_planned_def run_fetched_def run_decided_def)
  have q: "tallies (if rg_forward c then io_bind (on_world (co_now e)) (\<lambda>t. modify_state (upd_slot w (g t))) else io_return ()) 0 0 0" for g
    by (intro tallies_if tallies_quiet_bind quiets) simp
  have f: "tallies (fail_window e c w old_raw ''incomplete_report_or_daily_control'') 0 (Suc 0) (Suc 0)"
    by (rule tallies_mono [OF tallies_fail_window [OF assms]]) simp_all
  show "tallies (close_window e c w old_raw checks) 0 1 1"
    unfolding close_window_def One_nat_def
    by (intro tallies_quiet_bind [OF tallies_get] tallies_if f) (rule tallies_first [OF s [unfolded One_nat_def] q])
qed

lemma tallies_fetched: "tallies (modify_state (upd_counts (\<lambda>k. k\<lparr>rc_fetched := rc_fetched k + 1\<rparr>))) 1 0 0"
  by (simp add: tallies_def tally_step_def modify_state_def modify_def run_planned_def run_fetched_def run_decided_def)

lemma tallies_process:
  assumes "clock_answers e"
  shows "tallies (process_report e c l deadline w old_raw capture_start content) 1 1 0"
proof -
  note tail = tallies_quiet_bind [of _ _ 0 1 0]
  have r: "tallies (io_bind (modify_state (upd_counts (\<lambda>k. k\<lparr>rc_fetched := rc_fetched k + 1\<rparr>))) g) 1 1 0"
    if "\<And>v. tallies (g v) 0 1 0" for g :: "unit \<Rightarrow> ('a, unit) run_io"
    using tallies_bind [OF tallies_fetched that] by simp
  show ?thesis
    unfolding process_report_def
    by (intro tallies_quiet_bind [of _ _ 1 1 0] r tallies_if tallies_prod tallies_let quiets tail
        tallies_close_window assms; (simp split: kind.split)?; (intro quiets conjI allI impI; simp)?)
qed

lemma tallies_first_bind: "tallies m 0 d 0 \<Longrightarrow> (\<And>v. tallies (g v) 0 0 0) \<Longrightarrow> tallies (io_bind m g) 0 d d"
  by (rule tallies_first)

lemma tallies_refused: "clock_answers e \<Longrightarrow> tallies (refused_window e c l started w old_raw code kind) 0 1 1"
  unfolding refused_window_def Let_def
  by (intro tallies_first_bind tallies_fail_window tallies_quiet_bind tallies_if quiets; simp)

lemma tallies_pending: "clock_answers e \<Longrightarrow> tallies (pending_window e c l started w old_raw) 0 1 1"
  unfolding pending_window_def
  by (intro tallies_first_bind tallies_fail_window tallies_quiet_bind quiets)

lemma tallies_error: "clock_answers e \<Longrightarrow> tallies (window_error e c l started w old_raw x) 0 1 1"
  unfolding window_error_def
  by (intro tallies_if tallies_refused tallies_first_bind tallies_fail_window tallies_quiet_bind quiets
      tallies_mono [of _ 0 0 0 0 1 1] le0 order_refl; simp)

lemma attempt_tally:
  assumes e: "clock_answers e" and run: "attempt_window e c l deadline w old_raw (v, o1) = (r, (v', o2))"
  shows "\<exists>a. r = Inr a \<and> tally_step 1 (if a = Processed then 1 else 0) 0 r o1 o2"
proof -
  define m where "m capture_start = (\<lambda>r. (case r of Pending \<Rightarrow> io_return NotReady | Refused code kind \<Rightarrow> io_return (RefusedBy code kind)
        | Content content \<Rightarrow> io_bind (process_report e c l deadline w old_raw capture_start content) (\<lambda>_. io_return Processed)) :: ('a, attempt) run_io)" for capture_start :: instant
  have whole: "attempt_window e c l deadline w old_raw = io_catch (io_bind (on_world (co_now e)) (\<lambda>t.
      io_bind (on_world (co_fetch e (wi_start w) (wi_end w))) (m t))) (\<lambda>x. io_return (Failed x))"
    by (simp add: attempt_window_def m_def)
  have m: "m t q (u, o1) = (s, (u', oo)) \<Longrightarrow> tally_step 1 (if s = Inr Processed then 1 else 0) 0 s o1 oo" for t q u s u' oo
  proof (cases q)
    case (Content content)
    assume s: "m t q (u, o1) = (s, (u', oo))"
    obtain s1 u1 o1' where p: "process_report e c l deadline w old_raw t content (u, o1) = (s1, (u1, o1'))" by (metis prod_cases3)
    from talliesD [OF tallies_process [OF e] p] s p show ?thesis
      by (cases s1) (auto simp: m_def Content tally_step_def)
  qed (auto simp: m_def tally_step_def)
  obtain s u oo where body: "io_bind (on_world (co_now e)) (\<lambda>t.
      io_bind (on_world (co_fetch e (wi_start w) (wi_end w))) (m t)) (v, o1) = (s, (u, oo))" by (metis prod_cases3)
  have t: "tally_step 1 (if s = Inr Processed then 1 else 0) 0 s o1 oo"
  proof -
    obtain t v1 where now: "co_now e v = (Inr t, v1)" using e unfolding clock_answers_def by blast
    obtain q v2 where fetch: "co_fetch e (wi_start w) (wi_end w) v1 = (q, v2)" by fastforce
    show ?thesis
    proof (cases q)
      case (Inl x)
      with body now fetch have "s = Inl x" "oo = o1" by (simp_all add: io_bind_apply on_world_def)
      then show ?thesis by (simp add: tally_step_def)
    next
      case (Inr f)
      with body now fetch have "m t f (v2, o1) = (s, (u, oo))" by (simp add: io_bind_apply on_world_def)
      then show ?thesis by (rule m)
    qed
  qed
  show ?thesis
  proof (cases s)
    case (Inl x)
    have "r = Inr (Failed x)" "oo = o2" using run unfolding whole io_catch_def body Inl by simp_all
    with t Inl show ?thesis by (simp add: tally_step_def)
  next
    case (Inr a)
    have "r = Inr a" "oo = o2" using run unfolding whole io_catch_def body Inr by simp_all
    with t Inr show ?thesis by (simp add: tally_step_def)
  qed
qed

lemma tallies_step:
  assumes "clock_answers e"
  shows "tallies (window_step e c l started deadline w) 1 1 1"
proof -
  have "tallies (io_bind (attempt_window e c l deadline w old_raw) h) 1 1 1"
    if h: "\<And>a. tallies (h a) 0 (if a = Processed then 0 else 1) (if a = Processed then 0 else 1)"
    for old_raw and h :: "attempt \<Rightarrow> ('a, bool) run_io"
  proof (rule talliesI)
    fix v o1 r v' o2
    assume run: "io_bind (attempt_window e c l deadline w old_raw) h (v, o1) = (r, (v', o2))"
    obtain s u oo where a: "attempt_window e c l deadline w old_raw (v, o1) = (s, (u, oo))" by (metis prod_cases3)
    from attempt_tally [OF assms a] obtain y where y: "s = Inr y"
      and t: "tally_step 1 (if y = Processed then 1 else 0) 0 s o1 oo" by blast
    from run a y have "h y (u, oo) = (r, (v', o2))" by simp
    from talliesD [OF h this] t y show "tally_step 1 1 1 r o1 o2"
      by (cases r) (auto simp: tally_step_def split: if_splits)
  qed
  then show ?thesis
    unfolding window_step_def
    by (rule tallies_quiet_bind [OF tallies_prepare])
      (auto split: attempt.split intro: tallies_go_on tallies_pending [OF assms] tallies_refused [OF assms]
        tallies_error [OF assms] simp flip: One_nat_def)
qed

lemma tallies_windows:
  assumes "clock_answers e"
  shows "tallies (run_windows e c l started deadline ws) (length ws) (length ws) (length ws)"
proof (induction ws)
  case Nil
  show ?case unfolding run_windows.simps list.size by (rule tallies_return)
next
  case (Cons w ws)
  have stop: "tallies (io_return v) n n n" for v :: unit and n
    by (rule tallies_mono [OF tallies_return]) simp_all
  have rest: "tallies (if more then run_windows e c l started deadline ws else io_return ()) (length ws) (length ws) (length ws)" for more
    by (intro tallies_if Cons.IH stop)
  have "tallies (io_bind (window_step e c l started deadline w) (\<lambda>more. if more then run_windows e c l started deadline ws else io_return ()))
      (Suc (length ws)) (Suc (length ws)) (Suc (length ws))"
    using tallies_bind [OF tallies_step [OF assms] rest] by simp
  then show ?case
    unfolding run_windows.simps length_Cons
    by (intro tallies_quiet_bind [OF tallies_on_world] tallies_if stop)
qed

lemma seed_last_run [simp]: "cv_last_run (seed st b t accounts) = cv_last_run st"
  by (simp add: seed_def Let_def)

lemma plan_run_counts:
  assumes run: "plan_run e c started (w, o1) = (Inr ws, (w', o2))" and none: "counts (ro_state o1) = no_counts"
  shows "run_planned o2 = length ws" "length ws \<le> 30" "run_fetched o2 = 0" "run_decided o2 = 0"
proof -
  from run obtain d where d: "seed_text c = Inr d"
    by (cases "seed_text c") (simp_all add: plan_run_def io_bind_apply)
  let ?st = "seeded e c started d (ro_state o1)"
  have kept: "counts ?st = no_counts" using none by (simp add: counts_def seeded_def mark_targets_def)
  from run d obtain xs where xs: "windows ?st (co_target_day e started) started run_limit = Some xs"
    by (cases "windows ?st (co_target_day e started) started run_limit")
      (simp_all add: plan_run_def io_bind_apply modify_state_def modify_def get_object_def)
  with run d have o2: "ws = xs" "ro_state o2 = upd_counts (\<lambda>k. k\<lparr>rc_planned := length xs\<rparr>) ?st"
    by (auto simp: plan_run_def io_bind_apply modify_state_def modify_def get_object_def)
  from xs have "length xs \<le> run_limit" by (auto simp: windows_def)
  with o2 kept show "run_planned o2 = length ws" "length ws \<le> 30" "run_fetched o2 = 0" "run_decided o2 = 0"
    by (simp_all add: run_planned_def run_fetched_def run_decided_def run_limit_def no_counts_def)
qed

lemma persist_result:
  assumes "persist e c l started fin (w, o1) = (Inr st, (w', o2))"
  shows "\<exists>t. st = status_of e c started t o2"
  using assms unfolding persist_def Let_def
  by (elim io_bind_InrE) (auto simp: get_object_def modify_def on_world_def status_of_def Let_def split: prod.splits)

section \<open>Published runs\<close>

definition published_counts :: "flex_status \<Rightarrow> run_counts" where
  "published_counts st = (case cs_last_run (fs_summary st) of None \<Rightarrow> no_counts | Some k \<Rightarrow> k)"

lemma view_last_run [simp]: "cv_last_run (reporting_view st) = cv_last_run st"
  by (simp add: reporting_view_def Let_def split: option.split)

lemma counts_published [simp]: "published_counts (status_of e c started t o1) = counts (ro_state o1)"
  by (simp add: published_counts_def counts_def status_of_def summary_def Let_def)

lemma counts_reset [simp]: "counts (st\<lparr>cv_last_run := Some k\<rparr>) = k"
  by (simp add: counts_def)

definition within_plan :: "run_counts \<Rightarrow> bool" where
  "within_plan k \<longleftrightarrow> rc_planned k \<le> 30 \<and> rc_fetched k \<le> rc_planned k \<and> rc_succeeded k + rc_failed k \<le> rc_planned k"

lemma run_body_counts:
  assumes e: "clock_answers e" and none: "counts (ro_state o1) = no_counts"
    and run: "run_body e c l started deadline (w, o1) = (Inr st, (w', o2))"
  shows "within_plan (published_counts st) \<and> (\<exists>t. st = status_of e c started t o2)"
proof (cases "case cv_blocked (ro_state o1) of None \<Rightarrow> False | Some b \<Rightarrow> b \<noteq> []")
  case True
  with run have p: "persist e c l started False (w, o1) = (Inr st, (w', o2))"
    by (simp add: run_body_def io_bind_apply get_object_def)
  from talliesD [OF tallies_persist p] none persist_result [OF p] show ?thesis
    by (auto simp: tally_step_def within_plan_def run_planned_def run_fetched_def run_decided_def no_counts_def)
next
  case False
  with run obtain ws w1 o3 where plan: "plan_run e c started (w, o1) = (Inr ws, (w1, o3))"
    and "io_bind (persist e c l started False) (\<lambda>_. io_bind (run_windows e c l started deadline ws)
        (\<lambda>_. persist e c l started True)) (w1, o3) = (Inr st, (w', o2))"
    by (fastforce simp: run_body_def get_object_def io_bind_apply split: prod.splits sum.splits)
  then obtain s1 w2 o4 u w3 o5 where p1: "persist e c l started False (w1, o3) = (Inr s1, (w2, o4))"
    and r: "run_windows e c l started deadline ws (w2, o4) = (Inr u, (w3, o5))"
    and p2: "persist e c l started True (w3, o5) = (Inr st, (w', o2))"
    by (elim io_bind_InrE) auto
  note p = plan_run_counts [OF plan none]
  from talliesD [OF tallies_persist p1] talliesD [OF tallies_windows [OF e] r] talliesD [OF tallies_persist p2] p
  have "run_planned o2 = length ws" "run_fetched o2 \<le> length ws" "run_decided o2 \<le> length ws"
    by (auto simp: tally_step_def)
  with p(2) persist_result [OF p2] show ?thesis
    by (auto simp: within_plan_def run_planned_def run_fetched_def run_decided_def)
qed

lemma collect_published:
  assumes e: "clock_answers e" and run: "collect e c w = (Inr (Published st), w')"
  shows "within_plan (published_counts st) \<and> (\<exists>started t o2. st = status_of e c started t o2)"
proof -
  from run obtain started l w1 where "leased_run e c started l w1 = (Inr st, w')"
    unfolding collect_def by (elim io_bind_InrE) (auto split: if_splits option.splits elim!: io_bind_InrE)
  then obtain a w2 where "load_state e w1 = (Inr a, w2)"
    and "(case a of (st, g) \<Rightarrow> io_bind (store_json (co_bucket e) status_key (VDict [])) (\<lambda>(_, sg).
      if cv_forward_start st \<noteq> None \<and> \<not> rg_forward c
      then io_bind (release_now e l) (\<lambda>_. io_raise (ValueError ''forward_configuration_required''))
      else io_bind (co_clock e) (\<lambda>t. finally_release e l (with_object
         \<lparr>ro_state = st\<lparr>cv_last_run := Some no_counts\<rparr>, ro_generation = g, ro_status_generation = sg, ro_queue = [], ro_streak = 0\<rparr>
         (run_body e c l started (fadd t (Fin 1500))))))) w2 = (Inr st, w')"
    unfolding leased_run_def by (rule io_bind_InrE)
  then obtain o1 deadline w3 where f: "finally_release e l (with_object o1 (run_body e c l started deadline)) w3 = (Inr st, w')"
    and o1: "counts (ro_state o1) = no_counts"
    by (cases a) (fastforce elim!: io_bind_InrE split: if_splits)
  from f obtain w3 w2 where "with_object o1 (run_body e c l started deadline) w2 = (Inr st, w3)"
    by (auto simp: finally_release_def split: prod.splits sum.splits)
  then obtain o2 where "run_body e c l started deadline (w2, o1) = (Inr st, (w3, o2))"
    by (auto simp: with_object_def split: prod.splits)
  from run_body_counts [OF e o1 this] show ?thesis by blast
qed

text \<open>
  C39.  What a run publishes, on every path of the collector: at most 30 windows were planned, no
  more reports were fetched than windows planned, and no more windows counted as succeeded or
  failed than were planned.  When the job then exits with 0 (\<open>finished\<close>), the collector is
  not blocked, something was fetched if anything was planned, and in forward mode either nothing
  is due or every planned window succeeded and none failed.
\<close>

theorem published_run_sound:
  assumes e: "clock_answers e" and run: "collect e c w = (Inr (Published st), w')"
  shows "rc_planned (published_counts st) \<le> 30 \<and> rc_fetched (published_counts st) \<le> rc_planned (published_counts st)
    \<and> rc_succeeded (published_counts st) + rc_failed (published_counts st) \<le> rc_planned (published_counts st)
    \<and> (pull_outcome (Published st) = (''finished'', 0) \<longrightarrow>
         cs_blocked (fs_summary st) \<in> {None, Some []}
         \<and> (rc_planned (published_counts st) = 0 \<or> 0 < rc_fetched (published_counts st))
         \<and> (rg_forward c \<longrightarrow> fs_forward_validation st = Some ''NOT_DUE'' \<or> (fs_forward_validation st = Some ''VALIDATED''
              \<and> rc_succeeded (published_counts st) = rc_planned (published_counts st) \<and> rc_failed (published_counts st) = 0)))"
proof -
  from collect_published [OF e run] obtain started t o2 where s: "st = status_of e c started t o2"
    and k: "within_plan (published_counts st)" by blast
  have f: "rg_forward c \<Longrightarrow> fs_forward_start st \<noteq> None \<and> (fs_forward_validation st = Some ''VALIDATED''
      \<longrightarrow> rc_succeeded (published_counts st) = rc_planned (published_counts st) \<and> rc_failed (published_counts st) = 0)"
    unfolding s counts_published by (auto simp: status_of_def forward_validation_def Let_def split: if_splits)
  show ?thesis
    using k f
    by (auto simp: within_plan_def pull_outcome_def published_counts_def [symmetric] Let_def split: option.splits if_splits)
qed

section \<open>A run, evaluated\<close>

definition sample_collector :: "(string, body \<times> nat) dict collector" where
  "sample_collector = \<lparr>co_bucket = dict_bucket, co_owner = ''job'', co_now = io_return sample_now, co_clock = io_return (Fin 0),
     co_fetch = (\<lambda>a b. io_return Pending), co_target_day = (\<lambda>_. Date 2026 12 31), co_forward = sample_forward_env,
     co_load_state = (\<lambda>_. Inr empty_state), co_save_state = (\<lambda>_. VDict []), co_save_status = (\<lambda>_. VDict []),
     co_projection = (\<lambda>_ _ _ _ _ _. RawBody [])\<rparr>"

definition sample_run_config :: run_config where
  "sample_run_config = \<lparr>rg_forward = False,
     rg_fields = \<lparr>fc_accounts = [(''U1'', ''account-1'')], fc_forward_start = None, fc_snapshot_time_field = Some ''a'',
       fc_snapshot_timezone_field = Some ''b'', fc_event_time_fields = []\<rparr>,
     rg_ip_restriction = Some ''none'', rg_schema = Some 1, rg_query_id = ''12'', rg_backfill_start = Some ''2027-01-01'',
     rg_sections = [], rg_token_expires_at = None\<rparr>"

text \<open>One day is planned, its report is not ready: the run is published, and the job exits with 3.\<close>

lemma sample_run:
  "map_sum id (\<lambda>r. case r of Unconfirmed \<Rightarrow> None | Published st \<Rightarrow> Some (published_counts st, pull_outcome r))
      (fst (collect sample_collector sample_run_config []))
    = Inr (Some (\<lparr>rc_planned = 1, rc_fetched = 0, rc_succeeded = 0, rc_failed = 1, rc_last_code = None\<rparr>, (''incomplete'', 3)))"
  by code_simp

lemma sample_clock: "clock_answers sample_collector"
  by (simp add: clock_answers_def sample_collector_def)

theorem published_run_sound_witness:
  "\<exists>st w'. collect sample_collector sample_run_config [] = (Inr (Published st), w')
     \<and> rc_planned (published_counts st) = 1 \<and> rc_fetched (published_counts st) = 0
     \<and> rc_succeeded (published_counts st) + rc_failed (published_counts st) \<le> 1 \<and> pull_outcome (Published st) = (''incomplete'', 3)"
proof -
  obtain r w' where run: "collect sample_collector sample_run_config [] = (r, w')" by fastforce
  with sample_run obtain st where st: "r = Inr (Published st)" "pull_outcome (Published st) = (''incomplete'', 3)"
    "rc_planned (published_counts st) = 1" "rc_fetched (published_counts st) = 0"
    by (cases r) (auto split: outcome.splits)
  from published_run_sound [OF sample_clock run [unfolded st(1)]] run st show ?thesis by auto
qed

end
