(* ===== verification/FlexAnchors.thy ===== *)
theory FlexAnchors
  imports FlexRunner
begin

text \<open>
  Which anchor the evidence of a window is qualified against, and what its events may be
  (\<open>application/flex_daily/runner.py\<close>, the choice of \<open>previous\<close>, with \<open>qualify\<close> of
  \<open>application/flex_daily/forward.py\<close>): the latest qualified evidence of an earlier day.

  The windows of a run are taken newest first, and a day that is fetched for the first time does
  not invalidate the later ones, so a day may be qualified before the day that precedes it; then
  both are qualified against the same older anchor, and an event that both reports show
  between their anchors is selected twice (\<open>late_day_selects_again\<close>).
\<close>

section \<open>The latest earlier anchor\<close>

definition state_dicts :: "state \<Rightarrow> bool" where
  "state_dicts st \<longleftrightarrow> dict_ok (cv_days st) \<and> list_all (\<lambda>(d, s). dict_ok (dy_forward s)) (cv_days st)"

definition anchor_of :: "string \<Rightarrow> evidence slot \<Rightarrow> evidence option" where
  "anchor_of label s = (case dict_get (dy_forward s) label of
      None \<Rightarrow> None | Some v \<Rightarrow> (if fe_anchor_qualified v then Some v else None))"

text \<open>The specification: an earlier day of the forward period, and none between has an anchor.\<close>

definition latest_anchor :: "run_config \<Rightarrow> window \<Rightarrow> state \<Rightarrow> string \<Rightarrow> evidence \<Rightarrow> bool" where
  "latest_anchor c w st label p \<longleftrightarrow> (\<exists>d s. (d, s) \<in> set (cv_days st) \<and> forward_date c \<le> d \<and> d < wi_start w
     \<and> anchor_of label s = Some p
     \<and> list_all (\<lambda>(d', s'). d < d' \<and> d' < wi_start w \<longrightarrow> anchor_of label s' = None) (cv_days st))"

lemma anchors_of_slot:
  "dict_ok evs \<Longrightarrow>
   dict_get (fold (\<lambda>(label, ev) prev. if fe_anchor_qualified ev then dict_set prev label ev else prev) evs prev) label
     = (case dict_get evs label of Some v \<Rightarrow> if fe_anchor_qualified v then Some v else dict_get prev label
        | None \<Rightarrow> dict_get prev label)"
proof (induction evs arbitrary: prev)
  case (Cons x evs)
  obtain l v where x: "x = (l, v)" by (cases x)
  from Cons.prems have ok: "dict_ok evs" and new: "dict_get evs l = None"
    by (auto simp: x dict_ok_def dict_keys_def map_of_eq_None_iff)
  show ?case
    by (cases "dict_get evs label") (auto simp: x Cons.IH [OF ok] new dict_simps)
qed simp

definition add_anchors :: "run_config \<Rightarrow> window \<Rightarrow> date \<times> evidence slot \<Rightarrow> (string, evidence) dict \<Rightarrow> (string, evidence) dict" where
  "add_anchors c w ds prev = (case ds of (d, s) \<Rightarrow> if forward_date c \<le> d \<and> d < wi_start w
     then fold (\<lambda>(label, ev) prev. if fe_anchor_qualified ev then dict_set prev label ev else prev) (dy_forward s) prev
     else prev)"

lemma add_anchors_get:
  "dict_ok (dy_forward s) \<Longrightarrow> dict_get (add_anchors c w (d, s) prev) label =
     (if forward_date c \<le> d \<and> d < wi_start w \<and> anchor_of label s \<noteq> None then anchor_of label s else dict_get prev label)"
  by (simp add: add_anchors_def anchors_of_slot anchor_of_def split: option.split)

text \<open>Over days in order, the last one that has an anchor counts.\<close>

lemma anchors_fold:
  assumes "sorted (List.map fst ds)" and "distinct (List.map fst ds)" and "list_all (\<lambda>(d, s). dict_ok (dy_forward s)) ds"
    and "dict_get (fold (add_anchors c w) ds []) label = Some p"
  shows "\<exists>d s. (d, s) \<in> set ds \<and> forward_date c \<le> d \<and> d < wi_start w \<and> anchor_of label s = Some p
     \<and> list_all (\<lambda>(d', s'). d < d' \<and> d' < wi_start w \<longrightarrow> anchor_of label s' = None) ds"
  using assms
proof (induction ds rule: rev_induct)
  case (snoc x ds)
  obtain d s where x: "x = (d, s)" by (cases x)
  have before: "\<forall>(d', s') \<in> set ds. d' < d"
    using snoc.prems(1,2) by (force simp: x sorted_append order_less_le)
  have ok: "dict_ok (dy_forward s)" using snoc.prems(3) by (simp add: x)
  have get: "dict_get (fold (add_anchors c w) (ds @ [x]) []) label =
      (if forward_date c \<le> d \<and> d < wi_start w \<and> anchor_of label s \<noteq> None then anchor_of label s
       else dict_get (fold (add_anchors c w) ds []) label)"
    by (simp add: x add_anchors_get [OF ok])
  show ?case
  proof (cases "forward_date c \<le> d \<and> d < wi_start w \<and> anchor_of label s \<noteq> None")
    case True
    with get snoc.prems(4) have p: "anchor_of label s = Some p" by simp
    have "list_all (\<lambda>(d', s'). d < d' \<and> d' < wi_start w \<longrightarrow> anchor_of label s' = None) (ds @ [x])"
      using before by (auto simp: x list_all_iff)
    with True p show ?thesis by (auto simp: x)
  next
    case False
    with get have "dict_get (fold (add_anchors c w) (ds @ [x]) []) label = dict_get (fold (add_anchors c w) ds []) label"
      by (simp only: if_False)
    with snoc.prems(4) have "dict_get (fold (add_anchors c w) ds []) label = Some p" by simp
    moreover have "sorted (List.map fst ds)" "distinct (List.map fst ds)" "list_all (\<lambda>(d, s). dict_ok (dy_forward s)) ds"
      using snoc.prems(1-3) by (simp_all add: sorted_append)
    ultimately obtain d0 s0 where 0: "(d0, s0) \<in> set ds" "forward_date c \<le> d0" "d0 < wi_start w" "anchor_of label s0 = Some p"
      "list_all (\<lambda>(d', s'). d0 < d' \<and> d' < wi_start w \<longrightarrow> anchor_of label s' = None) ds"
      using snoc.IH by blast
    have "d0 < d" using before 0(1) by auto
    then have "d < wi_start w \<longrightarrow> anchor_of label s = None" using False 0(2) by auto
    with 0 show ?thesis by (auto simp: x intro!: exI [of _ d0] exI [of _ s0])
  qed
qed simp

lemma previous_anchors_latest:
  assumes "state_dicts st" and "dict_get (previous_anchors c w st) label = Some p"
  shows "latest_anchor c w st label p"
proof -
  let ?ds = "sort_key fst (cv_days st)"
  have f: "previous_anchors c w st = fold (add_anchors c w) ?ds []"
    unfolding previous_anchors_def by (rule fold_cong) (auto simp: add_anchors_def fun_eq_iff)
  have "distinct (List.map fst ?ds)" using assms(1) by (simp add: state_dicts_def dict_ok_def dict_keys_def distinct_map)
  moreover have "list_all (\<lambda>(d, s). dict_ok (dy_forward s)) ?ds" using assms(1) by (simp add: state_dicts_def list_all_iff)
  ultimately show ?thesis
    using anchors_fold [of ?ds c w label p] assms(2) unfolding f latest_anchor_def by (simp add: list_all_iff)
qed


section \<open>Two days, and a day that comes late\<close>

definition anchor_evidence :: evidence where
  "anchor_evidence = \<lparr>fe_account_id = Some ''U1'', fe_source_sha = ''digest'', fe_previous_sha = None,
     fe_as_of = Some \<lparr>ao_native = ''2026-11-04T16:00:00-05:00'', ao_timezone = ''America/New_York'', ao_utc = first_cutoff,
       ao_offset = - 5 * hour\<rparr>, fe_previous_cutoff = None, fe_capture_started = capture, fe_capture_finished = capture,
     fe_anchor_qualified = True, fe_events = [], fe_cash = [], fe_positions = [], fe_seen = [], fe_issues = [''opening_snapshot_missing'']\<rparr>"

definition anchored_state :: state where
  "anchored_state = empty_state\<lparr>cv_days := [(Date 2026 11 5, empty_slot),
     (Date 2026 11 4, empty_slot\<lparr>dy_forward := [(''account-1'', anchor_evidence)]\<rparr>)]\<rparr>"

definition anchored_config :: run_config where
  "anchored_config = sample_run_config\<lparr>rg_forward := True, rg_fields := sample_forward_config\<rparr>"

definition day_window :: "date \<Rightarrow> window" where
  "day_window d = \<lparr>wi_kind = Daily, wi_start = d, wi_end = d\<rparr>"

definition day_document :: "xml \<Rightarrow> xml" where
  "day_document s = Element ''FlexQueryResponse'' [(''type'', ''AF'')] [Element ''FlexStatements'' [] [s]]"

definition complete_checks :: "(string, checked) dict" where
  "complete_checks = [(''account-1'', checked_of [] [])]"

definition deposit_event :: event where
  "deposit_event = \<lparr>ev_section = ''CashTransactions'', ev_facts = attributes deposit, ev_eligibility = ''selected'',
     ev_effective = Some deposit_time\<rparr>"

lemma anchored_start: "forward_date anchored_config = Date 2026 11 3"
  by code_simp

lemma anchored_order:
  "Date 2026 11 3 \<le> Date 2026 11 4" "Date 2026 11 4 \<le> Date 2026 11 5" "Date 2026 11 4 < Date 2026 11 5" "Date 2026 11 4 < Date 2026 11 6"
  "\<not> Date 2026 11 5 \<le> Date 2026 11 4"
  by code_simp+

lemma anchored_previous:
  assumes "d \<in> {Date 2026 11 5, Date 2026 11 6}"
  shows "previous_anchors anchored_config (day_window d) anchored_state = [(''account-1'', anchor_evidence)]"
proof -
  have days: "sort_key fst (cv_days anchored_state) = [(Date 2026 11 4, empty_slot\<lparr>dy_forward := [(''account-1'', anchor_evidence)]\<rparr>),
      (Date 2026 11 5, empty_slot)]"
    using anchored_order by (simp add: anchored_state_def)
  have "fe_anchor_qualified anchor_evidence" by (simp add: anchor_evidence_def)
  then show ?thesis
    using assms anchored_order unfolding previous_anchors_def days anchored_start
    by (auto simp: day_window_def empty_slot_def)
qed

definition third_cutoff :: instant where "third_cutoff = wall_clock (Date 2026 11 6) (21 * hour)"

text \<open>The report of the next day shows the same deposit.\<close>

definition third_statement :: xml where
  "third_statement = forward_statement ''20261106'' ''2026-11-06T16:00:00-05:00'' [deposit]"

lemma third_snapshot:
  "snapshot_time sample_forward_env sample_forward_config third_statement capture capture =
     Inr \<lparr>ao_native = ''2026-11-06T16:00:00-05:00'', ao_timezone = ''America/New_York'', ao_utc = third_cutoff, ao_offset = - 5 * hour\<rparr>"
  "deposit_time \<le> third_cutoff" "first_cutoff < third_cutoff" "first_cutoff < second_cutoff"
  by code_simp+

lemma third_items:
  "event_items third_statement = [(''CashTransactions'', ''transactionID'', deposit)]"
  "native_cash_rows third_statement = []" "find_path third_statement ''OpenPositions'' ''OpenPosition'' = []"
  "attr third_statement ''accountId'' = Some ''U1''"
  by (simp_all add: event_items_def event_sections_def native_cash_rows_def find_path_def find_all_def third_statement_def
      forward_statement_def attr_def)

lemma deposit_step:
  assumes "deposit_time \<le> cutoff"
  shows "event_step sample_forward_env sample_forward_config (Some cutoff) (Some first_cutoff)
     (''CashTransactions'', ''transactionID'', deposit) \<lparr>sc_events = [], sc_index = [], sc_seen = [], sc_issues = []\<rparr>
   = Inr \<lparr>sc_events = [deposit_event], sc_index = [(''CashTransactions:7'', 0)],
      sc_seen = [(''CashTransactions:7'', fingerprint sample_forward_env deposit)], sc_issues = []\<rparr>"
  using sample_order assms
  by (simp add: event_step_def sample_deposit sample_event_time place_event_def upd_event_def Let_def deposit_event_def)

lemma deposit_key: "event_key deposit_event = ''CashTransactions:7''" "selected deposit_event"
  by code_simp+

lemma deposit_selected:
  assumes snap: "snapshot_time sample_forward_env sample_forward_config s capture capture = Inr a" "deposit_time \<le> ao_utc a"
    "first_cutoff < ao_utc a"
    and s: "event_items s = [(''CashTransactions'', ''transactionID'', deposit)]" "native_cash_rows s = []"
      "find_path s ''OpenPositions'' ''OpenPosition'' = []" "attr s ''accountId'' = Some ''U1''"
  shows "\<exists>ev. qualify_statement sample_forward_env sample_forward_config content (checked_of [] []) (Some anchor_evidence) capture capture s = Inr ev
     \<and> selected_keys ev = [''CashTransactions:7''] \<and> fe_anchor_qualified ev"
proof -
  have prior: "own_prior s (Some anchor_evidence) = Some anchor_evidence" by (simp add: own_prior_def s anchor_evidence_def)
  have cut: "previous_cutoff sample_forward_env (Some (ao_utc a)) (Some anchor_evidence) = (Some first_cutoff, [])"
    using snap(3) sample_order(1) by (simp add: previous_cutoff_def anchor_evidence_def)
  have seen: "fe_seen anchor_evidence = []" by (simp add: anchor_evidence_def)
  show ?thesis
    by (simp add: qualify_statement_def caught_def snap(1) prior cut seen s deposit_step [OF snap(2)] checked_of_def
        selected_keys_def deposit_key dict_values_def)
qed

lemma day_scope:
  "require_account_scope (XmlBody (day_document second_statement)) (fc_accounts sample_forward_config) = Inr (day_document second_statement)"
  "require_account_scope (XmlBody (day_document third_statement)) (fc_accounts sample_forward_config) = Inr (day_document third_statement)"
  by code_simp+

lemma day_statements: "s \<in> {second_statement, third_statement} \<Longrightarrow> statements_of (day_document s) = [s]"
  by (auto simp: statements_of_def find_path_def find_all_def day_document_def second_statement_def third_statement_def forward_statement_def)

lemma day_qualified:
  assumes "s \<in> {second_statement, third_statement}" and "d \<in> {Date 2026 11 5, Date 2026 11 6}"
  shows "\<exists>ev. qualify sample_forward_env (XmlBody (day_document s)) sample_forward_config complete_checks
      (previous_anchors anchored_config (day_window d) anchored_state) capture capture = Inr [(''account-1'', ev)]
     \<and> selected_keys ev = [''CashTransactions:7''] \<and> fe_anchor_qualified ev"
proof -
  have "\<exists>ev. qualify_statement sample_forward_env sample_forward_config (XmlBody (day_document s)) (checked_of [] [])
      (Some anchor_evidence) capture capture s = Inr ev \<and> selected_keys ev = [''CashTransactions:7''] \<and> fe_anchor_qualified ev"
    using assms(1) deposit_selected [OF sample_snapshots(2), simplified, OF sample_order(3) third_snapshot(4) sample_items(2) sample_rows(3,4,6)]
      deposit_selected [OF third_snapshot(1), simplified, OF third_snapshot(2,3) third_items] by blast
  then obtain ev where ev: "qualify_statement sample_forward_env sample_forward_config (XmlBody (day_document s)) (checked_of [] [])
      (Some anchor_evidence) capture capture s = Inr ev" "selected_keys ev = [''CashTransactions:7'']" "fe_anchor_qualified ev" by blast
  have acc: "attr s ''accountId'' = Some ''U1''" using assms(1) sample_rows(6) third_items(4) by auto
  have label: "fc_accounts sample_forward_config = [(''U1'', ''account-1'')]" by (simp add: sample_forward_config_def)
  have "require_account_scope (XmlBody (day_document s)) (fc_accounts sample_forward_config) = Inr (day_document s)"
    using assms(1) day_scope by blast
  with ev show ?thesis
    by (simp add: qualify_def anchored_previous [OF assms(2)] day_statements [OF assms(1)] qualify_into_def acc label complete_checks_def)
qed


text \<open>
  The days in the order of a run: the sixth is qualified first, then the fifth, whose report is
  fetched for the first time.  Both are qualified anchors and both select the deposit.
\<close>

definition late_state :: "evidence \<Rightarrow> state" where
  "late_state ev = anchored_state\<lparr>cv_days := (Date 2026 11 6, empty_slot\<lparr>dy_forward := [(''account-1'', ev)]\<rparr>) # cv_days anchored_state\<rparr>"

lemma late_previous:
  "previous_anchors anchored_config (day_window (Date 2026 11 5)) (late_state ev)
   = previous_anchors anchored_config (day_window (Date 2026 11 5)) anchored_state"
proof -
  have o: "\<not> Date 2026 11 6 \<le> Date 2026 11 5" "\<not> Date 2026 11 6 \<le> Date 2026 11 4" "\<not> Date 2026 11 6 < Date 2026 11 5" by code_simp+
  have days: "sort_key fst (cv_days (late_state ev)) = sort_key fst (cv_days anchored_state)
      @ [(Date 2026 11 6, empty_slot\<lparr>dy_forward := [(''account-1'', ev)]\<rparr>)]"
    using anchored_order o by (simp add: late_state_def anchored_state_def)
  show ?thesis unfolding previous_anchors_def days using o by (simp add: day_window_def)
qed

theorem late_day_selects_again:
  "\<exists>v6 v5. qualify sample_forward_env (XmlBody (day_document third_statement)) sample_forward_config complete_checks
       (previous_anchors anchored_config (day_window (Date 2026 11 6)) anchored_state) capture capture = Inr [(''account-1'', v6)]
     \<and> qualify sample_forward_env (XmlBody (day_document second_statement)) sample_forward_config complete_checks
       (previous_anchors anchored_config (day_window (Date 2026 11 5)) (late_state v6)) capture capture = Inr [(''account-1'', v5)]
     \<and> fe_anchor_qualified v6 \<and> fe_anchor_qualified v5
     \<and> selected_keys v6 = [''CashTransactions:7''] \<and> selected_keys v5 = [''CashTransactions:7'']"
  using day_qualified [of third_statement "Date 2026 11 6"] day_qualified [of second_statement "Date 2026 11 5"]
  unfolding late_previous by blast

end
