(* ===== verification/FlexWatch.thy ===== *)
theory FlexWatch
  imports FlexStore FlexReport RiskAuthority
begin

text \<open>
  The redacted notifications of the daily Flex collector
  (\<open>application/flex_daily/watch.py\<close>): the reasons a status gives to notify, the classification
  of the messaging service's answer, and \<open>watch\<close>, which claims a notification in the store
  before it sends it.

  The service (\<open>requests\<close> against its HTTP interface) and \<open>hashlib.sha256(...).hexdigest()\<close> are
  parameters.  Texts are held as their UTF-8 bytes.  Clocks are UTC, as the entry point's are.
\<close>

section \<open>Comparing stored values\<close>

text \<open>\<open><\<close> and \<open>>=\<close> of values read from JSON.\<close>

fun v_less :: "pyval \<Rightarrow> pyval \<Rightarrow> bool res"
  and v_less_list :: "pyval list \<Rightarrow> pyval list \<Rightarrow> bool res" where
  "v_less (VStr s) b = (case b of VStr t \<Rightarrow> Inr (s < t) | _ \<Rightarrow> Inl (TypeError ''not supported between instances''))"
| "v_less (VList xs) b = (case b of VList ys \<Rightarrow> v_less_list xs ys | _ \<Rightarrow> Inl (TypeError ''not supported between instances''))"
| "v_less (VTuple xs) b = (case b of VTuple ys \<Rightarrow> v_less_list xs ys | _ \<Rightarrow> Inl (TypeError ''not supported between instances''))"
| "v_less a b = (case (as_number a, as_number b) of (Some x, Some y) \<Rightarrow> Inr (flt x y)
     | _ \<Rightarrow> Inl (TypeError ''not supported between instances''))"
| "v_less_list [] ys = Inr (ys \<noteq> [])"
| "v_less_list (x # xs) ys = (case ys of [] \<Rightarrow> Inr False
     | y # ys' \<Rightarrow> if v_eq x y then v_less_list xs ys' else v_less x y)"

definition v_at_least :: "pyval \<Rightarrow> pyval \<Rightarrow> bool res" where
  "v_at_least a b = res_bind (v_less b a) (\<lambda>l. Inr (l \<or> v_eq a b))"

section \<open>The reasons to notify\<close>

type_synonym doc = "(string, pyval) dict"

text \<open>\<open>datetime.fromisoformat(v)\<close>: the wall clock and the offset, if it has one.\<close>

definition iso_value :: "pyval \<Rightarrow> (instant \<times> int option) res" where
  "iso_value v = (case v of
      VStr s \<Rightarrow> (case parse_iso_datetime s of None \<Rightarrow> Inl (ValueError ''Invalid isoformat string'') | Some p \<Rightarrow> Inr p)
    | _ \<Rightarrow> Inl (TypeError ''fromisoformat: argument must be str''))"

text \<open>Comparing with an aware clock.\<close>

definition aware :: "instant \<times> int option \<Rightarrow> instant res" where
  "aware p = (case instant_of p of None \<Rightarrow> Inl (TypeError ''can't compare offset-naive and offset-aware datetimes'') | Some t \<Rightarrow> Inr t)"

definition scheduled_run :: "instant \<Rightarrow> instant" where
  "scheduled_run now = (let s = midnight now + 10 * hour + 17 * minute in
     if now < s + 2 * hour then s - day_length else s)"

definition missed_reason :: "doc \<Rightarrow> instant \<Rightarrow> string list res" where
  "missed_reason status now =
     (if \<not> truthy (vd_get status ''last_finished_at'') then Inr [''missed_run'']
      else res_bind (iso_value (vd_get status ''last_finished_at'')) (\<lambda>p. res_bind (aware p) (\<lambda>finished.
        Inr (if finished < scheduled_run now then [''missed_run''] else []))))"

definition blocked_reason :: "pyval \<Rightarrow> string list" where
  "blocked_reason v = (if \<not> truthy v then []
     else if startswith (v_str v) ''ip_'' then [''ip_restricted''] else [''authorization_or_configuration''])"

definition delayed_reason :: "doc \<Rightarrow> instant \<Rightarrow> string list res" where
  "delayed_reason status now =
     (if \<not> truthy (vd_get status ''oldest_gap'') then Inr []
      else res_bind (iso_value (vd_get status ''oldest_gap'')) (\<lambda>(wall, off).
        Inr (if 2 < days_between (utc_date wall) (utc_date now) then [''coverage_delayed''] else [])))"

definition gap_reason :: "doc \<Rightarrow> doc \<Rightarrow> string list res" where
  "gap_reason status previous =
     (let a = v_or (vd_get status ''missing_account_days'') (VInt 0); b = v_or (vd_get previous ''missing_account_days'') (VInt 0) in
      res_bind (v_less b a) (\<lambda>more. if more then Inr [''gap_queue_increased'']
      else res_bind (v_contains ''gap_queue_increased'' (dict_get_default previous ''reasons'' (VList []))) (\<lambda>already.
        if \<not> already then Inr [] else res_bind (v_at_least a b) (\<lambda>still.
          Inr (if still then [''gap_queue_increased''] else [])))))"

text \<open>
  The remaining days are compared with whole days.  The code divides floats; every remaining
  time is a whole number of microseconds and rounding is monotone, so the comparison with
  1, 7 and 30 days is the exact one.
\<close>

definition expiry_reason :: "doc \<Rightarrow> instant \<Rightarrow> string list" where
  "expiry_reason status now =
     (case iso_value (vd_get status ''token_expires_at'') of Inl _ \<Rightarrow> [''token_expiry_unqualified'']
      | Inr p \<Rightarrow> (case instant_of p of None \<Rightarrow> [''token_expiry_unqualified'']
        | Some t \<Rightarrow> (let remaining = t - now in
            if remaining \<le> day_length then [''token_expiry_1'']
            else if remaining \<le> 7 * day_length then [''token_expiry_7'']
            else if remaining \<le> 30 * day_length then [''token_expiry_30'']
            else [])))"

definition events :: "doc \<Rightarrow> doc \<Rightarrow> instant \<Rightarrow> string list res" where
  "events status previous now =
     res_bind (missed_reason status now) (\<lambda>missed.
     let fields_gap = (if truthy (dict_get_default status ''field_issue_count'' (VInt 0)) then [''fields_missing''] else []);
         difference = (if truthy (vd_get status ''residual_nonzero'') then [''reconciliation_difference''] else []) in
     res_bind (delayed_reason status now) (\<lambda>delayed.
     res_bind (gap_reason status previous) (\<lambda>gap.
     Inr (sort (missed @ fields_gap @ difference @ blocked_reason (vd_get status ''blocked'') @ delayed @ gap
       @ expiry_reason status now)))))"

section \<open>Sending\<close>

datatype delivery = BlockedDelivery | RateLimited int | Unknown | Sent int

datatype answer = NoAnswer pyexn | Answer int "pyval res"

definition request_exception :: "pyexn \<Rightarrow> bool" where
  "request_exception x \<longleftrightarrow> raised_as ''RequestException'' x \<or> is_value_error x"

definition as_doc :: "pyval \<Rightarrow> doc res" where
  "as_doc v = (case v of VDict d \<Rightarrow> Inr d | _ \<Rightarrow> Inl (AttributeError ''get''))"

definition retry_after :: "pyval \<Rightarrow> int res" where
  "retry_after body =
     res_bind (as_doc body) (\<lambda>b.
     res_bind (as_doc (dict_get_default b ''parameters'' (VDict []))) (\<lambda>p.
     Inr (case vd_get p ''retry_after'' of VInt k \<Rightarrow> if 0 < k then k else 3600 | _ \<Rightarrow> 3600)))"

definition accepted_message :: "pyval \<Rightarrow> delivery res" where
  "accepted_message body =
     res_bind (as_doc body) (\<lambda>b.
     res_bind (as_doc (dict_get_default b ''result'' (VDict []))) (\<lambda>r.
     Inr (case vd_get r ''message_id'' of VInt m \<Rightarrow> if vd_get b ''ok'' = VBool True then Sent m else Unknown | _ \<Rightarrow> Unknown)))"

definition classify :: "answer \<Rightarrow> delivery res" where
  "classify a = (case a of
      NoAnswer x \<Rightarrow> Inl x
    | Answer code body \<Rightarrow>
        (if code = 401 \<or> code = 403 then Inr BlockedDelivery
         else if code = 429 then res_bind (res_bind body retry_after) (\<lambda>k. Inr (RateLimited k))
         else if code \<noteq> 200 then Inr Unknown
         else res_bind body accepted_message))"

definition send :: "(string \<Rightarrow> ('w, answer) io) \<Rightarrow> string \<Rightarrow> ('w, delivery) io" where
  "send post txt = io_bind (post txt) (\<lambda>a. io_lift (case classify a of
      Inl x \<Rightarrow> (if request_exception x then Inr Unknown else Inl x) | Inr d \<Rightarrow> Inr d))"

definition outcome_doc :: "delivery \<Rightarrow> doc" where
  "outcome_doc d = (case d of
      BlockedDelivery \<Rightarrow> [(''delivery'', VStr ''blocked'')]
    | RateLimited k \<Rightarrow> [(''delivery'', VStr ''rate_limited''), (''retry_after'', VInt k)]
    | Unknown \<Rightarrow> [(''delivery'', VStr ''unknown'')]
    | Sent m \<Rightarrow> [(''delivery'', VStr ''sent''), (''message_id'', VInt m)])"

section \<open>Deciding\<close>

record notice =
  nt_incident :: string
  nt_reasons :: "string list"
  nt_recovery :: bool
  nt_count :: pyval
  nt_day :: string

datatype decision = Skip string | Notify notice

definition incident_of :: "(string \<Rightarrow> string) \<Rightarrow> string list \<Rightarrow> string" where
  "incident_of sha reasons = take 12 (sha (join '','' reasons))"

text \<open>\<open>strptime(day, '%Y-%m-%d').strftime('%Y-%m-%d')\<close>; the C library writes the year unpadded.\<close>

definition report_day :: "pyval \<Rightarrow> string" where
  "report_day v = (case v of
      VStr s \<Rightarrow> (case scan_all [scan_year, scan_char (CHR ''-''), scan_month, scan_char (CHR ''-''), scan_day] s of
          ([y, _, m, _, d], []) # _ \<Rightarrow> (case checked_date (Some y) (Some m) (Some d) of
              None \<Rightarrow> ''unknown'' | Some t \<Rightarrow> int_text y @ ''-'' @ two_digits m @ ''-'' @ two_digits d)
        | _ \<Rightarrow> ''unknown'')
    | _ \<Rightarrow> ''unknown'')"

definition count_text :: "pyval \<Rightarrow> string" where
  "count_text v = (case v of VInt k \<Rightarrow> if 0 \<le> k then int_text k else ''unknown'' | _ \<Rightarrow> ''unknown'')"

definition last_attempt :: "doc \<Rightarrow> (instant \<times> int option) option res" where
  "last_attempt previous = (if truthy (vd_get previous ''attempted_at'')
     then res_bind (iso_value (vd_get previous ''attempted_at'')) (\<lambda>p. Inr (Some p)) else Inr None)"

definition deferred :: "doc \<Rightarrow> instant \<Rightarrow> bool res" where
  "deferred previous now = (if truthy (vd_get previous ''retry_at'')
     then res_bind (iso_value (vd_get previous ''retry_at'')) (\<lambda>p. res_bind (aware p) (\<lambda>t. Inr (now < t))) else Inr False)"

text \<open>The reminder interval: a day while there are reasons, the calendar day otherwise.\<close>

definition recent_attempt :: "string list \<Rightarrow> instant \<times> int option \<Rightarrow> instant \<Rightarrow> bool res" where
  "recent_attempt reasons p now =
     (if reasons \<noteq> [] then res_bind (aware p) (\<lambda>t. Inr (now - t < 24 * hour))
      else Inr (utc_date now = utc_date (fst p)))"

definition decide :: "(string \<Rightarrow> string) \<Rightarrow> doc \<Rightarrow> doc \<Rightarrow> instant \<Rightarrow> decision res" where
  "decide sha status previous now =
     (if vd_get previous ''delivery'' = VStr ''blocked'' then Inr (Skip ''blocked'')
      else res_bind (events status previous now) (\<lambda>reasons.
        let incident = incident_of sha reasons in
        res_bind (last_attempt previous) (\<lambda>p.
        res_bind (deferred previous now) (\<lambda>wait_more.
        if wait_more then Inr (Skip ''deferred'')
        else res_bind (case p of
               None \<Rightarrow> Inr False
             | Some t \<Rightarrow> if vd_get previous ''incident'' = VStr incident then recent_attempt reasons t now else Inr False) (\<lambda>same.
          if same then Inr (Skip ''deduplicated'')
          else Inr (Notify \<lparr>nt_incident = incident, nt_reasons = reasons,
                 nt_recovery = (truthy (vd_get previous ''reasons'') \<and> reasons = []),
                 nt_count = vd_get status ''missing_account_days'', nt_day = report_day (vd_get status ''target_date'')\<rparr>))))))"

text \<open>The message, in UTF-8.\<close>

definition bar :: string where "bar = [CHR 0xEF, CHR 0xBD, CHR 0x9C]"
definition recovered_text :: string where "recovered_text = [CHR 0xE6, CHR 0x81, CHR 0xA2, CHR 0xE5, CHR 0xA4, CHR 0x8D]"
definition as_of_text :: string where "as_of_text = [CHR 0xE6, CHR 0x88, CHR 0xAA, CHR 0xE8, CHR 0x87, CHR 0xB3]"
definition missing_text :: string where "missing_text = [CHR 0xE7, CHR 0xBC, CHR 0xBA]"
definition account_days_text :: string where
  "account_days_text = [CHR 0xE4, CHR 0xB8, CHR 0xAA, CHR 0xE8, CHR 0xB4, CHR 0xA6, CHR 0xE6, CHR 0x88, CHR 0xB7, CHR 0xE6, CHR 0x97, CHR 0xA5]"
definition control_text :: string where "control_text = [CHR 0xE6, CHR 0xA0, CHR 0xB8, CHR 0xE5, CHR 0xAF, CHR 0xB9]"
definition event_text :: string where "event_text = [CHR 0xE4, CHR 0xBA, CHR 0x8B, CHR 0xE4, CHR 0xBB, CHR 0xB6]"

definition message_text :: "notice \<Rightarrow> string" where
  "message_text n = ''IBKR '' @ (if nt_recovery n then recovered_text else ''PARTIAL'') @ bar @ as_of_text @ '' '' @ nt_day n
     @ bar @ missing_text @ '' '' @ count_text (nt_count n) @ '' '' @ account_days_text @ bar @ control_text @ '' partial'' @ bar
     @ event_text @ '' '' @ nt_incident n @ (if nt_reasons n = [] then [] else bar @ join '','' (nt_reasons n))"

section \<open>Watching\<close>

definition notice_key :: string where "notice_key = ''notifications/latest.json''"
definition notice_lease_key :: string where "notice_lease_key = ''notifications/lease.json''"
definition status_doc_key :: string where "status_doc_key = ''status/latest.json''"

definition claim_doc :: "notice \<Rightarrow> instant \<Rightarrow> doc" where
  "claim_doc n now = [(''incident'', VStr (nt_incident n)), (''reasons'', VList (List.map VStr (nt_reasons n))),
     (''attempted_at'', VStr (iso_utc now)), (''delivery'', VStr ''in_flight''), (''missing_account_days'', nt_count n)]"

text \<open>The claim updated with the outcome, and with the retry time of a rate limit.\<close>

definition settled_claim :: "notice \<Rightarrow> instant \<Rightarrow> delivery \<Rightarrow> doc res" where
  "settled_claim n now d = (let c = dict_update (claim_doc n now) (outcome_doc d) in
     case d of
       RateLimited k \<Rightarrow> (let t = now + k * second in
         if \<not> valid_date (utc_date t) then Inl OverflowError
         else Inr (dict_set (dict_set c ''retry_at'' (VStr (iso_utc t))) ''incident'' VNone))
     | _ \<Rightarrow> Inr c)"

record 'w watcher =
  wt_bucket :: "'w bucket"
  wt_owner :: string
  wt_now :: "('w, instant) io"
  wt_sha :: "string \<Rightarrow> string"

definition read_doc :: "'w watcher \<Rightarrow> string \<Rightarrow> ('w, pyval \<times> int) io" where
  "read_doc e k = store_json (wt_bucket e) k (VDict [])"

definition deliver ::
    "'w watcher \<Rightarrow> (string \<Rightarrow> ('w, delivery) io) \<Rightarrow> instant \<Rightarrow> lease \<Rightarrow> notice \<Rightarrow> int \<Rightarrow> ('w, doc) io" where
  "deliver e notify now l n generation =
     io_bind (store_put (wt_bucket e) notice_key (VDict (claim_doc n now)) generation) (\<lambda>g.
     io_bind (lease_check (wt_bucket e) notice_lease_key l now) (\<lambda>_.
     io_bind (notify (message_text n)) (\<lambda>d.
     io_bind (io_lift (settled_claim n now d)) (\<lambda>claim.
     io_bind (wt_now e) (\<lambda>t.
     io_bind (lease_check (wt_bucket e) notice_lease_key l t) (\<lambda>_.
     io_bind (store_put (wt_bucket e) notice_key (VDict claim) g) (\<lambda>_.
     io_return (outcome_doc d))))))))"

definition watch_body ::
    "'w watcher \<Rightarrow> (string \<Rightarrow> ('w, delivery) io) \<Rightarrow> instant \<Rightarrow> lease \<Rightarrow> ('w, doc) io" where
  "watch_body e notify now l =
     io_bind (read_doc e status_doc_key) (\<lambda>(status, _).
     io_bind (read_doc e notice_key) (\<lambda>(previous, generation).
     io_bind (io_lift (as_doc previous)) (\<lambda>prev.
     if vd_get prev ''delivery'' = VStr ''blocked'' then io_return [(''delivery'', VStr ''blocked'')]
     else io_bind (io_lift (as_doc status)) (\<lambda>st.
     io_bind (io_lift (decide (wt_sha e) st prev now)) (\<lambda>r. case r of
        Skip why \<Rightarrow> io_return [(''delivery'', VStr why)]
      | Notify n \<Rightarrow> deliver e notify now l n generation)))))"

text \<open>\<open>finally: lease.release()\<close>.\<close>

definition watch :: "'w watcher \<Rightarrow> (string \<Rightarrow> ('w, delivery) io) \<Rightarrow> instant \<Rightarrow> ('w, doc) io" where
  "watch e notify now =
     io_bind (acquire (wt_bucket e) notice_lease_key (wt_owner e) now) (\<lambda>l w.
       case watch_body e notify now l w of (r, w1) \<Rightarrow>
         (case io_bind (wt_now e) (release (wt_bucket e) notice_lease_key l) w1 of
            (Inl x, w2) \<Rightarrow> (Inl x, w2) | (Inr _, w2) \<Rightarrow> (r, w2)))"

section \<open>A claim comes before its message\<close>

text \<open>A messaging service that refuses to send unless the claim of this very message is stored.\<close>

definition guarded :: "('w \<Rightarrow> objects) \<Rightarrow> instant \<Rightarrow> (string \<Rightarrow> ('w, delivery) io) \<Rightarrow> string \<Rightarrow> ('w, delivery) io" where
  "guarded cur now notify txt w =
     (if \<exists>n g. txt = message_text n \<and> cur w notice_key = Some (JsonBody (json_plain (VDict (claim_doc n now))), g)
      then notify txt w else (Inl (OtherError ''unclaimed''), w))"

lemma io_bind_cong_run:
  "m w = m' w \<Longrightarrow> (\<And>v w'. m w = (Inr v, w') \<Longrightarrow> f v w' = f' v w') \<Longrightarrow> io_bind m f w = io_bind m' f' w"
  by (cases "m w"; cases "fst (m w)") (auto simp: io_bind_def split: sum.split prod.split)

lemma lease_check_keeps:
  assumes gm: "generation_matched bk cur" and r: "lease_check bk k l now w = (r, w')"
  shows "cur w' = cur w"
proof -
  obtain x w1 where j: "store_json bk k VNone w = (x, w1)" by fastforce
  with r have "w' = w1"
    by (cases x) (auto simp: lease_check_def io_bind_def split: if_split_asm sum.split_asm)
  with store_json_keeps [OF gm j] show ?thesis by simp
qed

lemma deliver_guarded:
  assumes gm: "generation_matched (wt_bucket e) cur"
  shows "deliver e notify now l n generation w = deliver e (guarded cur now notify) now l n generation w"
  unfolding deliver_def
proof (intro io_bind_cong_run refl)
  fix g w1 u w2
  assume put: "store_put (wt_bucket e) notice_key (VDict (claim_doc n now)) generation w = (Inr g, w1)"
    and check: "lease_check (wt_bucket e) notice_lease_key l now w1 = (Inr u, w2)"
  from store_put_facts(1) [OF gm put refl] lease_check_keeps [OF gm check]
  have "\<exists>g. cur w2 notice_key = Some (JsonBody (json_plain (VDict (claim_doc n now))), g)"
    by (auto simp: replaced_def)
  then show "notify (message_text n) w2 = guarded cur now notify (message_text n) w2"
    unfolding guarded_def by auto
qed

lemma watch_body_guarded:
  assumes "generation_matched (wt_bucket e) cur"
  shows "watch_body e notify now l w = watch_body e (guarded cur now notify) now l w"
  unfolding watch_body_def
  by (intro io_bind_cong_run refl)
    (auto intro!: io_bind_cong_run deliver_guarded [OF assms] split: prod.split decision.split)

text \<open>
  C40.  No notification without a durable claim: running \<open>watch\<close> against a messaging service that
  sends nothing unless the claim of exactly this message, made at this time, is the object
  stored under the notification key, is running it against the service itself - with any
  service, in any world, on every path, errors included.
\<close>

theorem claimed_before_sending:
  assumes "generation_matched (wt_bucket e) cur"
  shows "watch e notify now w = watch e (guarded cur now notify) now w"
  unfolding watch_def
  by (intro io_bind_cong_run refl) (simp only: watch_body_guarded [OF assms, of notify])

section \<open>Reminders are spaced\<close>

definition plain_doc :: "doc \<Rightarrow> doc" where
  "plain_doc d = List.map (\<lambda>(k, v). (k, json_plain v)) d"

lemma plain_doc_json: "json_plain (VDict d) = VDict (plain_doc d)"
  by (simp add: plain_doc_def)

lemma dict_get_plain: "dict_get (plain_doc d) k = map_option json_plain (dict_get d k)"
  by (induction d) (auto simp: plain_doc_def)

lemma vd_get_plain: "vd_get (plain_doc d) k = json_plain (vd_get d k)"
  by (simp add: vd_get_def dict_get_default_def dict_get_plain split: option.split)

text \<open>What the claim says after the attempt: \<open>None\<close> when the worker died in flight.\<close>

definition claim_after :: "notice \<Rightarrow> instant \<Rightarrow> delivery option \<Rightarrow> doc res" where
  "claim_after n now od = (case od of None \<Rightarrow> Inr (claim_doc n now) | Some d \<Rightarrow> settled_claim n now d)"

lemma iso_utc_nonempty: "iso_utc t \<noteq> []"
  by (simp add: iso_utc_def Let_def)

lemma claim_fields:
  assumes "claim_after n now od = Inr claim"
  shows "vd_get claim ''attempted_at'' = VStr (iso_utc now)"
    and "od = Some BlockedDelivery \<Longrightarrow> vd_get claim ''delivery'' = VStr ''blocked''"
    and "od = Some (RateLimited k) \<Longrightarrow> vd_get claim ''retry_at'' = VStr (iso_utc (now + k * second)) \<and> valid_date (utc_date (now + k * second))"
    and "(\<And>k. od \<noteq> Some (RateLimited k)) \<Longrightarrow> vd_get claim ''incident'' = VStr (nt_incident n) \<and> vd_get claim ''retry_at'' = VNone"
  using assms
  by (auto simp: claim_after_def settled_claim_def claim_doc_def outcome_doc_def dict_update_def Let_def vd_get_def
      dict_get_default_def split: option.split_asm delivery.split_asm if_split_asm)

lemma iso_value_utc: "valid_date (utc_date t) \<Longrightarrow> iso_value (VStr (iso_utc t)) = Inr (t, Some 0)"
  by (simp add: iso_value_def parse_iso_utc)

lemma aware_utc: "aware (t, Some 0) = Inr t"
  by (simp add: aware_def instant_of_def)

text \<open>
  C7.  Reminders are spaced.  When a claim was stored for a message at some time - whether the
  worker then died, the delivery stayed unknown or the message was sent - a later run that
  sends again sends another incident, or waited 24 hours (the next UTC day when there is no
  reason left).  After a rate limit it waited as long as the service asked, and after a refused
  authorization it never sends.
\<close>

theorem reminders_spaced:
  assumes now: "valid_date (utc_date now)" and claim: "claim_after n now od = Inr claim"
    and again: "decide sha status (plain_doc claim) later = Inr (Notify m)"
  shows "case od of
      Some BlockedDelivery \<Rightarrow> False
    | Some (RateLimited k) \<Rightarrow> now + k * second \<le> later
    | _ \<Rightarrow> nt_incident m \<noteq> nt_incident n \<or> (if nt_reasons m = [] then utc_date later \<noteq> utc_date now else now + 24 * hour \<le> later)"
proof -
  let ?p = "plain_doc claim"
  note f = claim_fields [OF claim]
  from again obtain reasons where d: "vd_get ?p ''delivery'' \<noteq> VStr ''blocked''" "deferred ?p later = Inr False"
    and m: "nt_reasons m = reasons" "nt_incident m = incident_of sha reasons"
    and same: "vd_get ?p ''incident'' = VStr (incident_of sha reasons) \<Longrightarrow> recent_attempt reasons (now, Some 0) later = Inr False"
    using f(1) now
    by (auto simp: decide_def Let_def res_bind_def last_attempt_def vd_get_plain iso_value_utc iso_utc_nonempty
        split: if_split_asm sum.split_asm)
  show ?thesis
  proof (cases "\<exists>k. od = Some (RateLimited k)")
    case True
    then obtain k where k: "od = Some (RateLimited k)" by blast
    from f(3) [OF k] d(2) have "\<not> later < now + k * second"
      by (simp add: deferred_def vd_get_plain iso_utc_nonempty iso_value_utc aware_utc res_bind_def)
    with k show ?thesis by simp
  next
    case False
    with f(4) have i: "vd_get ?p ''incident'' = VStr (nt_incident n)" by (simp add: vd_get_plain)
    have b: "od \<noteq> Some BlockedDelivery" using f(2) d(1) by (auto simp: vd_get_plain)
    have "nt_incident m \<noteq> nt_incident n \<or> (if nt_reasons m = [] then utc_date later \<noteq> utc_date now else now + 24 * hour \<le> later)"
      using same i m by (auto simp: recent_attempt_def aware_utc res_bind_def split: if_split_asm)
    with False b show ?thesis by (auto split: option.split delivery.split)
  qed
qed

section \<open>A first notification, and a reminder a day later\<close>

definition watch_now :: instant where
  "watch_now = wall_clock (Date 2026 12 1) (15 * hour)"

definition sample_watcher :: "(string, body \<times> nat) dict watcher" where
  "sample_watcher = \<lparr>wt_bucket = dict_bucket, wt_owner = ''job'', wt_now = io_return watch_now, wt_sha = (\<lambda>s. s)\<rparr>"

definition sent_seven :: "string \<Rightarrow> ((string, body \<times> nat) dict, delivery) io" where
  "sent_seven txt = io_return (Sent 7)"

definition sample_notice :: notice where
  "sample_notice = \<lparr>nt_incident = ''missed_run,t'', nt_reasons = [''missed_run'', ''token_expiry_unqualified''], nt_recovery = False,
     nt_count = VNone, nt_day = ''unknown''\<rparr>"

lemma sample_first: "decide (\<lambda>s. s) [] [] watch_now = Inr (Notify sample_notice)"
  by code_simp

lemma sample_again:
  "claim_after sample_notice watch_now (Some (Sent 7)) = Inr (dict_update (claim_doc sample_notice watch_now) (outcome_doc (Sent 7)))"
  "decide (\<lambda>s. s) [] (plain_doc (dict_update (claim_doc sample_notice watch_now) (outcome_doc (Sent 7)))) (watch_now + 25 * hour)
     = Inr (Notify sample_notice)"
  by (simp add: claim_after_def settled_claim_def, code_simp)

lemma sample_watch: "fst (watch sample_watcher sent_seven watch_now []) = Inr [(''delivery'', VStr ''sent''), (''message_id'', VInt 7)]"
  by code_simp

theorem claimed_before_sending_witness:
  "fst (watch sample_watcher (guarded dict_objects watch_now sent_seven) watch_now [])
     = Inr [(''delivery'', VStr ''sent''), (''message_id'', VInt 7)]"
proof -
  have gm: "generation_matched (wt_bucket sample_watcher) dict_objects"
    using dict_bucket_matched by (simp add: sample_watcher_def)
  show ?thesis unfolding claimed_before_sending [OF gm, symmetric] by (rule sample_watch)
qed

theorem reminders_spaced_witness:
  "decide (\<lambda>s. s) [] (plain_doc (dict_update (claim_doc sample_notice watch_now) (outcome_doc (Sent 7)))) (watch_now + 25 * hour)
     = Inr (Notify sample_notice) \<and> watch_now + 24 * hour \<le> watch_now + 25 * hour"
proof -
  have "valid_date (utc_date watch_now)" by code_simp
  from reminders_spaced [OF this sample_again] sample_again(2) show ?thesis by (simp add: sample_notice_def)
qed

end
