(* ===== verification/Settlement.thy ===== *)
theory Settlement
  imports FlexStore
begin

text \<open>
  Durable settlement observations (\<open>application/order_settlement.py\<close>): what was submitted is
  recorded before the broker is called, the broker's order id and every later observation of
  the order are write-once objects beside it, and the history of an order is read back and
  validated as a whole.

  The marker store (\<open>ExecutionMarkerStore\<close>: claim an absent key, read a key, list recent
  entries) and the broker reader (\<open>resolve_order_outcome\<close>) are packages the sources import; they
  are parameters.  Stored values are the values this class writes, so a marker is one of
  \<open>meta\<close>; a marker of the wrong kind raises \<open>KeyError\<close>, as reading a missing field does.
\<close>

section \<open>Outcomes and markers\<close>

record fill =
  fi_execution_id :: string
  fi_quantity :: pyfloat
  fi_price :: pyfloat

record outcome =
  oc_order_id :: "string option"
  oc_status :: string
  oc_filled :: "pyfloat option"
  oc_remaining :: "pyfloat option"
  oc_avg_price :: "pyfloat option"
  oc_commission :: "pyfloat option"
  oc_last_update :: "string option"
  oc_terminal :: bool
  oc_fills :: "fill list"

record pending =
  pd_attempt :: string
  pd_symbol :: string
  pd_side :: string
  pd_quantity :: pyfloat
  pd_client_id :: int
  pd_submitted_at :: string
  pd_source_run_id :: string
  pd_source_started_at :: string
  pd_strategy :: string

datatype meta =
    Prepared pending
  | Broker string
  | Permanent int
  | Observed int outcome
  | Notice string

record 'w markers =
  mk_claim :: "string \<Rightarrow> meta \<Rightarrow> ('w, bool) io"
  mk_read :: "string \<Rightarrow> ('w, meta option) io"
  mk_recent :: "string \<Rightarrow> ('w, (string \<times> meta) list \<times> bool) io"

record 'w settlement =
  ss_store :: "'w markers"
  ss_account :: string
  ss_profile :: string
  ss_prefix :: string

text \<open>\<open>__init__\<close>: the digest of the account and the profile is the scope of every key.\<close>

definition settlement_of :: "(string \<Rightarrow> string \<Rightarrow> string) \<Rightarrow> 'w markers \<Rightarrow> string \<Rightarrow> string \<Rightarrow> 'w settlement" where
  "settlement_of digest store account profile =
     \<lparr>ss_store = store, ss_account = account, ss_profile = profile, ss_prefix = ''v1/'' @ digest account profile\<rparr>"

section \<open>Keys\<close>

definition attempt_ok :: "string \<Rightarrow> bool" where
  "attempt_ok a \<longleftrightarrow> length a = 64 \<and> list_all (\<lambda>c. c \<in> set ''0123456789abcdef'') a"

definition key_of :: "'w settlement \<Rightarrow> string \<Rightarrow> string \<Rightarrow> string" where
  "key_of s attempt suffix = ss_prefix s @ ''/'' @ attempt @ ''/'' @ suffix"

definition settle_key :: "'w settlement \<Rightarrow> string \<Rightarrow> string \<Rightarrow> string res" where
  "settle_key s attempt suffix = (if attempt_ok attempt then Inr (key_of s attempt suffix) else Inl (ValueError ''settlement_attempt_invalid''))"

definition padded8 :: "int \<Rightarrow> string" where
  "padded8 k = pad_left 8 (int_text k)"

definition observed_suffix :: "int \<Rightarrow> string" where
  "observed_suffix k = ''observed/'' @ padded8 k"

text \<open>\<open>key.split('/', 1)\<close>.\<close>

definition split_slash :: "string \<Rightarrow> (string \<times> string) option" where
  "split_slash t = (let a = takeWhile (\<lambda>c. c \<noteq> CHR ''/'') t in
     case drop (length a) t of [] \<Rightarrow> None | _ # r \<Rightarrow> Some (a, r))"

definition read_marker :: "'w settlement \<Rightarrow> string \<Rightarrow> string \<Rightarrow> ('w, meta option) io" where
  "read_marker s attempt suffix = io_bind (io_lift (settle_key s attempt suffix)) (mk_read (ss_store s))"

definition create_marker :: "'w settlement \<Rightarrow> string \<Rightarrow> string \<Rightarrow> meta \<Rightarrow> ('w, bool) io" where
  "create_marker s attempt suffix m =
     io_bind (io_lift (settle_key s attempt suffix)) (\<lambda>k.
     io_bind (mk_claim (ss_store s) k m) (\<lambda>won.
     if won then io_return True
     else io_bind (read_marker s attempt suffix) (\<lambda>existing.
       if existing \<noteq> Some m then io_raise (RuntimeError ''settlement_identity_conflict'') else io_return False)))"

section \<open>Preparing and binding\<close>

definition symbol_char :: "char \<Rightarrow> bool" where
  "symbol_char c \<longleftrightarrow> is_digit c \<or> c \<in> set ''ABCDEFGHIJKLMNOPQRSTUVWXYZ._-''"

definition symbol_ok :: "string \<Rightarrow> bool" where
  "symbol_ok t \<longleftrightarrow> 1 \<le> length t \<and> length t \<le> 32 \<and> list_all symbol_char t"

definition order_error :: pyexn where "order_error = ValueError ''settlement_order_invalid''"

definition prepared ::
    "string \<Rightarrow> string \<Rightarrow> string \<Rightarrow> string \<Rightarrow> pyval \<Rightarrow> int \<Rightarrow> string \<Rightarrow> string \<Rightarrow> string option \<Rightarrow> pending res" where
  "prepared profile attempt symbol side quantity client_id submitted_at source_run_id source_started_at =
     res_bind (v_float quantity) (\<lambda>q.
     if \<not> isfinite q \<or> fle q (Fin 0) \<or> lower side \<notin> {''buy'', ''sell''} \<or> \<not> symbol_ok symbol \<or> client_id < 0 then Inl order_error
     else (case parse_iso_datetime submitted_at of
        None \<Rightarrow> Inl (ValueError ''Invalid isoformat string'')
      | Some p \<Rightarrow> (if snd p = None \<or> source_run_id = [] then Inl order_error
          else Inr \<lparr>pd_attempt = attempt, pd_symbol = symbol, pd_side = lower side, pd_quantity = q, pd_client_id = client_id,
             pd_submitted_at = submitted_at, pd_source_run_id = source_run_id,
             pd_source_started_at = (case source_started_at of None \<Rightarrow> submitted_at | Some t \<Rightarrow> if t = [] then submitted_at else t),
             pd_strategy = profile\<rparr>)))"

definition prepare ::
    "'w settlement \<Rightarrow> string \<Rightarrow> string \<Rightarrow> string \<Rightarrow> pyval \<Rightarrow> int \<Rightarrow> string \<Rightarrow> string \<Rightarrow> string option \<Rightarrow> ('w, unit) io" where
  "prepare s attempt symbol side quantity client_id submitted_at source_run_id source_started_at =
     io_bind (io_lift (prepared (ss_profile s) attempt symbol side quantity client_id submitted_at source_run_id source_started_at)) (\<lambda>p.
     io_bind (create_marker s attempt ''pending'' (Prepared p)) (\<lambda>_. io_return ()))"

definition order_id_ok :: "string \<Rightarrow> bool" where
  "order_id_ok i \<longleftrightarrow> i \<noteq> [] \<and> list_all is_digit i \<and> 0 < digits_value i"

definition bind_order :: "'w settlement \<Rightarrow> string \<Rightarrow> string \<Rightarrow> ('w, unit) io" where
  "bind_order s attempt i =
     (if \<not> order_id_ok i then io_raise (ValueError ''settlement_order_id_invalid'')
      else io_bind (create_marker s attempt ''broker'' (Broker i)) (\<lambda>_. io_return ()))"

section \<open>Reading the records back\<close>

record settle_record =
  sr_pending :: pending
  sr_order_id :: "string option"
  sr_permanent_id :: "int option"
  sr_observations :: "(int \<times> outcome) list"

type_synonym marks = "(string, meta) dict"

text \<open>One entry of the scan: its attempt, its suffix, and what it says.\<close>

definition scan_entry ::
    "'w settlement \<Rightarrow> string \<times> meta \<Rightarrow> (string, marks) dict \<times> (string, pending) dict \<Rightarrow> ((string, marks) dict \<times> (string, pending) dict) res" where
  "scan_entry s km acc = (let (k, m) = km; (evs, recs) = acc in
     if \<not> startswith k (ss_prefix s @ ''/'') then Inl (RuntimeError ''settlement_scope_invalid'')
     else (case split_slash (drop (length (ss_prefix s) + 1) k) of
        None \<Rightarrow> Inl (ValueError ''not enough values to unpack'')
      | Some (attempt, suffix) \<Rightarrow>
          res_bind (settle_key s attempt suffix) (\<lambda>_.
          let evs = dict_set evs attempt (dict_set (dict_get_default evs attempt []) suffix m) in
          if suffix \<noteq> ''pending'' then Inr (evs, recs)
          else (case m of
             Prepared p \<Rightarrow> (if pd_attempt p \<noteq> attempt \<or> pd_strategy p \<noteq> ss_profile s
                then Inl (RuntimeError ''settlement_record_invalid'') else Inr (evs, dict_set recs attempt p))
           | _ \<Rightarrow> Inl (KeyError ''attempt_id'')))))"

definition statuses :: "string list" where
  "statuses = [''filled'', ''partially_filled'', ''pending'', ''cancelled'', ''rejected'', ''unknown'']"

definition tol_close :: pyfloat where "tol_close = to_float (1 / 1000000000)"

definition facts_invalid :: "pyfloat \<Rightarrow> outcome \<Rightarrow> pyfloat \<Rightarrow> pyfloat \<Rightarrow> bool" where
  "facts_invalid quantity oc f r \<longleftrightarrow>
     \<not> (isfinite f \<and> fle (Fin 0) f) \<or> \<not> (isfinite r \<and> fle (Fin 0) r)
     \<or> \<not> isclose tol_close (Fin 0) (fadd f r) quantity
     \<or> (flt (Fin 0) f \<and> (case oc_avg_price oc of None \<Rightarrow> True | Some p \<Rightarrow> \<not> isfinite p \<or> fle p (Fin 0)))
     \<or> oc_terminal oc \<noteq> (oc_status oc \<in> {''filled'', ''cancelled'', ''rejected''})
     \<or> (oc_status oc = ''filled'' \<and> (\<not> feq r (Fin 0) \<or> \<not> feq f quantity))
     \<or> (oc_status oc = ''rejected'' \<and> \<not> feq f (Fin 0))"

definition validate_outcome :: "string option \<Rightarrow> pyfloat \<Rightarrow> outcome \<Rightarrow> unit res" where
  "validate_outcome order_id quantity oc =
     (if oc_order_id oc \<noteq> order_id then Inl (ValueError ''settlement_order_mismatch'')
      else if oc_status oc \<notin> set statuses then Inl (ValueError ''settlement_status_invalid'')
      else if oc_status oc = ''unknown'' then (if oc_terminal oc then Inl (ValueError ''settlement_unknown_terminal'') else Inr ())
      else (case (oc_filled oc, oc_remaining oc) of
         (Some f, Some r) \<Rightarrow> if facts_invalid quantity oc f r then Inl (ValueError ''settlement_facts_invalid'') else Inr ()
       | _ \<Rightarrow> Inl (ValueError ''settlement_facts_invalid'')))"

text \<open>\<open>filled_qty or 0\<close>\<close>

definition filled_or_0 :: "outcome \<Rightarrow> pyfloat" where
  "filled_or_0 oc = (case oc_filled oc of None \<Rightarrow> Fin 0 | Some x \<Rightarrow> f_or x (Fin 0))"

definition check_observation ::
    "string option \<Rightarrow> pyfloat \<Rightarrow> string \<times> meta \<Rightarrow> int \<times> (int \<times> outcome) list \<Rightarrow> (int \<times> (int \<times> outcome) list) res" where
  "check_observation order_id quantity km acc = (let (k, m) = km; (n, seen) = acc in
     if k \<noteq> observed_suffix n then Inl (RuntimeError ''settlement_sequence_invalid'')
     else (case m of
        Observed i oc \<Rightarrow>
          (if i \<noteq> n then Inl (RuntimeError ''settlement_sequence_invalid'')
           else res_bind (validate_outcome order_id quantity oc) (\<lambda>_.
             if seen \<noteq> [] \<and> (oc_terminal (snd (last seen)) \<or> flt (filled_or_0 oc) (filled_or_0 (snd (last seen))))
             then Inl (RuntimeError ''settlement_history_invalid'') else Inr (n + 1, seen @ [(n, oc)])))
      | _ \<Rightarrow> Inl (KeyError ''sequence'')))"

definition observation_marks :: "marks \<Rightarrow> (string \<times> meta) list" where
  "observation_marks ev = sort_key fst (filter (\<lambda>(k, m). startswith k ''observed/'') ev)"

definition record_of :: "marks \<Rightarrow> pending \<Rightarrow> settle_record res" where
  "record_of ev p =
     res_bind (case dict_get ev ''broker'' of None \<Rightarrow> Inr None | Some (Broker i) \<Rightarrow> Inr (Some i) | Some _ \<Rightarrow> Inl (KeyError ''order_id'')) (\<lambda>order_id.
     res_bind (case dict_get ev ''permanent'' of None \<Rightarrow> Inr None | Some (Permanent i) \<Rightarrow> Inr (Some i)
        | Some _ \<Rightarrow> Inl (KeyError ''permanent_id'')) (\<lambda>permanent.
     res_bind (res_fold (check_observation order_id (pd_quantity p)) (observation_marks ev) (1, [])) (\<lambda>(n, seen).
     Inr \<lparr>sr_pending = p, sr_order_id = order_id, sr_permanent_id = permanent, sr_observations = seen\<rparr>)))"

definition records_of :: "'w settlement \<Rightarrow> (string \<times> meta) list \<Rightarrow> settle_record list res" where
  "records_of s entries =
     res_bind (res_fold (scan_entry s) entries ([], [])) (\<lambda>(evs, recs).
     if set (dict_keys evs) \<noteq> set (dict_keys recs) then Inl (RuntimeError ''settlement_pending_record_missing'')
     else res_bind (res_map (\<lambda>(a, p). res_bind (record_of (dict_get_default evs a []) p) (\<lambda>r. Inr (a, r))) recs) (\<lambda>rs.
       Inr (List.map snd (sort_key fst rs))))"

definition records :: "'w settlement \<Rightarrow> ('w, settle_record list) io" where
  "records s = io_bind (mk_recent (ss_store s) (ss_prefix s)) (\<lambda>(entries, truncated).
     if truncated then io_raise (RuntimeError ''settlement_scan_incomplete'') else io_lift (records_of s entries))"

section \<open>Observing\<close>

text \<open>\<open>json.loads(json.dumps(asdict(outcome), allow_nan=False))\<close>\<close>

definition opt_finite :: "pyfloat option \<Rightarrow> bool" where
  "opt_finite x = (case x of None \<Rightarrow> True | Some y \<Rightarrow> isfinite y)"

definition json_outcome :: "outcome \<Rightarrow> outcome res" where
  "json_outcome oc =
     (if opt_finite (oc_filled oc) \<and> opt_finite (oc_remaining oc) \<and> opt_finite (oc_avg_price oc) \<and> opt_finite (oc_commission oc)
        \<and> list_all (\<lambda>f. isfinite (fi_quantity f) \<and> isfinite (fi_price f)) (oc_fills oc)
      then Inr oc else Inl (ValueError ''Out of range float values are not JSON compliant''))"

text \<open>What one read of the records decides: nothing more to do, or the next sequence number.\<close>

definition observe_decide :: "settle_record list \<Rightarrow> string \<Rightarrow> outcome \<Rightarrow> int option res" where
  "observe_decide rs attempt data =
     (case find (\<lambda>r. pd_attempt (sr_pending r) = attempt) rs of
        None \<Rightarrow> Inl (OtherError ''StopIteration'')
      | Some r \<Rightarrow>
          res_bind (validate_outcome (sr_order_id r) (pd_quantity (sr_pending r)) data) (\<lambda>_.
          let next_sequence = int (length (sr_observations r)) + 1 in
          if sr_observations r = [] then Inr (Some next_sequence)
          else let prior = snd (last (sr_observations r)) in
            if oc_terminal prior then
              (if oc_terminal data \<and> data \<noteq> prior then Inl (RuntimeError ''settlement_terminal_conflict'') else Inr None)
            else if prior = data then Inr None
            else if flt (filled_or_0 data) (filled_or_0 prior) then Inl (RuntimeError ''settlement_nonmonotonic_fill'')
            else Inr (Some next_sequence)))"

definition observe_look :: "'w settlement \<Rightarrow> string \<Rightarrow> outcome \<Rightarrow> ('w, int option) io" where
  "observe_look s attempt data = io_bind (records s) (\<lambda>rs. io_lift (observe_decide rs attempt data))"

definition observe_claim :: "'w settlement \<Rightarrow> string \<Rightarrow> outcome \<Rightarrow> int \<Rightarrow> ('w, bool) io" where
  "observe_claim s attempt data n =
     io_bind (io_lift (settle_key s attempt (observed_suffix n))) (\<lambda>k. mk_claim (ss_store s) k (Observed n data))"

fun observe_rounds :: "nat \<Rightarrow> 'w settlement \<Rightarrow> string \<Rightarrow> outcome \<Rightarrow> ('w, unit) io" where
  "observe_rounds 0 s attempt data = io_raise (RuntimeError ''settlement_concurrent_update'')"
| "observe_rounds (Suc k) s attempt data =
     io_bind (observe_look s attempt data) (\<lambda>d. case d of
        None \<Rightarrow> io_return ()
      | Some n \<Rightarrow> io_bind (observe_claim s attempt data n) (\<lambda>won.
          if won then io_return () else observe_rounds k s attempt data))"

definition observe :: "'w settlement \<Rightarrow> string \<Rightarrow> outcome \<Rightarrow> ('w, unit) io" where
  "observe s attempt oc = io_bind (io_lift (json_outcome oc)) (observe_rounds 8 s attempt)"

section \<open>Summary\<close>

record settle_row =
  rw_symbol :: string
  rw_side :: string
  rw_quantity :: pyfloat
  rw_order_id :: "string option"
  rw_filled :: "pyfloat option"
  rw_avg_price :: "pyfloat option"
  rw_remaining :: "pyfloat option"
  rw_commission :: "pyfloat option"
  rw_last_update :: "string option"
  rw_terminal :: bool
  rw_attempt :: string
  rw_sequence :: int
  rw_source_run_id :: string
  rw_submitted_at :: string
  rw_source_started_at :: string
  rw_fills :: "fill list"
  rw_broker_status :: string
  rw_status :: string

record settle_summary =
  su_submitted :: "settle_row list"
  su_filled :: "settle_row list"
  su_partially_filled :: "settle_row list"
  su_rejected_or_cancelled :: "settle_row list"
  su_pending :: "settle_row list"
  su_execution_status :: string
  su_reconciliation_required :: bool

definition last_observed :: "(string option \<Rightarrow> outcome) \<Rightarrow> settle_record \<Rightarrow> int \<times> outcome" where
  "last_observed unknown r = (if sr_observations r = [] then (0, unknown (sr_order_id r)) else last (sr_observations r))"

definition terminal_status :: "string \<Rightarrow> string res" where
  "terminal_status t = (if t = ''filled'' then Inr ''Filled'' else if t = ''cancelled'' then Inr ''Cancelled''
     else if t = ''rejected'' then Inr ''Rejected'' else Inl (KeyError t))"

definition row_of :: "(string option \<Rightarrow> outcome) \<Rightarrow> settle_record \<Rightarrow> settle_row res" where
  "row_of unknown r = (let (n, oc) = last_observed unknown r; p = sr_pending r in
     res_bind (if oc_terminal oc then terminal_status (oc_status oc) else Inr ''UNKNOWN'') (\<lambda>status.
     Inr \<lparr>rw_symbol = pd_symbol p, rw_side = pd_side p, rw_quantity = pd_quantity p, rw_order_id = sr_order_id r,
        rw_filled = oc_filled oc, rw_avg_price = oc_avg_price oc, rw_remaining = oc_remaining oc, rw_commission = oc_commission oc,
        rw_last_update = oc_last_update oc, rw_terminal = oc_terminal oc, rw_attempt = pd_attempt p, rw_sequence = n,
        rw_source_run_id = pd_source_run_id p, rw_submitted_at = pd_submitted_at p, rw_source_started_at = pd_source_started_at p,
        rw_fills = oc_fills oc, rw_broker_status = oc_status oc, rw_status = status\<rparr>))"

definition file_row :: "settle_row \<Rightarrow> settle_summary \<Rightarrow> settle_summary res" where
  "file_row w s0 = (let s = s0\<lparr>su_submitted := su_submitted s0 @ [w]\<rparr> in
     if \<not> rw_terminal w then Inr (s\<lparr>su_pending := su_pending s @ [w]\<rparr>)
     else if rw_broker_status w = ''filled'' then Inr (s\<lparr>su_filled := su_filled s @ [w]\<rparr>)
     else (let s = s\<lparr>su_rejected_or_cancelled := su_rejected_or_cancelled s @ [w]\<rparr> in
       case rw_filled w of None \<Rightarrow> Inl (TypeError ''not supported between instances'')
       | Some f \<Rightarrow> Inr (if flt (Fin 0) f then s\<lparr>su_partially_filled := su_partially_filled s @ [w]\<rparr> else s)))"

definition empty_summary :: settle_summary where
  "empty_summary = \<lparr>su_submitted = [], su_filled = [], su_partially_filled = [], su_rejected_or_cancelled = [], su_pending = [],
     su_execution_status = [], su_reconciliation_required = False\<rparr>"

definition summary_of :: "(string option \<Rightarrow> outcome) \<Rightarrow> settle_record list \<Rightarrow> settle_summary res" where
  "summary_of unknown rs =
     res_bind (res_fold (\<lambda>r s. res_bind (row_of unknown r) (\<lambda>w. file_row w s)) rs empty_summary) (\<lambda>s.
     Inr (s\<lparr>su_execution_status := (if su_pending s \<noteq> [] then ''pending_reconciliation'' else ''completed''),
        su_reconciliation_required := (su_pending s \<noteq> [])\<rparr>))"

definition settlement_summary :: "(string option \<Rightarrow> outcome) \<Rightarrow> 'w settlement \<Rightarrow> ('w, settle_summary) io" where
  "settlement_summary unknown s = io_bind (records s) (\<lambda>rs. io_lift (summary_of unknown rs))"

section \<open>Settling\<close>

text \<open>
  The reader: the broker query, its timeout attribute when it has one, the clock and the pause,
  and the package's value for an outcome that is not known.
\<close>

record 'w reader =
  rd_resolve :: "settle_record \<Rightarrow> ('w, outcome) io"
  rd_set_timeout :: "(pyfloat \<Rightarrow> ('w, unit) io) option"
  rd_clock :: "('w, pyfloat) io"
  rd_sleep :: "pyfloat \<Rightarrow> ('w, unit) io"
  rd_unknown :: "string option \<Rightarrow> outcome"

definition set_request_timeout :: "'w reader \<Rightarrow> pyfloat \<Rightarrow> ('w, unit) io" where
  "set_request_timeout e read_deadline = (case rd_set_timeout e of
      None \<Rightarrow> io_return ()
    | Some setter \<Rightarrow> io_bind (rd_clock e) (\<lambda>t. io_bind (io_lift (fdiv (fsub read_deadline t) (Fin 3))) (\<lambda>third.
        setter (py_max (to_float (1 / 100)) (py_min (Fin 2) third)))))"

text \<open>One turn of \<open>while True\<close>; the result says whether it breaks.\<close>

definition settle_turn :: "'w settlement \<Rightarrow> 'w reader \<Rightarrow> pyfloat \<Rightarrow> pyfloat \<Rightarrow> settle_record \<Rightarrow> ('w, bool) io" where
  "settle_turn s e deadline read_deadline r =
     io_bind (rd_clock e) (\<lambda>t.
     if fle read_deadline t then io_return True
     else io_bind (set_request_timeout e read_deadline) (\<lambda>_.
       io_bind (rd_resolve e r) (\<lambda>found.
       let result = (if oc_order_id found \<noteq> sr_order_id r then rd_unknown e (sr_order_id r) else found) in
       io_bind (observe s (pd_attempt (sr_pending r)) result) (\<lambda>_.
       if oc_terminal result then io_return True
       else io_bind (rd_clock e) (\<lambda>t1.
         if fle deadline t1 then io_return True
         else io_bind (rd_clock e) (\<lambda>t2.
           io_bind (rd_sleep e (py_min (Fin (1 / 4)) (py_max (Fin 0) (fsub deadline t2)))) (\<lambda>_. io_return False)))))))"

partial_function (option) settle_order ::
    "'w settlement \<Rightarrow> 'w reader \<Rightarrow> pyfloat \<Rightarrow> pyfloat \<Rightarrow> settle_record \<Rightarrow> 'w \<Rightarrow> (unit res \<times> 'w) option" where
  "settle_order s e deadline read_deadline r w = (case settle_turn s e deadline read_deadline r w of
      (Inl x, w') \<Rightarrow> Some (Inl x, w')
    | (Inr stop, w') \<Rightarrow> (if stop then Some (Inr (), w') else settle_order s e deadline read_deadline r w'))"

declare settle_order.simps [code]

text \<open>The orders one after another; an order without a broker id, or out of time, is passed over.\<close>

fun settle_orders ::
    "'w settlement \<Rightarrow> 'w reader \<Rightarrow> pyfloat \<Rightarrow> pyfloat \<Rightarrow> settle_record list \<Rightarrow> 'w \<Rightarrow> (unit res \<times> 'w) option" where
  "settle_orders s e deadline read_deadline [] w = Some (Inr (), w)"
| "settle_orders s e deadline read_deadline (r # rs) w =
     (if sr_order_id r = None \<or> sr_order_id r = Some [] then settle_orders s e deadline read_deadline rs w
      else case rd_clock e w of
        (Inl x, w1) \<Rightarrow> Some (Inl x, w1)
      | (Inr t, w1) \<Rightarrow>
          (if fle read_deadline t then settle_orders s e deadline read_deadline rs w1
           else case settle_order s e deadline read_deadline r w1 of
              None \<Rightarrow> None
            | Some (Inl x, w2) \<Rightarrow> Some (Inl x, w2)
            | Some (Inr _, w2) \<Rightarrow> settle_orders s e deadline read_deadline rs w2))"

definition open_record :: "settle_record \<Rightarrow> bool" where
  "open_record r \<longleftrightarrow> sr_observations r = [] \<or> \<not> oc_terminal (snd (last (sr_observations r)))"

text \<open>The bounds, the two deadlines and the orders still open, in the order the code checks them.\<close>

definition settle_start ::
    "'w settlement \<Rightarrow> 'w reader \<Rightarrow> pyfloat \<Rightarrow> int \<Rightarrow> pyfloat \<Rightarrow> ('w, pyfloat \<times> pyfloat \<times> settle_record list) io" where
  "settle_start s e wait_seconds max_orders timeout_seconds =
     (if \<not> isfinite wait_seconds \<or> \<not> (fle (Fin 0) wait_seconds \<and> fle wait_seconds (Fin 30)) \<or> \<not> (1 \<le> max_orders \<and> max_orders \<le> 100)
      then io_raise (ValueError ''settlement_bounds_invalid'')
      else io_bind (rd_clock e) (\<lambda>t. io_bind (rd_clock e) (\<lambda>t'.
        if \<not> isfinite timeout_seconds \<or> \<not> (flt (Fin 0) timeout_seconds \<and> fle timeout_seconds (Fin 30))
        then io_raise (ValueError ''settlement_timeout_invalid'')
        else io_bind (records s) (\<lambda>rs. let open_ones = filter open_record rs in
          if max_orders < int (length open_ones) then io_raise (RuntimeError ''settlement_batch_incomplete'')
          else io_return (fadd t wait_seconds, fadd t' timeout_seconds, open_ones)))))"

definition settle_pending ::
    "'w settlement \<Rightarrow> 'w reader \<Rightarrow> pyfloat \<Rightarrow> int \<Rightarrow> pyfloat \<Rightarrow> 'w \<Rightarrow> (settle_summary res \<times> 'w) option" where
  "settle_pending s e wait_seconds max_orders timeout_seconds w =
     (case settle_start s e wait_seconds max_orders timeout_seconds w of
        (Inl x, w1) \<Rightarrow> Some (Inl x, w1)
      | (Inr (deadline, read_deadline, rs), w1) \<Rightarrow>
          (case settle_orders s e deadline read_deadline rs w1 of
             None \<Rightarrow> None
           | Some (Inl x, w2) \<Rightarrow> Some (Inl x, w2)
           | Some (Inr _, w2) \<Rightarrow> Some (settlement_summary (rd_unknown e) s w2)))"

end
