(* ===== verification/SettlementHistory.thy ===== *)
theory SettlementHistory
  imports Settlement
begin

text \<open>
  What the marker store holds for an account and a strategy, as a map from keys: the padded
  sequence numbers sort as numbers, keys are injective, and the records read back from any
  listing of a well-kept store are its histories.
\<close>

section \<open>Padded sequence numbers\<close>

fun fixed_digits :: "nat \<Rightarrow> int \<Rightarrow> string" where
  "fixed_digits 0 n = []"
| "fixed_digits (Suc w) n = fixed_digits w (n div 10) @ [char_of (48 + n mod 10)]"

lemma length_fixed [simp]: "length (fixed_digits w n) = w"
  by (induction w arbitrary: n) simp_all

lemma fixed_zero: "fixed_digits w 0 = replicate w (CHR ''0'')"
proof (induction w)
  case (Suc w)
  have "char_of (48 :: int) = CHR ''0''" by code_simp
  with Suc show ?case by (simp add: replicate_append_same)
qed simp

lemma pad_fixed: "0 \<le> n \<Longrightarrow> n < 10 ^ w \<Longrightarrow> 0 < w \<Longrightarrow> pad_left w (dec_text n) = fixed_digits w n"
proof (induction w arbitrary: n)
  case (Suc w)
  show ?case
  proof (cases "n < 10")
    case True
    with Suc.prems have "n div 10 = 0" "n mod 10 = n" by simp_all
    with True show ?thesis by (simp add: pad_left_def dec_text.simps [of n] fixed_zero)
  next
    case False
    with Suc.prems(2) have w: "0 < w" by (cases w) auto
    from False Suc.prems have "n div 10 < 10 ^ w" "0 \<le> n div 10" by auto
    from Suc.IH [OF this(2) this(1) w] False show ?thesis
      by (simp add: pad_left_def dec_text.simps [of n])
  qed
qed simp

lemma list_less_append_same: "us < (vs :: 'a :: linorder list) \<Longrightarrow> xs @ us < xs @ vs"
  by (induction xs) simp_all

lemma char_digit_less: "0 \<le> a \<Longrightarrow> a < b \<Longrightarrow> b < 10 \<Longrightarrow> char_of (48 + a :: int) < (char_of (48 + b) :: char)"
proof -
  assume d: "0 \<le> a" "a < b" "b < 10"
  have i: "c < c' \<longleftrightarrow> (of_char c :: int) < of_char c'" for c c' :: char
    by (metis less_char_def of_nat_less_iff of_nat_of_char)
  show "char_of (48 + a) < (char_of (48 + b) :: char)" unfolding i using d by (simp add: take_bit_int_eq_self)
qed

lemma fixed_less: "0 \<le> a \<Longrightarrow> a < b \<Longrightarrow> b < 10 ^ w \<Longrightarrow> fixed_digits w a < fixed_digits w b"
proof (induction w arbitrary: a b)
  case (Suc w)
  show ?case
  proof (cases "a div 10 = b div 10")
    case True
    have "a mod 10 < b mod 10" using True Suc.prems by presburger
    then have "char_of (48 + a mod 10) < (char_of (48 + b mod 10) :: char)" by (intro char_digit_less) simp_all
    then show ?thesis using True by (auto intro: list_less_append_same)
  next
    case False
    with Suc.prems have "a div 10 < b div 10" "0 \<le> a div 10" "b div 10 < 10 ^ w" by auto
    from Suc.IH [OF this(2,1,3)] show ?thesis by (simp add: list_less_append)
  qed
qed simp

definition sequence_bound :: int where "sequence_bound = 100000000"

lemma observed_suffix_less:
  assumes "0 \<le> a" "a < b" "b < sequence_bound"
  shows "observed_suffix a < observed_suffix b"
proof -
  have "padded8 k = fixed_digits 8 k" if "0 \<le> k" "k < sequence_bound" for k
    using that pad_fixed [of k 8] by (simp add: padded8_def int_text_def sequence_bound_def)
  moreover have "fixed_digits 8 a < fixed_digits 8 b"
    using assms by (intro fixed_less) (simp_all add: sequence_bound_def)
  ultimately show ?thesis using assms unfolding observed_suffix_def by (simp add: list_less_append_same)
qed

lemma observed_suffix_inject:
  "0 \<le> a \<Longrightarrow> a < sequence_bound \<Longrightarrow> 0 \<le> b \<Longrightarrow> b < sequence_bound \<Longrightarrow> observed_suffix a = observed_suffix b \<longleftrightarrow> a = b"
  by (metis less_irrefl linorder_less_linear observed_suffix_less)

lemma observed_suffix_shape [simp]:
  "startswith (observed_suffix k) ''observed/''" "observed_suffix k \<noteq> ''pending''" "observed_suffix k \<noteq> ''broker''"
  "observed_suffix k \<noteq> ''permanent''" "''pending'' \<noteq> observed_suffix k" "''broker'' \<noteq> observed_suffix k"
  "''permanent'' \<noteq> observed_suffix k"
  by (simp_all add: observed_suffix_def startswith_def)

section \<open>Keys\<close>

lemma key_of_scope: "startswith (key_of s a suf) (ss_prefix s @ ''/'')"
  using startswith_append [of "ss_prefix s @ ''/''" "a @ ''/'' @ suf"] by (simp add: key_of_def)

lemma attempt_chars: "attempt_ok a \<Longrightarrow> takeWhile (\<lambda>c. c \<noteq> CHR ''/'') (a @ ''/'' @ suf) = a"
  by (subst takeWhile_append2) (auto simp: attempt_ok_def list_all_iff)

lemma split_key: "attempt_ok a \<Longrightarrow> split_slash (drop (length (ss_prefix s) + 1) (key_of s a suf)) = Some (a, suf)"
  using attempt_chars [of a suf] by (simp add: split_slash_def key_of_def Let_def)

lemma key_of_inject: "attempt_ok a \<Longrightarrow> attempt_ok b \<Longrightarrow> key_of s a x = key_of s b y \<longleftrightarrow> a = b \<and> x = y"
  by (metis option.inject prod.inject split_key)

section \<open>Histories\<close>

definition mark_at :: "'w settlement \<Rightarrow> (string \<Rightarrow> meta option) \<Rightarrow> string \<Rightarrow> string \<Rightarrow> meta option" where
  "mark_at s m a suf = m (key_of s a suf)"

definition order_of :: "'w settlement \<Rightarrow> (string \<Rightarrow> meta option) \<Rightarrow> string \<Rightarrow> string option" where
  "order_of s m a = (case mark_at s m a ''broker'' of Some (Broker i) \<Rightarrow> Some i | _ \<Rightarrow> None)"

definition permanent_of :: "'w settlement \<Rightarrow> (string \<Rightarrow> meta option) \<Rightarrow> string \<Rightarrow> int option" where
  "permanent_of s m a = (case mark_at s m a ''permanent'' of Some (Permanent i) \<Rightarrow> Some i | _ \<Rightarrow> None)"

definition pending_of :: "'w settlement \<Rightarrow> (string \<Rightarrow> meta option) \<Rightarrow> string \<Rightarrow> pending option" where
  "pending_of s m a = (case mark_at s m a ''pending'' of Some (Prepared p) \<Rightarrow> Some p | _ \<Rightarrow> None)"

text \<open>What may stand at a suffix, whatever the rest of the store.\<close>

definition well_kept :: "'w settlement \<Rightarrow> string \<Rightarrow> string \<Rightarrow> meta \<Rightarrow> bool" where
  "well_kept s a suf x \<longleftrightarrow> (case x of
      Prepared p \<Rightarrow> suf = ''pending'' \<and> pd_attempt p = a \<and> pd_strategy p = ss_profile s
    | Broker i \<Rightarrow> suf = ''broker''
    | Permanent i \<Rightarrow> suf = ''permanent''
    | Observed i oc \<Rightarrow> suf = observed_suffix i \<and> 1 \<le> i \<and> i < sequence_bound
    | Notice t \<Rightarrow> suf \<in> {''notice-attempt'', ''notice-receipt''})"

definition follows :: "outcome \<Rightarrow> outcome \<Rightarrow> bool" where
  "follows before after \<longleftrightarrow> \<not> oc_terminal before \<and> \<not> flt (filled_or_0 after) (filled_or_0 before)"

text \<open>A history: every observation valid for the order, each following the one before.\<close>

definition chain :: "string option \<Rightarrow> pyfloat \<Rightarrow> outcome list \<Rightarrow> bool" where
  "chain order_id quantity hs \<longleftrightarrow> list_all (\<lambda>oc. validate_outcome order_id quantity oc = Inr ()) hs
     \<and> (\<forall>i. Suc i < length hs \<longrightarrow> follows (hs ! i) (hs ! Suc i))"

text \<open>The observations of an attempt are numbered from 1 without a gap.\<close>

definition history :: "'w settlement \<Rightarrow> (string \<Rightarrow> meta option) \<Rightarrow> string \<Rightarrow> outcome list \<Rightarrow> bool" where
  "history s m a hs \<longleftrightarrow> int (length hs) < sequence_bound \<and> (\<forall>i oc. 1 \<le> i \<and> i < sequence_bound \<longrightarrow>
     (mark_at s m a (observed_suffix i) = Some (Observed i oc) \<longleftrightarrow> i \<le> int (length hs) \<and> oc = hs ! nat (i - 1)))"

definition kept_attempt :: "'w settlement \<Rightarrow> (string \<Rightarrow> meta option) \<Rightarrow> string \<Rightarrow> bool" where
  "kept_attempt s m a \<longleftrightarrow> (\<exists>p hs. pending_of s m a = Some p \<and> history s m a hs \<and> chain (order_of s m a) (pd_quantity p) hs
     \<and> (hs \<noteq> [] \<longrightarrow> order_of s m a \<noteq> None))"

definition kept :: "'w settlement \<Rightarrow> (string \<Rightarrow> meta option) \<Rightarrow> bool" where
  "kept s m \<longleftrightarrow> (\<forall>k x. m k = Some x \<and> startswith k (ss_prefix s) \<longrightarrow>
     (\<exists>a suf. attempt_ok a \<and> k = key_of s a suf \<and> well_kept s a suf x \<and> kept_attempt s m a))"

section \<open>Reading a listing back\<close>

definition listing :: "'w settlement \<Rightarrow> (string \<Rightarrow> meta option) \<Rightarrow> (string \<times> meta) list \<Rightarrow> bool" where
  "listing s m es \<longleftrightarrow> distinct (List.map fst es) \<and> (\<forall>k x. (k, x) \<in> set es \<longleftrightarrow> startswith k (ss_prefix s) \<and> m k = Some x)"

text \<open>What the scan has gathered from the entries so far.\<close>

definition gathered ::
    "'w settlement \<Rightarrow> (string \<times> meta) list \<Rightarrow> (string, marks) dict \<times> (string, pending) dict \<Rightarrow> bool" where
  "gathered s es acc \<longleftrightarrow> (case acc of (evs, recs) \<Rightarrow>
     dict_ok recs
     \<and> (\<forall>a. attempt_ok a \<longrightarrow> dict_ok (dict_get_default evs a [])
          \<and> (\<forall>suf. dict_get (dict_get_default evs a []) suf = map_of es (key_of s a suf))
          \<and> dict_get recs a = (case map_of es (key_of s a ''pending'') of Some (Prepared p) \<Rightarrow> Some p | _ \<Rightarrow> None))
     \<and> set (dict_keys evs) = {a. attempt_ok a \<and> (\<exists>suf. map_of es (key_of s a suf) \<noteq> None)}
     \<and> (\<forall>a \<in> set (dict_keys recs). attempt_ok a))"

lemma dict_get_default_set: "dict_get_default (dict_set d k v) j e = (if j = k then v else dict_get_default d j e)"
  by (simp add: dict_get_default_def)

lemma gathered_step:
  assumes g: "gathered s es (evs, recs)" and a: "attempt_ok a" and w: "well_kept s a suf x"
    and fresh: "map_of es (key_of s a suf) = None"
  shows "\<exists>acc. scan_entry s (key_of s a suf, x) (evs, recs) = Inr acc \<and> gathered s (es @ [(key_of s a suf, x)]) acc"
proof -
  let ?evs = "dict_set evs a (dict_set (dict_get_default evs a []) suf x)"
  define es' where "es' = es @ [(key_of s a suf, x)]"
  have new: "map_of es' (key_of s b t) = (if b = a \<and> t = suf then Some x else map_of es (key_of s b t))" if "attempt_ok b" for b t
    using fresh key_of_inject [OF that a, of s t suf] by (auto simp: es'_def map_add_def split: option.split)
  have k: "startswith (key_of s a suf) (ss_prefix s @ ''/'')" "settle_key s a suf = Inr (key_of s a suf)"
    using a by (simp_all add: key_of_scope settle_key_def)
  have evs: "dict_ok (dict_get_default ?evs b []) \<and> (\<forall>t. dict_get (dict_get_default ?evs b []) t = map_of es' (key_of s b t))"
    if "attempt_ok b" for b
    using g that by (auto simp: gathered_def new dict_get_default_set)
  have keys: "set (dict_keys ?evs) = {b. attempt_ok b \<and> (\<exists>t. map_of es' (key_of s b t) \<noteq> None)}"
    using g a by (auto simp: gathered_def dict_keys_set new split: if_splits) (metis new option.distinct(1))+
  show ?thesis
  proof (cases "suf = ''pending''")
    case False
    have "scan_entry s (key_of s a suf, x) (evs, recs) = Inr (?evs, recs)"
      using k a False by (simp add: scan_entry_def split_key [OF a, simplified] Let_def)
    moreover have "gathered s es' (?evs, recs)"
      using g evs keys False by (auto simp: gathered_def new)
    ultimately show ?thesis unfolding es'_def by blast
  next
    case True
    with w obtain p where p: "x = Prepared p" "pd_attempt p = a" "pd_strategy p = ss_profile s"
      by (auto simp: well_kept_def split: meta.splits)
    have "scan_entry s (key_of s a suf, x) (evs, recs) = Inr (?evs, dict_set recs a p)"
      using k a True p by (simp add: scan_entry_def split_key [OF a, simplified] Let_def)
    moreover have "gathered s es' (?evs, dict_set recs a p)"
      using g evs keys True p a by (auto simp: gathered_def new dict_keys_set)
    ultimately show ?thesis unfolding es'_def by blast
  qed
qed

lemma scan_entries:
  assumes "distinct (List.map fst es)"
    and "\<And>k x. (k, x) \<in> set es \<Longrightarrow> \<exists>a suf. attempt_ok a \<and> k = key_of s a suf \<and> well_kept s a suf x"
  shows "\<exists>acc. res_fold (scan_entry s) es ([], []) = Inr acc \<and> gathered s es acc"
  using assms
proof (induction es rule: rev_induct)
  case Nil
  show ?case by (simp add: gathered_def dict_keys_def dict_get_default_def)
next
  case (snoc e es)
  obtain k x where e: "e = (k, x)" by (cases e)
  from snoc.prems(2) [of k x] e obtain a suf where a: "attempt_ok a" "k = key_of s a suf" "well_kept s a suf x" by auto
  from snoc e a have f: "map_of es (key_of s a suf) = None" by (auto simp: map_of_eq_None_iff)
  from snoc.prems snoc.IH obtain acc where acc: "res_fold (scan_entry s) es ([], []) = Inr acc" "gathered s es acc"
    by fastforce
  obtain evs recs where "acc = (evs, recs)" by (cases acc)
  with gathered_step [of s es evs recs, OF _ a(1,3) f] acc obtain acc'
    where "scan_entry s (key_of s a suf, x) acc = Inr acc'" "gathered s (es @ [(key_of s a suf, x)]) acc'" by blast
  with acc e a show ?case by (simp add: res_fold_append)
qed

section \<open>The records of a kept store\<close>

lemma keptD:
  assumes "kept s m" "attempt_ok a" "mark_at s m a suf = Some x"
  shows "well_kept s a suf x" "kept_attempt s m a"
proof -
  have "startswith (key_of s a suf) (ss_prefix s)"
    using startswith_append [of "ss_prefix s"] by (simp add: key_of_def)
  with assms obtain b t where b: "attempt_ok b" "key_of s a suf = key_of s b t" "well_kept s b t x" "kept_attempt s m b"
    unfolding kept_def mark_at_def by blast
  with key_of_inject [OF assms(2) b(1), of s suf t] show "well_kept s a suf x" "kept_attempt s m a" by auto
qed

lemma well_kept_suffix:
  "well_kept s a ''pending'' x \<Longrightarrow> \<exists>p. x = Prepared p \<and> pd_attempt p = a \<and> pd_strategy p = ss_profile s"
  "well_kept s a ''broker'' x \<Longrightarrow> \<exists>i. x = Broker i"
  "well_kept s a ''permanent'' x \<Longrightarrow> \<exists>i. x = Permanent i"
  by (cases x; simp add: well_kept_def)+

lemma well_kept_observed:
  "well_kept s a k x \<Longrightarrow> startswith k ''observed/'' \<Longrightarrow> \<exists>i oc. x = Observed i oc \<and> k = observed_suffix i \<and> 1 \<le> i \<and> i < sequence_bound"
  by (cases x) (auto simp: well_kept_def startswith_def)

definition numbered :: "outcome list \<Rightarrow> (int \<times> outcome) list" where
  "numbered hs = List.map (\<lambda>i. (int i + 1, hs ! i)) [0..<length hs]"

definition observed_mark :: "outcome list \<Rightarrow> nat \<Rightarrow> string \<times> meta" where
  "observed_mark hs i = (observed_suffix (int i + 1), Observed (int i + 1) (hs ! i))"

definition record_at :: "'w settlement \<Rightarrow> (string \<Rightarrow> meta option) \<Rightarrow> string \<Rightarrow> pending \<Rightarrow> outcome list \<Rightarrow> settle_record" where
  "record_at s m a p hs = \<lparr>sr_pending = p, sr_order_id = order_of s m a, sr_permanent_id = permanent_of s m a, sr_observations = numbered hs\<rparr>"

lemma observation_marks_history:
  assumes k: "kept s m" and a: "attempt_ok a" and h: "history s m a hs"
    and ok: "dict_ok ev" and get: "\<And>suf. dict_get ev suf = mark_at s m a suf"
  shows "observation_marks ev = List.map (observed_mark hs) [0..<length hs]"
  unfolding observation_marks_def
proof (rule map_sorted_distinct_set_unique [where f = fst])
  let ?xs = "sort_key fst (filter (\<lambda>(k, m). startswith k ''observed/'') ev)"
  let ?ys = "List.map (observed_mark hs) [0..<length hs]"
  have less: "i < j \<Longrightarrow> j < length hs \<Longrightarrow> observed_suffix (int i + 1) < observed_suffix (int j + 1)" for i j
    using h by (intro observed_suffix_less) (simp_all add: history_def)
  have strict: "sorted_wrt (<) (List.map fst ?ys)"
    unfolding sorted_wrt_iff_nth_less using less by (simp add: observed_mark_def)
  then show "sorted (List.map fst ?ys)" "distinct (List.map fst ?ys)"
    by (simp_all add: strict_sorted_iff)
  show "sorted (List.map fst ?xs)" by (rule sorted_sort_key)
  have "distinct (List.map fst ev)" using ok by (simp add: dict_ok_def dict_keys_def)
  then have "distinct (List.map fst (filter (\<lambda>(k, m). startswith k ''observed/'') ev))" by (rule distinct_map_filter)
  then show "distinct (List.map fst ?xs)"
    unfolding distinct_map by simp
  show set_eq: "set ?xs = set ?ys"
  proof (intro set_eqI iffI)
    fix km :: "string \<times> meta"
    obtain k x where kx: "km = (k, x)" by fastforce
    assume "km \<in> set ?xs"
    then have km: "km = (k, x)" "dict_get ev k = Some x" "startswith k ''observed/''"
      using ok kx by (auto intro: dict_get_mem)
    from km(2) get have "mark_at s m a k = Some x" by simp
    from well_kept_observed [OF keptD(1) [OF k a this] km(3)] this obtain i oc
      where i: "x = Observed i oc" "k = observed_suffix i" "1 \<le> i" "i < sequence_bound" "mark_at s m a (observed_suffix i) = Some (Observed i oc)"
      by auto
    with h have "i \<le> int (length hs)" "oc = hs ! nat (i - 1)" by (auto simp: history_def)
    with i km(1) show "km \<in> set ?ys"
      by (auto simp: observed_mark_def intro!: image_eqI [of _ _ "nat (i - 1)"])
  next
    fix km
    assume "km \<in> set ?ys"
    then obtain i where i: "i < length hs" "km = observed_mark hs i" by auto
    have "mark_at s m a (observed_suffix (int i + 1)) = Some (Observed (int i + 1) (hs ! i))"
      using h i(1) by (simp add: history_def)
    with get have "(observed_suffix (int i + 1), Observed (int i + 1) (hs ! i)) \<in> set ev" by (metis dict_get_Some_mem)
    with i(2) show "km \<in> set ?xs" by (simp add: observed_mark_def)
  qed
  show "inj_on fst (set ?xs \<union> set ?ys)"
    unfolding set_eq Un_absorb using strict by (metis distinct_map strict_sorted_iff)
qed

lemma check_chain:
  assumes c: "chain order_id q hs" and n: "n \<le> length hs"
  shows "res_fold (check_observation order_id q) (List.map (observed_mark hs) [0..<n]) (1, [])
     = Inr (int n + 1, List.map (\<lambda>i. (int i + 1, hs ! i)) [0..<n])"
  using n
proof (induction n)
  case (Suc n)
  have v: "validate_outcome order_id q (hs ! n) = Inr ()"
    using c Suc.prems by (simp add: chain_def list_all_length)
  have f: "follows (hs ! (n - 1)) (hs ! n)" if "0 < n"
    using c Suc.prems that unfolding chain_def by (metis Suc_diff_1 Suc_le_eq)
  have "last (List.map (\<lambda>i. (int i + 1, hs ! i)) [0..<n]) = (int n, hs ! (n - 1))" if "0 < n"
    using that by (simp add: last_map)
  with v f Suc show ?case
    by (cases "n = 0") (auto simp: res_fold_append check_observation_def observed_mark_def follows_def)
qed simp

lemma record_of_history:
  assumes k: "kept s m" and a: "attempt_ok a" and p: "pending_of s m a = Some p" and h: "history s m a hs"
    and c: "chain (order_of s m a) (pd_quantity p) hs"
    and ok: "dict_ok ev" and get: "\<And>suf. dict_get ev suf = mark_at s m a suf"
  shows "record_of ev p = Inr (record_at s m a p hs)"
proof -
  have b: "(case dict_get ev ''broker'' of None \<Rightarrow> Inr None | Some (Broker i) \<Rightarrow> Inr (Some i) | Some _ \<Rightarrow> Inl (KeyError ''order_id''))
      = Inr (order_of s m a)"
    using keptD(1) [OF k a, of "''broker''"] well_kept_suffix(2) unfolding get order_of_def
    by (fastforce split: option.split meta.split)
  have q: "(case dict_get ev ''permanent'' of None \<Rightarrow> Inr None | Some (Permanent i) \<Rightarrow> Inr (Some i) | Some _ \<Rightarrow> Inl (KeyError ''permanent_id''))
      = Inr (permanent_of s m a)"
    using keptD(1) [OF k a, of "''permanent''"] well_kept_suffix(3) unfolding get permanent_of_def
    by (fastforce split: option.split meta.split)
  show ?thesis
    unfolding record_of_def b q observation_marks_history [OF k a h ok get]
    using check_chain [OF c order_refl] by (simp add: record_at_def numbered_def)
qed

text \<open>Any complete listing of a kept store reads back, attempt by attempt.\<close>

lemma listing_map: "listing s m es \<Longrightarrow> startswith k (ss_prefix s) \<Longrightarrow> map_of es k = m k"
  unfolding listing_def by (metis map_of_SomeD map_of_eq_Some_iff not_Some_eq)

lemma key_in_scope: "startswith (key_of s a suf) (ss_prefix s)"
  using startswith_append [of "ss_prefix s"] by (simp add: key_of_def)

definition kept_record :: "'w settlement \<Rightarrow> (string \<Rightarrow> meta option) \<Rightarrow> settle_record \<Rightarrow> bool" where
  "kept_record s m r \<longleftrightarrow> (\<exists>a p hs. attempt_ok a \<and> pending_of s m a = Some p \<and> history s m a hs
     \<and> chain (order_of s m a) (pd_quantity p) hs \<and> r = record_at s m a p hs)"

lemma res_map_all2:
  "(\<And>x. x \<in> set xs \<Longrightarrow> \<exists>y. f x = Inr y \<and> P x y) \<Longrightarrow> \<exists>ys. res_map f xs = Inr ys \<and> list_all2 P xs ys"
proof (induction xs)
  case (Cons x xs)
  then obtain y ys where "f x = Inr y" "P x y" "res_map f xs = Inr ys" "list_all2 P xs ys" by (metis list.set_intros)
  then show ?case by simp
qed simp

lemma records_of_kept:
  assumes k: "kept s m" and l: "listing s m es"
  shows "\<exists>rs. records_of s es = Inr rs \<and> (\<forall>r \<in> set rs. kept_record s m r)
     \<and> (\<forall>a p. attempt_ok a \<longrightarrow> pending_of s m a = Some p \<longrightarrow> (\<exists>r \<in> set rs. sr_pending r = p))"
proof -
  have entries: "\<exists>a suf. attempt_ok a \<and> k = key_of s a suf \<and> well_kept s a suf x" if "(k, x) \<in> set es" for k x
    using that k l unfolding kept_def listing_def by blast
  obtain evs recs where fold: "res_fold (scan_entry s) es ([], []) = Inr (evs, recs)" and g: "gathered s es (evs, recs)"
    using scan_entries [OF _ entries] l unfolding listing_def by (metis surj_pair)
  have get: "dict_get (dict_get_default evs a []) suf = mark_at s m a suf" if "attempt_ok a" for a suf
    using g that listing_map [OF l key_in_scope] by (simp add: gathered_def mark_at_def)
  have ok: "dict_ok (dict_get_default evs a [])" if "attempt_ok a" for a using g that by (simp add: gathered_def)
  have pend: "dict_get recs a = pending_of s m a" if "attempt_ok a" for a
    using g that listing_map [OF l key_in_scope] by (simp add: gathered_def pending_of_def mark_at_def)
  have evkeys: "set (dict_keys evs) = {a. attempt_ok a \<and> (\<exists>suf x. mark_at s m a suf = Some x)}"
    using g listing_map [OF l key_in_scope] by (auto simp: gathered_def mark_at_def)
  have mem: "a \<in> set (dict_keys recs) \<longleftrightarrow> dict_get recs a \<noteq> None" for a by (simp add: dict_get_None_iff)
  have okkeys: "\<forall>a \<in> set (dict_keys recs). attempt_ok a" using g by (simp add: gathered_def)
  have reckeys: "set (dict_keys recs) = {a. attempt_ok a \<and> pending_of s m a \<noteq> None}"
    using okkeys pend mem by auto
  have keys: "set (dict_keys evs) = set (dict_keys recs)"
    unfolding evkeys reckeys using keptD(2) [OF k] by (fastforce simp: kept_attempt_def pending_of_def split: option.splits)
  have rec: "\<exists>hs. history s m a hs \<and> chain (order_of s m a) (pd_quantity p) hs
      \<and> record_of (dict_get_default evs a []) p = Inr (record_at s m a p hs)"
    if "(a, p) \<in> set recs" for a p
  proof -
    have a: "attempt_ok a" using that reckeys by (force simp: dict_keys_def)
    have p: "pending_of s m a = Some p" using that g pend [OF a] dict_get_mem by (fastforce simp: gathered_def)
    then obtain x where "mark_at s m a ''pending'' = Some x" by (auto simp: pending_of_def split: option.splits)
    from keptD(2) [OF k a this] p obtain hs where hs: "history s m a hs" "chain (order_of s m a) (pd_quantity p) hs"
      by (auto simp: kept_attempt_def)
    with record_of_history [OF k a p hs ok get, OF a a] show ?thesis by blast
  qed
  define f where "f = (\<lambda>(a, p). res_bind (record_of (dict_get_default evs a []) p) (\<lambda>r. Inr (a, r)))"
  have "\<exists>y. f x = Inr y \<and> (kept_record s m (snd y) \<and> sr_pending (snd y) = snd x)" if x: "x \<in> set recs" for x
  proof -
    obtain a p where ap: "x = (a, p)" by (cases x)
    with reckeys x have a: "attempt_ok a" by (force simp: dict_keys_def)
    have p: "pending_of s m a = Some p" using x ap g pend [OF a] by (simp add: gathered_def dict_get_mem)
    from rec [of a p] x ap obtain hs where hs: "history s m a hs" "chain (order_of s m a) (pd_quantity p) hs"
      "record_of (dict_get_default evs a []) p = Inr (record_at s m a p hs)" by blast
    with a p have "kept_record s m (record_at s m a p hs)" unfolding kept_record_def by blast
    with hs(3) ap show ?thesis by (simp add: record_at_def f_def)
  qed
  from res_map_all2 [of recs f "\<lambda>x y. kept_record s m (snd y) \<and> sr_pending (snd y) = snd x", OF this]
  obtain ys where ys: "res_map f recs = Inr ys"
    "list_all2 (\<lambda>x y. kept_record s m (snd y) \<and> sr_pending (snd y) = snd x) recs ys" by blast
  define rs where "rs = List.map snd (sort_key fst ys)"
  have "records_of s es = Inr rs" using fold keys ys(1) by (simp add: records_of_def rs_def f_def)
  moreover have "\<forall>r \<in> set rs. kept_record s m r"
    using ys(2) by (fastforce simp: rs_def list_all2_conv_all_nth in_set_conv_nth)
  moreover have "\<exists>r \<in> set rs. sr_pending r = p" if "attempt_ok a" "pending_of s m a = Some p" for a p
  proof -
    from that pend have "(a, p) \<in> set recs" by (simp add: dict_get_Some_mem)
    then obtain i where "i < length recs" "recs ! i = (a, p)" by (auto simp: in_set_conv_nth)
    with ys(2) have "ys ! i \<in> set ys" "sr_pending (snd (ys ! i)) = p" by (auto simp: list_all2_conv_all_nth)
    then show ?thesis by (auto simp: rs_def)
  qed
  ultimately show ?thesis by blast
qed

section \<open>What may be added to a kept store\<close>

definition admissible :: "'w settlement \<Rightarrow> (string \<Rightarrow> meta option) \<Rightarrow> string \<Rightarrow> string \<Rightarrow> meta \<Rightarrow> bool" where
  "admissible s m a suf x \<longleftrightarrow> attempt_ok a \<and> well_kept s a suf x \<and> (case x of
      Prepared p \<Rightarrow> True
    | Observed n oc \<Rightarrow> (\<exists>p hs. pending_of s m a = Some p \<and> history s m a hs \<and> n = int (length hs) + 1
         \<and> chain (order_of s m a) (pd_quantity p) (hs @ [oc]) \<and> order_of s m a \<noteq> None)
    | _ \<Rightarrow> pending_of s m a \<noteq> None)"

lemma mark_upd: "attempt_ok a \<Longrightarrow> attempt_ok b \<Longrightarrow>
    mark_at s (m(key_of s a suf \<mapsto> x)) b t = (if b = a \<and> t = suf then Some x else mark_at s m b t)"
  using key_of_inject [of b a s t suf] by (simp add: mark_at_def)

lemma kept_attempt_cong: "(\<And>t. mark_at s m b t = mark_at s m' b t) \<Longrightarrow> kept_attempt s m b \<longleftrightarrow> kept_attempt s m' b"
  by (simp add: kept_attempt_def pending_of_def order_of_def history_def)

lemma kept_pending: "kept s m \<Longrightarrow> attempt_ok a \<Longrightarrow> mark_at s m a t \<noteq> None \<Longrightarrow> pending_of s m a \<noteq> None"
  using keptD(2) by (fastforce simp: kept_attempt_def)

lemma kept_attempt_pending: "kept s m \<Longrightarrow> attempt_ok a \<Longrightarrow> pending_of s m a \<noteq> None \<Longrightarrow> kept_attempt s m a"
  using keptD(2) by (fastforce simp: pending_of_def split: option.splits)

lemma pending_mark: "kept s m \<Longrightarrow> attempt_ok a \<Longrightarrow> mark_at s m a ''pending'' = None \<longleftrightarrow> pending_of s m a = None"
  using kept_pending [of s m a "''pending''"] by (cases "mark_at s m a ''pending''") (auto simp: pending_of_def)

lemma broker_mark: "kept s m \<Longrightarrow> attempt_ok a \<Longrightarrow> mark_at s m a ''broker'' = None \<longleftrightarrow> order_of s m a = None"
  using keptD(1) [of s m a "''broker''"] well_kept_suffix(2) by (fastforce simp: order_of_def split: option.splits)

lemma kept_attempt_added:
  assumes k: "kept s m" and new: "mark_at s m a suf = None" and x: "admissible s m a suf x"
  shows "kept_attempt s (m(key_of s a suf \<mapsto> x)) a"
proof -
  define m' where "m' = m(key_of s a suf \<mapsto> x)"
  have a: "attempt_ok a" and w: "well_kept s a suf x" using x by (simp_all add: admissible_def)
  have up: "mark_at s m' a t = (if t = suf then Some x else mark_at s m a t)" for t
    unfolding m'_def using mark_upd [OF a a, of s m suf x t] by simp
  have old: "\<exists>p hs. pending_of s m a = Some p \<and> history s m a hs \<and> chain (order_of s m a) (pd_quantity p) hs
      \<and> (hs \<noteq> [] \<longrightarrow> order_of s m a \<noteq> None)" if "pending_of s m a \<noteq> None"
    using kept_attempt_pending [OF k a that] by (simp add: kept_attempt_def)
  have "kept_attempt s m' a"
  proof (cases x)
    case (Prepared p)
    with w new k a have "suf = ''pending''" "pending_of s m a = None" by (auto simp: well_kept_def pending_mark)
    with kept_pending [OF k a] have none: "mark_at s m a t = None" for t by blast
    have "history s m' a []" using none up \<open>suf = _\<close> by (simp add: history_def sequence_bound_def)
    then show ?thesis using up Prepared \<open>suf = _\<close> by (auto simp: kept_attempt_def pending_of_def chain_def)
  next
    case (Broker i)
    with w have suf: "suf = ''broker''" by (simp add: well_kept_def)
    with new k a have o: "order_of s m a = None" by (simp add: broker_mark)
    from x Broker old obtain p hs where p: "pending_of s m a = Some p" "history s m a hs" "hs \<noteq> [] \<longrightarrow> order_of s m a \<noteq> None"
      by (auto simp: admissible_def)
    have "history s m' a hs" using p(2) up suf by (simp add: history_def)
    moreover have "pending_of s m' a = Some p" using p(1) up suf by (simp add: pending_of_def)
    moreover have "hs = []" using o p(3) by simp
    ultimately show ?thesis unfolding kept_attempt_def by (auto simp: chain_def)
  next
    case (Permanent i)
    with w x old up show ?thesis
      by (auto simp: admissible_def well_kept_def kept_attempt_def pending_of_def order_of_def history_def)
  next
    case (Notice t)
    then have suf: "suf \<in> {''notice-attempt'', ''notice-receipt''}" using w by (simp add: well_kept_def)
    have "observed_suffix i \<noteq> suf" for i using suf by (auto simp: observed_suffix_def)
    with suf Notice x old up show ?thesis
      by (auto simp: admissible_def kept_attempt_def pending_of_def order_of_def history_def)
  next
    case (Observed n oc)
    with w have n: "suf = observed_suffix n" "1 \<le> n" "n < sequence_bound" by (simp_all add: well_kept_def)
    from x Observed obtain p hs where p: "pending_of s m a = Some p" "history s m a hs" "n = int (length hs) + 1"
      "chain (order_of s m a) (pd_quantity p) (hs @ [oc])" "order_of s m a \<noteq> None"
      by (auto simp: admissible_def)
    have same: "pending_of s m' a = pending_of s m a" "order_of s m' a = order_of s m a"
      using up n by (simp_all add: pending_of_def order_of_def)
    have "history s m' a (hs @ [oc])"
      unfolding history_def
    proof (intro conjI allI impI)
      show "int (length (hs @ [oc])) < sequence_bound" using n p(3) by simp
      fix i oc'
      assume i: "1 \<le> i \<and> i < sequence_bound"
      show "mark_at s m' a (observed_suffix i) = Some (Observed i oc') \<longleftrightarrow>
          i \<le> int (length (hs @ [oc])) \<and> oc' = (hs @ [oc]) ! nat (i - 1)"
      proof (cases "i = n")
        case True
        then show ?thesis using up n Observed p(3) by (auto simp: nth_append)
      next
        case False
        then have "observed_suffix i \<noteq> suf" using n i observed_suffix_inject [of i n] by auto
        then have "mark_at s m' a (observed_suffix i) = mark_at s m a (observed_suffix i)" using up by simp
        moreover have "i \<le> int (length (hs @ [oc])) \<longleftrightarrow> i \<le> int (length hs)" using False p(3) by auto
        moreover have "i \<le> int (length hs) \<Longrightarrow> (hs @ [oc]) ! nat (i - 1) = hs ! nat (i - 1)" using i by (subst nth_append) auto
        ultimately show ?thesis using p(2) i unfolding history_def by auto
      qed
    qed
    with p same show ?thesis unfolding kept_attempt_def by auto
  qed
  then show ?thesis by (simp add: m'_def)
qed

lemma kept_added:
  assumes k: "kept s m" and new: "mark_at s m a suf = None" and x: "admissible s m a suf x"
  shows "kept s (m(key_of s a suf \<mapsto> x))"
  unfolding kept_def
proof (intro allI impI)
  fix key y
  assume y: "(m(key_of s a suf \<mapsto> x)) key = Some y \<and> startswith key (ss_prefix s)"
  have a: "attempt_ok a" "well_kept s a suf x" using x by (simp_all add: admissible_def)
  show "\<exists>b t. attempt_ok b \<and> key = key_of s b t \<and> well_kept s b t y \<and> kept_attempt s (m(key_of s a suf \<mapsto> x)) b"
  proof (cases "key = key_of s a suf")
    case True
    with y a kept_attempt_added [OF k new x] show ?thesis by auto
  next
    case False
    with y k obtain b t where b: "attempt_ok b" "key = key_of s b t" "well_kept s b t y" "kept_attempt s m b"
      unfolding kept_def fun_upd_apply by (metis (no_types))
    have "kept_attempt s (m(key_of s a suf \<mapsto> x)) b"
    proof (cases "b = a")
      case True
      with kept_attempt_added [OF k new x] show ?thesis by simp
    next
      case False
      then have "mark_at s m b u = mark_at s (m(key_of s a suf \<mapsto> x)) b u" for u
        using mark_upd [OF a(1) b(1), of s m suf x u] by simp
      from kept_attempt_cong [of s m b, OF this] b(4) show ?thesis by blast
    qed
    with b show ?thesis by blast
  qed
qed

end
