(* ===== verification/SettlementSafety.thy ===== *)
theory SettlementSafety
  imports SettlementHistory
begin

text \<open>
  Observers of the same orders run side by side: each reads the records, later claims the next
  sequence number, and may die in between.  Every reachable store holds valid histories, and a
  history only grows, up to a terminal observation.
\<close>

section \<open>The marker store\<close>

text \<open>
  What the code relies on: a claim writes an absent key and reports whether it did, and a claim
  that fails for another reason may or may not have written; reads change nothing; a listing
  that is not truncated is complete and bounded by the limit it was asked for.
\<close>

text \<open>\<open>record_limit\<close>\<close>

definition scan_limit :: nat where "scan_limit = 10000"

definition claim_ok :: "'w markers \<Rightarrow> ('w \<Rightarrow> string \<Rightarrow> meta option) \<Rightarrow> string \<Rightarrow> meta \<Rightarrow> 'w \<Rightarrow> bool" where
  "claim_ok mk cur k x w = (case mk_claim mk k x w of (r, w') \<Rightarrow> (case r of
      Inl _ \<Rightarrow> cur w' = cur w \<or> (cur w k = None \<and> cur w' = (cur w)(k \<mapsto> x))
    | Inr won \<Rightarrow> if won then cur w k = None \<and> cur w' = (cur w)(k \<mapsto> x) else cur w k \<noteq> None \<and> cur w' = cur w))"

definition recent_ok :: "'w markers \<Rightarrow> ('w \<Rightarrow> string \<Rightarrow> meta option) \<Rightarrow> string \<Rightarrow> 'w \<Rightarrow> bool" where
  "recent_ok mk cur p w = (case mk_recent mk p w of (r, w') \<Rightarrow> cur w' = cur w \<and> (\<forall>es. r = Inr (es, False) \<longrightarrow>
      distinct (List.map fst es) \<and> length es \<le> scan_limit \<and> (\<forall>k x. (k, x) \<in> set es \<longleftrightarrow> startswith k p \<and> cur w k = Some x)))"

definition markers_atomic :: "'w markers \<Rightarrow> ('w \<Rightarrow> string \<Rightarrow> meta option) \<Rightarrow> bool" where
  "markers_atomic mk cur \<longleftrightarrow> (\<forall>w. (\<forall>k x. claim_ok mk cur k x w) \<and> (\<forall>p. recent_ok mk cur p w)
     \<and> (\<forall>k. case mk_read mk k w of (r, w') \<Rightarrow> cur w' = cur w \<and> (\<forall>x. r = Inr x \<longrightarrow> x = cur w k)))"

lemma claim_facts:
  assumes "markers_atomic mk cur" "mk_claim mk k x w = (r, w')"
  shows "cur w' = cur w \<or> (cur w k = None \<and> cur w' = (cur w)(k \<mapsto> x))"
proof -
  have "claim_ok mk cur k x w" using assms(1) by (simp add: markers_atomic_def)
  with assms(2) show ?thesis by (auto simp: claim_ok_def split: sum.splits if_splits)
qed

lemma read_facts: "markers_atomic mk cur \<Longrightarrow> mk_read mk k w = (r, w') \<Longrightarrow> cur w' = cur w"
  unfolding markers_atomic_def by (metis (mono_tags, lifting) case_prod_conv)

lemma recent_facts:
  assumes "markers_atomic mk cur" "mk_recent mk p w = (r, w')"
  shows "cur w' = cur w" "r = Inr (es, False) \<Longrightarrow> distinct (List.map fst es) \<and> length es \<le> scan_limit
     \<and> (\<forall>k x. (k, x) \<in> set es \<longleftrightarrow> startswith k p \<and> cur w k = Some x)"
proof -
  have "recent_ok mk cur p w" using assms(1) by (simp add: markers_atomic_def)
  with assms(2) show "cur w' = cur w" "r = Inr (es, False) \<Longrightarrow> distinct (List.map fst es) \<and> length es \<le> scan_limit
     \<and> (\<forall>k x. (k, x) \<in> set es \<longleftrightarrow> startswith k p \<and> cur w k = Some x)"
    by (auto simp: recent_ok_def)
qed

lemma create_facts:
  assumes m: "markers_atomic (ss_store s) cur" and r: "create_marker s a suf x w = (r, w')"
  shows "cur w' = cur w \<or> (attempt_ok a \<and> mark_at s (cur w) a suf = None \<and> cur w' = (cur w)(key_of s a suf \<mapsto> x))"
proof (cases "attempt_ok a")
  case False
  with r show ?thesis by (simp add: create_marker_def settle_key_def)
next
  case True
  obtain v w1 where c: "mk_claim (ss_store s) (key_of s a suf) x w = (v, w1)" by fastforce
  have "cur w' = cur w1"
  proof (cases "mk_read (ss_store s) (key_of s a suf) w1")
    case (Pair y w2)
    from read_facts [OF m Pair] r c Pair True show ?thesis
      by (cases v; cases y)
        (auto simp: create_marker_def settle_key_def io_bind_apply read_marker_def split: if_splits)
  qed
  with claim_facts [OF m c] True show ?thesis by (auto simp: mark_at_def)
qed

section \<open>Steps\<close>

record ('i, 'w) observers =
  sw_world :: 'w
  sw_plans :: "'i \<Rightarrow> (string \<times> outcome \<times> int) option"

text \<open>
  An observer's outcome names a broker order: \<open>settle_turn\<close> asks only about orders with an id, and
  replaces an answer about another order.
\<close>

inductive settle_step ::
    "'w settlement \<Rightarrow> ('w \<Rightarrow> string \<Rightarrow> meta option) \<Rightarrow> ('i, 'w) observers \<Rightarrow> ('i, 'w) observers \<Rightarrow> bool"
  for s cur where
  look: "observe_look s a d (sw_world st) = (Inr (Some n), w') \<Longrightarrow> oc_order_id d \<noteq> None \<Longrightarrow>
    settle_step s cur st (st\<lparr>sw_world := w', sw_plans := (sw_plans st)(i \<mapsto> (a, d, n))\<rparr>)"
| pass: "observe_look s a d (sw_world st) = (r, w') \<Longrightarrow>
    settle_step s cur st (st\<lparr>sw_world := w', sw_plans := (sw_plans st)(i := None)\<rparr>)"
| claim: "sw_plans st i = Some (a, d, n) \<Longrightarrow> observe_claim s a d n (sw_world st) = (r, w') \<Longrightarrow>
    settle_step s cur st (st\<lparr>sw_world := w', sw_plans := (sw_plans st)(i := None)\<rparr>)"
| crash: "settle_step s cur st (st\<lparr>sw_plans := (sw_plans st)(i := None)\<rparr>)"
| prepare: "prepare s a symbol side q c t run started (sw_world st) = (r, w') \<Longrightarrow>
    settle_step s cur st (st\<lparr>sw_world := w'\<rparr>)"
| bind: "pending_of s (cur (sw_world st)) a \<noteq> None \<Longrightarrow> bind_order s a j (sw_world st) = (r, w') \<Longrightarrow>
    settle_step s cur st (st\<lparr>sw_world := w'\<rparr>)"
| permanent: "pending_of s (cur (sw_world st)) a \<noteq> None \<Longrightarrow> create_marker s a ''permanent'' (Permanent k) (sw_world st) = (u, w') \<Longrightarrow>
    settle_step s cur st (st\<lparr>sw_world := w'\<rparr>)"
| notice: "pending_of s (cur (sw_world st)) a \<noteq> None \<Longrightarrow> suf \<in> {''notice-attempt'', ''notice-receipt''} \<Longrightarrow>
    create_marker s a suf (Notice v) (sw_world st) = (u, w') \<Longrightarrow> settle_step s cur st (st\<lparr>sw_world := w'\<rparr>)"
| elsewhere: "(\<And>k. startswith k (ss_prefix s) \<Longrightarrow> cur w' k = cur (sw_world st) k) \<Longrightarrow>
    settle_step s cur st (st\<lparr>sw_world := w'\<rparr>)"

definition settle_start_state :: "'w settlement \<Rightarrow> ('w \<Rightarrow> string \<Rightarrow> meta option) \<Rightarrow> ('i, 'w) observers \<Rightarrow> bool" where
  "settle_start_state s cur st \<longleftrightarrow> (\<forall>k. startswith k (ss_prefix s) \<longrightarrow> cur (sw_world st) k = None) \<and> sw_plans st = (\<lambda>_. None)"

definition settle_reachable :: "'w settlement \<Rightarrow> ('w \<Rightarrow> string \<Rightarrow> meta option) \<Rightarrow> ('i, 'w) observers \<Rightarrow> bool" where
  "settle_reachable s cur st \<longleftrightarrow> (\<exists>st0. settle_start_state s cur st0 \<and> (settle_step s cur)\<^sup>*\<^sup>* st0 st)"

section \<open>Growth\<close>

definition grows :: "'w settlement \<Rightarrow> (string \<Rightarrow> meta option) \<Rightarrow> (string \<Rightarrow> meta option) \<Rightarrow> bool" where
  "grows s m m' \<longleftrightarrow> (\<forall>k x. startswith k (ss_prefix s) \<longrightarrow> m k = Some x \<longrightarrow> m' k = Some x)"

lemma grows_refl [simp]: "grows s m m" by (simp add: grows_def)

lemma grows_trans: "grows s m m' \<Longrightarrow> grows s m' m'' \<Longrightarrow> grows s m m''" by (simp add: grows_def)

lemma grows_upd: "m k = None \<Longrightarrow> grows s m (m(k \<mapsto> x))" by (auto simp: grows_def)

lemma grows_mark: "grows s m m' \<Longrightarrow> mark_at s m a t = Some x \<Longrightarrow> mark_at s m' a t = Some x"
  unfolding grows_def mark_at_def using key_in_scope by blast

lemma grows_pending: "grows s m m' \<Longrightarrow> pending_of s m a = Some p \<Longrightarrow> pending_of s m' a = Some p"
  using grows_mark [of s m m' a "''pending''"] by (auto simp: pending_of_def split: option.splits meta.splits)

lemma grows_order: "grows s m m' \<Longrightarrow> order_of s m a = Some i \<Longrightarrow> order_of s m' a = Some i"
  using grows_mark [of s m m' a "''broker''"] by (auto simp: order_of_def split: option.splits meta.splits)

lemma history_mark: "history s m a hs \<Longrightarrow> i < length hs \<Longrightarrow>
    mark_at s m a (observed_suffix (int i + 1)) = Some (Observed (int i + 1) (hs ! i))"
  by (simp add: history_def)

lemma grows_history:
  assumes g: "grows s m m'" and h: "history s m a hs" "history s m' a hs'"
  shows "length hs \<le> length hs'" "take (length hs) hs' = hs"
proof -
  have at_i: "i < length hs' \<and> hs' ! i = hs ! i" if "i < length hs" for i
  proof -
    have b: "int i + 1 < sequence_bound" using h(1) that by (simp add: history_def)
    from grows_mark [OF g history_mark [OF h(1) that]] h(2) b show ?thesis by (auto simp: history_def)
  qed
  show "length hs \<le> length hs'" using at_i [of "length hs - 1"] by (cases hs) auto
  with at_i show "take (length hs) hs' = hs" by (intro nth_equalityI) auto
qed

lemma history_unique: "history s m a hs \<Longrightarrow> history s m a hs' \<Longrightarrow> hs = hs'"
  using grows_history [OF grows_refl, of s m a hs hs'] grows_history [OF grows_refl, of s m a hs' hs] by simp

lemma kept_has_history: "kept s m \<Longrightarrow> attempt_ok a \<Longrightarrow> pending_of s m a \<noteq> None \<Longrightarrow> \<exists>hs. history s m a hs"
  using kept_attempt_pending by (fastforce simp: kept_attempt_def)

section \<open>Reading the records\<close>

lemma records_facts:
  assumes m: "markers_atomic (ss_store s) cur" and r: "records s w = (Inr rs, w')"
  shows "cur w' = cur w" "\<exists>es. listing s (cur w) es \<and> length es \<le> scan_limit \<and> records_of s es = Inr rs"
proof -
  obtain v w1 where v: "mk_recent (ss_store s) (ss_prefix s) w = (v, w1)" by fastforce
  with r obtain es where es: "v = Inr (es, False)" "records_of s es = Inr rs" "w' = w1"
    by (cases v) (auto simp: records_def io_bind_apply split: if_splits)
  note f = recent_facts [OF m v]
  show "cur w' = cur w" using f(1) es by simp
  from f(2) [OF es(1)] es(2) show "\<exists>es. listing s (cur w) es \<and> length es \<le> scan_limit \<and> records_of s es = Inr rs"
    unfolding listing_def by blast
qed

lemma records_world: "markers_atomic (ss_store s) cur \<Longrightarrow> records s w = (r, w') \<Longrightarrow> cur w' = cur w"
proof -
  assume m: "markers_atomic (ss_store s) cur" and r: "records s w = (r, w')"
  obtain v w1 where v: "mk_recent (ss_store s) (ss_prefix s) w = (v, w1)" by fastforce
  with r have "w' = w1" by (cases v) (auto simp: records_def io_bind_apply split: if_splits)
  with recent_facts(1) [OF m v] show ?thesis by simp
qed

lemma look_world: "markers_atomic (ss_store s) cur \<Longrightarrow> observe_look s a d w = (r, w') \<Longrightarrow> cur w' = cur w"
proof -
  assume m: "markers_atomic (ss_store s) cur" and r: "observe_look s a d w = (r, w')"
  obtain v w1 where v: "records s w = (v, w1)" by fastforce
  with r have "w' = w1" by (cases v) (auto simp: observe_look_def io_bind_apply)
  with records_world [OF m v] show ?thesis by simp
qed

lemma kept_records:
  assumes k: "kept s m" and l: "listing s m es" and r: "records_of s es = Inr rs"
  shows "q \<in> set rs \<Longrightarrow> kept_record s m q" and "attempt_ok a \<Longrightarrow> pending_of s m a = Some p \<Longrightarrow> \<exists>q \<in> set rs. sr_pending q = p"
  using records_of_kept [OF k l] r by auto

text \<open>A history cannot be longer than the listing it was read from.\<close>

lemma history_bounded:
  assumes l: "listing s m es" and h: "history s m a hs" and a: "attempt_ok a"
  shows "length hs \<le> length es"
proof -
  define f where "f = (\<lambda>i. (key_of s a (observed_suffix (int i + 1)), Observed (int i + 1) (hs ! i)))"
  have "f ` {0..<length hs} \<subseteq> set es"
    using l history_mark [OF h] key_in_scope unfolding listing_def f_def mark_at_def by auto
  moreover have "inj_on f {0..<length hs}"
    by (rule inj_onI) (simp add: f_def)
  ultimately have "length hs \<le> card (set es)" using card_inj_on_le [of f "{0..<length hs}" "set es"] by simp
  with card_length [of es] show ?thesis by simp
qed

lemma last_numbered: "hs \<noteq> [] \<Longrightarrow> snd (last (numbered hs)) = last hs"
  by (simp add: numbered_def last_map last_conv_nth)

lemma chain_snoc:
  assumes "chain o1 q hs" "validate_outcome o1 q d = Inr ()" "hs \<noteq> [] \<Longrightarrow> follows (last hs) d"
  shows "chain o1 q (hs @ [d])"
  unfolding chain_def
proof (intro conjI allI impI)
  show "list_all (\<lambda>oc. validate_outcome o1 q oc = Inr ()) (hs @ [d])" using assms(1,2) by (simp add: chain_def)
  fix i
  assume i: "Suc i < length (hs @ [d])"
  show "follows ((hs @ [d]) ! i) ((hs @ [d]) ! Suc i)"
  proof (cases "Suc i < length hs")
    case True
    with assms(1) show ?thesis by (simp add: chain_def nth_append)
  next
    case False
    with i have "i = length hs - 1" "hs \<noteq> []" by auto
    with assms(3) show ?thesis by (simp add: nth_append last_conv_nth)
  qed
qed

section \<open>Plans\<close>

text \<open>A planned claim was right when it was planned.\<close>

definition plan_ok :: "'w settlement \<Rightarrow> (string \<Rightarrow> meta option) \<Rightarrow> string \<times> outcome \<times> int \<Rightarrow> bool" where
  "plan_ok s m v \<longleftrightarrow> (case v of (a, d, n) \<Rightarrow> attempt_ok a \<and> n < sequence_bound \<and> (\<exists>p hs0 hs. pending_of s m a = Some p
     \<and> history s m a hs \<and> length hs0 \<le> length hs \<and> take (length hs0) hs = hs0 \<and> n = int (length hs0) + 1
     \<and> chain (order_of s m a) (pd_quantity p) (hs0 @ [d]) \<and> order_of s m a \<noteq> None))"

lemma plan_okI:
  "attempt_ok a \<Longrightarrow> n < sequence_bound \<Longrightarrow> pending_of s m a = Some p \<Longrightarrow> history s m a hs \<Longrightarrow> length hs0 \<le> length hs \<Longrightarrow>
    take (length hs0) hs = hs0 \<Longrightarrow> n = int (length hs0) + 1 \<Longrightarrow> chain (order_of s m a) (pd_quantity p) (hs0 @ [d]) \<Longrightarrow>
    order_of s m a \<noteq> None \<Longrightarrow> plan_ok s m (a, d, n)"
  unfolding plan_ok_def by blast

lemma plan_grows:
  assumes p: "plan_ok s m v" and g: "grows s m m'" and k: "kept s m'"
  shows "plan_ok s m' v"
proof -
  obtain a d n where v: "v = (a, d, n)" by (cases v)
  from p v obtain q hs0 hs where a: "attempt_ok a" "n < sequence_bound" and q: "pending_of s m a = Some q"
    and h: "history s m a hs" "length hs0 \<le> length hs" "take (length hs0) hs = hs0" "n = int (length hs0) + 1"
    and c: "chain (order_of s m a) (pd_quantity q) (hs0 @ [d])" "order_of s m a \<noteq> None"
    by (auto simp: plan_ok_def)
  note q' = grows_pending [OF g q]
  from kept_has_history [OF k a(1)] q' obtain hs' where h': "history s m' a hs'" by auto
  note gh = grows_history [OF g h(1) h']
  have "take (length hs0) hs' = hs0" using gh(2) h(2,3) by (metis min.absorb1 take_take)
  moreover have "order_of s m' a = order_of s m a" using c(2) grows_order [OF g] by auto
  ultimately show ?thesis unfolding v using a q' h' h(2,4) gh(1) c by (intro plan_okI [of _ _ _ _ q hs' hs0]) simp_all
qed

lemma plan_admissible:
  assumes p: "plan_ok s m (a, d, n)" and none: "mark_at s m a (observed_suffix n) = None"
  shows "admissible s m a (observed_suffix n) (Observed n d)"
proof -
  from p obtain q hs0 hs where a: "attempt_ok a" "n < sequence_bound" and q: "pending_of s m a = Some q"
    and h: "history s m a hs" "length hs0 \<le> length hs" "take (length hs0) hs = hs0" "n = int (length hs0) + 1"
    and c: "chain (order_of s m a) (pd_quantity q) (hs0 @ [d])" "order_of s m a \<noteq> None"
    by (auto simp: plan_ok_def)
  have "length hs = length hs0"
  proof (rule ccontr)
    assume "length hs \<noteq> length hs0"
    with h(2) have "length hs0 < length hs" by simp
    from history_mark [OF h(1) this] none h(4) show False by simp
  qed
  with h(3) have "hs = hs0" by simp
  with a q h c show ?thesis by (auto simp: admissible_def well_kept_def)
qed

lemma kept_record_attempt:
  assumes k: "kept s m" and r: "kept_record s m r"
  shows "\<exists>p hs. attempt_ok (pd_attempt p) \<and> pending_of s m (pd_attempt p) = Some p \<and> history s m (pd_attempt p) hs
     \<and> chain (order_of s m (pd_attempt p)) (pd_quantity p) hs \<and> r = record_at s m (pd_attempt p) p hs"
proof -
  from r obtain a p hs where a: "attempt_ok a" "pending_of s m a = Some p" "history s m a hs"
    "chain (order_of s m a) (pd_quantity p) hs" "r = record_at s m a p hs" by (auto simp: kept_record_def)
  from a(2) have "mark_at s m a ''pending'' = Some (Prepared p)" by (auto simp: pending_of_def split: option.splits meta.splits)
  from well_kept_suffix(1) [OF keptD(1) [OF k a(1) this]] have "pd_attempt p = a" by simp
  with a show ?thesis by auto
qed

lemma look_plans:
  assumes m: "markers_atomic (ss_store s) cur" and k: "kept s (cur w)"
    and r: "observe_look s a d w = (Inr (Some n), w')" and named: "oc_order_id d \<noteq> None"
  shows "plan_ok s (cur w) (a, d, n)"
proof -
  from r obtain rs w1 where rs: "records s w = (Inr rs, w1)" "observe_decide rs a d = Inr (Some n)"
    unfolding observe_look_def by (elim io_bind_InrE) simp
  from records_facts(2) [OF m rs(1)] obtain es where es: "listing s (cur w) es" "length es \<le> scan_limit" "records_of s es = Inr rs" by blast
  from rs(2) obtain q where q: "find (\<lambda>r. pd_attempt (sr_pending r) = a) rs = Some q"
    by (auto simp: observe_decide_def split: option.splits)
  then have qa: "q \<in> set rs" "pd_attempt (sr_pending q) = a" by (auto simp: find_Some_iff)
  from kept_record_attempt [OF k kept_records(1) [OF k es(1,3) qa(1)]] qa(2)
  obtain p hs where p: "attempt_ok a" "pending_of s (cur w) a = Some p" "history s (cur w) a hs"
    "chain (order_of s (cur w) a) (pd_quantity p) hs" "q = record_at s (cur w) a p hs" by (auto simp: record_at_def)
  have q': "sr_pending q = p" "sr_order_id q = order_of s (cur w) a" "sr_observations q = numbered hs"
    using p(5) by (simp_all add: record_at_def)
  have empty: "numbered hs = [] \<longleftrightarrow> hs = []" "length (numbered hs) = length hs" by (simp_all add: numbered_def)
  have v: "validate_outcome (order_of s (cur w) a) (pd_quantity p) d = Inr ()"
    using rs(2) q q' by (auto simp: observe_decide_def res_bind_def split: sum.splits)
  have n: "n = int (length hs) + 1"
    using rs(2) q q' v empty by (auto simp: observe_decide_def Let_def split: if_splits)
  have "hs \<noteq> [] \<Longrightarrow> follows (last hs) d"
    using rs(2) q q' v empty last_numbered [of hs] by (auto simp: observe_decide_def Let_def follows_def split: if_splits)
  with p(4) v have c: "chain (order_of s (cur w) a) (pd_quantity p) (hs @ [d])" by (rule chain_snoc)
  have o: "order_of s (cur w) a \<noteq> None"
    using v named by (auto simp: validate_outcome_def split: if_splits)
  have "length hs \<le> scan_limit" using history_bounded [OF es(1) p(3,1)] es(2) by simp
  then have "n < sequence_bound" using n by (simp add: sequence_bound_def scan_limit_def)
  with p n c o show ?thesis by (intro plan_okI [of _ _ _ _ p hs hs]) simp_all
qed

section \<open>Every step keeps the store\<close>

definition settle_inv :: "'w settlement \<Rightarrow> ('w \<Rightarrow> string \<Rightarrow> meta option) \<Rightarrow> ('i, 'w) observers \<Rightarrow> bool" where
  "settle_inv s cur st \<longleftrightarrow> kept s (cur (sw_world st)) \<and> (\<forall>i v. sw_plans st i = Some v \<longrightarrow> plan_ok s (cur (sw_world st)) v)"

lemma inv_after:
  assumes i: "settle_inv s cur st" and k: "kept s (cur w')" and g: "grows s (cur (sw_world st)) (cur w')"
    and p: "\<And>i v. plans i = Some v \<Longrightarrow> sw_plans st i = Some v \<or> plan_ok s (cur w') v"
  shows "settle_inv s cur (st\<lparr>sw_world := w', sw_plans := plans\<rparr>)"
  using i k p plan_grows [OF _ g k] by (fastforce simp: settle_inv_def)

lemma create_keeps:
  assumes m: "markers_atomic (ss_store s) cur" and k: "kept s (cur w)" and r: "create_marker s a suf x w = (r, w')"
    and x: "attempt_ok a \<Longrightarrow> mark_at s (cur w) a suf = None \<Longrightarrow> admissible s (cur w) a suf x"
  shows "kept s (cur w') \<and> grows s (cur w) (cur w')"
  using create_facts [OF m r]
proof
  assume "attempt_ok a \<and> mark_at s (cur w) a suf = None \<and> cur w' = (cur w)(key_of s a suf \<mapsto> x)"
  with kept_added [OF k _ x] show ?thesis by (simp add: grows_upd mark_at_def)
qed (use k in simp)

lemma prepared_shape: "prepared profile a symbol side q c t run started = Inr p \<Longrightarrow> pd_attempt p = a \<and> pd_strategy p = profile"
  by (auto simp: prepared_def res_bind_Inr_iff split: if_splits option.splits)

lemma prepare_keeps:
  assumes m: "markers_atomic (ss_store s) cur" and k: "kept s (cur w)"
    and r: "prepare s a symbol side q c t run started w = (r, w')"
  shows "kept s (cur w') \<and> grows s (cur w) (cur w')"
proof (cases "prepared (ss_profile s) a symbol side q c t run started")
  case (Inl y)
  with r k show ?thesis by (simp add: prepare_def)
next
  case (Inr p)
  obtain v w1 where c: "create_marker s a ''pending'' (Prepared p) w = (v, w1)" by fastforce
  have "kept s (cur w1) \<and> grows s (cur w) (cur w1)"
    by (rule create_keeps [OF m k c]) (use prepared_shape [OF Inr] in \<open>simp add: admissible_def well_kept_def\<close>)
  moreover have "w' = w1" using r c Inr by (cases v) (simp_all add: prepare_def io_bind_apply)
  ultimately show ?thesis by simp
qed

lemma bind_keeps:
  assumes m: "markers_atomic (ss_store s) cur" and k: "kept s (cur w)" and p: "pending_of s (cur w) a \<noteq> None"
    and r: "bind_order s a j w = (r, w')"
  shows "kept s (cur w') \<and> grows s (cur w) (cur w')"
proof (cases "order_id_ok j")
  case False
  with r k show ?thesis by (simp add: bind_order_def)
next
  case True
  obtain v w1 where c: "create_marker s a ''broker'' (Broker j) w = (v, w1)" by fastforce
  have "kept s (cur w1) \<and> grows s (cur w) (cur w1)"
    by (rule create_keeps [OF m k c]) (use p in \<open>simp add: admissible_def well_kept_def\<close>)
  moreover have "w' = w1" using r c True by (cases v) (simp_all add: bind_order_def io_bind_apply)
  ultimately show ?thesis by simp
qed

lemma claim_keeps:
  assumes m: "markers_atomic (ss_store s) cur" and k: "kept s (cur w)" and p: "plan_ok s (cur w) (a, d, n)"
    and r: "observe_claim s a d n w = (r, w')"
  shows "kept s (cur w') \<and> grows s (cur w) (cur w')"
proof -
  have a: "attempt_ok a" using p by (simp add: plan_ok_def)
  with r have "mk_claim (ss_store s) (key_of s a (observed_suffix n)) (Observed n d) w = (r, w')"
    by (simp add: observe_claim_def settle_key_def)
  from claim_facts [OF m this] show ?thesis
  proof
    assume c: "cur w (key_of s a (observed_suffix n)) = None \<and> cur w' = (cur w)(key_of s a (observed_suffix n) \<mapsto> Observed n d)"
    then have none: "mark_at s (cur w) a (observed_suffix n) = None" by (simp add: mark_at_def)
    from kept_added [OF k none plan_admissible [OF p none]] c show ?thesis by (simp add: grows_upd)
  qed (use k in simp)
qed

lemma kept_cong: "(\<And>k. startswith k (ss_prefix s) \<Longrightarrow> m' k = m k) \<Longrightarrow> kept s m \<Longrightarrow> kept s m' \<and> grows s m m'"
proof -
  assume same: "\<And>k. startswith k (ss_prefix s) \<Longrightarrow> m' k = m k" and k: "kept s m"
  then have "mark_at s m' a t = mark_at s m a t" for a t by (simp add: mark_at_def key_in_scope)
  from kept_attempt_cong [of s m' _ m, OF this] k same have "kept s m'" unfolding kept_def by metis
  with same show ?thesis by (simp add: grows_def)
qed

lemma settle_step_keeps:
  assumes m: "markers_atomic (ss_store s) cur" and step: "settle_step s cur st st'" and i: "settle_inv s cur st"
  shows "settle_inv s cur st' \<and> grows s (cur (sw_world st)) (cur (sw_world st'))"
proof -
  have k: "kept s (cur (sw_world st))" using i by (simp add: settle_inv_def)
  have world: "settle_inv s cur (st\<lparr>sw_world := w'\<rparr>) \<and> grows s (cur (sw_world st)) (cur w')"
    if "kept s (cur w') \<and> grows s (cur (sw_world st)) (cur w')" for w'
    using inv_after [OF i, of w' "sw_plans st"] that by simp
  from step show ?thesis
  proof cases
    case (look a d n w' j)
    have same: "cur w' = cur (sw_world st)" by (rule look_world [OF m look(2)])
    have "settle_inv s cur (st\<lparr>sw_world := w', sw_plans := (sw_plans st)(j \<mapsto> (a, d, n))\<rparr>)"
      by (rule inv_after [OF i]) (use same k look_plans [OF m k look(2,3)] in \<open>auto split: if_splits\<close>)
    with same show ?thesis by (simp add: look(1))
  next
    case (pass a d r w' j)
    have same: "cur w' = cur (sw_world st)" by (rule look_world [OF m pass(2)])
    have "settle_inv s cur (st\<lparr>sw_world := w', sw_plans := (sw_plans st)(j := None)\<rparr>)"
      by (rule inv_after [OF i]) (use same k in \<open>auto split: if_splits\<close>)
    with same show ?thesis by (simp add: pass(1))
  next
    case (claim j a d n r w')
    have "plan_ok s (cur (sw_world st)) (a, d, n)" using i claim(2) by (simp add: settle_inv_def)
    note after = claim_keeps [OF m k this claim(3)]
    have "settle_inv s cur (st\<lparr>sw_world := w', sw_plans := (sw_plans st)(j := None)\<rparr>)"
      by (rule inv_after [OF i]) (use after in \<open>auto split: if_splits\<close>)
    with after show ?thesis by (simp add: claim(1))
  next
    case (crash j)
    with i show ?thesis by (auto simp: settle_inv_def)
  next
    case (prepare a symbol side q c t run started r w')
    from world [OF prepare_keeps [OF m k prepare(2)]] show ?thesis by (simp add: prepare(1))
  next
    case (bind a j r w')
    from world [OF bind_keeps [OF m k bind(2,3)]] show ?thesis by (simp add: bind(1))
  next
    case (permanent a j u w')
    have "kept s (cur w') \<and> grows s (cur (sw_world st)) (cur w')"
      by (rule create_keeps [OF m k permanent(3)]) (use permanent(2) in \<open>simp add: admissible_def well_kept_def\<close>)
    from world [OF this] show ?thesis by (simp add: permanent(1))
  next
    case (notice a suf v u w')
    have "kept s (cur w') \<and> grows s (cur (sw_world st)) (cur w')"
      by (rule create_keeps [OF m k notice(4)]) (use notice(2,3) in \<open>simp add: admissible_def well_kept_def\<close>)
    from world [OF this] show ?thesis by (simp add: notice(1))
  next
    case (elsewhere w')
    from world [OF kept_cong [OF elsewhere(2) k]] show ?thesis by (simp add: elsewhere(1))
  qed
qed

lemma settle_steps_keep:
  assumes m: "markers_atomic (ss_store s) cur" and steps: "(settle_step s cur)\<^sup>*\<^sup>* st st'" and i: "settle_inv s cur st"
  shows "settle_inv s cur st' \<and> grows s (cur (sw_world st)) (cur (sw_world st'))"
  using steps
proof (induction rule: rtranclp_induct)
  case base
  with i show ?case by simp
next
  case (step y z)
  with settle_step_keeps [OF m step(2)] grows_trans show ?case by blast
qed

lemma reachable_inv:
  assumes m: "markers_atomic (ss_store s) cur" and r: "settle_reachable s cur st"
  shows "settle_inv s cur st"
proof -
  from r obtain st0 where st0: "settle_start_state s cur st0" "(settle_step s cur)\<^sup>*\<^sup>* st0 st" by (auto simp: settle_reachable_def)
  have "settle_inv s cur st0" using st0(1) by (auto simp: settle_start_state_def settle_inv_def kept_def)
  with settle_steps_keep [OF m st0(2)] show ?thesis by blast
qed

section \<open>Valid histories\<close>

text \<open>What \<open>records\<close> promises of a record: numbered from 1, valid for its order, monotone, nothing after the end.\<close>

definition sound_record :: "settle_record \<Rightarrow> bool" where
  "sound_record r \<longleftrightarrow> (let os = sr_observations r in
     List.map fst os = [1..int (length os)]
     \<and> list_all (\<lambda>v. validate_outcome (sr_order_id r) (pd_quantity (sr_pending r)) (snd v) = Inr ()) os
     \<and> list_all (\<lambda>i. \<not> oc_terminal (snd (os ! i)) \<and> \<not> flt (filled_or_0 (snd (os ! Suc i))) (filled_or_0 (snd (os ! i))))
          [0..<length os - 1])"

lemma numbered_simps [simp]: "length (numbered hs) = length hs" "i < length hs \<Longrightarrow> numbered hs ! i = (int i + 1, hs ! i)"
  by (simp_all add: numbered_def)

lemma numbered_numbers: "List.map fst (numbered hs) = [1..int (length hs)]"
  by (rule nth_equalityI) auto

lemma kept_record_sound: "kept_record s m r \<Longrightarrow> sound_record r"
  unfolding kept_record_def
proof (elim exE conjE)
  fix a p hs
  assume c: "chain (order_of s m a) (pd_quantity p) hs" and r: "r = record_at s m a p hs"
  have "list_all (\<lambda>v. validate_outcome (order_of s m a) (pd_quantity p) (snd v) = Inr ()) (numbered hs)"
    using c by (auto simp: chain_def list_all_length)
  moreover have "follows (hs ! i) (hs ! Suc i)" if "i < length hs - 1" for i using c that by (simp add: chain_def)
  ultimately show "sound_record r"
    unfolding r by (auto simp: sound_record_def record_at_def numbered_numbers list_all_iff follows_def)
qed

text \<open>
  C3.  Settlement histories stay valid under concurrency.  Any number of observers, submitters
  and notifiers act on the marker store in any interleaving; each may be killed between reading
  the records and claiming the next sequence number, and a claim may fail after it wrote.  In
  every reachable state a complete listing of the store reads back without an exception, and
  every record is numbered from 1 without a gap, valid for its broker order, never decreasing
  in filled quantity, with nothing after a terminal observation.
\<close>

theorem settlement_history_valid:
  assumes m: "markers_atomic (ss_store s) cur" and r: "settle_reachable s cur st"
    and scan: "mk_recent (ss_store s) (ss_prefix s) (sw_world st) = (Inr (es, False), w')"
  shows "\<exists>rs. records s (sw_world st) = (Inr rs, w') \<and> list_all sound_record rs"
proof -
  have k: "kept s (cur (sw_world st))" using reachable_inv [OF m r] by (simp add: settle_inv_def)
  from recent_facts(2) [OF m scan refl] have l: "listing s (cur (sw_world st)) es" by (simp add: listing_def)
  from records_of_kept [OF k l] obtain rs where rs: "records_of s es = Inr rs" "\<forall>q \<in> set rs. kept_record s (cur (sw_world st)) q"
    by blast
  with scan have "records s (sw_world st) = (Inr rs, w')" by (simp add: records_def)
  moreover have "list_all sound_record rs" using rs(2) kept_record_sound by (auto simp: list_all_iff)
  ultimately show ?thesis by blast
qed

text \<open>
  C13.  A terminal observation is final.  Whatever observers do after a record was read, a later
  read still has the order, with the same broker id and with the earlier observations as the
  beginning of its history; once the last of them was terminal, the history never changes.
\<close>

theorem terminal_is_final:
  assumes m: "markers_atomic (ss_store s) cur" and r: "settle_reachable s cur st" and steps: "(settle_step s cur)\<^sup>*\<^sup>* st st'"
    and before: "records s (sw_world st) = (Inr rs, w1)" and after: "records s (sw_world st') = (Inr rs', w2)"
    and q: "q \<in> set rs"
  shows "\<exists>q' \<in> set rs'. sr_pending q' = sr_pending q \<and> (sr_order_id q = None \<or> sr_order_id q' = sr_order_id q)
    \<and> take (length (sr_observations q)) (sr_observations q') = sr_observations q
    \<and> (sr_observations q = [] \<or> \<not> oc_terminal (snd (last (sr_observations q))) \<or> sr_observations q' = sr_observations q)"
proof -
  let ?m = "cur (sw_world st)" and ?m' = "cur (sw_world st')"
  have k: "kept s ?m" using reachable_inv [OF m r] by (simp add: settle_inv_def)
  have k': "kept s ?m'" and g: "grows s ?m ?m'"
    using settle_steps_keep [OF m steps reachable_inv [OF m r]] by (simp_all add: settle_inv_def)
  from records_facts(2) [OF m before] obtain es where es: "listing s ?m es" "records_of s es = Inr rs" by blast
  from records_facts(2) [OF m after] obtain es' where es': "listing s ?m' es'" "records_of s es' = Inr rs'" by blast
  from kept_record_attempt [OF k kept_records(1) [OF k es q]] obtain p hs where a: "attempt_ok (pd_attempt p)"
    and p: "pending_of s ?m (pd_attempt p) = Some p" and h: "history s ?m (pd_attempt p) hs"
    and q: "q = record_at s ?m (pd_attempt p) p hs" by blast
  from kept_records(2) [OF k' es' a grows_pending [OF g p]] obtain q' where q': "q' \<in> set rs'" "sr_pending q' = p" by blast
  from kept_record_attempt [OF k' kept_records(1) [OF k' es' q'(1)]] q'(2) obtain hs' where h': "history s ?m' (pd_attempt p) hs'"
    and c': "chain (order_of s ?m' (pd_attempt p)) (pd_quantity p) hs'" and rq': "q' = record_at s ?m' (pd_attempt p) p hs'"
    by (auto simp: record_at_def)
  note gh = grows_history [OF g h h']
  have pre: "take (length hs) (numbered hs') = numbered hs"
  proof (rule nth_equalityI)
    fix i
    assume i: "i < length (take (length hs) (numbered hs'))"
    then have "hs' ! i = hs ! i" using gh(2) by (metis length_take min_less_iff_conj nth_take numbered_simps(1))
    with i gh show "take (length hs) (numbered hs') ! i = numbered hs ! i" by simp
  qed (use gh in simp)
  have final: "hs' = hs" if "hs \<noteq> []" "oc_terminal (last hs)"
  proof (rule ccontr)
    assume "hs' \<noteq> hs"
    with gh have "length hs < length hs'" by (metis le_neq_implies_less order_refl take_all)
    moreover have "hs' ! (length hs - 1) = last hs" using that(1) gh by (metis diff_less last_conv_nth length_greater_0_conv nth_take zero_less_one)
    ultimately show False using c' that by (simp add: chain_def follows_def) (metis Suc_pred length_greater_0_conv)
  qed
  show ?thesis
  proof (intro bexI [OF _ q'(1)] conjI)
    show "sr_pending q' = sr_pending q" using q q'(2) by (simp add: record_at_def)
    show "sr_order_id q = None \<or> sr_order_id q' = sr_order_id q"
      unfolding q rq' record_at_def using grows_order [OF g] by (cases "order_of s ?m (pd_attempt p)") auto
    show "take (length (sr_observations q)) (sr_observations q') = sr_observations q" using pre by (simp add: q rq' record_at_def)
    show "sr_observations q = [] \<or> \<not> oc_terminal (snd (last (sr_observations q))) \<or> sr_observations q' = sr_observations q"
      using final last_numbered [of hs] by (cases "hs = []") (auto simp: q rq' record_at_def numbered_def)
  qed
qed

section \<open>A dictionary as the marker store, and one filled order\<close>

type_synonym mark_dict = "(string \<times> meta) list"

definition dict_markers :: "mark_dict markers" where
  "dict_markers = \<lparr>mk_claim = (\<lambda>k x w. case dict_get w k of None \<Rightarrow> (Inr True, dict_set w k x) | Some _ \<Rightarrow> (Inr False, w)),
     mk_read = (\<lambda>k w. (Inr (dict_get w k), w)),
     mk_recent = (\<lambda>p w. let es = List.map (\<lambda>k. (k, the (dict_get w k))) (filter (\<lambda>k. startswith k p) (remdups (dict_keys w))) in
       (Inr (take scan_limit es, scan_limit < length es), w))\<rparr>"

lemma dict_markers_atomic: "markers_atomic dict_markers dict_get"
  unfolding markers_atomic_def
proof (intro allI conjI)
  fix k x p and w :: mark_dict
  show "claim_ok dict_markers dict_get k x w"
    by (simp add: claim_ok_def dict_markers_def split: option.split)
  show "case mk_read dict_markers k w of (r, w') \<Rightarrow> dict_get w' = dict_get w \<and> (\<forall>x. r = Inr x \<longrightarrow> x = dict_get w k)"
    by (simp add: dict_markers_def)
  define es where "es = List.map (\<lambda>k. (k, the (dict_get w k))) (filter (\<lambda>k. startswith k p) (remdups (dict_keys w)))"
  have "List.map fst es = filter (\<lambda>k. startswith k p) (remdups (dict_keys w))" by (simp add: es_def comp_def)
  then have d: "distinct (List.map fst es)" by simp
  have mem: "(k, x) \<in> set es \<longleftrightarrow> startswith k p \<and> dict_get w k = Some x" for k x
    using dict_get_None_iff [of w k] by (cases "dict_get w k") (auto simp: es_def)
  have run: "mk_recent dict_markers p w = (Inr (take scan_limit es, scan_limit < length es), w)"
    by (simp add: dict_markers_def Let_def es_def)
  have whole: "take scan_limit es = es" if "\<not> scan_limit < length es" using that by (intro take_all) simp
  show "recent_ok dict_markers dict_get p w"
    unfolding recent_ok_def run prod.case using d mem whole by auto
qed

definition sample_settlement :: "mark_dict settlement" where
  "sample_settlement = settlement_of (\<lambda>a p. ''d'') dict_markers ''U3'' ''alpha''"

definition sample_attempt :: string where "sample_attempt = replicate 64 (CHR ''a'')"

definition filled_outcome :: outcome where
  "filled_outcome = \<lparr>oc_order_id = Some ''73'', oc_status = ''filled'', oc_filled = Some (Fin 3), oc_remaining = Some (Fin 0),
     oc_avg_price = Some (Fin 52), oc_commission = None, oc_last_update = None, oc_terminal = True, oc_fills = []\<rparr>"

definition prepared_world :: mark_dict where
  "prepared_world = snd (prepare sample_settlement sample_attempt ''TQQQ'' ''sell'' (VInt 3) 7 ''2026-11-03T14:31:00+00:00'' ''run'' None [])"

definition bound_world :: mark_dict where
  "bound_world = snd (bind_order sample_settlement sample_attempt ''73'' prepared_world)"

definition filled_world :: mark_dict where
  "filled_world = snd (observe_claim sample_settlement sample_attempt filled_outcome 1 bound_world)"

definition observers_at :: "mark_dict \<Rightarrow> (nat \<Rightarrow> (string \<times> outcome \<times> int) option) \<Rightarrow> (nat, mark_dict) observers" where
  "observers_at w plans = \<lparr>sw_world = w, sw_plans = plans\<rparr>"

definition sample_pending_order :: pending where
  "sample_pending_order = \<lparr>pd_attempt = sample_attempt, pd_symbol = ''TQQQ'', pd_side = ''sell'', pd_quantity = Fin 3, pd_client_id = 7,
     pd_submitted_at = ''2026-11-03T14:31:00+00:00'', pd_source_run_id = ''run'', pd_source_started_at = ''2026-11-03T14:31:00+00:00'',
     pd_strategy = ''alpha''\<rparr>"

abbreviation sample_key :: "string \<Rightarrow> string" where "sample_key \<equiv> key_of sample_settlement sample_attempt"

lemma sample_attempt_ok: "attempt_ok sample_attempt"
  by code_simp

lemma sample_fields: "ss_store sample_settlement = dict_markers" "ss_profile sample_settlement = ''alpha''"
  by (simp_all add: sample_settlement_def settlement_of_def)

lemma sample_key_inject: "sample_key x = sample_key y \<longleftrightarrow> x = y"
  by (simp add: key_of_def)

lemma sample_order_prepared: "prepared ''alpha'' sample_attempt ''TQQQ'' ''sell'' (VInt 3) 7 ''2026-11-03T14:31:00+00:00'' ''run'' None = Inr sample_pending_order"
  by code_simp

lemma prepared_form: "prepared_world = [(sample_key ''pending'', Prepared sample_pending_order)]"
  by (simp add: prepared_world_def prepare_def sample_fields sample_order_prepared create_marker_def settle_key_def sample_attempt_ok
      io_bind_apply io_lift_def io_return_def dict_markers_def)

lemma bound_form: "bound_world = prepared_world @ [(sample_key ''broker'', Broker ''73'')]"
proof -
  have "order_id_ok ''73''" by code_simp
  then show ?thesis
  by (simp add: bound_world_def bind_order_def prepared_form sample_fields create_marker_def settle_key_def sample_attempt_ok
      io_bind_apply io_lift_def io_return_def dict_markers_def sample_key_inject)
qed

lemma filled_form: "filled_world = bound_world @ [(sample_key (observed_suffix 1), Observed 1 filled_outcome)]"
  by (simp add: filled_world_def observe_claim_def bound_form prepared_form sample_fields settle_key_def sample_attempt_ok
      io_bind_apply io_lift_def io_return_def dict_markers_def sample_key_inject observed_suffix_def)
lemma sample_filled_validates: "validate_outcome (Some ''73'') (Fin 3) filled_outcome = Inr ()"
  by code_simp

lemma sample_entry:
  "scan_entry sample_settlement (sample_key suf, m) (evs, recs) =
     (let evs = dict_set evs sample_attempt (dict_set (dict_get_default evs sample_attempt []) suf m) in
      if suf \<noteq> ''pending'' then Inr (evs, recs)
      else (case m of
         Prepared p \<Rightarrow> (if pd_attempt p \<noteq> sample_attempt \<or> pd_strategy p \<noteq> ''alpha''
            then Inl (RuntimeError ''settlement_record_invalid'') else Inr (evs, dict_set recs sample_attempt p))
       | _ \<Rightarrow> Inl (KeyError ''attempt_id'')))"
  unfolding scan_entry_def
  using split_key [OF sample_attempt_ok, of sample_settlement suf] key_of_scope [of sample_settlement sample_attempt suf]
  by (simp add: settle_key_def sample_attempt_ok sample_fields Let_def split: meta.split)

lemma sample_scans:
  "mk_recent dict_markers (ss_prefix sample_settlement) bound_world = (Inr (bound_world, False), bound_world)"
  "mk_recent dict_markers (ss_prefix sample_settlement) filled_world = (Inr (filled_world, False), filled_world)"
  by (simp_all add: dict_markers_def Let_def filled_form bound_form prepared_form dict_keys_def key_in_scope sample_key_inject
      observed_suffix_def scan_limit_def)

lemma sample_bound_records: "records sample_settlement bound_world =
    (Inr [\<lparr>sr_pending = sample_pending_order, sr_order_id = Some ''73'', sr_permanent_id = None, sr_observations = []\<rparr>], bound_world)"
  by (simp add: records_def sample_fields sample_scans io_bind_apply io_lift_def records_of_def, simp add: bound_form prepared_form sample_entry
      dict_get_default_def sample_pending_order_def record_of_def observation_marks_def startswith_def dict_keys_def)

lemma sample_filled_records: "records sample_settlement filled_world =
    (Inr [\<lparr>sr_pending = sample_pending_order, sr_order_id = Some ''73'', sr_permanent_id = None, sr_observations = [(1, filled_outcome)]\<rparr>], filled_world)"
  by (simp add: records_def sample_fields sample_scans io_bind_apply io_lift_def records_of_def, simp add: filled_form bound_form prepared_form sample_entry
      dict_get_default_def sample_pending_order_def record_of_def observation_marks_def startswith_def dict_keys_def
      observed_suffix_def check_observation_def sample_filled_validates)

lemma sample_look: "observe_look sample_settlement sample_attempt filled_outcome bound_world = (Inr (Some 1), bound_world)"
  by (simp add: observe_look_def io_bind_apply io_lift_def io_return_def sample_bound_records observe_decide_def sample_pending_order_def
      sample_filled_validates)
lemma sample_records:
  "map_sum id (List.map (\<lambda>r. (sr_order_id r, sr_observations r))) (fst (records sample_settlement filled_world))
     = Inr [(Some ''73'', [(1, filled_outcome)])]"
  by (simp add: sample_filled_records)

lemma sample_pending: "pending_of sample_settlement (dict_get prepared_world) sample_attempt \<noteq> None"
  by (simp add: pending_of_def mark_at_def prepared_form)

lemma sample_scan: "snd (mk_recent dict_markers (ss_prefix sample_settlement) filled_world) = filled_world
    \<and> (\<exists>es. fst (mk_recent dict_markers (ss_prefix sample_settlement) filled_world) = Inr (es, False))"
  by (simp add: sample_scans)

lemma filled_reachable: "settle_reachable sample_settlement dict_get (observers_at filled_world (\<lambda>_. None))"
proof -
  let ?step = "settle_step sample_settlement dict_get :: (nat, mark_dict) observers \<Rightarrow> _"
  let ?none = "\<lambda>_ :: nat. None :: (string \<times> outcome \<times> int) option"
  have s1: "?step (observers_at [] ?none) (observers_at prepared_world ?none)"
    using settle_step.prepare [of sample_settlement sample_attempt "''TQQQ''" "''sell''" "VInt 3" 7 "''2026-11-03T14:31:00+00:00''" "''run''" None
      "observers_at [] ?none" _ prepared_world] by (simp add: observers_at_def prepared_world_def prod_eq_iff)
  have s2: "?step (observers_at prepared_world ?none) (observers_at bound_world ?none)"
    using settle_step.bind [of sample_settlement dict_get "observers_at prepared_world ?none" sample_attempt "''73''" _ bound_world] sample_pending
    by (simp add: observers_at_def bound_world_def prod_eq_iff)
  have s3: "?step (observers_at bound_world ?none) (observers_at bound_world (?none(1 \<mapsto> (sample_attempt, filled_outcome, 1))))"
    using settle_step.look [of sample_settlement sample_attempt filled_outcome "observers_at bound_world ?none" 1 bound_world dict_get 1] sample_look
    by (simp add: observers_at_def filled_outcome_def)
  have s4: "?step (observers_at bound_world (?none(1 \<mapsto> (sample_attempt, filled_outcome, 1)))) (observers_at filled_world ?none)"
    using settle_step.claim [of "observers_at bound_world (?none(1 \<mapsto> (sample_attempt, filled_outcome, 1)))" 1 sample_attempt filled_outcome 1
      sample_settlement _ filled_world dict_get]
    by (simp add: observers_at_def filled_world_def prod_eq_iff)
  have "settle_start_state sample_settlement dict_get (observers_at [] ?none)"
    by (simp add: settle_start_state_def observers_at_def)
  moreover have "?step\<^sup>*\<^sup>* (observers_at [] ?none) (observers_at filled_world ?none)"
    by (rule rtranclp.rtrancl_into_rtrancl [OF rtranclp.rtrancl_into_rtrancl [OF rtranclp.rtrancl_into_rtrancl
        [OF r_into_rtranclp [of ?step, OF s1] s2] s3] s4])
  ultimately show ?thesis unfolding settle_reachable_def by blast
qed

theorem settlement_history_valid_witness:
  "\<exists>rs. records sample_settlement filled_world = (Inr rs, filled_world) \<and> list_all sound_record rs
     \<and> List.map (\<lambda>r. (sr_order_id r, sr_observations r)) rs = [(Some ''73'', [(1, filled_outcome)])]"
proof -
  have m: "markers_atomic (ss_store sample_settlement) dict_get" by (simp add: sample_fields(1) dict_markers_atomic)
  from sample_scan obtain es where scan: "mk_recent (ss_store sample_settlement) (ss_prefix sample_settlement)
      (sw_world (observers_at filled_world (\<lambda>_. None))) = (Inr (es, False), filled_world)"
    by (auto simp: sample_fields(1) observers_at_def prod_eq_iff)
  from settlement_history_valid [OF m filled_reachable scan] sample_records show ?thesis
    by (auto simp: observers_at_def)
qed

theorem terminal_is_final_witness:
  "\<exists>rs. records sample_settlement filled_world = (Inr rs, filled_world)
     \<and> list_all (\<lambda>q. list_ex (\<lambda>q'. sr_observations q' = [(1, filled_outcome)] \<and> sr_observations q' = sr_observations q) rs) rs"
proof -
  have m: "markers_atomic (ss_store sample_settlement) dict_get" by (simp add: sample_fields(1) dict_markers_atomic)
  let ?st = "observers_at filled_world (\<lambda>_. None)"
  have step: "(settle_step sample_settlement dict_get)\<^sup>*\<^sup>* ?st ?st"
    using settle_step.crash [of sample_settlement dict_get ?st 0] by (simp add: observers_at_def fun_upd_idem)
  obtain r w' where run: "records sample_settlement filled_world = (r, w')" by fastforce
  with sample_records obtain rs where rs: "r = Inr rs" by (cases r) auto
  have w': "w' = filled_world"
    using run by (auto simp: records_def io_bind_apply sample_fields(1) dict_markers_def Let_def split: if_splits)
  have obs: "List.map (\<lambda>r. (sr_order_id r, sr_observations r)) rs = [(Some ''73'', [(1, filled_outcome)])]"
    using sample_records run rs by simp
  have before: "records sample_settlement (sw_world ?st) = (Inr rs, filled_world)"
    using run rs w' by (simp add: observers_at_def)
  have "\<exists>q' \<in> set rs. sr_observations q' = [(1, filled_outcome)] \<and> sr_observations q' = sr_observations q" if q: "q \<in> set rs" for q
  proof -
    have o: "sr_observations q = [(1, filled_outcome)]" using obs q by (cases rs) auto
    from terminal_is_final [OF m filled_reachable step before before q] o show ?thesis by (auto simp: filled_outcome_def)
  qed
  with before show ?thesis by (auto simp: observers_at_def list_all_iff list_ex_iff)
qed

end
