(* ===== verification/SettlementReports.thy ===== *)
theory SettlementReports
  imports SettlementSafety
begin

text \<open>
  What is told of settlements: the summary of the records, the
  user notices with their durable claims, and the merging of settlement candidates
  (\<open>application/order_settlement.py\<close>, \<open>application/settlement_reporting.py\<close>).  Redaction and
  masking of texts are a package the sources import, and parameters here.
\<close>

section \<open>Notices\<close>

definition order_settlement_zh :: string where
  "order_settlement_zh = [CHR 0xE8, CHR 0xAE, CHR 0xA2, CHR 0xE5, CHR 0x8D, CHR 0x95, CHR 0xE7, CHR 0xBB, CHR 0x93, CHR 0xE7, CHR 0xAE, CHR 0x97]"
definition unresolved_zh :: string where
  "unresolved_zh = ''UNKNOWN'' @ [CHR 0xEF, CHR 0xBC, CHR 0x9A, CHR 0xE4, CHR 0xBB, CHR 0x8D, CHR 0xE6, CHR 0x9C, CHR 0xAA, CHR 0xE7, CHR 0xA1, CHR 0xAE,
     CHR 0xE8, CHR 0xAE, CHR 0xA4, CHR 0xE6, CHR 0x9C, CHR 0x80, CHR 0xE7, CHR 0xBB, CHR 0x88, CHR 0xE7, CHR 0x8A, CHR 0xB6, CHR 0xE6, CHR 0x80, CHR 0x81]"
definition filled_zh :: string where "filled_zh = [CHR 0xE6, CHR 0x88, CHR 0x90, CHR 0xE4, CHR 0xBA, CHR 0xA4]"
definition cancelled_zh :: string where
  "cancelled_zh = [CHR 0xE5, CHR 0xB7, CHR 0xB2, CHR 0xE5, CHR 0x8F, CHR 0x96, CHR 0xE6, CHR 0xB6, CHR 0x88]"
definition rejected_zh :: string where
  "rejected_zh = [CHR 0xE5, CHR 0xB7, CHR 0xB2, CHR 0xE6, CHR 0x8B, CHR 0x92, CHR 0xE7, CHR 0xBB, CHR 0x9D]"
definition partial_zh :: string where "partial_zh = [CHR 0xE9, CHR 0x83, CHR 0xA8, CHR 0xE5, CHR 0x88, CHR 0x86] @ filled_zh"
definition semicolon_zh :: string where "semicolon_zh = [CHR 0xEF, CHR 0xBC, CHR 0x9B]"

definition number_g :: "pyfloat option \<Rightarrow> string res" where
  "number_g x = (case x of None \<Rightarrow> Inl (TypeError ''unsupported format string passed to NoneType.__format__'') | Some v \<Rightarrow> Inr (fmt_g v))"

definition notice_detail :: "bool \<Rightarrow> settle_row \<Rightarrow> string res" where
  "notice_detail zh w =
     (if \<not> rw_terminal w then Inr (if zh then unresolved_zh else ''UNKNOWN: final state unresolved'')
      else if rw_status w = ''Filled'' then
        res_bind (number_g (rw_filled w)) (\<lambda>f. res_bind (number_g (rw_avg_price w)) (\<lambda>p.
        Inr ((if zh then filled_zh else ''filled'') @ '' '' @ f @ '' @ '' @ p)))
      else (let status = (if zh then (if rw_status w = ''Cancelled'' then cancelled_zh else rejected_zh) else lower (rw_status w)) in
        if (case rw_filled w of None \<Rightarrow> False | Some f \<Rightarrow> ftruthy f) then
          res_bind (number_g (rw_filled w)) (\<lambda>f. res_bind (number_g (rw_avg_price w)) (\<lambda>p.
          Inr ((if zh then partial_zh else ''partial'') @ '' '' @ f @ ''/'' @ fmt_g (rw_quantity w) @ '' @ '' @ p
            @ (if zh then semicolon_zh else ''; '') @ status)))
        else Inr status))"

definition settled_notice :: "(string option \<Rightarrow> string) \<Rightarrow> (string \<Rightarrow> string) \<Rightarrow> string \<Rightarrow> settle_row \<Rightarrow> string res" where
  "settled_notice masked redact locale_name w =
     (let zh = (locale_name \<in> {''zh'', ''zh-CN''}) in
      res_bind (notice_detail zh w) (\<lambda>detail.
      Inr (redact ((if zh then order_settlement_zh else ''Order settlement'') @ '' | '' @ rw_symbol w @ '' '' @ rw_side w @ '' | ''
        @ detail @ '' | ID '' @ masked (rw_order_id w)))))"

text \<open>One row: candidate evidence first, then at most one attempt to notify, whose claim is durable.\<close>

definition notify_row ::
    "'w settlement \<Rightarrow> (settle_row \<Rightarrow> string res) \<Rightarrow> (settle_row \<Rightarrow> ('w, unit) io) \<Rightarrow> (settle_row \<Rightarrow> string \<Rightarrow> ('w, bool) io) \<Rightarrow> settle_row \<Rightarrow> ('w, unit) io" where
  "notify_row s text_of publish send w =
     (if rw_source_run_id w = [] then io_raise (ValueError ''settlement_source_run_missing'')
      else io_bind (publish w) (\<lambda>_.
      if \<not> rw_terminal w then io_return ()
      else io_bind (io_lift (settle_key s (rw_attempt w) ''notice-attempt'')) (\<lambda>k.
      io_bind (mk_claim (ss_store s) k (Notice ''pending'')) (\<lambda>won.
      if won then io_bind (io_lift (text_of w)) (\<lambda>t. io_bind (send w t) (\<lambda>acknowledged.
          if \<not> acknowledged then io_raise (RuntimeError ''settlement_notification_unconfirmed'')
          else io_bind (create_marker s (rw_attempt w) ''notice-receipt'' (Notice ''acknowledged'')) (\<lambda>_. io_return ())))
      else io_bind (read_marker s (rw_attempt w) ''notice-receipt'') (\<lambda>receipt.
          if receipt = None then io_raise (RuntimeError ''settlement_notification_delivery_unknown'') else io_return ())))))"

fun notify_rows ::
    "'w settlement \<Rightarrow> (settle_row \<Rightarrow> string res) \<Rightarrow> (settle_row \<Rightarrow> ('w, unit) io) \<Rightarrow> (settle_row \<Rightarrow> string \<Rightarrow> ('w, bool) io) \<Rightarrow> settle_row list \<Rightarrow> ('w, unit) io" where
  "notify_rows s text_of publish send [] = io_return ()"
| "notify_rows s text_of publish send (w # ws) = io_bind (notify_row s text_of publish send w) (\<lambda>_. notify_rows s text_of publish send ws)"

definition publish_settlement_notices ::
    "'w settlement \<Rightarrow> (settle_row \<Rightarrow> string res) \<Rightarrow> (settle_row \<Rightarrow> ('w, unit) io) \<Rightarrow> (settle_row \<Rightarrow> string \<Rightarrow> ('w, bool) io) \<Rightarrow> settle_summary \<Rightarrow> ('w, unit) io" where
  "publish_settlement_notices s text_of publish send su = notify_rows s text_of publish send (su_submitted su)"

section \<open>Merging candidates\<close>

text \<open>A candidate record: its settlement row, and whatever else it carries.\<close>

type_synonym 'x candidate = "settle_row \<times> 'x"

definition same_order :: "settle_row \<Rightarrow> settle_row \<Rightarrow> bool" where
  "same_order a b \<longleftrightarrow> rw_attempt a = rw_attempt b \<and> rw_source_run_id a = rw_source_run_id b \<and> rw_submitted_at a = rw_submitted_at b
     \<and> rw_symbol a = rw_symbol b \<and> rw_side a = rw_side b \<and> feq (rw_quantity a) (rw_quantity b)"

definition merge_settlement_record :: "'x candidate \<Rightarrow> 'x candidate \<Rightarrow> 'x candidate res" where
  "merge_settlement_record prior rec =
     (let before = fst prior; after = fst rec; old_id = rw_order_id before; new_id = rw_order_id after in
      if \<not> same_order before after then Inl (ValueError ''settlement_candidate_identity_conflict'')
      else if old_id \<noteq> None \<and> new_id \<noteq> None \<and> old_id \<noteq> new_id then Inl (ValueError ''settlement_candidate_order_conflict'')
      else if old_id \<noteq> None \<and> new_id = None then Inr prior
      else if rw_terminal before \<or> rw_sequence after < rw_sequence before then Inr prior
      else if rw_sequence before = rw_sequence after then
        (if old_id = None \<and> new_id \<noteq> None then Inr rec
         else if before \<noteq> after then Inl (ValueError ''settlement_candidate_sequence_conflict'') else Inr prior)
      else Inr rec)"

text \<open>
  C27.  Merging never loses ground: for the same order the result is one of the two candidates,
  its sequence number is at least that of both unless the earlier one was terminal or alone knew
  the broker id, a terminal candidate is never replaced, and a known broker id stays.
\<close>

theorem merge_never_regresses:
  assumes "merge_settlement_record prior rec = Inr r"
  shows "r \<in> {prior, rec} \<and> rw_sequence (fst prior) \<le> rw_sequence (fst r)
    \<and> (rw_terminal (fst prior) \<longrightarrow> r = prior)
    \<and> (rw_order_id (fst prior) \<noteq> None \<longrightarrow> rw_order_id (fst r) = rw_order_id (fst prior))
    \<and> (rw_sequence (fst r) < rw_sequence (fst rec) \<longrightarrow> rw_terminal (fst prior) \<or> (rw_order_id (fst prior) \<noteq> None \<and> rw_order_id (fst rec) = None))
    \<and> same_order (fst prior) (fst rec)"
  using assms by (auto simp: merge_settlement_record_def Let_def split: if_split_asm)

definition sample_row :: settle_row where
  "sample_row = \<lparr>rw_symbol = ''TQQQ'', rw_side = ''sell'', rw_quantity = Fin 3, rw_order_id = Some ''73'', rw_filled = Some (Fin 3),
     rw_avg_price = Some (Fin 52), rw_remaining = Some (Fin 0), rw_commission = None, rw_last_update = None, rw_terminal = True,
     rw_attempt = sample_attempt, rw_sequence = 1, rw_source_run_id = ''run'', rw_submitted_at = ''2026-11-03T14:31:00+00:00'',
     rw_source_started_at = ''2026-11-03T14:31:00+00:00'', rw_fills = [], rw_broker_status = ''filled'', rw_status = ''Filled''\<rparr>"

theorem merge_never_regresses_witness:
  "merge_settlement_record (sample_row\<lparr>rw_terminal := False\<rparr>, ()) (sample_row\<lparr>rw_sequence := 2\<rparr>, ()) = Inr (sample_row\<lparr>rw_sequence := 2\<rparr>, ())
     \<and> rw_sequence (sample_row\<lparr>rw_terminal := False\<rparr>) \<le> 2"
proof -
  have m: "merge_settlement_record (sample_row\<lparr>rw_terminal := False\<rparr>, ()) (sample_row\<lparr>rw_sequence := 2\<rparr>, ()) = Inr (sample_row\<lparr>rw_sequence := 2\<rparr>, ())"
    by (simp add: merge_settlement_record_def same_order_def sample_row_def)
  from merge_never_regresses [OF m] m show ?thesis by simp
qed

section \<open>The summary says what the records say\<close>

lemma valid_terminal:
  assumes "validate_outcome i q oc = Inr ()" "oc_terminal oc"
  shows "oc_status oc \<in> {''filled'', ''cancelled'', ''rejected''}" "\<exists>f. oc_filled oc = Some f \<and> (oc_status oc = ''filled'' \<longrightarrow> feq f q)"
  using assms by (auto simp: validate_outcome_def facts_invalid_def split: if_splits option.splits)

lemma sound_last:
  "sound_record r \<Longrightarrow> sr_observations r \<noteq> [] \<Longrightarrow> validate_outcome (sr_order_id r) (pd_quantity (sr_pending r)) (snd (last (sr_observations r))) = Inr ()"
  by (auto simp: sound_record_def Let_def list_all_iff)

text \<open>How a row stands to its record.\<close>

definition row_tells :: "settle_record \<Rightarrow> settle_row \<Rightarrow> bool" where
  "row_tells r w \<longleftrightarrow> rw_attempt w = pd_attempt (sr_pending r) \<and> rw_order_id w = sr_order_id r \<and> rw_quantity w = pd_quantity (sr_pending r)
     \<and> rw_terminal w = (\<not> open_record r)
     \<and> (rw_terminal w \<longrightarrow> rw_filled w \<noteq> None \<and> (rw_status w = ''Filled'' \<longleftrightarrow> rw_broker_status w = ''filled'')
          \<and> (rw_status w = ''Filled'' \<longrightarrow> feq (the (rw_filled w)) (rw_quantity w)))
     \<and> (\<not> rw_terminal w \<longrightarrow> rw_status w = ''UNKNOWN'')"

lemma row_of_tells:
  assumes u: "\<And>i. \<not> oc_terminal (unknown i)" and s: "sound_record r"
  shows "\<exists>w. row_of unknown r = Inr w \<and> row_tells r w"
proof (cases "sr_observations r = [] \<or> \<not> oc_terminal (snd (last (sr_observations r)))")
  case True
  with u show ?thesis
    by (cases "last (sr_observations r)") (auto simp: row_of_def last_observed_def row_tells_def open_record_def Let_def)
next
  case False
  with sound_last [OF s] valid_terminal [of "sr_order_id r" "pd_quantity (sr_pending r)" "snd (last (sr_observations r))"] show ?thesis
    by (cases "last (sr_observations r)") (auto simp: row_of_def last_observed_def row_tells_def open_record_def Let_def terminal_status_def)
qed

definition filed :: "settle_summary \<Rightarrow> bool" where
  "filed su \<longleftrightarrow> su_pending su = filter (\<lambda>w. \<not> rw_terminal w) (su_submitted su)
     \<and> su_filled su = filter (\<lambda>w. rw_terminal w \<and> rw_broker_status w = ''filled'') (su_submitted su)
     \<and> su_rejected_or_cancelled su = filter (\<lambda>w. rw_terminal w \<and> rw_broker_status w \<noteq> ''filled'') (su_submitted su)"

lemma file_row_filed:
  assumes "filed su" "rw_terminal w \<longrightarrow> rw_filled w \<noteq> None"
  shows "\<exists>su'. file_row w su = Inr su' \<and> filed su' \<and> su_submitted su' = su_submitted su @ [w]"
  using assms by (auto simp: file_row_def filed_def Let_def)

lemma summary_fold:
  assumes u: "\<And>i. \<not> oc_terminal (unknown i)" and s: "list_all sound_record rs"
  shows "\<exists>su. res_fold (\<lambda>r su. res_bind (row_of unknown r) (\<lambda>w. file_row w su)) rs empty_summary = Inr su
     \<and> filed su \<and> list_all2 row_tells rs (su_submitted su)"
  using s
proof (induction rs rule: rev_induct)
  case Nil
  show ?case by (simp add: filed_def empty_summary_def)
next
  case (snoc r rs)
  then obtain su where su: "res_fold (\<lambda>r su. res_bind (row_of unknown r) (\<lambda>w. file_row w su)) rs empty_summary = Inr su"
    "filed su" "list_all2 row_tells rs (su_submitted su)" by auto
  from row_of_tells [of unknown r, OF u] snoc.prems obtain w where w: "row_of unknown r = Inr w" "row_tells r w" by auto
  from file_row_filed [OF su(2), of w] w(2) obtain su' where "file_row w su = Inr su'" "filed su'" "su_submitted su' = su_submitted su @ [w]"
    by (auto simp: row_tells_def)
  with su w show ?case by (auto simp: res_fold_append list_all2_appendI)
qed

text \<open>
  C2.  The settlement summary of valid records never raises and says what they say: one row for
  each record, in order, terminal exactly when its last observation is; every row is filed under
  exactly one of pending, filled, and rejected or cancelled; a filled row was filled in its full
  quantity; and the status is \<open>completed\<close> exactly when no record is open.
\<close>

theorem summary_tells_records:
  assumes "\<And>i. \<not> oc_terminal (unknown i)" and "list_all sound_record rs"
  shows "\<exists>su. summary_of unknown rs = Inr su \<and> list_all2 row_tells rs (su_submitted su) \<and> filed su
     \<and> list_all (\<lambda>w. rw_filled w \<noteq> None \<and> feq (the (rw_filled w)) (rw_quantity w)) (su_filled su)
     \<and> (su_execution_status su = ''completed'' \<longleftrightarrow> list_all (\<lambda>r. \<not> open_record r) rs)"
proof -
  from summary_fold [of unknown rs, OF assms] obtain su where su: "res_fold (\<lambda>r su. res_bind (row_of unknown r) (\<lambda>w. file_row w su)) rs empty_summary = Inr su"
    and f: "filed su" and l: "list_all2 row_tells rs (su_submitted su)" by blast
  let ?su = "su\<lparr>su_execution_status := (if su_pending su \<noteq> [] then ''pending_reconciliation'' else ''completed''),
        su_reconciliation_required := (su_pending su \<noteq> [])\<rparr>"
  have tells: "\<exists>r \<in> set rs. row_tells r w" if "w \<in> set (su_submitted su)" for w
    using l that by (metis in_set_conv_nth list_all2_conv_all_nth)
  have told: "\<exists>w \<in> set (su_submitted su). row_tells r w" if "r \<in> set rs" for r
    using l that by (metis in_set_conv_nth list_all2_conv_all_nth)
  have "su_pending su = [] \<longleftrightarrow> (\<forall>w \<in> set (su_submitted su). rw_terminal w)" using f by (auto simp: filed_def filter_empty_conv)
  also have "\<dots> \<longleftrightarrow> list_all (\<lambda>r. \<not> open_record r) rs" using tells told by (fastforce simp: row_tells_def list_all_iff)
  finally have done_iff: "su_pending su = [] \<longleftrightarrow> list_all (\<lambda>r. \<not> open_record r) rs" .
  have "list_all (\<lambda>w. rw_filled w \<noteq> None \<and> feq (the (rw_filled w)) (rw_quantity w)) (su_filled su)"
    using f tells by (fastforce simp: filed_def row_tells_def list_all_iff)
  with su f l done_iff show ?thesis by (intro exI [of _ ?su]) (simp add: summary_of_def filed_def)
qed

definition sample_unknown :: "string option \<Rightarrow> outcome" where
  "sample_unknown i = \<lparr>oc_order_id = i, oc_status = ''unknown'', oc_filled = None, oc_remaining = None, oc_avg_price = None,
     oc_commission = None, oc_last_update = None, oc_terminal = False, oc_fills = []\<rparr>"

theorem summary_tells_records_witness:
  "\<exists>rs su. fst (records sample_settlement filled_world) = Inr rs \<and> rs \<noteq> [] \<and> summary_of sample_unknown rs = Inr su
     \<and> su_execution_status su = ''completed''"
proof -
  have m: "markers_atomic (ss_store sample_settlement) dict_get" by (simp add: sample_fields(1) dict_markers_atomic)
  from sample_scan obtain es where scan: "mk_recent (ss_store sample_settlement) (ss_prefix sample_settlement) filled_world = (Inr (es, False), filled_world)"
    by (auto simp: sample_fields(1) prod_eq_iff)
  have k: "kept sample_settlement (dict_get filled_world)"
    using reachable_inv [OF m filled_reachable] by (simp add: settle_inv_def observers_at_def)
  have l: "listing sample_settlement (dict_get filled_world) es" using recent_facts(2) [OF m scan refl] by (simp add: listing_def)
  from records_of_kept [OF k l] obtain rs where rs: "records_of sample_settlement es = Inr rs"
    "\<forall>q \<in> set rs. kept_record sample_settlement (dict_get filled_world) q" by blast
  have r: "fst (records sample_settlement filled_world) = Inr rs" using scan rs(1) by (simp add: records_def)
  have o: "List.map (\<lambda>r. (sr_order_id r, sr_observations r)) rs = [(Some ''73'', [(1, filled_outcome)])]"
    using sample_records unfolding r by simp
  then have closed: "list_all (\<lambda>r. \<not> open_record r) rs" "rs \<noteq> []"
    by (auto simp: list_all_iff open_record_def filled_outcome_def)
  have s: "list_all sound_record rs" using rs(2) kept_record_sound by (auto simp: list_all_iff)
  have u: "\<not> oc_terminal (sample_unknown i)" for i by (simp add: sample_unknown_def)
  from summary_tells_records [of sample_unknown rs, OF u s] closed r show ?thesis by auto
qed

section \<open>At most one notification\<close>

text \<open>
  The world logs whose settlement was sent.  The service may fail before or after it sent; sending
  and publishing change no marker.
\<close>

definition notifier_ok ::
    "'w settlement \<Rightarrow> ('w \<Rightarrow> string \<Rightarrow> meta option) \<Rightarrow> ('w \<Rightarrow> string list) \<Rightarrow> (settle_row \<Rightarrow> ('w, unit) io) \<Rightarrow> (settle_row \<Rightarrow> string \<Rightarrow> ('w, bool) io) \<Rightarrow> bool" where
  "notifier_ok s cur sent publish send \<longleftrightarrow> (\<forall>u. (\<forall>k x. sent (snd (mk_claim (ss_store s) k x u)) = sent u)
     \<and> (\<forall>k. sent (snd (mk_read (ss_store s) k u)) = sent u)
     \<and> (\<forall>w. sent (snd (publish w u)) = sent u \<and> cur (snd (publish w u)) = cur u)
     \<and> (\<forall>w t. sent (snd (send w t u)) \<in> {sent u, sent u @ [rw_attempt w]} \<and> cur (snd (send w t u)) = cur u))"

text \<open>Whoever is in the log is there once, and holds the claim.\<close>

definition notice_mark :: "'w settlement \<Rightarrow> string \<Rightarrow> string" where
  "notice_mark s a = key_of s a ''notice-attempt''"

definition sent_once :: "'w settlement \<Rightarrow> ('w \<Rightarrow> string \<Rightarrow> meta option) \<Rightarrow> ('w \<Rightarrow> string list) \<Rightarrow> 'w \<Rightarrow> bool" where
  "sent_once s cur sent u \<longleftrightarrow> distinct (sent u) \<and> list_all (\<lambda>a. cur u (notice_mark s a) \<noteq> None) (sent u)"

definition markers_stay :: "('w \<Rightarrow> string \<Rightarrow> meta option) \<Rightarrow> 'w \<Rightarrow> 'w \<Rightarrow> bool" where
  "markers_stay cur u u' \<longleftrightarrow> (\<forall>k. cur u k \<noteq> None \<longrightarrow> cur u' k \<noteq> None)"

lemma sent_once_stay: "sent_once s cur sent u \<Longrightarrow> sent u' = sent u \<Longrightarrow> markers_stay cur u u' \<Longrightarrow> sent_once s cur sent u'"
  by (auto simp: sent_once_def markers_stay_def list_all_iff)

lemma claim_stays: "markers_atomic mk cur \<Longrightarrow> mk_claim mk k x u = (r, u') \<Longrightarrow> markers_stay cur u u'"
  using claim_facts [of mk cur k x u r u'] by (auto simp: markers_stay_def)

lemma claim_won: "markers_atomic mk cur \<Longrightarrow> mk_claim mk k x u = (Inr True, u') \<Longrightarrow> cur u k = None \<and> cur u' k \<noteq> None"
  unfolding markers_atomic_def claim_ok_def by (fastforce split: prod.splits)

lemma read_marker_quiet:
  assumes m: "markers_atomic (ss_store s) cur" and n: "notifier_ok s cur sent publish send" and r: "read_marker s a suf u = (r, u')"
  shows "sent u' = sent u \<and> cur u' = cur u"
proof (cases "attempt_ok a")
  case True
  with r have "mk_read (ss_store s) (key_of s a suf) u = (r, u')" by (simp add: read_marker_def settle_key_def)
  with read_facts [OF m this] n show ?thesis unfolding notifier_ok_def by (metis snd_conv)
qed (use r in \<open>simp add: read_marker_def settle_key_def\<close>)

lemma create_marker_quiet:
  assumes m: "markers_atomic (ss_store s) cur" and n: "notifier_ok s cur sent publish send" and r: "create_marker s a suf x u = (r, u')"
  shows "sent u' = sent u \<and> markers_stay cur u u'"
proof (cases "attempt_ok a")
  case True
  obtain v u1 where c: "mk_claim (ss_store s) (key_of s a suf) x u = (v, u1)" by fastforce
  have l: "sent u1 = sent u" using n c unfolding notifier_ok_def by (metis snd_conv)
  obtain y u2 where rd: "read_marker s a suf u1 = (y, u2)" by fastforce
  from read_marker_quiet [OF m n rd] have q: "sent u2 = sent u1" "cur u2 = cur u1" by simp_all
  have "u' \<in> {u1, u2}" using r c rd True
    by (cases v; cases y) (auto simp: create_marker_def settle_key_def io_bind_apply split: if_splits)
  with l q claim_stays [OF m c] show ?thesis by (auto simp: markers_stay_def)
qed (use r in \<open>simp add: create_marker_def settle_key_def markers_stay_def\<close>)

lemma notify_row_once:
  assumes m: "markers_atomic (ss_store s) cur" and n: "notifier_ok s cur sent publish send"
    and once: "sent_once s cur sent u" and r: "notify_row s text_of publish send w u = (r, u')"
  shows "sent_once s cur sent u'"
proof (cases "rw_source_run_id w = []")
  case True
  with r once show ?thesis by (simp add: notify_row_def)
next
  case False
  obtain p u1 where p: "publish w u = (p, u1)" by fastforce
  with n have "sent u1 = sent u" "cur u1 = cur u" unfolding notifier_ok_def by (metis snd_conv)+
  with once have o1: "sent_once s cur sent u1" by (simp add: sent_once_def)
  show ?thesis
  proof (cases "p = Inr () \<and> rw_terminal w \<and> attempt_ok (rw_attempt w)")
    case False
    with r p \<open>rw_source_run_id w \<noteq> []\<close> have "u' = u1"
      by (cases p) (auto simp: notify_row_def io_bind_apply settle_key_def split: if_splits)
    with o1 show ?thesis by simp
  next
    case True
    let ?k = "notice_mark s (rw_attempt w)"
    obtain c u2 where c: "mk_claim (ss_store s) ?k (Notice ''pending'') u1 = (c, u2)" by fastforce
    have l2: "sent u2 = sent u1" using n c unfolding notifier_ok_def by (metis snd_conv)
    have o2: "sent_once s cur sent u2" by (rule sent_once_stay [OF o1 l2 claim_stays [OF m c]])
    have run: "notify_row s text_of publish send w u = (case c of Inl y \<Rightarrow> (Inl y, u2) | Inr won \<Rightarrow>
        (if won then io_bind (io_lift (text_of w)) (\<lambda>t. io_bind (send w t) (\<lambda>acknowledged.
          if \<not> acknowledged then io_raise (RuntimeError ''settlement_notification_unconfirmed'')
          else io_bind (create_marker s (rw_attempt w) ''notice-receipt'' (Notice ''acknowledged'')) (\<lambda>_. io_return ()))) u2
        else io_bind (read_marker s (rw_attempt w) ''notice-receipt'') (\<lambda>receipt.
          if receipt = None then io_raise (RuntimeError ''settlement_notification_delivery_unknown'') else io_return ()) u2))"
      using True p c \<open>rw_source_run_id w \<noteq> []\<close>
      by (cases c) (auto simp: notify_row_def io_bind_apply settle_key_def notice_mark_def)
    show ?thesis
    proof (cases "c = Inr True")
      case False
      obtain y u3 where rd: "read_marker s (rw_attempt w) ''notice-receipt'' u2 = (y, u3)" by fastforce
      from read_marker_quiet [OF m n rd] o2 have o3: "sent_once s cur sent u3" by (simp add: sent_once_def)
      have "u' \<in> {u2, u3}" using r run rd False by (cases c; cases y) (auto simp: io_bind_apply split: if_splits)
      with o2 o3 show ?thesis by auto
    next
      case won: True
      with claim_won [OF m, of ?k "Notice ''pending''" u1 u2] c have k: "cur u1 ?k = None" "cur u2 ?k \<noteq> None" by simp_all
      with o1 have fresh: "rw_attempt w \<notin> set (sent u2)" unfolding l2 by (auto simp: sent_once_def list_all_iff)
      show ?thesis
      proof (cases "text_of w")
        case (Inl y)
        with r run won o2 show ?thesis by simp
      next
        case (Inr t)
        obtain a u3 where a: "send w t u2 = (a, u3)" by fastforce
        with n have "sent u3 \<in> {sent u2, sent u2 @ [rw_attempt w]}" "cur u3 = cur u2" unfolding notifier_ok_def by (metis snd_conv)+
        with o2 fresh k(2) have o3: "sent_once s cur sent u3" by (auto simp: sent_once_def)
        obtain y u4 where cr: "create_marker s (rw_attempt w) ''notice-receipt'' (Notice ''acknowledged'') u3 = (y, u4)" by fastforce
        from create_marker_quiet [OF m n cr] have o4: "sent_once s cur sent u4" using sent_once_stay [OF o3] by blast
        have "u' \<in> {u3, u4}" using r run won Inr a cr by (cases a; cases y) (auto simp: io_bind_apply split: if_splits)
        with o3 o4 show ?thesis by auto
      qed
    qed
  qed
qed

lemma notify_rows_once:
  assumes m: "markers_atomic (ss_store s) cur" and n: "notifier_ok s cur sent publish send"
  shows "sent_once s cur sent u \<Longrightarrow> notify_rows s text_of publish send ws u = (r, u') \<Longrightarrow> sent_once s cur sent u'"
proof (induction ws arbitrary: u)
  case (Cons w ws)
  obtain x u1 where x: "notify_row s text_of publish send w u = (x, u1)" by fastforce
  from notify_row_once [OF m n Cons.prems(1) x] have o: "sent_once s cur sent u1" .
  from Cons.prems(2) x show ?case using Cons.IH [OF o] o by (cases x) simp_all
qed simp

text \<open>Runs one after another, each going on where the last one stopped, with or without an exception.\<close>

definition notice_runs ::
    "'w settlement \<Rightarrow> (settle_row \<Rightarrow> string res) \<Rightarrow> (settle_row \<Rightarrow> ('w, unit) io) \<Rightarrow> (settle_row \<Rightarrow> string \<Rightarrow> ('w, bool) io) \<Rightarrow> settle_summary list \<Rightarrow> 'w \<Rightarrow> 'w" where
  "notice_runs s text_of publish send runs u = foldl (\<lambda>u su. snd (publish_settlement_notices s text_of publish send su u)) u runs"

text \<open>
  C1.  No settlement is notified twice.  However many runs publish however many summaries - the
  same ones again, with messages that fail before or after they were sent, with exceptions
  anywhere - the log of sent messages names every attempt at most once.
\<close>

theorem notified_at_most_once:
  assumes m: "markers_atomic (ss_store s) cur" and n: "notifier_ok s cur sent publish send" and none: "sent u = []"
  shows "distinct (sent (notice_runs s text_of publish send runs u))"
proof -
  have "sent_once s cur sent u \<Longrightarrow> sent_once s cur sent (notice_runs s text_of publish send runs u)" for u
    unfolding notice_runs_def
  proof (induction runs arbitrary: u)
    case (Cons su runs)
    obtain r u1 where "publish_settlement_notices s text_of publish send su u = (r, u1)" by fastforce
    with notify_rows_once [OF m n Cons.prems] Cons.IH [of u1] show ?case by (simp add: publish_settlement_notices_def)
  qed simp
  from this [of u] none show ?thesis by (simp add: sent_once_def)
qed

text \<open>The dictionary store beside a log, with a service whose confirmation is always lost.\<close>

type_synonym noted = "mark_dict \<times> string list"

definition beside :: "(mark_dict, 'a) io \<Rightarrow> (noted, 'a) io" where
  "beside m = (\<lambda>(d, l). case m d of (r, d') \<Rightarrow> (r, (d', l)))"

definition noted_markers :: "noted markers" where
  "noted_markers = \<lparr>mk_claim = (\<lambda>k x. beside (mk_claim dict_markers k x)), mk_read = (\<lambda>k. beside (mk_read dict_markers k)),
     mk_recent = (\<lambda>p. beside (mk_recent dict_markers p))\<rparr>"

definition noted_settlement :: "noted settlement" where
  "noted_settlement = settlement_of (\<lambda>a p. ''d'') noted_markers ''U3'' ''alpha''"

definition lossy_send :: "settle_row \<Rightarrow> string \<Rightarrow> (noted, bool) io" where
  "lossy_send w t = (\<lambda>(d, l). (Inl (RuntimeError ''confirmation lost''), (d, l @ [rw_attempt w])))"

definition sample_summary :: settle_summary where
  "sample_summary = empty_summary\<lparr>su_submitted := [sample_row]\<rparr>"

lemma noted_markers_atomic: "markers_atomic noted_markers (dict_get \<circ> fst)"
proof -
  have d: "claim_ok dict_markers dict_get k x w" "recent_ok dict_markers dict_get p w"
    "case mk_read dict_markers k w of (r, w') \<Rightarrow> dict_get w' = dict_get w \<and> (\<forall>x. r = Inr x \<longrightarrow> x = dict_get w k)" for k x p w
    using dict_markers_atomic by (simp_all add: markers_atomic_def)
  have "claim_ok noted_markers (dict_get \<circ> fst) k x u" for k x u
    using d(1) [of k x "fst u"] by (auto simp: claim_ok_def noted_markers_def beside_def split: prod.splits sum.splits if_splits)
  moreover have "recent_ok noted_markers (dict_get \<circ> fst) p u" for p u
    using d(2) [of p "fst u"] by (auto simp: recent_ok_def noted_markers_def beside_def split: prod.splits)
  moreover have "case mk_read noted_markers k u of (r, u') \<Rightarrow> (dict_get \<circ> fst) u' = (dict_get \<circ> fst) u
      \<and> (\<forall>x. r = Inr x \<longrightarrow> x = (dict_get \<circ> fst) u k)" for k u
    using d(3) [of "fst u" k] by (auto simp: noted_markers_def beside_def split: prod.splits)
  ultimately show ?thesis by (simp add: markers_atomic_def)
qed

lemma lossy_notifier: "notifier_ok noted_settlement (dict_get \<circ> fst) snd (\<lambda>_. io_return ()) lossy_send"
  by (auto simp: notifier_ok_def noted_settlement_def settlement_of_def noted_markers_def beside_def lossy_send_def split: prod.split)

theorem notified_at_most_once_witness:
  "distinct (snd (notice_runs noted_settlement (\<lambda>_. Inr ''settled'') (\<lambda>_. io_return ()) lossy_send [sample_summary, sample_summary] ([], [])))
    \<and> snd (notice_runs noted_settlement (\<lambda>_. Inr ''settled'') (\<lambda>_. io_return ()) lossy_send [sample_summary, sample_summary] ([], [])) = [sample_attempt]"
proof
  have m: "markers_atomic (ss_store noted_settlement) (dict_get \<circ> fst)"
    by (simp add: noted_settlement_def settlement_of_def noted_markers_atomic)
  show "distinct (snd (notice_runs noted_settlement (\<lambda>_. Inr ''settled'') (\<lambda>_. io_return ()) lossy_send [sample_summary, sample_summary] ([], [])))"
    by (rule notified_at_most_once [OF m lossy_notifier]) simp
  show "snd (notice_runs noted_settlement (\<lambda>_. Inr ''settled'') (\<lambda>_. io_return ()) lossy_send [sample_summary, sample_summary] ([], [])) = [sample_attempt]"
    by code_simp
qed

end
