(* ===== verification/SettlementEffects.thy ===== *)
theory SettlementEffects
  imports Settlement Effects
begin

text \<open>
  What settling does to the world, whatever is asked of it: if every operation of the marker store
  and of the broker reader keeps a relation that composes (the locale \<open>effects\<close>), then so do
  preparing, binding, observing and \<open>settle_pending\<close> with its unbounded loop.
\<close>

definition store_keeps :: "('w \<Rightarrow> 'w \<Rightarrow> bool) \<Rightarrow> 'w settlement \<Rightarrow> bool" where
  "store_keeps R s \<longleftrightarrow> (\<forall>k x. io_keeps R (mk_claim (ss_store s) k x)) \<and> (\<forall>k. io_keeps R (mk_read (ss_store s) k))
     \<and> (\<forall>p. io_keeps R (mk_recent (ss_store s) p))"

definition reader_keeps :: "('w \<Rightarrow> 'w \<Rightarrow> bool) \<Rightarrow> 'w reader \<Rightarrow> bool" where
  "reader_keeps R e \<longleftrightarrow> io_keeps R (rd_clock e) \<and> (\<forall>r. io_keeps R (rd_resolve e r)) \<and> (\<forall>x. io_keeps R (rd_sleep e x))
     \<and> (\<forall>setter x. rd_set_timeout e = Some setter \<longrightarrow> io_keeps R (setter x))"

lemma store_keepsD:
  "store_keeps R s \<Longrightarrow> io_keeps R (mk_claim (ss_store s) k x)" "store_keeps R s \<Longrightarrow> io_keeps R (mk_read (ss_store s) k)"
  "store_keeps R s \<Longrightarrow> io_keeps R (mk_recent (ss_store s) p)"
  by (simp_all add: store_keeps_def)

lemma reader_keepsD:
  "reader_keeps R e \<Longrightarrow> io_keeps R (rd_clock e)" "reader_keeps R e \<Longrightarrow> io_keeps R (rd_resolve e r)"
  "reader_keeps R e \<Longrightarrow> io_keeps R (rd_sleep e x)"
  "reader_keeps R e \<Longrightarrow> rd_set_timeout e = Some setter \<Longrightarrow> io_keeps R (setter x)"
  by (simp_all add: reader_keeps_def)

context effects
begin

lemma step: "R u u' \<Longrightarrow> R u' u'' \<Longrightarrow> R u u''"
  using trans by (rule transpD)

lemma create_marker_keeps:
  assumes "\<And>k x. io_keeps R (mk_claim (ss_store s) k x)" "\<And>k. io_keeps R (mk_read (ss_store s) k)"
  shows "io_keeps R (create_marker s a suf x)"
  unfolding create_marker_def read_marker_def by (intro keeps keeps_split assms)

lemma prepare_order_keeps:
  assumes "\<And>k x. io_keeps R (mk_claim (ss_store s) k x)" "\<And>k. io_keeps R (mk_read (ss_store s) k)"
  shows "io_keeps R (prepare s a y d q c t run st)"
  unfolding prepare_def by (intro keeps create_marker_keeps assms)

lemma bind_order_keeps:
  assumes "\<And>k x. io_keeps R (mk_claim (ss_store s) k x)" "\<And>k. io_keeps R (mk_read (ss_store s) k)"
  shows "io_keeps R (bind_order s a i)"
  unfolding bind_order_def by (intro keeps keeps_split create_marker_keeps assms)

lemma records_keeps: "store_keeps R s \<Longrightarrow> io_keeps R (records s)"
  unfolding records_def by (intro keeps keeps_split store_keepsD)

lemma observe_keeps: "store_keeps R s \<Longrightarrow> io_keeps R (observe s a oc)"
proof -
  assume s: "store_keeps R s"
  have "io_keeps R (observe_rounds n s a d)" for n d
  proof (induction n)
    case (Suc n)
    then show ?case
      unfolding observe_rounds.simps observe_look_def observe_claim_def by (intro keeps keeps_split store_keepsD records_keeps s)
  qed (unfold observe_rounds.simps, rule keeps_raise)
  then show ?thesis unfolding observe_def by (intro keeps)
qed

lemma timeout_keeps: "reader_keeps R e \<Longrightarrow> io_keeps R (set_request_timeout e rd)"
  unfolding set_request_timeout_def by (intro keeps keeps_split reader_keepsD)

lemma turn_keeps:
  assumes "store_keeps R s" "reader_keeps R e"
  shows "io_keeps R (settle_turn s e d rd r)"
  unfolding settle_turn_def Let_def by (intro keeps keeps_split reader_keepsD timeout_keeps observe_keeps assms)

lemma settle_order_keeps:
  assumes m: "store_keeps R s" "reader_keeps R e" and r: "settle_order s e d rd r w = Some y"
  shows "R w (snd y)"
proof -
  have "store_keeps R s \<longrightarrow> reader_keeps R e \<longrightarrow> R w (snd y)"
    using r
  proof (rule settle_order.raw_induct [rotated])
    fix f s e d rd r w y
    assume ih: "\<And>s e d rd r w y. f s e d rd r w = Some y \<Longrightarrow> store_keeps R s \<longrightarrow> reader_keeps R e \<longrightarrow> R w (snd y)"
      and body: "(case settle_turn s e d rd r w of (Inl x, w') \<Rightarrow> Some (Inl x, w')
        | (Inr stop, w') \<Rightarrow> if stop then Some (Inr (), w') else f s e d rd r w') = Some y"
    show "store_keeps R s \<longrightarrow> reader_keeps R e \<longrightarrow> R w (snd y)"
    proof (intro impI)
      assume m: "store_keeps R s" "reader_keeps R e"
      obtain v w' where t: "settle_turn s e d rd r w = (v, w')" by fastforce
      from io_keepsD [OF turn_keeps [OF m] t] have g: "R w w'" .
      show "R w (snd y)"
      proof (cases "v = Inr False")
        case True
        with body t have "f s e d rd r w' = Some y" by simp
        with ih m g step show ?thesis by blast
      next
        case False
        with body t g show ?thesis by (cases v) (auto split: if_splits)
      qed
    qed
  qed
  with m show ?thesis by blast
qed

lemma settle_orders_keeps:
  assumes m: "store_keeps R s" "reader_keeps R e"
  shows "settle_orders s e d rd rs w = Some y \<Longrightarrow> R w (snd y)"
proof (induction rs arbitrary: w)
  case Nil
  with refl show ?case by (auto dest: reflpD)
next
  case (Cons r rs)
  obtain v w1 where c: "rd_clock e w = (v, w1)" by fastforce
  from io_keepsD [OF reader_keepsD(1) [OF m(2)] c] have g: "R w w1" .
  show ?case
  proof (cases "sr_order_id r = None \<or> sr_order_id r = Some []")
    case True
    with Cons show ?thesis by auto
  next
    case known: False
    show ?thesis
    proof (cases v)
      case (Inl x)
      with Cons.prems c g known show ?thesis by auto
    next
      case (Inr t)
      show ?thesis
      proof (cases "fle rd t")
        case True
        with Cons.prems c Inr known have "settle_orders s e d rd rs w1 = Some y" by (auto split: if_splits)
        from step [OF g Cons.IH [OF this]] show ?thesis .
      next
        case False
        with Cons.prems c Inr known obtain z w2 where o: "settle_order s e d rd r w1 = Some (z, w2)"
          and rest: "(case z of Inl x \<Rightarrow> Some (Inl x, w2) | Inr _ \<Rightarrow> settle_orders s e d rd rs w2) = Some y"
          by (auto split: if_splits option.splits sum.splits)
        from step [OF g, of w2] settle_order_keeps [OF m o] have "R w w2" by simp
        with rest show ?thesis by (cases z) (auto intro: step [OF _ Cons.IH])
      qed
    qed
  qed
qed

lemma settle_start_keeps:
  "store_keeps R s \<Longrightarrow> reader_keeps R e \<Longrightarrow> io_keeps R (settle_start s e ws n ts)"
  unfolding settle_start_def Let_def by (intro keeps keeps_split reader_keepsD records_keeps)

lemma settle_pending_keeps:
  assumes m: "store_keeps R s" "reader_keeps R e" and r: "settle_pending s e ws n ts w = Some y"
  shows "R w (snd y)"
proof -
  obtain v w1 where t: "settle_start s e ws n ts w = (v, w1)" by fastforce
  from io_keepsD [OF settle_start_keeps [OF m] t] have g: "R w w1" .
  have summed: "io_keeps R (settlement_summary (rd_unknown e) s)"
    unfolding settlement_summary_def using m(1) by (intro keeps records_keeps)
  show ?thesis
  proof (cases v)
    case (Inl x)
    with r t g show ?thesis by (auto simp: settle_pending_def)
  next
    case (Inr z)
    then obtain d rd rs where z: "v = Inr (d, rd, rs)" by (metis prod_cases3)
    with r t obtain q w2 where o: "settle_orders s e d rd rs w1 = Some (q, w2)"
      and rest: "(case q of Inl x \<Rightarrow> Some (Inl x, w2) | Inr _ \<Rightarrow> Some (settlement_summary (rd_unknown e) s w2)) = Some y"
      by (auto simp: settle_pending_def split: option.splits sum.splits)
    from step [OF g, of w2] settle_orders_keeps [OF m o] have g2: "R w w2" by simp
    have "R w2 (snd (settlement_summary (rd_unknown e) s w2))" using summed by (simp add: io_keeps_def)
    with rest g2 show ?thesis by (cases q) (auto intro: step)
  qed
qed

end

end
