(* ===== verification/SettlementReturns.thy ===== *)
theory SettlementReturns
  imports SettlementReports SettlementEffects
begin

text \<open>
  \<open>settle_pending\<close> comes back: its loop has no counter, only deadlines, so it ends because it sleeps
  between two questions.  Time is a value of the world that no operation turns back; the clock reads
  it as the nearest double, and a sleep takes at least as long as it was asked to.  Asking the broker
  and the store may take no time at all.
\<close>

section \<open>Time passes\<close>

definition later :: "('w \<Rightarrow> rat) \<Rightarrow> 'w \<Rightarrow> 'w \<Rightarrow> bool" where
  "later clk u u' \<longleftrightarrow> clk u \<le> clk u'"

interpretation ticking: effects "later clk" for clk :: "'w \<Rightarrow> rat"
  by unfold_locales (auto simp: later_def reflp_def transp_def)

definition time_runs :: "'w settlement \<Rightarrow> 'w reader \<Rightarrow> ('w \<Rightarrow> rat) \<Rightarrow> bool" where
  "time_runs s e clk \<longleftrightarrow> store_keeps (later clk) s \<and> reader_keeps (later clk) e
     \<and> (\<forall>u. fst (rd_clock e u) = Inr (to_float (clk u)))
     \<and> (\<forall>y u. 0 \<le> y \<longrightarrow> clk u + y \<le> clk (snd (rd_sleep e (Fin y) u)))"

text \<open>The smallest positive double: no positive difference of two doubles is rounded below it.\<close>

definition least_double :: rat where "least_double = pow2 (- 1074)"

lemma least_double_pos: "0 < least_double"
  by (simp add: least_double_def)

lemma round_least: "round_double least_double = least_double"
proof -
  have e: "expo least_double = - 1074"
  proof (rule expo_unique)
    show "least_double < pow2 (- 1074 + 1)" unfolding pow2_add by (simp add: least_double_def) (simp add: pow2_def)
  qed (simp add: least_double_def)
  then have "round_pos least_double = least_double"
    using rhe_of_int [of 1] by (simp add: round_pos_def ulp_expo_def least_double_def)
  then show ?thesis by (simp add: round_double_def least_double_pos)
qed

lemma to_float_least: "to_float least_double = Fin least_double"
proof -
  have "expo least_double < 1024"
    using expo_unique [of "- 1074" least_double] unfolding pow2_add by (simp add: least_double_def pow2_def)
  then show ?thesis using least_double_pos by (simp add: to_float_def round_least Let_def)
qed

lemma round_pos_grid:
  assumes "round_pos r = r"
  shows "\<exists>k. r = of_int k * least_double"
proof -
  define j where "j = nat (ulp_expo r + 1074)"
  have "- 1074 \<le> ulp_expo r" by (simp add: ulp_expo_def)
  then have "ulp_expo r = int j + - 1074" by (simp add: j_def)
  then have q: "pow2 (ulp_expo r) = 2 ^ j * least_double" by (simp only: pow2_add pow2_nat least_double_def)
  have "r = of_int (rhe (r / pow2 (ulp_expo r))) * pow2 (ulp_expo r)"
    using assms by (simp add: round_pos_def Let_def)
  also have "\<dots> = of_int (rhe (r / pow2 (ulp_expo r)) * 2 ^ j) * least_double" unfolding q by simp
  finally show ?thesis by blast
qed

lemma double_grid:
  assumes "to_float r = Fin r"
  shows "\<exists>k. r = of_int k * least_double"
proof -
  have d: "round_double r = r" using assms by (auto simp: to_float_def Let_def split: if_splits)
  consider "r = 0" | "0 < r" "round_pos r = r" | "r < 0" "round_pos (- r) = - r"
    using d by (auto simp: round_double_def split: if_splits)
  then show ?thesis
  proof cases
    case 1
    then show ?thesis by (intro exI [of _ 0]) simp
  next
    case 2
    then show ?thesis by (intro round_pos_grid)
  next
    case 3
    then obtain k where "- r = of_int k * least_double" using round_pos_grid by blast
    then show ?thesis by (intro exI [of _ "- k"]) simp
  qed
qed

lemma difference_positive:
  assumes "to_float a = Fin a" "to_float b = Fin b" "a < b"
  shows "fle (Fin least_double) (fsub (Fin b) (Fin a))"
proof -
  obtain i j where k: "a = of_int i * least_double" "b = of_int j * least_double"
    using double_grid [OF assms(1)] double_grid [OF assms(2)] by blast
  with assms(3) have "i < j" using least_double_pos by simp
  then have "1 * least_double \<le> of_int (j - i) * least_double" using least_double_pos by (intro mult_right_mono) simp_all
  then have "least_double \<le> b - a" by (simp add: k algebra_simps)
  from to_float_mono [OF this] show ?thesis by (simp add: fsub_def to_float_least)
qed

text \<open>The time asked of a sleep, while the deadline is not reached.\<close>

lemma sleep_time:
  assumes "to_float dl = Fin dl" "\<not> fle (Fin dl) (to_float t)"
  shows "\<exists>y. py_min (Fin (1 / 4)) (py_max (Fin 0) (fsub (Fin dl) (to_float t))) = Fin y \<and> least_double \<le> y"
proof -
  have small: "least_double \<le> 1 / 4"
    unfolding least_double_def using pow2_mono [of "- 1074" "- 2"] by (simp add: pow2_def)
  show ?thesis
  proof (cases "to_float t")
    case (Fin a)
    have "fle (Fin least_double) (fsub (Fin dl) (Fin a))"
      using assms Fin by (intro difference_positive) (auto simp: to_float_Fin)
    with Fin small least_double_pos show ?thesis
      by (cases "fsub (Fin dl) (Fin a)") (auto simp: py_min_def py_max_def intro: exI [of _ "1 / 4"])
  next
    case NInf
    then show ?thesis using small by (auto simp: py_min_def py_max_def fsub_def intro: exI [of _ "1 / 4"])
  qed (use assms in simp_all)
qed

text \<open>A turn that does not stop started before the deadline; after it the deadline has passed or time has.\<close>

lemma turn_takes_time:
  assumes t: "time_runs s e clk" and d: "to_float dl = Fin dl"
    and r: "settle_turn s e (Fin dl) rd q w = (Inr False, w')"
  shows "\<not> fle (Fin dl) (to_float (clk w)) \<and> (fle (Fin dl) (to_float (clk w')) \<or> clk w + least_double \<le> clk w')"
proof -
  have m: "store_keeps (later clk) s" "reader_keeps (later clk) e" using t by (simp_all add: time_runs_def)
  have reading: "v = Inr (to_float (clk u)) \<and> clk u \<le> clk u'" if "rd_clock e u = (v, u')" for v u u'
    using t io_keepsD [OF reader_keepsD(1) [OF m(2)] that] that unfolding time_runs_def later_def by (metis fst_conv)
  define tail where "tail = io_bind (rd_clock e) (\<lambda>t1. if fle (Fin dl) t1 then io_return True
         else io_bind (rd_clock e) (\<lambda>t2.
           io_bind (rd_sleep e (py_min (Fin (1 / 4)) (py_max (Fin 0) (fsub (Fin dl) t2)))) (\<lambda>_. io_return False)))"
  define rest where "rest = (\<lambda>found. let result = (if oc_order_id found \<noteq> sr_order_id q then rd_unknown e (sr_order_id q) else found) in
       io_bind (observe s (pd_attempt (sr_pending q)) result) (\<lambda>_. if oc_terminal result then io_return True else tail))"
  obtain v w0 where c: "rd_clock e w = (v, w0)" by fastforce
  obtain u w1 where s2: "set_request_timeout e rd w0 = (u, w1)" by fastforce
  obtain f w2 where s3: "rd_resolve e q w1 = (f, w2)" by fastforce
  note k = reading [OF c] io_keepsD [OF ticking.timeout_keeps [OF m(2)] s2] io_keepsD [OF reader_keepsD(2) [OF m(2)] s3]
  have vv: "v = Inr (to_float (clk w))" using reading [OF c] by simp
  have nd: "\<not> fle rd (to_float (clk w))" using r c vv by (auto simp: settle_turn_def io_bind_apply)
  have "settle_turn s e (Fin dl) rd q w
      = (case u of Inl x \<Rightarrow> (Inl x, w1) | Inr _ \<Rightarrow> (case f of Inl x \<Rightarrow> (Inl x, w2) | Inr found \<Rightarrow> rest found w2))"
    using c vv nd s2 s3 unfolding settle_turn_def rest_def tail_def by (cases u; cases f) (simp_all add: io_bind_apply)
  with r obtain found where f: "rest found w2 = (Inr False, w')" by (cases u; cases f) auto
  define result where "result = (if oc_order_id found \<noteq> sr_order_id q then rd_unknown e (sr_order_id q) else found)"
  obtain x w3 where s4: "observe s (pd_attempt (sr_pending q)) result w2 = (x, w3)" by fastforce
  from f s4 have run: "tail w3 = (Inr False, w')"
    by (cases x; cases "oc_terminal result") (simp_all add: rest_def result_def [symmetric] io_bind_apply)
  have w3: "clk w \<le> clk w3" using k io_keepsD [OF ticking.observe_keeps [OF m(1)] s4] by (auto simp: later_def)
  note run = run [unfolded tail_def]
  obtain v4 w4 where c4: "rd_clock e w3 = (v4, w4)" by fastforce
  obtain v5 w5 where c5: "rd_clock e w4 = (v5, w5)" by fastforce
  note k4 = reading [OF c4] and k5 = reading [OF c5]
  have before: "\<not> fle (Fin dl) (to_float (clk w3))" using run c4 k4 by (auto simp: io_bind_apply)
  let ?x = "py_min (Fin (1 / 4)) (py_max (Fin 0) (fsub (Fin dl) (to_float (clk w4))))"
  obtain z where sl: "rd_sleep e ?x w5 = (z, w')"
    using run c4 c5 k4 k5 before by (auto simp: io_bind_apply split: sum.splits prod.splits)
  from io_keepsD [OF reader_keepsD(3) [OF m(2)] sl] have k6: "clk w5 \<le> clk w'" by (simp add: later_def)
  have first: "\<not> fle (Fin dl) (to_float (clk w))"
    using before to_float_mono [OF w3] fle_trans by blast
  show ?thesis
  proof (cases "fle (Fin dl) (to_float (clk w4))")
    case True
    have "clk w4 \<le> clk w'" using k5 k6 by simp
    with True first show ?thesis using to_float_mono fle_trans by blast
  next
    case False
    from sleep_time [OF d False] obtain y where y: "?x = Fin y" "least_double \<le> y" by blast
    then have "0 \<le> y" using least_double_pos by linarith
    with t have "clk w5 + y \<le> clk (snd (rd_sleep e (Fin y) w5))" unfolding time_runs_def by blast
    with sl y(1) have "clk w5 + y \<le> clk w'" by simp
    with y(2) w3 k4 k5 first show ?thesis by linarith
  qed
qed

lemma settle_order_ends:
  assumes t: "time_runs s e clk" and d: "to_float dl = Fin dl"
  shows "dl \<le> clk w + of_nat n * least_double \<or> fle (Fin dl) (to_float (clk w)) \<Longrightarrow> \<exists>y. settle_order s e (Fin dl) rd q w = Some y"
proof (induction n arbitrary: w)
  case (Suc n)
  obtain v w' where v: "settle_turn s e (Fin dl) rd q w = (v, w')" by fastforce
  show ?case
  proof (cases "v = Inr False")
    case True
    with turn_takes_time [OF t d, of rd q w w'] v
    have "\<not> fle (Fin dl) (to_float (clk w))" "fle (Fin dl) (to_float (clk w')) \<or> clk w + least_double \<le> clk w'" by auto
    with Suc.prems have "dl \<le> clk w' + of_nat n * least_double \<or> fle (Fin dl) (to_float (clk w'))" by (auto simp: algebra_simps)
    from Suc.IH [OF this] True v show ?thesis by (subst settle_order.simps) simp
  next
    case False
    with v show ?thesis by (subst settle_order.simps) (auto split: sum.split)
  qed
next
  case 0
  then have "fle (Fin dl) (to_float (clk w))" using to_float_mono [of dl "clk w"] d by auto
  obtain v w' where v: "settle_turn s e (Fin dl) rd q w = (v, w')" by fastforce
  with turn_takes_time [OF t d, of rd q w w'] \<open>fle (Fin dl) (to_float (clk w))\<close> have "v \<noteq> Inr False" by blast
  with v show ?case by (subst settle_order.simps) (auto split: sum.split)
qed

lemma settle_order_returns:
  assumes t: "time_runs s e clk" and d: "to_float dl = Fin dl"
  shows "\<exists>y. settle_order s e (Fin dl) rd q w = Some y"
proof -
  obtain n where "(dl - clk w) / least_double < of_nat n" using reals_Archimedean2 by blast
  with least_double_pos have "dl \<le> clk w + of_nat n * least_double" by (simp add: field_simps)
  with settle_order_ends [OF t d] show ?thesis by blast
qed

lemma settle_orders_returns:
  assumes t: "time_runs s e clk" and d: "to_float dl = Fin dl"
  shows "\<exists>y. settle_orders s e (Fin dl) rd rs w = Some y"
proof (induction rs arbitrary: w)
  case (Cons r rs)
  obtain v w1 where c: "rd_clock e w = (v, w1)" by fastforce
  obtain z w2 where "settle_order s e (Fin dl) rd r w1 = Some (z, w2)" using settle_order_returns [OF t d] by (metis surj_pair)
  with c Cons.IH show ?case by (cases v; cases z) auto
qed simp

text \<open>
  C24.  Settling comes back.  The loop of \<open>settle_pending\<close> has no counter and its observations may
  never be terminal; but a sleep takes at least the time asked for, nothing turns time back and the
  clock reads it, so unless the deadline overflows it returns - with a summary or an exception -
  whatever the broker answers, however fast it answers, and for any number of open orders.
\<close>

theorem settle_pending_returns:
  assumes "time_runs s e clk"
    and "\<And>d rd rs w1. settle_start s e wait_seconds max_orders timeout_seconds w = (Inr (d, rd, rs), w1) \<Longrightarrow> isfinite d"
  shows "\<exists>r w'. settle_pending s e wait_seconds max_orders timeout_seconds w = Some (r, w')"
proof (cases "settle_start s e wait_seconds max_orders timeout_seconds w")
  case (Pair v w1)
  show ?thesis
  proof (cases v)
    case (Inl x)
    with Pair show ?thesis by (simp add: settle_pending_def)
  next
    case (Inr z)
    then obtain d rd rs where z: "v = Inr (d, rd, rs)" by (metis prod_cases3)
    with assms(2) Pair obtain dl where dl: "d = Fin dl" by (cases d) auto
    obtain t u where t: "rd_clock e w = (Inr t, u)"
      using Pair z by (auto simp: settle_start_def io_bind_apply split: if_splits sum.splits prod.splits)
    then have "is_double t" using assms(1) unfolding time_runs_def by (metis fst_conv is_double_to_float sum.inject(2))
    moreover have "d = fadd t wait_seconds"
      using Pair z t by (auto simp: settle_start_def io_bind_apply Let_def split: if_splits sum.splits prod.splits)
    ultimately have "fadd t wait_seconds = Fin dl" using dl by simp
    then have "to_float dl = Fin dl" by (cases t; cases wait_seconds) (auto dest: to_float_Fin)
    with settle_orders_returns [OF assms(1)] dl obtain q w2 where "settle_orders s e d rd rs w1 = Some (q, w2)" by (metis surj_pair)
    with Pair z show ?thesis by (cases q) (auto simp: settle_pending_def)
  qed
qed

text \<open>The dictionary store beside a clock, and a broker that never knows and answers at once.\<close>

type_synonym timed = "mark_dict \<times> rat"

definition untimed :: "(mark_dict, 'a) io \<Rightarrow> (timed, 'a) io" where
  "untimed m = (\<lambda>(d, t). case m d of (r, d') \<Rightarrow> (r, (d', t)))"

definition timed_settlement :: "timed settlement" where
  "timed_settlement = settlement_of (\<lambda>a p. ''d'') \<lparr>mk_claim = (\<lambda>k x. untimed (mk_claim dict_markers k x)),
     mk_read = (\<lambda>k. untimed (mk_read dict_markers k)), mk_recent = (\<lambda>p. untimed (mk_recent dict_markers p))\<rparr> ''U3'' ''alpha''"

definition idle_reader :: "timed reader" where
  "idle_reader = \<lparr>rd_resolve = (\<lambda>r. io_return (sample_unknown (sr_order_id r))), rd_set_timeout = None,
     rd_clock = (\<lambda>(d, t). (Inr (to_float t), (d, t))),
     rd_sleep = (\<lambda>x (d, t). (Inr (), (d, case x of Fin y \<Rightarrow> t + max 0 y | _ \<Rightarrow> t))), rd_unknown = sample_unknown\<rparr>"

lemma idle_time: "time_runs timed_settlement idle_reader snd"
  by (auto simp: time_runs_def store_keeps_def reader_keeps_def timed_settlement_def settlement_of_def idle_reader_def untimed_def io_keeps_def later_def io_return_def
      split: prod.split pyfloat.split)

theorem settle_pending_returns_witness:
  "\<exists>r w'. settle_pending timed_settlement idle_reader (Fin 30) 100 (Fin 15) (bound_world, 7) = Some (r, w')"
proof (rule settle_pending_returns [OF idle_time])
  fix d rd rs w1
  assume "settle_start timed_settlement idle_reader (Fin 30) 100 (Fin 15) (bound_world, 7) = (Inr (d, rd, rs), w1)"
  then have "d = fadd (to_float 7) (Fin 30)"
    by (auto simp: settle_start_def idle_reader_def io_bind_apply Let_def split: prod.splits sum.splits if_splits)
  moreover have "isfinite (fadd (to_float 7) (Fin 30))" by code_simp
  ultimately show "isfinite d" by simp
qed

end
