(* ===== verification/SettlementSubmit.thy ===== *)
theory SettlementSubmit
  imports SettlementReports SettlementEffects Orders
begin

text \<open>
  Submitting with a settlement record (\<open>track_submission\<close> and \<open>_CaptureOrder\<close> of
  \<open>application/order_settlement.py\<close>): the pending record is stored before the broker is called,
  and the broker's id is bound as soon as the broker returned the trade, inside the submitter.

  The submitter is a package function that is handed a connection; the capturing connection
  carries the trade it saw beside the outside world.
\<close>

section \<open>Submission\<close>

text \<open>
  A trade is a reference to an object of the client: its order id is fixed, but the permanent id
  of its order is filled in as the broker answers, so it is read from the outside world.
\<close>

record placed_trade =
  pt_object :: nat
  pt_order_id :: int

type_synonym 'w permanent_ids = "'w \<Rightarrow> placed_trade \<Rightarrow> int option"

type_synonym 'w captured = "'w \<times> placed_trade option"

definition capture_place ::
    "'w settlement \<Rightarrow> string \<Rightarrow> ('c \<Rightarrow> ('w, placed_trade) io) \<Rightarrow> 'c \<Rightarrow> ('w captured, placed_trade) io" where
  "capture_place s attempt place_order c = (\<lambda>(u, captured).
     case io_bind (place_order c) (\<lambda>t. io_bind (bind_order s attempt (int_text (pt_order_id t))) (\<lambda>_. io_return t)) u of
       (Inl x, u') \<Rightarrow> (Inl x, (u', captured))
     | (Inr t, u') \<Rightarrow> (Inr t, (u', Some t)))"

record 'w wait_reader = "'w reader" +
  wr_get_timeout :: "('w, pyfloat) io"
  wr_set_timeout :: "pyfloat \<Rightarrow> ('w, unit) io"

record submission =
  sb_attempt :: string
  sb_symbol :: string
  sb_side :: string
  sb_quantity :: pyval
  sb_client_id :: int
  sb_source_run_id :: string
  sb_source_started_at :: "string option"

text \<open>What follows the submitter's report: its id, the permanent id of the captured trade.\<close>

definition bind_report :: "'w settlement \<Rightarrow> string \<Rightarrow> exec_report \<Rightarrow> ('w, unit) io" where
  "bind_report s attempt rep =
     (if truthy (broker_order_id rep) then bind_order s attempt (v_str (broker_order_id rep)) else io_return ())"

definition bind_permanent_id :: "'w settlement \<Rightarrow> string \<Rightarrow> int option \<Rightarrow> ('w, unit) io" where
  "bind_permanent_id s attempt permanent =
     (case permanent of
        Some i \<Rightarrow> if 0 < i then io_bind (create_marker s attempt ''permanent'' (Permanent i)) (\<lambda>_. io_return ()) else io_return ()
      | None \<Rightarrow> io_return ())"

definition bind_permanent ::
    "'w settlement \<Rightarrow> string \<Rightarrow> 'w permanent_ids \<Rightarrow> placed_trade option \<Rightarrow> ('w, unit) io" where
  "bind_permanent s attempt perm captured w = bind_permanent_id s attempt (Option.bind captured (perm w)) w"

text \<open>\<open>try: ... finally: reader.RequestTimeout = previous_timeout\<close>.\<close>

definition settle_waiting :: "'w settlement \<Rightarrow> 'w wait_reader \<Rightarrow> pyfloat \<Rightarrow> 'w \<Rightarrow> (unit res \<times> 'w) option" where
  "settle_waiting s e wait_seconds w =
     (case wr_get_timeout e w of
        (Inl x, w1) \<Rightarrow> Some (Inl x, w1)
      | (Inr previous, w1) \<Rightarrow>
          (case (case io_bind (io_lift (fdiv wait_seconds (Fin 3))) (\<lambda>third. wr_set_timeout e (py_max (to_float (1 / 10)) third)) w1 of
              (Inl x, w2) \<Rightarrow> Some (Inl x, w2)
            | (Inr _, w2) \<Rightarrow> (case settle_pending s (reader.truncate e) wait_seconds 100 wait_seconds w2 of
                None \<Rightarrow> None
              | Some (Inl x, w3) \<Rightarrow> Some (Inl x, w3)
              | Some (Inr _, w3) \<Rightarrow> Some (Inr (), w3)))
           of
             None \<Rightarrow> None
           | Some (r, w4) \<Rightarrow> Some (case wr_set_timeout e previous w4 of
               (Inl x, w5) \<Rightarrow> (Inl x, w5)
             | (Inr _, w5) \<Rightarrow> (r, w5))))"

definition submit_tracked ::
    "'w settlement \<Rightarrow> ('w, string) io \<Rightarrow> ('c \<Rightarrow> ('w, placed_trade) io) \<Rightarrow> 'w permanent_ids
      \<Rightarrow> (('c \<Rightarrow> ('w captured, placed_trade) io) \<Rightarrow> ('w captured, exec_report) io) \<Rightarrow> submission \<Rightarrow> ('w, exec_report) io" where
  "submit_tracked s clock place_order perm submit b =
     io_bind clock (\<lambda>submitted_at.
     io_bind (prepare s (sb_attempt b) (sb_symbol b) (sb_side b) (sb_quantity b) (sb_client_id b) submitted_at
       (sb_source_run_id b) (sb_source_started_at b)) (\<lambda>_ w.
     case submit (capture_place s (sb_attempt b) place_order) (w, None) of
       (Inl x, (w1, _)) \<Rightarrow> (Inl x, w1)
     | (Inr rep, (w1, captured)) \<Rightarrow>
         io_bind (bind_report s (sb_attempt b) rep) (\<lambda>_.
         io_bind (bind_permanent s (sb_attempt b) perm captured) (\<lambda>_. io_return rep)) w1))"

definition track_submission ::
    "'w settlement \<Rightarrow> ('w, string) io \<Rightarrow> ('c \<Rightarrow> ('w, placed_trade) io) \<Rightarrow> 'w permanent_ids
      \<Rightarrow> (('c \<Rightarrow> ('w captured, placed_trade) io) \<Rightarrow> ('w captured, exec_report) io) \<Rightarrow> 'w wait_reader \<Rightarrow> pyfloat
      \<Rightarrow> submission \<Rightarrow> 'w \<Rightarrow> (exec_report res \<times> 'w) option" where
  "track_submission s clock place_order perm submit e wait_seconds b w =
     (case submit_tracked s clock place_order perm submit b w of
        (Inl x, w1) \<Rightarrow> Some (Inl x, w1)
      | (Inr rep, w1) \<Rightarrow>
          if \<not> ftruthy wait_seconds then Some (Inr rep, w1)
          else (case settle_waiting s e wait_seconds w1 of
              None \<Rightarrow> None
            | Some (Inl x, w2) \<Rightarrow> Some (Inl x, w2)
            | Some (Inr _, w2) \<Rightarrow> Some (Inr rep, w2)))"


section \<open>What submitting does to the store\<close>

definition marks_grow :: "'w settlement \<Rightarrow> ('w \<Rightarrow> string \<Rightarrow> meta option) \<Rightarrow> 'w \<Rightarrow> 'w \<Rightarrow> bool" where
  "marks_grow s cur u u' \<longleftrightarrow> grows s (cur u) (cur u')"

interpretation recording: effects "marks_grow s cur" for s :: "'w settlement" and cur
  by unfold_locales (auto simp: marks_grow_def reflp_def transp_def intro: grows_trans)

lemma store_grows: "markers_atomic (ss_store s) cur \<Longrightarrow> store_keeps (marks_grow s cur) s"
proof -
  assume m: "markers_atomic (ss_store s) cur"
  have "grows s (cur w) (cur (snd (mk_claim (ss_store s) k x w)))" for k x w
    using claim_facts [OF m, of k x w] by (cases "mk_claim (ss_store s) k x w") (auto intro: grows_upd)
  moreover have "cur (snd (mk_read (ss_store s) k w)) = cur w" for k w
    using read_facts [OF m, of k w] by (cases "mk_read (ss_store s) k w") simp
  moreover have "cur (snd (mk_recent (ss_store s) q w)) = cur w" for q w
    using recent_facts(1) [OF m, of q w] by (cases "mk_recent (ss_store s) q w") simp
  ultimately show ?thesis by (simp add: store_keeps_def io_keeps_def marks_grow_def)
qed

lemma binding_grows:
  assumes "markers_atomic (ss_store s) cur"
  shows "io_keeps (marks_grow s cur) (prepare s a y d q c t run st)" "io_keeps (marks_grow s cur) (bind_order s a i)"
    "io_keeps (marks_grow s cur) (bind_report s a rep)" "io_keeps (marks_grow s cur) (bind_permanent s a perm cap)"
proof -
  note m = store_keepsD(1,2) [OF store_grows [OF assms]]
  show "io_keeps (marks_grow s cur) (prepare s a y d q c t run st)" by (intro recording.prepare_order_keeps m)
  show b: "io_keeps (marks_grow s cur) (bind_order s a i)" for i by (intro recording.bind_order_keeps m)
  show "io_keeps (marks_grow s cur) (bind_report s a rep)" unfolding bind_report_def by (intro keeps keeps_split b)
  show "io_keeps (marks_grow s cur) (bind_permanent s a perm cap)"
  proof -
    have "io_keeps (marks_grow s cur) (bind_permanent_id s a i)" for i
      unfolding bind_permanent_id_def by (intro keeps keeps_split recording.create_marker_keeps m)
    then show ?thesis by (simp add: io_keeps_def bind_permanent_def)
  qed
qed

section \<open>No order without its record\<close>

lemma create_stores:
  assumes m: "markers_atomic (ss_store s) cur" and r: "create_marker s a suf x w = (Inr won, w')"
  shows "mark_at s (cur w') a suf = Some x"
proof -
  obtain v w1 where c: "mk_claim (ss_store s) (key_of s a suf) x w = (v, w1)" by fastforce
  from r c have a: "attempt_ok a" by (auto simp: create_marker_def settle_key_def split: if_splits)
  from r c a obtain b where b: "v = Inr b" by (cases v) (auto simp: create_marker_def settle_key_def io_bind_apply)
  have ok: "claim_ok (ss_store s) cur (key_of s a suf) x w" using m by (simp add: markers_atomic_def)
  show ?thesis
  proof (cases b)
    case True
    with ok c b r a show ?thesis by (auto simp: claim_ok_def create_marker_def settle_key_def mark_at_def io_bind_apply)
  next
    case False
    obtain y w2 where rd: "mk_read (ss_store s) (key_of s a suf) w1 = (y, w2)" by fastforce
    from m have "case mk_read (ss_store s) (key_of s a suf) w1 of (r, w') \<Rightarrow> cur w' = cur w1 \<and> (\<forall>x. r = Inr x \<longrightarrow> x = cur w1 (key_of s a suf))"
      by (simp add: markers_atomic_def)
    with rd have f: "cur w2 = cur w1" "\<And>z. y = Inr z \<Longrightarrow> z = cur w1 (key_of s a suf)" by auto
    from r c b False a rd have "y = Inr (Some x) \<and> w' = w2"
      by (cases y) (auto simp: create_marker_def read_marker_def settle_key_def io_bind_apply split: if_splits)
    with f show ?thesis by (simp add: mark_at_def)
  qed
qed

lemma prepare_stores:
  assumes m: "markers_atomic (ss_store s) cur" and r: "prepare s a y d q c t run st w = (Inr u, w')"
  shows "pending_of s (cur w') a \<noteq> None"
proof -
  from r obtain p b where "create_marker s a ''pending'' (Prepared p) w = (Inr b, w')"
    by (cases "prepared (ss_profile s) a y d q c t run st"; cases "fst (create_marker s a ''pending'' (Prepared (projr (prepared (ss_profile s) a y d q c t run st))) w)")
      (auto simp: prepare_def io_bind_apply split: prod.splits sum.splits)
  from create_stores [OF m this] show ?thesis by (simp add: pending_of_def)
qed

lemma bind_stores:
  assumes m: "markers_atomic (ss_store s) cur" and r: "bind_order s a i w = (Inr u, w')"
  shows "order_of s (cur w') a = Some i"
proof -
  from r obtain b where "create_marker s a ''broker'' (Broker i) w = (Inr b, w')"
    by (auto simp: bind_order_def io_bind_apply split: if_splits prod.splits sum.splits)
  from create_stores [OF m this] show ?thesis by (simp add: order_of_def)
qed

text \<open>
  What the parameters may do: the marker store and the clock place no order; the submitter, the
  reader and the connection write no markers of this scope except through the store.
\<close>

definition submission_env ::
    "'w settlement \<Rightarrow> ('w \<Rightarrow> string \<Rightarrow> meta option) \<Rightarrow> ('w \<Rightarrow> 'k list) \<Rightarrow> ('w, string) io \<Rightarrow> ('c \<Rightarrow> ('w, placed_trade) io)
      \<Rightarrow> (('c \<Rightarrow> ('w captured, placed_trade) io) \<Rightarrow> ('w captured, exec_report) io) \<Rightarrow> 'w wait_reader \<Rightarrow> bool" where
  "submission_env s cur book clock place_order submit e \<longleftrightarrow>
     (\<forall>k x u. book (snd (mk_claim (ss_store s) k x u)) = book u) \<and> (\<forall>k u. book (snd (mk_read (ss_store s) k u)) = book u)
     \<and> (\<forall>u. book (snd (clock u)) = book u \<and> grows s (cur u) (cur (snd (clock u))))
     \<and> (\<forall>a u. grows s (cur (fst u)) (cur (fst (snd (submit (capture_place s a place_order) u)))))
     \<and> reader_keeps (marks_grow s cur) (reader.truncate e)
     \<and> io_keeps (marks_grow s cur) (wr_get_timeout e) \<and> (\<forall>x. io_keeps (marks_grow s cur) (wr_set_timeout e x))"

lemma settle_waiting_grows:
  assumes m: "markers_atomic (ss_store s) cur" and rd: "reader_keeps (marks_grow s cur) (reader.truncate e)"
    and g: "io_keeps (marks_grow s cur) (wr_get_timeout e)" "\<And>x. io_keeps (marks_grow s cur) (wr_set_timeout e x)"
    and r: "settle_waiting s e ws w = Some y"
  shows "marks_grow s cur w (snd y)"
proof -
  note step = recording.step [of s cur]
  obtain p w1 where p: "wr_get_timeout e w = (p, w1)" by fastforce
  from io_keepsD [OF g(1) p] have g1: "marks_grow s cur w w1" .
  show ?thesis
  proof (cases p)
    case (Inl x)
    with r p g1 show ?thesis by (auto simp: settle_waiting_def)
  next
    case (Inr previous)
    define arm where "arm = io_bind (io_lift (fdiv ws (Fin 3))) (\<lambda>third. wr_set_timeout e (py_max (to_float (1 / 10)) third))"
    obtain q w2 where q: "arm w1 = (q, w2)" by fastforce
    have "io_keeps (marks_grow s cur) arm" unfolding arm_def by (intro keeps g)
    from step [OF g1 io_keepsD [OF this q]] have g2: "marks_grow s cur w w2" .
    have "\<exists>z w4. marks_grow s cur w w4 \<and> y = (case wr_set_timeout e previous w4 of (Inl x, w5) \<Rightarrow> (Inl x, w5) | (Inr _, w5) \<Rightarrow> (z, w5))"
    proof (cases q)
      case (Inl x)
      with r p Inr q [unfolded arm_def] g2 show ?thesis by (auto simp: settle_waiting_def)
    next
      case (Inr u)
      with r p \<open>p = Inr previous\<close> q [unfolded arm_def] obtain z w3 where sp: "settle_pending s (reader.truncate e) ws 100 ws w2 = Some (z, w3)"
        by (auto simp: settle_waiting_def split: option.splits)
      from step [OF g2 recording.settle_pending_keeps [OF store_grows [OF m] rd sp]] have "marks_grow s cur w w3" by simp
      with r p \<open>p = Inr previous\<close> q [unfolded arm_def] Inr sp show ?thesis by (cases z) (auto simp: settle_waiting_def)
    qed
    then obtain z w4 where w4: "marks_grow s cur w w4" "y = (case wr_set_timeout e previous w4 of (Inl x, w5) \<Rightarrow> (Inl x, w5) | (Inr _, w5) \<Rightarrow> (z, w5))"
      by blast
    obtain v w5 where v: "wr_set_timeout e previous w4 = (v, w5)" by fastforce
    from step [OF w4(1) io_keepsD [OF g(2) v]] w4(2) v show ?thesis by (cases v) auto
  qed
qed

text \<open>The record of this attempt was stored while the order book was unchanged, and is still there.\<close>

definition recorded_first ::
    "'w settlement \<Rightarrow> ('w \<Rightarrow> string \<Rightarrow> meta option) \<Rightarrow> ('w \<Rightarrow> 'k list) \<Rightarrow> ('w, string) io \<Rightarrow> submission \<Rightarrow> 'w \<Rightarrow> 'w \<Rightarrow> bool" where
  "recorded_first s cur book clock b w w' \<longleftrightarrow> (\<exists>t w1 w2. clock w = (Inr t, w1)
     \<and> prepare s (sb_attempt b) (sb_symbol b) (sb_side b) (sb_quantity b) (sb_client_id b) t (sb_source_run_id b) (sb_source_started_at b) w1 = (Inr (), w2)
     \<and> book w2 = book w \<and> pending_of s (cur w2) (sb_attempt b) \<noteq> None
     \<and> pending_of s (cur w') (sb_attempt b) = pending_of s (cur w2) (sb_attempt b))"

lemma recorded_first_stays:
  "recorded_first s cur book clock b w w' \<Longrightarrow> grows s (cur w') (cur w'') \<Longrightarrow> recorded_first s cur book clock b w w''"
  unfolding recorded_first_def by (metis grows_pending not_None_eq)

definition report_bound :: "'w settlement \<Rightarrow> (string \<Rightarrow> meta option) \<Rightarrow> string \<Rightarrow> exec_report res \<Rightarrow> bool" where
  "report_bound s m a r \<longleftrightarrow> (case r of
     Inr rep \<Rightarrow> truthy (broker_order_id rep) \<longrightarrow> order_of s m a = Some (v_str (broker_order_id rep))
   | Inl _ \<Rightarrow> True)"

lemma after_submit:
  assumes m: "markers_atomic (ss_store s) cur"
    and r: "io_bind (bind_report s a rep) (\<lambda>_. io_bind (bind_permanent s a perm cap) (\<lambda>_. io_return rep)) w = (r, w')"
  shows "grows s (cur w) (cur w') \<and> report_bound s (cur w') a r"
proof -
  obtain x4 w4 where b4: "bind_report s a rep w = (x4, w4)" by fastforce
  obtain x5 w5 where b5: "bind_permanent s a perm cap w4 = (x5, w5)" by fastforce
  have g4: "grows s (cur w) (cur w4)" using io_keepsD [OF binding_grows(3) [OF m] b4] by (simp add: marks_grow_def)
  have g5: "grows s (cur w4) (cur w5)" using io_keepsD [OF binding_grows(4) [OF m] b5] by (simp add: marks_grow_def)
  have bound: "order_of s (cur w4) a = Some (v_str (broker_order_id rep))" if "truthy (broker_order_id rep)" "x4 = Inr q" for q
    using bind_stores [OF m] b4 that by (auto simp: bind_report_def)
  show ?thesis
    using r b4 b5 g4 grows_trans [OF g4 g5] bound grows_order [OF g5]
    by (cases x4; cases x5) (auto simp: io_bind_apply report_bound_def)
qed

lemma submit_tracked_recorded:
  assumes m: "markers_atomic (ss_store s) cur" and env: "submission_env s cur book clock place_order submit e"
    and r: "submit_tracked s clock place_order perm submit b w = (r, w')"
  shows "grows s (cur w) (cur w') \<and> report_bound s (cur w') (sb_attempt b) r
    \<and> ((\<exists>x. r = Inl x) \<and> book w' = book w \<or> recorded_first s cur book clock b w w')"
proof -
  let ?prep = "\<lambda>t. prepare s (sb_attempt b) (sb_symbol b) (sb_side b) (sb_quantity b) (sb_client_id b) t (sb_source_run_id b) (sb_source_started_at b)"
  have quiet: "is_quiet book (?prep t)" for t
    using env by (intro quiet.prepare_order_keeps) (simp_all add: submission_env_def io_keeps_def same_log_def)
  obtain v w0 where c: "clock w = (v, w0)" by fastforce
  with env have c': "book w0 = book w" "grows s (cur w) (cur w0)" unfolding submission_env_def by (metis snd_conv)+
  show ?thesis
  proof (cases v)
    case (Inl x)
    with r c c' show ?thesis by (auto simp: submit_tracked_def report_bound_def)
  next
    case t: (Inr t)
    obtain u w2 where p: "?prep t w0 = (u, w2)" by fastforce
    from io_keepsD [OF quiet p] c' have b2: "book w2 = book w" by (simp add: same_log_def)
    from io_keepsD [OF binding_grows(1) [OF m] p] c'(2) have g2: "grows s (cur w) (cur w2)"
      unfolding marks_grow_def by (rule grows_trans [rotated])
    show ?thesis
    proof (cases u)
      case (Inl x)
      with r c p b2 g2 t show ?thesis by (auto simp: submit_tracked_def report_bound_def)
    next
      case (Inr u')
      obtain z w3 cap where sub: "submit (capture_place s (sb_attempt b) place_order) (w2, None) = (z, (w3, cap))" by (metis prod_cases3)
      with env have g3: "grows s (cur w2) (cur w3)" unfolding submission_env_def by (metis fst_conv snd_conv)
      from prepare_stores [OF m p [unfolded Inr]] c p b2 t Inr have rec: "recorded_first s cur book clock b w w2"
        by (auto simp: recorded_first_def)
      have "grows s (cur w3) (cur w') \<and> report_bound s (cur w') (sb_attempt b) r"
      proof (cases z)
        case (Inl x)
        with r c p sub t \<open>u = Inr u'\<close> show ?thesis by (auto simp: submit_tracked_def report_bound_def)
      next
        case (Inr rep)
        with r c p sub t \<open>u = Inr u'\<close> after_submit [OF m, of "sb_attempt b" rep perm cap w3 r w'] show ?thesis
          by (simp add: submit_tracked_def)
      qed
      with g2 g3 rec recorded_first_stays grows_trans show ?thesis by metis
    qed
  qed
qed

text \<open>
  C4.  No order leaves unrecorded.  However a tracked submission ends - a report, an exception of
  the submitter or of the observation after it - if the broker's order book changed then the
  pending record of this attempt had been stored before, while the book was still unchanged, and it
  is still there; what was stored is never lost; and a report with a broker id is bound to it.
\<close>

theorem submission_recorded:
  assumes m: "markers_atomic (ss_store s) cur" and env: "submission_env s cur book clock place_order submit e"
    and r: "track_submission s clock place_order perm submit e ws b w = Some (r, w')"
  shows "grows s (cur w) (cur w') \<and> (book w' \<noteq> book w \<longrightarrow> recorded_first s cur book clock b w w')
    \<and> (\<forall>rep. r = Inr rep \<and> truthy (broker_order_id rep) \<longrightarrow> order_of s (cur w') (sb_attempt b) = Some (v_str (broker_order_id rep)))"
proof -
  obtain v w1 where v: "submit_tracked s clock place_order perm submit b w = (v, w1)" by fastforce
  note f = submit_tracked_recorded [OF m env v]
  have "grows s (cur w1) (cur w') \<and> (w' = w1 \<or> (\<exists>rep. v = Inr rep)) \<and> (\<forall>rep. r = Inr rep \<longrightarrow> v = Inr rep)"
  proof (cases "\<exists>rep. v = Inr rep \<and> ftruthy ws")
    case False
    with r v show ?thesis by (cases v) (auto simp: track_submission_def)
  next
    case True
    with r v obtain rep y where y: "v = Inr rep" "settle_waiting s e ws w1 = Some y" "w' = snd y" "r = (case fst y of Inl x \<Rightarrow> Inl x | Inr _ \<Rightarrow> Inr rep)"
      by (auto simp: track_submission_def split: option.splits sum.splits)
    have "marks_grow s cur w1 (snd y)"
      using settle_waiting_grows [OF m _ _ _ y(2)] env by (auto simp: submission_env_def)
    with y show ?thesis by (cases "fst y") (auto simp: marks_grow_def)
  qed
  then have g: "grows s (cur w1) (cur w')" and w': "\<And>x. v = Inl x \<Longrightarrow> w' = w1" and rv: "\<And>rep. r = Inr rep \<Longrightarrow> v = Inr rep" by auto
  have "book w' \<noteq> book w \<longrightarrow> recorded_first s cur book clock b w w'"
    using f w' recorded_first_stays [OF _ g] by auto
  moreover have "order_of s (cur w') (sb_attempt b) = Some (v_str (broker_order_id rep))" if "r = Inr rep" "truthy (broker_order_id rep)" for rep
    using f rv [OF that(1)] that(2) by (intro grows_order [OF g]) (simp add: report_bound_def)
  moreover have "grows s (cur w) (cur w')" using f by (blast intro: grows_trans [OF _ g])
  ultimately show ?thesis by blast
qed

text \<open>A submitter that places one order through its connection, beside the dictionary store.\<close>

definition sample_place :: "string \<Rightarrow> (noted, placed_trade) io" where
  "sample_place c = (\<lambda>(d, l). (Inr \<lparr>pt_object = length l, pt_order_id = 73\<rparr>, (d, l @ [c])))"

text \<open>Its order has a permanent id once it is in the book.\<close>

definition sample_permanent :: "noted permanent_ids" where
  "sample_permanent u t = (if pt_object t < length (snd u) then Some 9 else None)"

definition sample_submit :: "(string \<Rightarrow> (noted captured, placed_trade) io) \<Rightarrow> (noted captured, exec_report) io" where
  "sample_submit place_order = io_bind (place_order ''TQQQ'') (\<lambda>t. io_return
     \<lparr>broker_order_id = VStr (int_text (pt_order_id t)), rep_status = VStr ''Submitted'', rep_symbol = VStr ''TQQQ'', rep_side = VStr ''sell'',
      rep_quantity = VInt 3, rep_filled_quantity = VInt 0, rep_average_fill_price = VNone\<rparr>)"

definition sample_wait_reader :: "noted wait_reader" where
  "sample_wait_reader = \<lparr>rd_resolve = (\<lambda>r. io_return (sample_unknown (sr_order_id r))), rd_set_timeout = None, rd_clock = io_return (Fin 0),
     rd_sleep = (\<lambda>_. io_return ()), rd_unknown = sample_unknown, wr_get_timeout = io_return (Fin 2), wr_set_timeout = (\<lambda>_. io_return ())\<rparr>"

definition sample_submission :: submission where
  "sample_submission = \<lparr>sb_attempt = sample_attempt, sb_symbol = ''TQQQ'', sb_side = ''sell'', sb_quantity = VInt 3, sb_client_id = 7,
     sb_source_run_id = ''run'', sb_source_started_at = None\<rparr>"

lemma sample_capture_grows:
  "grows noted_settlement ((dict_get \<circ> fst) (fst u)) ((dict_get \<circ> fst) (fst (snd (sample_submit (capture_place noted_settlement a sample_place) u))))"
proof -
  obtain d l cap where u: "u = ((d, l), cap)" by (metis prod.collapse)
  have m: "markers_atomic (ss_store noted_settlement) (dict_get \<circ> fst)"
    by (simp add: noted_settlement_def settlement_of_def noted_markers_atomic)
  obtain v w where b: "bind_order noted_settlement a ''73'' (d, l @ [''TQQQ'']) = (v, w)" by (metis surj_pair)
  have t: "int_text 73 = ''73''" by code_simp
  from io_keepsD [OF binding_grows(2) [OF m] b] have "grows noted_settlement (dict_get d) ((dict_get \<circ> fst) w)"
    by (simp add: marks_grow_def)
  then show ?thesis
    by (cases v) (simp_all add: u sample_submit_def capture_place_def sample_place_def io_bind_apply t b)
qed

lemma sample_submission_env:
  "submission_env noted_settlement (dict_get \<circ> fst) snd (io_return ''2026-11-03T14:31:00+00:00'') sample_place sample_submit sample_wait_reader"
  unfolding submission_env_def reader_keeps_def
  using sample_capture_grows
  by (auto simp: noted_settlement_def settlement_of_def noted_markers_def beside_def sample_wait_reader_def reader.truncate_def
      intro!: keeps split: prod.split)

lemma noted_claims:
  assumes "dict_get d (key_of noted_settlement sample_attempt suf) \<in> {None, Some x}"
  shows "\<exists>won. create_marker noted_settlement sample_attempt suf x (d, l)
    = (Inr won, (dict_set d (key_of noted_settlement sample_attempt suf) x, l))"
proof -
  have set_same: "dict_get d k = Some x \<Longrightarrow> dict_set d k x = d" for k and d :: mark_dict
    by (induction d) (auto split: if_split_asm)
  have store: "ss_store noted_settlement = noted_markers" by (simp add: noted_settlement_def settlement_of_def)
  show ?thesis
    using assms set_same
    by (cases "dict_get d (key_of noted_settlement sample_attempt suf)")
      (auto simp: create_marker_def settle_key_def sample_attempt_ok store noted_markers_def beside_def dict_markers_def
        read_marker_def io_bind_apply io_lift_def io_return_def)
qed

lemma noted_key_inject: "key_of noted_settlement sample_attempt x = key_of noted_settlement sample_attempt y \<longleftrightarrow> x = y"
  by (simp add: key_of_def)

lemma sample_tracked:
  "\<exists>rep d. submit_tracked noted_settlement (io_return ''2026-11-03T14:31:00+00:00'') sample_place sample_permanent sample_submit
      sample_submission ([], []) = (Inr rep, (d, [''TQQQ''])) \<and> broker_order_id rep = VStr ''73''"
proof -
  let ?k = "key_of noted_settlement sample_attempt"
  define d1 where "d1 = dict_set [] (?k ''pending'') (Prepared sample_pending_order)"
  define d2 where "d2 = dict_set d1 (?k ''broker'') (Broker ''73'')"
  define d3 where "d3 = dict_set d2 (?k ''broker'') (Broker ''73'')"
  define d4 where "d4 = dict_set d3 (?k ''permanent'') (Permanent 9)"
  let ?t = "\<lparr>pt_object = 0, pt_order_id = 73\<rparr>"
  have id: "order_id_ok ''73''" "int_text 73 = ''73''" by code_simp+
  have profile: "ss_profile noted_settlement = ''alpha''" by (simp add: noted_settlement_def settlement_of_def)
  have new: "dict_get [] (?k ''pending'') \<in> {None, Some (Prepared sample_pending_order)}"
    "dict_get d1 (?k ''broker'') \<in> {None, Some (Broker ''73'')}" "dict_get d2 (?k ''broker'') \<in> {None, Some (Broker ''73'')}"
    "dict_get d3 (?k ''permanent'') \<in> {None, Some (Permanent 9)}"
    by (simp_all add: d1_def d2_def d3_def noted_key_inject)
  have p: "prepare noted_settlement sample_attempt ''TQQQ'' ''sell'' (VInt 3) 7 ''2026-11-03T14:31:00+00:00'' ''run'' None ([], [])
      = (Inr (), (d1, []))"
    using noted_claims [OF new(1), of "[]"] by (auto simp: d1_def prepare_def profile sample_order_prepared io_bind_apply io_lift_def io_return_def)
  have b: "bind_order noted_settlement sample_attempt ''73'' (d, [''TQQQ'']) = (Inr (), (dict_set d (?k ''broker'') (Broker ''73''), [''TQQQ'']))"
    if "dict_get d (?k ''broker'') \<in> {None, Some (Broker ''73'')}" for d
    using noted_claims [OF that, of "[''TQQQ'']"] by (auto simp: bind_order_def id io_bind_apply io_return_def)
  have c: "capture_place noted_settlement sample_attempt sample_place ''TQQQ'' ((d1, []), None) = (Inr ?t, ((d2, [''TQQQ'']), Some ?t))"
    by (simp add: capture_place_def sample_place_def io_bind_apply io_return_def id b [OF new(2)] d2_def)
  obtain rep where r: "sample_submit (capture_place noted_settlement sample_attempt sample_place) ((d1, []), None) = (Inr rep, ((d2, [''TQQQ'']), Some ?t))"
      "broker_order_id rep = VStr ''73''"
    by (simp add: sample_submit_def c io_bind_apply io_return_def id)
  have v: "truthy (VStr ''73'')" "v_str (VStr ''73'') = ''73''" by code_simp+
  have bp: "bind_permanent noted_settlement sample_attempt sample_permanent (Some ?t) (d3, [''TQQQ''])
      = (Inr (), (d4, [''TQQQ'']))"
    using noted_claims [OF new(4), of "[''TQQQ'']"] unfolding d4_def
    by (auto simp: bind_permanent_def bind_permanent_id_def sample_permanent_def io_bind_apply io_return_def)
  have sub: "sb_attempt sample_submission = sample_attempt" "sb_symbol sample_submission = ''TQQQ''" "sb_side sample_submission = ''sell''"
    "sb_quantity sample_submission = VInt 3" "sb_client_id sample_submission = 7" "sb_source_run_id sample_submission = ''run''"
    "sb_source_started_at sample_submission = None" by (simp_all add: sample_submission_def)
  have "submit_tracked noted_settlement (io_return ''2026-11-03T14:31:00+00:00'') sample_place sample_permanent sample_submit
      sample_submission ([], []) = (Inr rep, (d4, [''TQQQ'']))"
    using b [OF new(3), folded d3_def]
    by (simp add: submit_tracked_def sub io_bind_apply io_return_def p r bind_report_def v bp)
  with r(2) show ?thesis by blast
qed

theorem submission_recorded_witness:
  "\<exists>r w'. track_submission noted_settlement (io_return ''2026-11-03T14:31:00+00:00'') sample_place sample_permanent sample_submit sample_wait_reader (Fin 0)
       sample_submission ([], []) = Some (Inr r, w')
     \<and> snd w' = [''TQQQ''] \<and> pending_of noted_settlement (dict_get (fst w')) sample_attempt \<noteq> None
     \<and> order_of noted_settlement (dict_get (fst w')) sample_attempt = Some ''73''"
proof -
  let ?run = "track_submission noted_settlement (io_return ''2026-11-03T14:31:00+00:00'') sample_place sample_permanent sample_submit sample_wait_reader (Fin 0)
       sample_submission ([], [])"
  obtain rep w' where t: "submit_tracked noted_settlement (io_return ''2026-11-03T14:31:00+00:00'') sample_place sample_permanent sample_submit sample_submission ([], []) = (Inr rep, w')"
      and rep: "broker_order_id rep = VStr ''73''" "snd w' = [''TQQQ'']"
    using sample_tracked by fastforce
  from t have run: "?run = Some (Inr rep, w')" by (simp add: track_submission_def ftruthy_def)
  have m: "markers_atomic (ss_store noted_settlement) (dict_get \<circ> fst)"
    by (simp add: noted_settlement_def settlement_of_def noted_markers_atomic)
  from submission_recorded [OF m sample_submission_env run] run rep show ?thesis
    by (auto simp: sample_submission_def recorded_first_def)
qed

end
