(* ===== verification/SettlementRoute.thy ===== *)
theory SettlementRoute
  imports SettlementReports SettlementEffects Orders
begin

text \<open>
  Settlements in the reports and the settlement endpoint: the switch, the amended receipt, the
  candidate of a settlement and the projection of candidates onto a day's row
  (\<open>application/settlement_reporting.py\<close>), and the authenticated request that settles what is open
  and publishes it (\<open>application/settlement_route.py\<close>).

  The run lock, the broker connection, the verification of identity tokens, the event factory and
  the candidate store are parameters.
\<close>

section \<open>The switch\<close>

definition settlement_enabled :: "(string, string) dict \<Rightarrow> bool res" where
  "settlement_enabled env =
     (let value = lower (dict_get_default env ''IBKR_ORDER_SETTLEMENT_ENABLED'' ''false'') in
      if value \<notin> {''true'', ''false'', ''1'', ''0''} then Inl (ValueError ''settlement_switch_invalid'')
      else Inr (value \<in> {''true'', ''1''}))"

section \<open>The receipt\<close>

definition receipt_keys :: "string list" where
  "receipt_keys = [''orders_submitted'', ''orders_pending'', ''orders_filled'', ''orders_partially_filled'', ''orders_rejected_or_cancelled'']"

type_synonym identity = "string \<times> pyval \<times> pyval \<times> pyval"

definition row_identity :: "pyval \<Rightarrow> identity option res" where
  "row_identity v = (case v of
     VDict d \<Rightarrow>
       (if \<not> truthy (vd_get d ''broker_order_id'') \<or> list_ex (\<lambda>k. vd_get d k = VNone) [''symbol'', ''side'', ''quantity''] then Inr None
        else Inr (Some (v_str (vd_get d ''broker_order_id''), vd_get d ''symbol'', vd_get d ''side'', vd_get d ''quantity'')))
   | _ \<Rightarrow> Inl (AttributeError ''get''))"

definition same_identity :: "identity \<Rightarrow> identity \<Rightarrow> bool" where
  "same_identity x y = (case (x, y) of ((i, a, b, c), (i', a', b', c')) \<Rightarrow> i = i' \<and> v_eq a a' \<and> v_eq b b' \<and> v_eq c c')"

text \<open>Putting an identity into a set hashes it.\<close>

definition hash_identity :: "identity option \<Rightarrow> identity option res" where
  "hash_identity x = (case x of
     Some (i, a, b, c) \<Rightarrow> if hashable a \<and> hashable b \<and> hashable c then Inr x else Inl (TypeError ''unhashable type'')
   | None \<Rightarrow> Inr None)"

definition within_identities :: "identity list \<Rightarrow> identity list \<Rightarrow> bool" where
  "within_identities xs ys = list_all (\<lambda>x. list_ex (same_identity x) ys) xs"

fun distinct_identities :: "identity list \<Rightarrow> bool" where
  "distinct_identities [] = True"
| "distinct_identities (x # xs) = (\<not> list_ex (same_identity x) xs \<and> distinct_identities xs)"

definition receipt_rows :: "row \<Rightarrow> pyval list res" where
  "receipt_rows baseline =
     res_bind (res_map (\<lambda>k. v_iter (v_or (vd_get baseline k) (VTuple []))) receipt_keys) (\<lambda>rows. Inr (concat rows))"

definition amended_receipt :: "row \<Rightarrow> row \<Rightarrow> row" where
  "amended_receipt baseline observation =
     (let b = foldl (\<lambda>b k. dict_set b k (dict_get_default observation k (VList []))) baseline receipt_keys in
      dict_set b ''execution_status'' (VStr (if truthy (vd_get b ''orders_pending'') then ''pending_reconciliation'' else ''completed'')))"

definition settlement_receipt_summary :: "row \<Rightarrow> row \<Rightarrow> row res" where
  "settlement_receipt_summary baseline observation =
     (let status = vd_get baseline ''execution_status'' in
      if \<not> hashable status then Inl (TypeError ''unhashable type'')
      else if status \<notin> {VStr ''executed'', VStr ''completed'', VStr ''pending_reconciliation''}
          \<or> list_ex (\<lambda>(k, v). startswith k ''option_orders_'' \<and> truthy v) baseline then Inr baseline
      else res_bind (receipt_rows baseline) (\<lambda>original. case dict_get observation ''orders_submitted'' of
          None \<Rightarrow> Inl (KeyError ''orders_submitted'')
        | Some observed \<Rightarrow>
            if original = [] \<or> \<not> truthy observed then Inr baseline
            else res_bind (res_map (\<lambda>r. res_bind (row_identity r) hash_identity) original) (\<lambda>expected.
              res_bind (v_iter observed) (\<lambda>rows. res_bind (res_map row_identity rows) (\<lambda>actual.
              if None \<in> set expected \<or> None \<in> set actual then Inr baseline
              else res_bind (res_map hash_identity actual) (\<lambda>_.
                let xs = List.map the expected; ys = List.map the actual in
                if \<not> distinct_identities ys \<or> \<not> within_identities xs ys \<or> \<not> within_identities ys xs then Inr baseline
                else Inr (amended_receipt baseline observation)))))))"

section \<open>Candidates\<close>

text \<open>The event (a class of the notification package) with what the code does to it.\<close>

record ('w, 'e) publisher =
  pb_event :: "string \<Rightarrow> string \<Rightarrow> ('w, 'e) io"
  pb_with_digest :: "'e \<Rightarrow> string \<Rightarrow> 'e"
  pb_candidate :: "'e \<Rightarrow> ('w, row) io"
  pb_sha256 :: "string \<Rightarrow> string"
  pb_persist :: "row \<Rightarrow> settle_row \<Rightarrow> ('w, bool) io"

definition settlement_candidate :: "('w, 'e) publisher \<Rightarrow> settle_row \<Rightarrow> ('w, unit) io" where
  "settlement_candidate pb w =
     io_bind (pb_event pb (rw_source_run_id w) (if rw_source_started_at w \<noteq> [] then rw_source_started_at w else rw_submitted_at w)) (\<lambda>e.
     io_bind (pb_candidate pb (pb_with_digest pb e (pb_sha256 pb (rw_attempt w)))) (\<lambda>fact.
     case dict_get fact ''dedupe_key'' of
       None \<Rightarrow> io_raise (KeyError ''dedupe_key'')
     | Some k \<Rightarrow> io_bind (pb_persist pb (dict_set fact ''dedupe_key'' (VStr (pb_sha256 pb (v_str k @ rw_attempt w)))) w) (\<lambda>stored.
         if stored then io_return () else io_raise (RuntimeError ''settlement_candidate_unconfirmed''))))"

section \<open>Projection onto a day's row\<close>

record day_item =
  it_event :: row
  it_settlement :: "settle_row option"
  it_conflict :: pyval

definition filled_positive :: "settle_row \<Rightarrow> bool res" where
  "filled_positive w = (case rw_filled w of None \<Rightarrow> Inl (TypeError ''not supported between instances'') | Some f \<Rightarrow> Inr (flt (Fin 0) f))"

definition event_kind :: "row \<Rightarrow> pyval res" where
  "event_kind d = (case dict_get d ''event_kind'' of None \<Rightarrow> Inl (KeyError ''event_kind'') | Some k \<Rightarrow> Inr k)"

definition project_item :: "bool \<Rightarrow> day_item \<Rightarrow> row option res" where
  "project_item terminal i = (case it_settlement i of
     Some w \<Rightarrow>
       if rw_terminal w then res_bind (filled_positive w) (\<lambda>pos.
         Inr (Some (dict_set (it_event i) ''event_kind'' (VStr (if pos then ''fill'' else ''order_cancelled'')))))
       else Inr (Some (dict_set (it_event i) ''event_kind'' (VStr ''order_status_unknown'')))
   | None \<Rightarrow>
       if terminal then res_bind (event_kind (it_event i)) (\<lambda>k. Inr (if v_eq k (VStr ''order_status_unknown'') then None else Some (it_event i)))
       else Inr (Some (it_event i)))"

definition set_fill_count :: "pyval \<Rightarrow> string \<Rightarrow> row \<Rightarrow> row res" where
  "set_fill_count count status d =
     (case dict_get d ''field_status'' of
        Some (VDict f) \<Rightarrow> Inr (dict_set (dict_set d ''fill_count'' count) ''field_status'' (VDict (dict_set f ''fill_count'' (VStr status))))
      | Some _ \<Rightarrow> Inl (TypeError ''item assignment'')
      | None \<Rightarrow> Inl (KeyError ''field_status''))"

definition related_kinds :: "string list" where
  "related_kinds = [''routine_cycle'', ''healthy_heartbeat'', ''order_submitted'', ''fill'', ''order_settlement'', ''order_status_unknown'']"

definition unrelated_item :: "day_item \<Rightarrow> bool res" where
  "unrelated_item i = (if truthy (it_conflict i) then Inr True
     else res_bind (event_kind (it_event i)) (\<lambda>k. if \<not> hashable k then Inl (TypeError ''unhashable type'')
       else Inr (k \<notin> VStr ` set related_kinds)))"

text \<open>\<open>any(...)\<close>: stops at the first that holds.\<close>

fun res_any :: "('a \<Rightarrow> bool res) \<Rightarrow> 'a list \<Rightarrow> bool res" where
  "res_any f [] = Inr False"
| "res_any f (x # xs) = res_bind (f x) (\<lambda>b. if b then Inr True else res_any f xs)"

definition dict_pop :: "row \<Rightarrow> string \<Rightarrow> row" where
  "dict_pop d k = filter (\<lambda>(k', _). k' \<noteq> k) d"

definition move_status :: "row \<Rightarrow> string \<Rightarrow> string \<Rightarrow> string \<Rightarrow> row" where
  "move_status d target source standard = dict_set (dict_pop d source) target (dict_get_default d source (VStr standard))"

definition fills_known :: "settle_row list \<Rightarrow> bool" where
  "fills_known ws \<longleftrightarrow> distinct (concat (List.map (\<lambda>w. List.map fi_execution_id (rw_fills w)) ws))
     \<and> list_all (\<lambda>w. rw_filled w = Some (Fin 0) \<or> rw_fills w \<noteq> []) ws"

definition project_unresolved :: "row \<Rightarrow> row res" where
  "project_unresolved d = set_fill_count VNone ''unknown''
     (dict_update d [(''status'', VStr ''alert''), (''execution_status'', VStr ''reconciliation_required''),
       (''reason_code'', VStr ''order_settlement_unresolved'')])"

definition project_resolved :: "settle_row list \<Rightarrow> day_item list \<Rightarrow> row \<Rightarrow> row res" where
  "project_resolved ws items d =
     (let known = fills_known ws; count = length (concat (List.map rw_fills ws)) in
      res_bind (set_fill_count (if known then VInt (int count) else VNone) (if known then ''known'' else ''unknown'') d) (\<lambda>d.
      res_bind (res_any unrelated_item items) (\<lambda>unrelated.
      let cancelled = list_ex (\<lambda>w. rw_status w \<in> {''Cancelled'', ''Rejected''}) ws;
          d = dict_update d [(''status'', VStr (if unrelated \<or> cancelled then ''alert'' else ''ok'')),
            (''execution_status'', VStr (if unrelated \<or> cancelled then ''execution_alert'' else ''ok_filled''))] in
      Inr (if unrelated \<or> cancelled
        then dict_set d ''reason_code'' (VStr (if unrelated then ''notification_incident_observed'' else ''order_rejected_or_cancelled''))
        else dict_pop d ''reason_code''))))"

definition project_settlement_rows :: "(settle_row \<Rightarrow> string res) \<Rightarrow> row \<Rightarrow> day_item list \<Rightarrow> row res" where
  "project_settlement_rows text_of d items =
     (let ws = List.map_filter it_settlement items in
      if ws = [] then Inr d
      else if \<not> distinct (List.map rw_attempt ws) then Inl (ValueError ''settlement_candidate_duplicate'')
      else let terminal = (vd_get d ''order_count'' = VInt (int (length ws)) \<and> list_all rw_terminal ws) in
        res_bind (res_map text_of ws) (\<lambda>texts.
        let d = dict_set (dict_set d ''rebalance_conclusion'' (VStr (take 1024 (join ''; '' texts))))
              ''rebalance_kind'' (VStr (if \<not> terminal then ''pending'' else ''rebalance''));
            d = move_status (move_status d ''evidence_persistence_status'' ''persistence_status'' ''persisted'')
              ''evidence_delivery_status'' ''delivery_status'' ''pending_central'' in
        res_bind (res_map (project_item terminal) items) (\<lambda>projected.
        let d = dict_set d ''notification_events'' (VList (List.map VDict (List.map_filter id projected))) in
        if \<not> terminal then project_unresolved d else project_resolved ws items d)))"

section \<open>The endpoint\<close>

fun split_on :: "char \<Rightarrow> string \<Rightarrow> string list" where
  "split_on sep [] = [[]]"
| "split_on sep (c # cs) = (if c = sep then [] # split_on sep cs
     else case split_on sep cs of [] \<Rightarrow> [[c]] | t # ts \<Rightarrow> (c # t) # ts)"

type_synonym response = "row \<times> int"

record ('w, 'e, 'ib) route =
  rt_env :: "(string, string) dict"
  rt_authorization :: string
  rt_verify :: "string \<Rightarrow> string \<Rightarrow> ('w, pyval) io"
  rt_acquire :: "('w, bool) io"
  rt_release :: "('w, unit) io"
  rt_has_body :: "('w, bool) io"
  rt_account_ids :: "string list"
  rt_profile :: string
  rt_markers :: "('w, 'w markers) io"
  rt_digest :: "string \<Rightarrow> string \<Rightarrow> string"
  rt_connect :: "('w, 'ib) io"
  rt_disconnect :: "'ib \<Rightarrow> ('w, unit) io"
  rt_request_timeout :: "'ib \<Rightarrow> pyfloat \<Rightarrow> ('w, unit) io"
  rt_reader :: "'ib \<Rightarrow> 'w reader"
  rt_send :: "string \<Rightarrow> ('w, bool) io"
  rt_publisher :: "('w, 'e) publisher"
  rt_notice :: "settle_row \<Rightarrow> string res"

definition caller_subjects :: "(string, string) dict \<Rightarrow> string list" where
  "caller_subjects env = filter (\<lambda>t. t \<noteq> []) (List.map strip (split_on (CHR '','') (dict_get_default env ''IBKR_SETTLEMENT_CALLER_SUBJECTS'' [])))"

definition claims_allowed :: "string list \<Rightarrow> pyval \<Rightarrow> bool" where
  "claims_allowed subjects claims = (case claims of
     VDict d \<Rightarrow> vd_get d ''iss'' \<in> {VStr ''accounts.google.com'', VStr ''https://accounts.google.com''}
       \<and> list_ex (\<lambda>t. vd_get d ''sub'' = VStr t) subjects
   | _ \<Rightarrow> False)"

definition authenticate_settlement :: "('w, 'e, 'ib) route \<Rightarrow> ('w, bool) io" where
  "authenticate_settlement m =
     (let audience = dict_get_default (rt_env m) ''IBKR_SETTLEMENT_OIDC_AUDIENCE'' []; subjects = caller_subjects (rt_env m) in
      if audience = [] \<or> subjects = [] \<or> \<not> startswith (rt_authorization m) ''Bearer '' then io_return False
      else io_catch (io_bind (rt_verify m (drop 7 (rt_authorization m)) audience) (\<lambda>claims. io_return (claims_allowed subjects claims)))
        (\<lambda>_. io_return False))"

definition runtime_settlement_store :: "('w, 'e, 'ib) route \<Rightarrow> ('w, 'w settlement) io" where
  "runtime_settlement_store m = (case rt_account_ids m of
     [account] \<Rightarrow> io_bind (rt_markers m) (\<lambda>mk. io_return (settlement_of (rt_digest m) mk account (rt_profile m)))
   | _ \<Rightarrow> io_raise (ValueError ''settlement_single_account_required''))"

definition refusal :: "string \<Rightarrow> int \<Rightarrow> response" where
  "refusal t code = ([(''error'', VStr t)], code)"

definition settle_counts :: "settle_summary \<Rightarrow> response" where
  "settle_counts su = ([(''status'', VStr (su_execution_status su)), (''filled'', VInt (int (length (su_filled su)))),
     (''partially_filled'', VInt (int (length (su_partially_filled su)))),
     (''rejected_or_cancelled'', VInt (int (length (su_rejected_or_cancelled su)))),
     (''unresolved'', VInt (int (length (su_pending su))))], 200)"

text \<open>The broker part: store and connection, then settling and publishing on the connection.\<close>

definition settle_on :: "('w, 'e, 'ib) route \<Rightarrow> 'w settlement \<Rightarrow> 'ib \<Rightarrow> 'w \<Rightarrow> (response res \<times> 'w) option" where
  "settle_on m s ib w =
     (case rt_request_timeout m ib (Fin 2) w of
        (Inl x, w1) \<Rightarrow> Some (Inl x, w1)
      | (Inr _, w1) \<Rightarrow> (case settle_pending s (rt_reader m ib) (Fin 0) 100 (Fin 15) w1 of
          None \<Rightarrow> None
        | Some (Inl x, w2) \<Rightarrow> Some (Inl x, w2)
        | Some (Inr su, w2) \<Rightarrow> Some (io_bind (publish_settlement_notices s (rt_notice m) (settlement_candidate (rt_publisher m)) (\<lambda>_. rt_send m) su)
            (\<lambda>_. io_return (settle_counts su)) w2)))"

text \<open>\<open>try\<close> with its \<open>except Exception\<close> and \<open>finally\<close>: the connection is closed, then the lock released.\<close>

definition locked_settle :: "('w, 'e, 'ib) route \<Rightarrow> 'w \<Rightarrow> ((response res \<times> 'ib option) \<times> 'w) option" where
  "locked_settle m w =
     (case rt_has_body m w of
        (Inl x, w1) \<Rightarrow> Some ((Inl x, None), w1)
      | (Inr True, w1) \<Rightarrow> Some ((Inr (refusal ''settlement_body_not_allowed'' 400), None), w1)
      | (Inr False, w1) \<Rightarrow> (case io_bind (runtime_settlement_store m) (\<lambda>s. io_bind (rt_connect m) (\<lambda>ib. io_return (s, ib))) w1 of
            (Inl x, w2) \<Rightarrow> Some ((Inl x, None), w2)
          | (Inr (s, ib), w2) \<Rightarrow> map_option (\<lambda>(r, w3). ((r, Some ib), w3)) (settle_on m s ib w2)))"

definition close_and_release :: "('w, 'e, 'ib) route \<Rightarrow> 'ib option \<Rightarrow> ('w, unit) io" where
  "close_and_release m ib = (\<lambda>w.
     case (case ib of None \<Rightarrow> io_return () | Some c \<Rightarrow> rt_disconnect m c) w of
       (r, w1) \<Rightarrow> (case rt_release m w1 of (Inl x, w2) \<Rightarrow> (Inl x, w2) | (Inr _, w2) \<Rightarrow> (r, w2)))"

definition handle_settle :: "('w, 'e, 'ib) route \<Rightarrow> 'w \<Rightarrow> (response res \<times> 'w) option" where
  "handle_settle m w =
     (case authenticate_settlement m w of
        (Inl x, w1) \<Rightarrow> Some (Inl x, w1)
      | (Inr False, w1) \<Rightarrow> Some (Inr (refusal ''settlement_unauthorized'' 403), w1)
      | (Inr True, w1) \<Rightarrow> (case settlement_enabled (rt_env m) of
            Inl x \<Rightarrow> Some (Inl x, w1)
          | Inr False \<Rightarrow> Some (Inr (refusal ''settlement_disabled'' 409), w1)
          | Inr True \<Rightarrow> (case rt_acquire m w1 of
              (Inl x, w2) \<Rightarrow> Some (Inl x, w2)
            | (Inr False, w2) \<Rightarrow> Some (Inr (refusal ''settlement_busy'' 409), w2)
            | (Inr True, w2) \<Rightarrow> (case locked_settle m w2 of
                None \<Rightarrow> None
              | Some ((r, ib), w3) \<Rightarrow>
                  (let answer = (case r of Inr a \<Rightarrow> a | Inl _ \<Rightarrow> ([(''error'', VStr ''settlement_read_or_publish_failed''), (''status'', VStr ''UNKNOWN'')], 503)) in
                   Some (case close_and_release m ib w3 of (Inl x, w4) \<Rightarrow> (Inl x, w4) | (Inr _, w4) \<Rightarrow> (Inr answer, w4)))))))"


section \<open>The lock and the connections\<close>

text \<open>Nothing but acquiring and releasing touches the lock, nothing but connecting and disconnecting the connections.\<close>

definition steady :: "('w \<Rightarrow> bool) \<Rightarrow> ('w \<Rightarrow> int) \<Rightarrow> 'w \<Rightarrow> 'w \<Rightarrow> bool" where
  "steady held conns u u' \<longleftrightarrow> held u' = held u \<and> conns u' = conns u"

interpretation steadying: effects "steady held conns" for held :: "'w \<Rightarrow> bool" and conns
  by unfold_locales (auto simp: steady_def reflp_def transp_def)

definition publisher_keeps :: "('w \<Rightarrow> 'w \<Rightarrow> bool) \<Rightarrow> ('w, 'e) publisher \<Rightarrow> bool" where
  "publisher_keeps R pb \<longleftrightarrow> (\<forall>i t. io_keeps R (pb_event pb i t)) \<and> (\<forall>e. io_keeps R (pb_candidate pb e)) \<and> (\<forall>d w. io_keeps R (pb_persist pb d w))"

lemma candidate_steady: "publisher_keeps (steady held conns) pb \<Longrightarrow> io_keeps (steady held conns) (settlement_candidate pb w)"
  unfolding settlement_candidate_def publisher_keeps_def by (intro keeps keeps_split) blast+

lemma publish_steady:
  assumes s: "store_keeps (steady held conns) s" and p: "\<And>w. io_keeps (steady held conns) (publish w)"
    and q: "\<And>w t. io_keeps (steady held conns) (send w t)"
  shows "io_keeps (steady held conns) (publish_settlement_notices s text_of publish send su)"
proof -
  have "io_keeps (steady held conns) (notify_rows s text_of publish send ws)" for ws
  proof (induction ws)
    case (Cons w ws)
    have "io_keeps (steady held conns) (notify_row s text_of publish send w)"
      unfolding notify_row_def read_marker_def
      by (intro keeps keeps_split p q store_keepsD [OF s] steadying.create_marker_keeps)
    with Cons show ?case unfolding notify_rows.simps by (intro keeps)
  qed (unfold notify_rows.simps, rule steadying.keeps_return)
  then show ?thesis by (simp add: publish_settlement_notices_def)
qed

text \<open>
  What the route relies on: the lock is exclusive, releasing what is held works, a connection is
  counted from \<open>connect\<close> to \<open>disconnect\<close>, and nothing else in the request touches either.
\<close>

definition route_ok :: "('w, 'e, 'ib) route \<Rightarrow> ('w \<Rightarrow> bool) \<Rightarrow> ('w \<Rightarrow> int) \<Rightarrow> bool" where
  "route_ok m held conns \<longleftrightarrow>
     (\<forall>t a. io_keeps (steady held conns) (rt_verify m t a)) \<and> io_keeps (steady held conns) (rt_has_body m)
     \<and> (\<forall>u. case rt_acquire m u of (r, u') \<Rightarrow> r = Inr (\<not> held u) \<and> held u' \<and> conns u' = conns u)
     \<and> (\<forall>u. held u \<longrightarrow> (case rt_release m u of (r, u') \<Rightarrow> r = Inr () \<and> \<not> held u' \<and> conns u' = conns u))
     \<and> (\<forall>u. case rt_markers m u of (r, u') \<Rightarrow> steady held conns u u' \<and> (\<forall>mk. r = Inr mk \<longrightarrow>
          (\<forall>a p. store_keeps (steady held conns) (settlement_of (rt_digest m) mk a p))))
     \<and> (\<forall>u. case rt_connect m u of (r, u') \<Rightarrow> held u' = held u \<and> conns u' = (case r of Inl _ \<Rightarrow> conns u | Inr _ \<Rightarrow> conns u + 1))
     \<and> (\<forall>ib u. case rt_disconnect m ib u of (r, u') \<Rightarrow> held u' = held u \<and> conns u' = (case r of Inl _ \<Rightarrow> conns u | Inr _ \<Rightarrow> conns u - 1))
     \<and> (\<forall>ib x. io_keeps (steady held conns) (rt_request_timeout m ib x)) \<and> (\<forall>ib. reader_keeps (steady held conns) (rt_reader m ib))
     \<and> (\<forall>t. io_keeps (steady held conns) (rt_send m t)) \<and> publisher_keeps (steady held conns) (rt_publisher m)"

lemma settle_on_steady:
  assumes ok: "route_ok m held conns" and s: "store_keeps (steady held conns) s" and r: "settle_on m s ib w = Some (x, w')"
  shows "steady held conns w w'"
proof -
  obtain v w1 where t: "rt_request_timeout m ib (Fin 2) w = (v, w1)" by fastforce
  have "io_keeps (steady held conns) (rt_request_timeout m ib (Fin 2))" using ok by (simp add: route_ok_def)
  from io_keepsD [OF this t] have g1: "steady held conns w w1" .
  show ?thesis
  proof (cases v)
    case (Inl y)
    with r t g1 show ?thesis by (simp add: settle_on_def)
  next
    case (Inr u)
    with r t obtain q w2 where p: "settle_pending s (rt_reader m ib) (Fin 0) 100 (Fin 15) w1 = Some (q, w2)"
      by (auto simp: settle_on_def split: option.splits)
    have "reader_keeps (steady held conns) (rt_reader m ib)" using ok by (simp add: route_ok_def)
    from steadying.step [OF g1] steadying.settle_pending_keeps [OF s this p] have g2: "steady held conns w w2" by simp
    show ?thesis
    proof (cases q)
      case (Inl y)
      with r t \<open>v = Inr u\<close> p g2 show ?thesis by (simp add: settle_on_def)
    next
      case (Inr su)
      have pub: "io_keeps (steady held conns) (settlement_candidate (rt_publisher m) row)" for row
        using ok by (intro candidate_steady) (simp add: route_ok_def)
      have snd_ok: "io_keeps (steady held conns) (rt_send m row)" for row using ok by (simp add: route_ok_def)
      from r t \<open>v = Inr u\<close> p Inr have run: "io_bind (publish_settlement_notices s (rt_notice m) (settlement_candidate (rt_publisher m)) (\<lambda>_. rt_send m) su)
          (\<lambda>_. io_return (settle_counts su)) w2 = (x, w')" by (simp add: settle_on_def)
      have "io_keeps (steady held conns) (io_bind (publish_settlement_notices s (rt_notice m) (settlement_candidate (rt_publisher m)) (\<lambda>_. rt_send m) su)
          (\<lambda>_. io_return (settle_counts su)))"
        by (intro keeps publish_steady s pub snd_ok)
      from steadying.step [OF g2 io_keepsD [OF this run]] show ?thesis .
    qed
  qed
qed

lemma locked_settle_steady:
  assumes ok: "route_ok m held conns" and r: "locked_settle m w = Some ((x, ib), w')"
  shows "held w' = held w \<and> conns w' = conns w + (case ib of None \<Rightarrow> 0 | Some _ \<Rightarrow> 1)"
proof -
  obtain v w1 where b: "rt_has_body m w = (v, w1)" by fastforce
  have "io_keeps (steady held conns) (rt_has_body m)" using ok by (simp add: route_ok_def)
  from io_keepsD [OF this b] have g1: "held w1 = held w" "conns w1 = conns w" by (simp_all add: steady_def)
  show ?thesis
  proof (cases "v = Inr False")
    case False
    with r b g1 show ?thesis by (cases v) (auto simp: locked_settle_def split: if_splits bool.splits)
  next
    case True
    obtain c w2 where c: "io_bind (runtime_settlement_store m) (\<lambda>s. io_bind (rt_connect m) (\<lambda>ib. io_return (s, ib))) w1 = (c, w2)" by fastforce
    have mk: "case rt_markers m u of (r, u') \<Rightarrow> steady held conns u u' \<and> (\<forall>mk. r = Inr mk \<longrightarrow>
          (\<forall>a p. store_keeps (steady held conns) (settlement_of (rt_digest m) mk a p)))" for u
      using ok by (simp add: route_ok_def)
    have con: "case rt_connect m u of (r, u') \<Rightarrow> held u' = held u \<and> conns u' = (case r of Inl _ \<Rightarrow> conns u | Inr _ \<Rightarrow> conns u + 1)" for u
      using ok by (simp add: route_ok_def)
    obtain p u1 where p: "runtime_settlement_store m w1 = (p, u1)" by fastforce
    have st: "steady held conns w1 u1 \<and> (\<forall>s. p = Inr s \<longrightarrow> store_keeps (steady held conns) s)"
      using p mk [of w1] steadying.refl [of held conns]
      by (auto simp: runtime_settlement_store_def io_bind_apply reflp_def split: list.splits prod.splits sum.splits)
    obtain k u2 where k: "rt_connect m u1 = (k, u2)" by fastforce
    with con [of u1] have kk: "held u2 = held u1" "conns u2 = (case k of Inl _ \<Rightarrow> conns u1 | Inr _ \<Rightarrow> conns u1 + 1)" by auto
    show ?thesis
    proof (cases c)
      case (Inl y)
      with r b True c p k kk st g1 show ?thesis
        by (cases p; cases k) (auto simp: locked_settle_def io_bind_apply steady_def)
    next
      case (Inr z)
      with c p k obtain s i where z: "z = (s, i)" "p = Inr s" "k = Inr i" "w2 = u2" by (cases p; cases k) (auto simp: io_bind_apply)
      with r b True c Inr obtain y where y: "settle_on m s i w2 = Some (y, w')" "x = y" "ib = Some i" by (auto simp: locked_settle_def)
      from settle_on_steady [OF ok _ y(1)] st z kk g1 y show ?thesis by (auto simp: steady_def)
    qed
  qed
qed

lemma close_releases:
  assumes ok: "route_ok m held conns" and h: "held w" and r: "close_and_release m ib w = (x, w')"
  shows "\<not> held w' \<and> (\<forall>u. x = Inr u \<longrightarrow> conns w' = conns w - (case ib of None \<Rightarrow> 0 | Some _ \<Rightarrow> 1))"
proof -
  obtain d w4 where d: "(case ib of None \<Rightarrow> io_return () | Some c \<Rightarrow> rt_disconnect m c) w = (d, w4)" by fastforce
  have "\<forall>i u. case rt_disconnect m i u of (r, u') \<Rightarrow> held u' = held u \<and> conns u' = (case r of Inl _ \<Rightarrow> conns u | Inr _ \<Rightarrow> conns u - 1)"
    using ok by (simp add: route_ok_def)
  with d h have w4: "held w4" "\<And>u. d = Inr u \<Longrightarrow> conns w4 = conns w - (case ib of None \<Rightarrow> 0 | Some _ \<Rightarrow> 1)"
    by (auto split: option.splits prod.splits sum.splits)
  obtain y w5 where y: "rt_release m w4 = (y, w5)" by fastforce
  have "held w4 \<longrightarrow> (case rt_release m w4 of (r, u') \<Rightarrow> r = Inr () \<and> \<not> held u' \<and> conns u' = conns w4)" using ok by (simp add: route_ok_def)
  with w4(1) y have "y = Inr ()" "\<not> held w5" "conns w5 = conns w4" by simp_all
  with r d y w4 show ?thesis by (auto simp: close_and_release_def)
qed

text \<open>
  C15.  The settlement endpoint keeps the run lock.  Whatever happens in a request - a refusal, an
  exception of the store, the broker, the notification or the disconnection - the lock is as it was
  before: released if this request took it, still held if somebody else holds it; and a request
  that answers has closed every connection it opened.  While the lock is held elsewhere, a request
  is only ever refused.
\<close>

theorem settle_route_releases:
  assumes ok: "route_ok m held conns" and r: "handle_settle m w = Some (r, w')"
  shows "held w' = held w \<and> (\<forall>a. r = Inr a \<longrightarrow> conns w' = conns w)
    \<and> (held w \<longrightarrow> (\<forall>a. r = Inr a \<longrightarrow> a \<in> {refusal ''settlement_unauthorized'' 403, refusal ''settlement_disabled'' 409, refusal ''settlement_busy'' 409}))"
proof -
  obtain v w1 where a: "authenticate_settlement m w = (v, w1)" by fastforce
  have "io_keeps (steady held conns) (authenticate_settlement m)"
    using ok unfolding authenticate_settlement_def Let_def route_ok_def by (intro keeps keeps_split) blast
  from io_keepsD [OF this a] have g1: "held w1 = held w" "conns w1 = conns w" by (simp_all add: steady_def)
  show ?thesis
  proof (cases "v = Inr True \<and> settlement_enabled (rt_env m) = Inr True")
    case False
    with r a g1 show ?thesis
      by (cases v; cases "settlement_enabled (rt_env m)") (auto simp: handle_settle_def split: bool.splits)
  next
    case True
    obtain l w2 where l: "rt_acquire m w1 = (l, w2)" by fastforce
    have "case rt_acquire m w1 of (r, u') \<Rightarrow> r = Inr (\<not> held w1) \<and> held u' \<and> conns u' = conns w1" using ok by (simp add: route_ok_def)
    with l have l2: "l = Inr (\<not> held w1)" "held w2" "conns w2 = conns w1" by simp_all
    show ?thesis
    proof (cases "held w")
      case True
      with r a \<open>v = Inr True \<and> settlement_enabled (rt_env m) = Inr True\<close> l l2 g1 show ?thesis by (auto simp: handle_settle_def)
    next
      case False
      with r a True l l2 g1 obtain x ib w3 where s: "locked_settle m w2 = Some ((x, ib), w3)"
        and rest: "(case close_and_release m ib w3 of (Inl x, w4) \<Rightarrow> (Inl x, w4) | (Inr _, w4) \<Rightarrow>
          (Inr (case x of Inr a \<Rightarrow> a | Inl _ \<Rightarrow> ([(''error'', VStr ''settlement_read_or_publish_failed''), (''status'', VStr ''UNKNOWN'')], 503)), w4)) = (r, w')"
        by (auto simp: handle_settle_def split: option.splits)
      from locked_settle_steady [OF ok s] l2 g1 have w3: "held w3" "conns w3 = conns w + (case ib of None \<Rightarrow> 0 | Some _ \<Rightarrow> 1)" by simp_all
      obtain y w4 where y: "close_and_release m ib w3 = (y, w4)" by fastforce
      from close_releases [OF ok w3(1) y] w3(2) rest y False show ?thesis by (cases y) (auto split: option.splits)
    qed
  qed
qed

text \<open>A world with the dictionary store, the lock and a count of connections; the broker knows nothing.\<close>

type_synonym served = "mark_dict \<times> bool \<times> int"

definition serving :: "(mark_dict, 'a) io \<Rightarrow> (served, 'a) io" where
  "serving m = (\<lambda>(d, l, n). case m d of (r, d') \<Rightarrow> (r, (d', l, n)))"

definition served_markers :: "served markers" where
  "served_markers = \<lparr>mk_claim = (\<lambda>k x. serving (mk_claim dict_markers k x)), mk_read = (\<lambda>k. serving (mk_read dict_markers k)),
     mk_recent = (\<lambda>p. serving (mk_recent dict_markers p))\<rparr>"

definition served_reader :: "served reader" where
  "served_reader = \<lparr>rd_resolve = (\<lambda>r. io_return (sample_unknown (sr_order_id r))), rd_set_timeout = None, rd_clock = io_return (Fin 7),
     rd_sleep = (\<lambda>_. io_return ()), rd_unknown = sample_unknown\<rparr>"

definition sample_route :: "(served, string, unit) route" where
  "sample_route = \<lparr>rt_env = [(''IBKR_SETTLEMENT_OIDC_AUDIENCE'', ''settle''), (''IBKR_SETTLEMENT_CALLER_SUBJECTS'', '' 17, 4''),
       (''IBKR_ORDER_SETTLEMENT_ENABLED'', ''TRUE'')],
     rt_authorization = ''Bearer token'', rt_verify = (\<lambda>_ _. io_return (VDict [(''iss'', VStr ''accounts.google.com''), (''sub'', VStr ''17'')])),
     rt_acquire = (\<lambda>(d, l, n). (Inr (\<not> l), (d, True, n))), rt_release = (\<lambda>(d, l, n). (Inr (), (d, False, n))),
     rt_has_body = io_return False, rt_account_ids = [''U3''], rt_profile = ''alpha'',
     rt_markers = io_return served_markers,
     rt_digest = (\<lambda>_ _. ''d''), rt_connect = (\<lambda>(d, l, n). (Inr (), (d, l, n + 1))), rt_disconnect = (\<lambda>_ (d, l, n). (Inr (), (d, l, n - 1))),
     rt_request_timeout = (\<lambda>_ _. io_return ()),
     rt_reader = (\<lambda>_. served_reader),
     rt_send = (\<lambda>_. io_return True),
     rt_publisher = \<lparr>pb_event = (\<lambda>i t. io_return i), pb_with_digest = (\<lambda>e d. e), pb_candidate = (\<lambda>e. io_return []),
       pb_sha256 = id, pb_persist = (\<lambda>_ _. io_return True)\<rparr>,
     rt_notice = (\<lambda>_. Inr ''settled'')\<rparr>"

lemma sample_route_ok: "route_ok sample_route (\<lambda>(d, l, n). l) (\<lambda>(d, l, n). n)"
  by (auto simp: route_ok_def sample_route_def served_markers_def served_reader_def steady_def io_keeps_def store_keeps_def reader_keeps_def publisher_keeps_def
      settlement_of_def serving_def io_return_def split: prod.splits)

lemma sample_settled:
  "settle_pending (settlement_of (\<lambda>_ _. ''d'') served_markers ''U3'' ''alpha'') served_reader (Fin 0) 100 (Fin 15) ([], True, 1)
     = Some (Inr (empty_summary\<lparr>su_execution_status := ''completed''\<rparr>), ([], True, 1))"
proof -
  have start: "settle_start (settlement_of (\<lambda>_ _. ''d'') served_markers ''U3'' ''alpha'') served_reader (Fin 0) 100 (Fin 15) ([], True, 1)
      = (Inr (Fin 7, Fin 22, []), ([], True, 1))" by code_simp
  have "settlement_summary (rd_unknown served_reader) (settlement_of (\<lambda>_ _. ''d'') served_markers ''U3'' ''alpha'') ([], True, 1)
      = (Inr (empty_summary\<lparr>su_execution_status := ''completed''\<rparr>), ([], True, 1))" by code_simp
  with start show ?thesis by (simp add: settle_pending_def)
qed

lemma sample_parts:
  "rt_authorization sample_route = ''Bearer token''"
  "rt_verify sample_route = (\<lambda>_ _. io_return (VDict [(''iss'', VStr ''accounts.google.com''), (''sub'', VStr ''17'')]))"
  "rt_acquire sample_route = (\<lambda>(d, l, n). (Inr (\<not> l), (d, True, n)))" "rt_release sample_route = (\<lambda>(d, l, n). (Inr (), (d, False, n)))"
  "rt_disconnect sample_route = (\<lambda>_ (d, l, n). (Inr (), (d, l, n - 1)))"
  by (simp_all add: sample_route_def)

lemma sample_admitted: "authenticate_settlement sample_route w = (Inr True, w)" "settlement_enabled (rt_env sample_route) = Inr True"
proof -
  have e: "caller_subjects (rt_env sample_route) = [''17'', ''4'']"
    by (simp add: sample_route_def caller_subjects_def dict_get_default_def strip_def is_space_def)
  have a: "dict_get (rt_env sample_route) ''IBKR_SETTLEMENT_OIDC_AUDIENCE'' = Some ''settle''"
    by (simp add: sample_route_def)
  show "authenticate_settlement sample_route w = (Inr True, w)"
    by (simp add: authenticate_settlement_def Let_def e a sample_parts startswith_def claims_allowed_def vd_get_def dict_get_default_def io_simps)
  show "settlement_enabled (rt_env sample_route) = Inr True"
    by code_simp
qed

text \<open>An empty store is settled and answered; the same request while the lock is held elsewhere is refused.\<close>

theorem settle_route_releases_witness:
  "handle_settle sample_route ([], False, 0) = Some (Inr (settle_counts (empty_summary\<lparr>su_execution_status := ''completed''\<rparr>)), ([], False, 0))
    \<and> (\<exists>d n. handle_settle sample_route ([], True, 0) = Some (Inr (refusal ''settlement_busy'' 409), (d, True, n)))"
proof
  have "locked_settle sample_route ([], True, 0) = Some ((Inr (settle_counts (empty_summary\<lparr>su_execution_status := ''completed''\<rparr>)), Some ()), ([], True, 1))"
    using sample_settled
    by (simp add: locked_settle_def settle_on_def runtime_settlement_store_def sample_route_def io_simps publish_settlement_notices_def empty_summary_def)
  then show "handle_settle sample_route ([], False, 0) = Some (Inr (settle_counts (empty_summary\<lparr>su_execution_status := ''completed''\<rparr>)), ([], False, 0))"
    by (simp add: handle_settle_def sample_admitted close_and_release_def sample_parts)
  have busy: "handle_settle sample_route ([], True, 0) = Some (Inr (refusal ''settlement_busy'' 409), ([], True, 0))"
    by (simp add: handle_settle_def sample_admitted sample_parts)
  from settle_route_releases [OF sample_route_ok busy] busy
  show "\<exists>d n. handle_settle sample_route ([], True, 0) = Some (Inr (refusal ''settlement_busy'' 409), (d, True, n))" by auto
qed

end
