(* ===== verification/PaperCommands.thy ===== *)
theory PaperCommands
  imports Orders Effects
begin

text \<open>
  Reconciling a paper execution command with the account
  (\<open>application/paper_execution_command_consumer.py\<close>): a command carries target values, the account
  snapshot positions and cash, quotes give current prices; the result is what would have to be
  traded, and every reason not to trust it.

  The command store, which calls \<open>_reconcile\<close> for each due command, is a package; the snapshot and
  the quotes are records of the attributes the code reads.
\<close>

section \<open>Commands and portfolios\<close>

definition paper_intent_schema :: string where "paper_intent_schema = ''ibkr.paper-execution-intent.v1''"
definition notional_tolerance :: pyfloat where "notional_tolerance = to_float (1 / 100)"
definition half_percent :: pyfloat where "half_percent = to_float (5 / 1000)"

record paper_position =
  pp_symbol :: pyval
  pp_quantity :: pyval
  pp_market_value :: pyval

record paper_portfolio =
  pf_metadata :: pyval
  pf_positions :: "paper_position list"
  pf_total_equity :: pyval

datatype exposure = REDUCES | INCREASES | NEUTRAL

record proposal_details =
  pr_side :: string
  pr_quantity :: pyfloat
  pr_reference_price :: pyfloat
  pr_current_value :: pyfloat
  pr_target_value :: pyfloat
  pr_notional_delta :: pyfloat
  pr_current_quantity :: pyfloat

record proposal =
  pp_proposed :: string
  pp_effect :: exposure
  pp_details :: proposal_details

record reconciliation =
  rc_proposals :: "proposal list"
  rc_findings :: "string list"

definition consumer_enabled :: "pyval \<Rightarrow> bool \<Rightarrow> bool res" where
  "consumer_enabled flag dry_run_only =
     (if lower (v_text flag) \<notin> {''1'', ''true'', ''t'', ''yes'', ''y'', ''on''} then Inr False
      else if \<not> dry_run_only then Inl (RuntimeError ''IBKR paper command consumer requires IBKR_DRY_RUN_ONLY=true'')
      else Inr True)"

definition v_symbol :: "pyval \<Rightarrow> string" where
  "v_symbol v = upper (v_text v)"

definition v_symbols :: "pyval \<Rightarrow> string list" where
  "v_symbols v = (case v of
     VList xs \<Rightarrow> filter (\<lambda>t. t \<noteq> []) (List.map v_symbol xs)
   | VTuple xs \<Rightarrow> filter (\<lambda>t. t \<noteq> []) (List.map v_symbol xs)
   | _ \<Rightarrow> [])"

text \<open>\<open>_finite\<close>: what is not a number, or not finite, is a \<open>ValueError\<close>; an overflow is not.\<close>

definition v_finite :: "pyval \<Rightarrow> pyfloat res" where
  "v_finite v = (case v_float v of
     Inl e \<Rightarrow> if is_type_or_value_error e then Inl (ValueError ''must be numeric'') else Inl e
   | Inr x \<Rightarrow> if isfinite x then Inr x else Inl (ValueError ''must be finite''))"

definition paper_cash :: "paper_portfolio \<Rightarrow> pyfloat res" where
  "paper_cash p = (case pf_metadata p of
     VDict d \<Rightarrow> v_finite (vd_get d ''market_currency_cash'')
   | _ \<Rightarrow> Inl (ValueError ''portfolio metadata is unavailable''))"

section \<open>Targets\<close>

definition artifact_invalid :: reconciliation where
  "artifact_invalid = \<lparr>rc_proposals = [], rc_findings = [''data_artifact_invalid'']\<rparr>"

definition target_entry :: "string \<times> pyval \<Rightarrow> (string, pyfloat) dict \<Rightarrow> (string, pyfloat) dict res" where
  "target_entry kv targets = (case kv of (k, v) \<Rightarrow>
     if symbol_text k = [] then Inr targets else res_bind (v_finite v) (\<lambda>x. Inr (dict_set targets (symbol_text k) x)))"

text \<open>The targets of an intent, or \<open>None\<close> for an artifact that is refused as invalid.\<close>

definition command_targets :: "row \<Rightarrow> string list \<Rightarrow> (string, pyfloat) dict option res" where
  "command_targets intent managed =
     (if v_str (v_or (vd_get intent ''schema_version'') (VStr [])) \<noteq> paper_intent_schema then Inr None
      else if v_str (v_or (vd_get intent ''target_mode'') (VStr [])) \<noteq> ''value'' then Inr None
      else (case vd_get intent ''targets'' of
        VDict raw \<Rightarrow>
          (case res_fold target_entry raw [] of
             Inl (ValueError _) \<Rightarrow> Inr None
           | Inl e \<Rightarrow> Inl e
           | Inr targets \<Rightarrow>
               (let strategy = v_symbols (vd_get intent ''strategy_symbols''); expected = filter (\<lambda>t. t \<noteq> []) (List.map symbol_text managed) in
                if strategy = [] \<or> set strategy \<noteq> set expected \<or> set (dict_keys targets) \<noteq> set strategy
                   \<or> list_ex (\<lambda>(_, x). flt x (Fin 0)) targets then Inr None
                else Inr (Some targets)))
      | _ \<Rightarrow> Inr None))"

section \<open>Positions\<close>

definition mismatch :: string where "mismatch = ''position_reconciliation_mismatch''"

text \<open>The price of a quote, whatever goes wrong being one outcome: no price.\<close>

definition quoted_price :: "(string \<Rightarrow> ('w, pyval) io) \<Rightarrow> string \<Rightarrow> ('w, pyfloat option) io" where
  "quoted_price quote symbol = io_catch
     (io_bind (quote symbol) (\<lambda>last. io_bind (io_lift (v_finite last)) (\<lambda>price.
      io_return (if fle price (Fin 0) then None else Some price)))) (\<lambda>_. io_return None)"

record tally =
  ta_findings :: "string list"
  ta_quantities :: "(string, pyfloat) dict"
  ta_values :: "(string, pyfloat) dict"

definition found :: "tally \<Rightarrow> tally" where
  "found t = t\<lparr>ta_findings := ta_findings t @ [mismatch]\<rparr>"

definition add_to :: "(string, pyfloat) dict \<Rightarrow> string \<Rightarrow> pyfloat \<Rightarrow> (string, pyfloat) dict" where
  "add_to d k x = dict_set d k (fadd (dict_get_default d k (Fin 0)) x)"

text \<open>The recorded value must agree with quantity times price, within a tolerance, and not be short.\<close>

definition position_findings :: "pyfloat \<Rightarrow> pyfloat \<Rightarrow> pyfloat \<Rightarrow> string list" where
  "position_findings quantity recorded value =
     (if flt quantity (fneg notional_tolerance) \<or> flt recorded (fneg notional_tolerance) then [mismatch] else [])
     @ (if flt (py_max (Fin 1) (fmul (fabs value) half_percent)) (fabs (fsub recorded value)) then [mismatch] else [])"

definition position_step :: "(string \<Rightarrow> ('w, pyval) io) \<Rightarrow> string list \<Rightarrow> paper_position \<Rightarrow> tally \<Rightarrow> ('w, tally) io" where
  "position_step quote strategy p t =
     (let symbol = v_symbol (pp_symbol p) in
      if symbol \<notin> set strategy then io_return (found t)
      else (case (v_finite (pp_quantity p), v_finite (pp_market_value p)) of
        (Inr quantity, Inr recorded) \<Rightarrow> io_bind (quoted_price quote symbol) (\<lambda>price. io_return (case price of
            None \<Rightarrow> found t
          | Some price \<Rightarrow> let value = fmul quantity price in
              \<lparr>ta_findings = ta_findings t @ position_findings quantity recorded value,
               ta_quantities = add_to (ta_quantities t) symbol quantity, ta_values = add_to (ta_values t) symbol value\<rparr>))
      | _ \<Rightarrow> io_return (found t)))"

definition equity_check :: "paper_portfolio \<Rightarrow> tally \<Rightarrow> tally res" where
  "equity_check p t =
     (case res_bind (paper_cash p) (\<lambda>cash. res_bind (v_finite (pf_total_equity p)) (\<lambda>equity.
        Inr (flt (py_max (Fin 1) (fmul (fabs equity) half_percent)) (fabs (fsub (fadd cash (f_sum (dict_values (ta_values t)))) equity))))) of
        Inr off \<Rightarrow> Inr (if off then found t else t)
      | Inl (ValueError _) \<Rightarrow> Inr (found t)
      | Inl e \<Rightarrow> Inl e)"

section \<open>Proposals\<close>

definition exposure_effect :: "pyfloat \<Rightarrow> pyfloat \<Rightarrow> exposure" where
  "exposure_effect current target =
     (if flt (fabs target) (fsub (fabs current) notional_tolerance) then REDUCES
      else if flt (fadd (fabs current) notional_tolerance) (fabs target) then INCREASES else NEUTRAL)"

definition propose :: "tally \<Rightarrow> string \<Rightarrow> pyfloat \<Rightarrow> pyfloat \<Rightarrow> proposal res" where
  "propose t symbol target price =
     (let current = dict_get_default (ta_values t) symbol (Fin 0); delta = fsub target current in
      res_bind (fdiv (fabs delta) price) (\<lambda>quantity.
      Inr \<lparr>pp_proposed = symbol, pp_effect = exposure_effect current target,
        pp_details = \<lparr>pr_side = (if flt (Fin 0) delta then ''buy'' else ''sell''), pr_quantity = fround 8 quantity,
          pr_reference_price = fround 8 price, pr_current_value = fround 8 current, pr_target_value = fround 8 target,
          pr_notional_delta = fround 8 delta, pr_current_quantity = fround 8 (dict_get_default (ta_quantities t) symbol (Fin 0))\<rparr>\<rparr>))"

definition off_target :: "tally \<Rightarrow> (string, pyfloat) dict \<Rightarrow> string \<Rightarrow> bool" where
  "off_target t targets symbol \<longleftrightarrow>
     \<not> fle (fabs (fsub (dict_get_default targets symbol (Fin 0)) (dict_get_default (ta_values t) symbol (Fin 0)))) notional_tolerance"

definition proposal_step ::
    "(string \<Rightarrow> ('w, pyval) io) \<Rightarrow> (string, pyfloat) dict \<Rightarrow> string \<Rightarrow> tally \<times> proposal list \<Rightarrow> ('w, tally \<times> proposal list) io" where
  "proposal_step quote targets symbol acc = (case acc of (t, ps) \<Rightarrow>
     if \<not> off_target t targets symbol then io_return (t, ps)
     else io_bind (quoted_price quote symbol) (\<lambda>price. case price of
         None \<Rightarrow> io_return (found t, ps)
       | Some price \<Rightarrow> io_bind (io_lift (propose t symbol (dict_get_default targets symbol (Fin 0)) price)) (\<lambda>p. io_return (t, ps @ [p]))))"

definition empty_tally :: tally where
  "empty_tally = \<lparr>ta_findings = [], ta_quantities = [], ta_values = []\<rparr>"

definition reconcile :: "row \<Rightarrow> paper_portfolio \<Rightarrow> (string \<Rightarrow> ('w, pyval) io) \<Rightarrow> string list \<Rightarrow> ('w, reconciliation) io" where
  "reconcile intent portfolio quote managed =
     io_bind (io_lift (command_targets intent managed)) (\<lambda>targets. case targets of
       None \<Rightarrow> io_return artifact_invalid
     | Some targets \<Rightarrow>
         io_bind (io_fold (position_step quote (dict_keys targets)) (pf_positions portfolio) empty_tally) (\<lambda>t.
         io_bind (io_lift (equity_check portfolio t)) (\<lambda>t.
         io_bind (io_fold (proposal_step quote targets) (sort (remdups (dict_keys targets))) (t, [])) (\<lambda>(t, ps).
         io_return \<lparr>rc_proposals = ps, rc_findings = fromkeys (ta_findings t)\<rparr>))))"


section \<open>What a reconciliation without findings says\<close>

text \<open>
  The reference: each position with the price it was quoted at.  What the account holds of a symbol
  is the sum over all its positions, which is independent of the running tally.
\<close>

type_synonym quoted = "paper_position \<times> pyfloat"

definition quantity_of :: "paper_position \<Rightarrow> pyfloat" where
  "quantity_of p = (case v_finite (pp_quantity p) of Inr q \<Rightarrow> q | Inl _ \<Rightarrow> Fin 0)"

definition held :: "(pyfloat \<Rightarrow> pyfloat \<Rightarrow> pyfloat) \<Rightarrow> quoted list \<Rightarrow> string \<Rightarrow> pyfloat" where
  "held f pps symbol = foldl (\<lambda>sum (p, price). fadd sum (f (quantity_of p) price)) (Fin 0)
     (filter (\<lambda>(p, price). v_symbol (pp_symbol p) = symbol) pps)"

definition held_value :: "quoted list \<Rightarrow> string \<Rightarrow> pyfloat" where "held_value = held fmul"
definition held_quantity :: "quoted list \<Rightarrow> string \<Rightarrow> pyfloat" where "held_quantity = held (\<lambda>q price. q)"

definition held_symbols :: "quoted list \<Rightarrow> string list" where
  "held_symbols pps = fromkeys (List.map (\<lambda>(p, price). v_symbol (pp_symbol p)) pps)"

definition quotes :: "(string \<Rightarrow> ('w, pyval) io) \<Rightarrow> string \<Rightarrow> pyfloat \<Rightarrow> bool" where
  "quotes quote symbol price \<longleftrightarrow> (\<exists>last u u'. quote symbol u = (Inr last, u') \<and> v_finite last = Inr price) \<and> \<not> fle price (Fin 0)"

definition accounted :: "(string \<Rightarrow> ('w, pyval) io) \<Rightarrow> string list \<Rightarrow> quoted \<Rightarrow> bool" where
  "accounted quote symbols pp = (case pp of (p, price) \<Rightarrow> v_symbol (pp_symbol p) \<in> set symbols
     \<and> quotes quote (v_symbol (pp_symbol p)) price
     \<and> (\<exists>q v. v_finite (pp_quantity p) = Inr q \<and> v_finite (pp_market_value p) = Inr v
          \<and> position_findings q v (fmul q price) = []))"

lemma quoted_price_quotes:
  "quoted_price quote symbol w = (r, w') \<Longrightarrow> \<exists>p. r = Inr p \<and> (\<forall>x. p = Some x \<longrightarrow> quotes quote symbol x)"
  by (cases "quote symbol w")
    (auto simp: quoted_price_def quotes_def io_simps io_bind_apply split: sum.splits if_splits, blast)

lemma fromkeys_snoc: "fromkeys (xs @ [x]) = (if x \<in> set xs then fromkeys xs else fromkeys xs @ [x])"
  by (induction xs) auto

lemma dict_keys_set_list: "dict_keys (dict_set d k v) = (if k \<in> set (dict_keys d) then dict_keys d else dict_keys d @ [k])"
  by (induction d k v rule: dict_set.induct) (auto simp: dict_keys_def)

lemma held_snoc: "held f (pps @ [(p, price)]) symbol =
    (if v_symbol (pp_symbol p) = symbol then fadd (held f pps symbol) (f (quantity_of p) price) else held f pps symbol)"
  by (simp add: held_def)

text \<open>The running tally of a fold without findings is the reference.\<close>

definition tallied :: "(string \<Rightarrow> ('w, pyval) io) \<Rightarrow> string list \<Rightarrow> paper_position list \<Rightarrow> tally \<Rightarrow> quoted list \<Rightarrow> bool" where
  "tallied quote symbols xs t pps \<longleftrightarrow> List.map fst pps = xs \<and> list_all (accounted quote symbols) pps
     \<and> dict_keys (ta_values t) = held_symbols pps \<and> (\<forall>s. dict_get_default (ta_values t) s (Fin 0) = held_value pps s)
     \<and> (\<forall>s. dict_get_default (ta_quantities t) s (Fin 0) = held_quantity pps s)"

lemma position_step_tallied:
  assumes st: "position_step quote symbols p t w = (Inr t', w')" and none: "ta_findings t' = []"
    and old: "ta_findings t = [] \<Longrightarrow> \<exists>pps. tallied quote symbols xs t pps"
  shows "\<exists>pps. tallied quote symbols (xs @ [p]) t' pps"
proof -
  let ?s = "v_symbol (pp_symbol p)"
  have nf: "t' \<noteq> found t" using none by (auto simp: found_def)
  from st nf have s: "?s \<in> set symbols" by (auto simp: position_step_def Let_def split: if_splits)
  from st nf s obtain q v where qv: "v_finite (pp_quantity p) = Inr q" "v_finite (pp_market_value p) = Inr v"
    by (auto simp: position_step_def Let_def split: sum.splits)
  obtain y w1 where y: "quoted_price quote ?s w = (y, w1)" by fastforce
  from quoted_price_quotes [OF y] obtain o1 where o1: "y = Inr o1" "\<And>x. o1 = Some x \<Longrightarrow> quotes quote ?s x" by blast
  with st nf s qv y obtain price where price: "o1 = Some price"
    by (cases o1) (auto simp: position_step_def Let_def io_bind_apply)
  have t': "t' = \<lparr>ta_findings = ta_findings t @ position_findings q v (fmul q price),
      ta_quantities = add_to (ta_quantities t) ?s q, ta_values = add_to (ta_values t) ?s (fmul q price)\<rparr>"
    using st s qv y o1(1) price by (simp add: position_step_def Let_def io_bind_apply)
  with none old obtain pps where pps: "tallied quote symbols xs t pps" by auto
  have acc: "accounted quote symbols (p, price)" using s qv o1 price none t' by (auto simp: accounted_def)
  have q: "quantity_of p = q" by (simp add: quantity_of_def qv)
  have mem: "k \<in> set (dict_keys (ta_values t)) \<longleftrightarrow> k \<in> set (List.map (\<lambda>(p, price). v_symbol (pp_symbol p)) pps)" for k
    using pps by (simp add: tallied_def held_symbols_def)
  have "tallied quote symbols (xs @ [p]) t' (pps @ [(p, price)])"
    unfolding tallied_def
  proof (intro conjI allI)
    show "dict_keys (ta_values t') = held_symbols (pps @ [(p, price)])"
      using pps mem [of ?s] by (simp add: t' add_to_def dict_keys_set_list held_symbols_def fromkeys_snoc tallied_def)
    show "dict_get_default (ta_values t') k (Fin 0) = held_value (pps @ [(p, price)]) k" for k
      using pps by (auto simp: t' add_to_def held_value_def held_snoc q tallied_def dict_get_default_def)
    show "dict_get_default (ta_quantities t') k (Fin 0) = held_quantity (pps @ [(p, price)]) k" for k
      using pps by (auto simp: t' add_to_def held_quantity_def held_snoc q tallied_def dict_get_default_def)
  qed (use pps acc in \<open>simp_all add: tallied_def\<close>)
  then show ?thesis by blast
qed

lemma positions_accounted:
  assumes "io_fold (position_step quote symbols) ps empty_tally w = (Inr t, w')"
  shows "ta_findings t = [] \<longrightarrow> (\<exists>pps. tallied quote symbols ps t pps)"
  using assms
proof (induction rule: io_fold_rule)
  case init
  have "tallied quote symbols [] empty_tally []"
    by (simp add: tallied_def empty_tally_def dict_keys_def held_symbols_def held_value_def held_quantity_def held_def dict_get_default_def)
  then show ?case by blast
next
  case (step ys p zs t w t' w')
  from position_step_tallied [OF step(2)] step(3) show ?case by blast
qed

text \<open>A proposal says which way its symbol is off target, by how much and at which price.\<close>

definition off_by :: "quoted list \<Rightarrow> (string, pyfloat) dict \<Rightarrow> string \<Rightarrow> pyfloat" where
  "off_by pps targets symbol = fsub (dict_get_default targets symbol (Fin 0)) (held_value pps symbol)"

definition proposal_right :: "(string \<Rightarrow> ('w, pyval) io) \<Rightarrow> quoted list \<Rightarrow> (string, pyfloat) dict \<Rightarrow> proposal \<Rightarrow> bool" where
  "proposal_right quote pps targets p \<longleftrightarrow>
     (let symbol = pp_proposed p; current = held_value pps symbol; target = dict_get_default targets symbol (Fin 0);
          delta = off_by pps targets symbol; d = pp_details p in
      pp_effect p = exposure_effect current target
      \<and> pr_side d = (if flt (Fin 0) delta then ''buy'' else ''sell'')
      \<and> pr_current_value d = fround 8 current \<and> pr_target_value d = fround 8 target
      \<and> pr_notional_delta d = fround 8 delta \<and> pr_current_quantity d = fround 8 (held_quantity pps symbol)
      \<and> (\<exists>price quantity. quotes quote symbol price \<and> fdiv (fabs delta) price = Inr quantity
           \<and> pr_quantity d = fround 8 quantity \<and> pr_reference_price d = fround 8 price))"

lemma off_target_reference:
  "tallied quote symbols xs t pps \<Longrightarrow> off_target t targets symbol \<longleftrightarrow> \<not> fle (fabs (off_by pps targets symbol)) notional_tolerance"
  by (simp add: off_target_def off_by_def tallied_def)

lemma propose_right:
  assumes "propose t symbol (dict_get_default targets symbol (Fin 0)) price = Inr p" and "quotes quote symbol price"
    and "tallied quote symbols xs t pps"
  shows "pp_proposed p = symbol \<and> proposal_right quote pps targets p"
  using assms by (auto simp: propose_def proposal_right_def off_by_def tallied_def Let_def elim!: res_bind_InrE)

lemma proposals_cover:
  assumes run: "io_fold (proposal_step quote targets) ys (t, []) w = (Inr (t', ps), w')" and ref: "tallied quote symbols xs t pps"
  shows "ta_findings t' = [] \<longrightarrow> t' = t \<and> List.map pp_proposed ps = filter (off_target t targets) ys
    \<and> list_all (proposal_right quote pps targets) ps"
proof -
  let ?ok = "\<lambda>ys ps. List.map pp_proposed ps = filter (off_target t targets) ys \<and> list_all (proposal_right quote pps targets) ps"
  have "case s of (t', ps) \<Rightarrow> ta_findings t' = [] \<longrightarrow> t' = t \<and> ?ok ys ps"
    if "io_fold (proposal_step quote targets) ys (t, []) w = (Inr s, w')" for s
    using that
  proof (induction rule: io_fold_rule)
    case (step xs y zs s w s' w')
    obtain t1 ps1 where s: "s = (t1, ps1)" by fastforce
    obtain t2 ps2 where s': "s' = (t2, ps2)" by fastforce
    show ?case unfolding s' prod.case
    proof
      assume none: "ta_findings t2 = []"
      then have nf: "t2 \<noteq> found t1" by (auto simp: found_def)
      obtain v w1 where q: "quoted_price quote y w = (v, w1)" by fastforce
      from quoted_price_quotes [OF q] obtain o1 where o1: "v = Inr o1" "\<And>x. o1 = Some x \<Longrightarrow> quotes quote y x" by blast
      from step(2) nf q o1(1) have t2: "t2 = t1" unfolding s s'
        by (cases o1; cases "off_target t1 targets y")
          (auto simp: proposal_step_def io_bind_apply split: sum.splits)
      with step(3) none s have old: "t1 = t" "?ok xs ps1" by auto
      have "\<exists>p. ps2 = ps1 @ [p] \<and> pp_proposed p = y \<and> proposal_right quote pps targets p" if "off_target t targets y"
      proof -
        from step(2) nf q o1(1) that obtain price p where "o1 = Some price"
          "propose t y (dict_get_default targets y (Fin 0)) price = Inr p" "ps2 = ps1 @ [p]"
          unfolding s s' by (cases o1) (auto simp: proposal_step_def io_bind_apply old(1) split: sum.splits)
        with propose_right [OF _ o1(2) ref] show ?thesis by blast
      qed
      moreover have "ps2 = ps1" if "\<not> off_target t targets y"
        using step(2) that unfolding s s' by (simp add: proposal_step_def old(1))
      ultimately show "t2 = t \<and> ?ok (xs @ [y]) ps2" using t2 old by (cases "off_target t targets y") auto
    qed
  qed simp
  from this [OF run] show ?thesis by (simp only: prod.case)
qed

text \<open>Findings only grow.\<close>

lemma proposals_findings:
  assumes "io_fold (proposal_step quote targets) ys (t, ps0) w = (Inr (t', ps), w')" and "ta_findings t' = []"
  shows "ta_findings t = []"
proof -
  have "ta_findings (fst s) = [] \<longrightarrow> ta_findings t = []"
    if "io_fold (proposal_step quote targets) ys (t, ps0) w = (Inr s, w')" for s
    using that
  proof (induction rule: io_fold_rule)
    case (step xs y zs s w s' w')
    obtain t1 ps1 where s: "s = (t1, ps1)" by fastforce
    have "fst s' = t1 \<or> fst s' = found t1"
      using step(2) unfolding s
      by (auto simp: proposal_step_def io_bind_apply split: if_splits sum.splits prod.splits option.splits)
    with step(3) s show ?case by (auto simp: found_def)
  qed simp
  from this [OF assms(1)] assms(2) show ?thesis by simp
qed

lemma dict_values_get: "dict_ok d \<Longrightarrow> dict_values d = List.map (\<lambda>k. dict_get_default d k v) (dict_keys d)"
proof (induction d)
  case (Cons e d)
  obtain k x where e: "e = (k, x)" by fastforce
  with Cons.prems have "k \<notin> set (dict_keys d)" "dict_ok d" by (simp_all add: dict_ok_def dict_keys_def)
  then have "List.map (\<lambda>i. dict_get_default (e # d) i v) (dict_keys d) = List.map (\<lambda>i. dict_get_default d i v) (dict_keys d)"
    by (intro map_cong refl) (auto simp: e dict_get_default_def)
  with Cons.IH [OF \<open>dict_ok d\<close>] show ?case by (simp add: e dict_values_def dict_keys_def dict_get_default_def)
qed (simp add: dict_values_def dict_keys_def)

lemma tallied_values:
  assumes "tallied quote symbols xs t pps"
  shows "dict_values (ta_values t) = List.map (held_value pps) (held_symbols pps)"
proof -
  have k: "dict_keys (ta_values t) = held_symbols pps" and v: "\<And>s. dict_get_default (ta_values t) s (Fin 0) = held_value pps s"
    using assms by (auto simp: tallied_def)
  have "dict_ok (ta_values t)" by (simp add: dict_ok_def k held_symbols_def)
  from dict_values_get [OF this, of "Fin 0"] show ?thesis by (simp add: k v)
qed

lemma equity_checked:
  assumes "equity_check portfolio t = Inr t'" "ta_findings t' = []"
  shows "t' = t \<and> (\<exists>cash equity. paper_cash portfolio = Inr cash \<and> v_finite (pf_total_equity portfolio) = Inr equity
    \<and> \<not> flt (py_max (Fin 1) (fmul (fabs equity) half_percent)) (fabs (fsub (fadd cash (f_sum (dict_values (ta_values t)))) equity)))"
proof -
  have nf: "t' \<noteq> found t" using assms(2) by (auto simp: found_def)
  show ?thesis
    using assms(1) nf unfolding equity_check_def
    by (cases "paper_cash portfolio"; cases "v_finite (pf_total_equity portfolio)") (auto split: pyexn.splits if_splits)
qed

text \<open>
  C9.  A clean reconciliation can be believed.  When a paper command is reconciled without a
  finding, its targets are exactly the managed symbols; every position of the account is one of
  them, with a finite quantity, quoted at a positive price, and its reported value agrees with
  quantity times price and is not short; cash and the held values, each the sum over all positions of
  the symbol, add up to the reported equity; and the proposals are exactly the symbols whose held
  value is off target by more than the tolerance, in order, each with the side, the exposure effect,
  the quantity, the price and the rounded amounts that lead from the held to the target value.
\<close>

theorem clean_reconciliation_sound:
  assumes "reconcile intent portfolio quote managed w = (Inr r, w')" and "rc_findings r = []"
  shows "\<exists>targets pps. command_targets intent managed = Inr (Some targets)
    \<and> set (dict_keys targets) = set (filter (\<lambda>x. x \<noteq> []) (List.map symbol_text managed))
    \<and> List.map fst pps = pf_positions portfolio \<and> list_all (accounted quote (dict_keys targets)) pps
    \<and> (\<exists>cash equity. paper_cash portfolio = Inr cash \<and> v_finite (pf_total_equity portfolio) = Inr equity
        \<and> \<not> flt (py_max (Fin 1) (fmul (fabs equity) half_percent))
              (fabs (fsub (fadd cash (f_sum (List.map (held_value pps) (held_symbols pps)))) equity)))
    \<and> List.map pp_proposed (rc_proposals r) =
        filter (\<lambda>s. \<not> fle (fabs (off_by pps targets s)) notional_tolerance) (sort (remdups (dict_keys targets)))
    \<and> list_all (proposal_right quote pps targets) (rc_proposals r)"
proof -
  from assms(1) obtain o1 where o1: "command_targets intent managed = Inr o1"
    by (cases "command_targets intent managed") (auto simp: reconcile_def io_bind_apply)
  with assms obtain targets where tg: "command_targets intent managed = Inr (Some targets)"
    by (cases o1) (auto simp: reconcile_def io_bind_apply artifact_invalid_def)
  from assms(1) tg obtain t w1 t1 t2 ps where f: "io_fold (position_step quote (dict_keys targets)) (pf_positions portfolio) empty_tally w = (Inr t, w1)"
    and e: "equity_check portfolio t = Inr t1"
    and p: "io_fold (proposal_step quote targets) (sort (remdups (dict_keys targets))) (t1, []) w1 = (Inr (t2, ps), w')"
    and r: "r = \<lparr>rc_proposals = ps, rc_findings = fromkeys (ta_findings t2)\<rparr>"
    by (auto simp: reconcile_def io_bind_apply split: sum.splits prod.splits)
  from assms(2) r have n: "ta_findings t2 = []" by (cases "ta_findings t2") auto
  have n1: "ta_findings t1 = []" by (rule proposals_findings [OF p n])
  from equity_checked [OF e n1] have t1: "t1 = t" and eq: "\<exists>cash equity. paper_cash portfolio = Inr cash \<and> v_finite (pf_total_equity portfolio) = Inr equity
        \<and> \<not> flt (py_max (Fin 1) (fmul (fabs equity) half_percent)) (fabs (fsub (fadd cash (f_sum (dict_values (ta_values t)))) equity))" by auto
  from positions_accounted [OF f] n1 t1 obtain pps where ref: "tallied quote (dict_keys targets) (pf_positions portfolio) t pps" by auto
  have vals: "dict_values (ta_values t) = List.map (held_value pps) (held_symbols pps)" by (rule tallied_values [OF ref])
  from proposals_cover [OF p [unfolded t1] ref] n have cover: "List.map pp_proposed ps = filter (off_target t targets) (sort (remdups (dict_keys targets)))"
    "list_all (proposal_right quote pps targets) ps" by auto
  have "set (dict_keys targets) = set (filter (\<lambda>x. x \<noteq> []) (List.map symbol_text managed))"
    using tg by (auto simp: command_targets_def Let_def split: if_splits pyval.splits sum.splits pyexn.splits)
  moreover have "List.map fst pps = pf_positions portfolio" "list_all (accounted quote (dict_keys targets)) pps"
    using ref by (simp_all add: tallied_def)
  moreover have "off_target t targets = (\<lambda>s. \<not> fle (fabs (off_by pps targets s)) notional_tolerance)"
    by (rule ext) (rule off_target_reference [OF ref])
  ultimately show ?thesis using tg eq cover vals r by (intro exI [of _ targets] exI [of _ pps]) simp
qed

text \<open>One holding, half sold.\<close>

definition sample_intent :: row where
  "sample_intent = [(''schema_version'', VStr paper_intent_schema), (''target_mode'', VStr ''value''),
     (''targets'', VDict [(''tqqq'', VFloat (Fin 500)), (''BOXX'', VInt 300)]), (''strategy_symbols'', VList [VStr ''TQQQ'', VStr ''BOXX''])]"

definition sample_portfolio :: paper_portfolio where
  "sample_portfolio = \<lparr>pf_metadata = VDict [(''market_currency_cash'', VInt 250)],
     pf_positions = [\<lparr>pp_symbol = VStr ''TQQQ'', pp_quantity = VInt 20, pp_market_value = VInt 1001\<rparr>,
       \<lparr>pp_symbol = VStr ''BOXX'', pp_quantity = VInt 3, pp_market_value = VInt 300\<rparr>],
     pf_total_equity = VInt 1551\<rparr>"

definition sample_quote :: "string \<Rightarrow> (unit, pyval) io" where
  "sample_quote t = io_return (VInt (if t = ''TQQQ'' then 50 else 100))"

theorem clean_reconciliation_sound_witness:
  "\<exists>r pps. reconcile sample_intent sample_portfolio sample_quote [''tqqq '', ''boxx''] () = (Inr r, ())
     \<and> List.map (\<lambda>p. (pp_proposed p, pp_effect p, pr_side (pp_details p), pr_quantity (pp_details p))) (rc_proposals r) = [(''TQQQ'', REDUCES, ''sell'', Fin 10)]
     \<and> List.map fst pps = pf_positions sample_portfolio \<and> list_all (accounted sample_quote [''TQQQ'', ''BOXX'']) pps"
proof -
  let ?run = "reconcile sample_intent sample_portfolio sample_quote [''tqqq '', ''boxx''] ()"
  have c: "map_sum id (\<lambda>r. (rc_findings r, List.map (\<lambda>p. (pp_proposed p, pp_effect p, pr_side (pp_details p), pr_quantity (pp_details p))) (rc_proposals r))) (fst ?run)
      = Inr ([], [(''TQQQ'', REDUCES, ''sell'', Fin 10)])" by code_simp
  then obtain r where r: "?run = (Inr r, ())" "rc_findings r = []"
    "List.map (\<lambda>p. (pp_proposed p, pp_effect p, pr_side (pp_details p), pr_quantity (pp_details p))) (rc_proposals r) = [(''TQQQ'', REDUCES, ''sell'', Fin 10)]"
    by (cases ?run; cases "fst ?run") auto
  have t: "command_targets sample_intent [''tqqq '', ''boxx''] = Inr (Some [(''TQQQ'', Fin 500), (''BOXX'', Fin 300)])" by code_simp
  have k: "dict_keys [(''TQQQ'', Fin 500), (''BOXX'', Fin 300)] = [''TQQQ'', ''BOXX'']" by (simp add: dict_keys_def)
  from clean_reconciliation_sound [OF r(1,2)] obtain targets pps where "command_targets sample_intent [''tqqq '', ''boxx''] = Inr (Some targets)"
    "List.map fst pps = pf_positions sample_portfolio" "list_all (accounted sample_quote (dict_keys targets)) pps" by blast
  with t k r(1,3) show ?thesis by auto
qed

end
