(* ===== verification/PaperAdmission.thy ===== *)
theory PaperAdmission
  imports PaperCommands
begin

text \<open>
  Fail-closed admission of paper orders in the ordinary rebalance path
  (\<open>application/paper_execution_admission.py\<close>): the command in the signal metadata, its contract
  with this runtime, the exposure of every target from reconciled quantities and current quotes,
  and one question to the runtime command gate for each exposure.

  Parsing and checking a command, its risk receipt and the gate itself are packages: the record
  \<open>admission_lib\<close>.
\<close>

section \<open>Switch\<close>

definition resolve_admission_enabled :: "pyval \<Rightarrow> bool \<Rightarrow> pyval \<Rightarrow> pyval \<Rightarrow> bool res" where
  "resolve_admission_enabled flag dry_run_only execution_mode environment =
     (if lower (v_text flag) \<notin> {''1'', ''true'', ''t'', ''yes'', ''y'', ''on''} then Inr False
      else if dry_run_only \<or> List.map (\<lambda>c. if c = CHR ''-'' then CHR ''_'' else c) (lower (v_text execution_mode)) \<noteq> ''paper''
          \<or> lower (v_text environment) \<noteq> ''paper'' then
        Inl (RuntimeError ''IBKR_PAPER_EXECUTION_ADMISSION_ENABLED requires dry_run_only=false, execution_mode=paper, and execution_environment=paper'')
      else Inr True)"

section \<open>Findings\<close>

definition append_finding :: "string \<Rightarrow> string list \<Rightarrow> string list" where
  "append_finding f fs = (if f \<in> set fs then fs else fs @ [f])"

definition append_findings :: "string list \<Rightarrow> string list \<Rightarrow> string list" where
  "append_findings new fs = foldl (\<lambda>fs f. append_finding f fs) fs new"

definition finite_nonnegative :: "pyval \<Rightarrow> pyfloat option res" where
  "finite_nonnegative v = (case v_float v of
     Inl e \<Rightarrow> if is_type_or_value_error e then Inr None else Inl e
   | Inr x \<Rightarrow> Inr (if \<not> isfinite x \<or> flt x (Fin 0) then None else Some x))"

definition admission_session :: "row \<Rightarrow> string option" where
  "admission_session metadata =
     (let t = take 10 (v_text (v_or (vd_get metadata ''effective_date'') (vd_get metadata ''trade_date''))) in if t = [] then None else Some t)"

record paper_command =
  cm_platform :: string
  cm_execution_mode :: string
  cm_strategy_profile :: string
  cm_account_scope :: string
  cm_effective_date :: string
  cm_command_id :: string
  cm_decision_digest :: string
  cm_intent :: row

record admission_verdict =
  av_findings :: "string list"
  av_receipt_sha256 :: pyval
  av_disposition :: string

record admission_lib =
  al_command :: "row \<Rightarrow> paper_command res"
  al_receipt_field :: string
  al_receipt :: "row \<Rightarrow> row res"
  al_evaluate :: "paper_command \<Rightarrow> admission_verdict res"
  al_gate :: "exposure \<Rightarrow> paper_command option \<Rightarrow> string option \<Rightarrow> string list \<Rightarrow> row res"

definition load_command :: "admission_lib \<Rightarrow> row \<Rightarrow> (paper_command option \<times> string list) res" where
  "load_command al metadata = (case vd_get metadata ''paper_execution_command'' of
     VDict raw \<Rightarrow> (case al_command al raw of
         Inr c \<Rightarrow> Inr (Some c, [])
       | Inl e \<Rightarrow> if is_type_or_value_error e then Inr (None, [''command_digest_mismatch'']) else Inl e)
   | _ \<Rightarrow> Inr (None, [''paper_risk_admission_receipt_missing'']))"

definition contract_findings :: "paper_command option \<Rightarrow> pyval \<Rightarrow> pyval \<Rightarrow> string option \<Rightarrow> string list" where
  "contract_findings command profile scope session = (case command of None \<Rightarrow> []
     | Some c \<Rightarrow> append_findings
        ((if cm_platform c \<noteq> ''ibkr'' then [''durable_event_history_invalid''] else [])
         @ (if cm_execution_mode c \<noteq> ''paper'' then [''paper_execution_mode_invalid''] else [])
         @ (if cm_strategy_profile c \<noteq> lower (v_text profile) then [''command_digest_mismatch''] else [])
         @ (if cm_account_scope c \<noteq> lower (v_text scope) then [''durable_event_history_invalid''] else [])
         @ (if session \<noteq> Some (cm_effective_date c) then [''signal_timing_invalid''] else [])) [])"

section \<open>Exposure\<close>

record exposure_fact =
  ef_symbol :: string
  ef_quantity :: pyfloat
  ef_price :: pyfloat
  ef_current_value :: pyfloat
  ef_target_value :: pyfloat
  ef_effect :: exposure

text \<open>\<open>_EPSILON\<close> is \<open>notional_tolerance\<close>, a hundredth.\<close>

definition delta_effect :: "pyfloat \<Rightarrow> pyfloat \<Rightarrow> exposure" where
  "delta_effect current target = (let d = fsub (fabs target) (fabs current) in
     if flt notional_tolerance d then INCREASES else if flt d (fneg notional_tolerance) then REDUCES else NEUTRAL)"

definition normal_keys :: "row \<Rightarrow> row" where
  "normal_keys d = foldl (\<lambda>acc (k, v). if strip k = [] then acc else dict_set acc (symbol_text k) v) [] d"

definition is_mapping :: "pyval \<Rightarrow> bool" where
  "is_mapping v = (case v of VDict _ \<Rightarrow> True | _ \<Rightarrow> False)"

text \<open>One symbol: a fact, or \<open>None\<close> where quantity, target and price are not all known.\<close>

definition exposure_of :: "row \<Rightarrow> row \<Rightarrow> row \<Rightarrow> string \<Rightarrow> exposure_fact option res" where
  "exposure_of positions prices targets symbol =
     (let position = (case dict_get positions symbol of Some (VDict d) \<Rightarrow> d | _ \<Rightarrow> []) in
      res_bind (finite_nonnegative (vd_get position ''quantity'')) (\<lambda>quantity.
      res_bind (finite_nonnegative (dict_get_default targets symbol (VFloat (Fin 0)))) (\<lambda>target.
      res_bind (finite_nonnegative (vd_get prices symbol)) (\<lambda>price.
      Inr (case (quantity, target, price) of
        (Some q, Some t, Some p) \<Rightarrow>
          if fle p (Fin 0) then None
          else let current = fmul q p in
            Some \<lparr>ef_symbol = symbol, ef_quantity = fround 8 q, ef_price = fround 8 p, ef_current_value = fround 8 current,
              ef_target_value = fround 8 t, ef_effect = delta_effect current t\<rparr>
      | _ \<Rightarrow> None)))))"

definition exposure_symbols :: "row \<Rightarrow> row \<Rightarrow> string list" where
  "exposure_symbols positions targets = sort (remdups (dict_keys positions @ dict_keys targets))"

definition exposure_facts :: "row \<Rightarrow> row \<Rightarrow> row \<Rightarrow> (exposure_fact list \<times> string list) res" where
  "exposure_facts positions prices targets =
     (let ps = normal_keys (filter (\<lambda>(k, v). is_mapping v) positions); qs = normal_keys prices; ts = normal_keys targets in
      res_bind (res_map (exposure_of ps qs ts) (exposure_symbols ps ts)) (\<lambda>fs.
      Inr (List.map_filter id fs, if None \<in> set fs then [mismatch] else [])))"

section \<open>The decision\<close>

record admission_report =
  ar_command_id :: "string option"
  ar_decision_digest :: "string option"
  ar_effective_session :: "string option"
  ar_risk_receipt :: row
  ar_receipt_sha256 :: pyval
  ar_disposition :: string
  ar_findings :: "string list"
  ar_facts :: "exposure_fact list"
  ar_gate_receipts :: "row list"
  ar_write_allowed :: bool

definition receipt_allows :: "row \<Rightarrow> bool res" where
  "receipt_allows d = (case dict_get d ''broker_write_allowed'' of None \<Rightarrow> Inl (KeyError ''broker_write_allowed'') | Some v \<Rightarrow> Inr (truthy v))"

text \<open>\<open>all(...)\<close>: stops at the first that does not hold.\<close>

fun all_allow :: "row list \<Rightarrow> bool res" where
  "all_allow [] = Inr True"
| "all_allow (d # ds) = res_bind (receipt_allows d) (\<lambda>ok. if ok then all_allow ds else Inr False)"

definition risk_receipt :: "admission_lib \<Rightarrow> paper_command \<Rightarrow> row res" where
  "risk_receipt al c = (case vd_get (cm_intent c) (al_receipt_field al) of
     VDict raw \<Rightarrow> (case al_receipt al raw of Inr d \<Rightarrow> Inr d | Inl e \<Rightarrow> if is_type_or_value_error e then Inr [] else Inl e)
   | _ \<Rightarrow> Inr [])"

definition command_checks :: "admission_lib \<Rightarrow> paper_command option \<Rightarrow> (row \<times> admission_verdict option) res" where
  "command_checks al command = (case command of
     None \<Rightarrow> Inr ([], None)
   | Some c \<Rightarrow> res_bind (risk_receipt al c) (\<lambda>d. res_bind (al_evaluate al c) (\<lambda>v. Inr (d, Some v))))"

definition gate_receipts :: "admission_lib \<Rightarrow> paper_command option \<Rightarrow> string option \<Rightarrow> string list \<Rightarrow> exposure_fact list \<Rightarrow> row list res" where
  "gate_receipts al command session findings facts =
     res_map (\<lambda>effect. al_gate al effect command session findings) (if facts = [] then [NEUTRAL] else List.map ef_effect facts)"

definition evaluate_admission ::
    "admission_lib \<Rightarrow> row \<Rightarrow> pyval \<Rightarrow> pyval \<Rightarrow> row \<Rightarrow> row \<Rightarrow> row \<Rightarrow> row list \<Rightarrow> admission_report res" where
  "evaluate_admission al metadata profile scope positions prices targets option_intents =
     res_bind (load_command al metadata) (\<lambda>(command, fs).
     let session = admission_session metadata; fs = append_findings (contract_findings command profile scope session) fs in
     res_bind (command_checks al command) (\<lambda>(receipt, verdict).
     let fs = append_findings (case verdict of None \<Rightarrow> [] | Some v \<Rightarrow> av_findings v) fs;
         fs = (if option_intents \<noteq> [] then append_finding ''durable_event_history_invalid'' fs else fs) in
     res_bind (exposure_facts positions prices targets) (\<lambda>(facts, unclear).
     let fs = append_findings unclear fs in
     res_bind (gate_receipts al command session fs facts) (\<lambda>receipts.
     res_bind (all_allow receipts) (\<lambda>allowed.
     Inr \<lparr>ar_command_id = map_option cm_command_id command, ar_decision_digest = map_option cm_decision_digest command,
       ar_effective_session = session, ar_risk_receipt = receipt,
       ar_receipt_sha256 = (case verdict of None \<Rightarrow> VNone | Some v \<Rightarrow> av_receipt_sha256 v),
       ar_disposition = (case verdict of None \<Rightarrow> ''halted'' | Some v \<Rightarrow> av_disposition v),
       ar_findings = fromkeys fs, ar_facts = facts, ar_gate_receipts = receipts, ar_write_allowed = (receipts \<noteq> [] \<and> allowed)\<rparr>)))))"

section \<open>What an admitted write needs\<close>

lemma append_finding_set [simp]: "set (append_finding f fs) = insert f (set fs)"
  by (auto simp: append_finding_def)

lemma append_findings_set [simp]: "set (append_findings new fs) = set new \<union> set fs"
  unfolding append_findings_def by (induction new arbitrary: fs) auto

lemma append_findings_Nil: "append_findings new fs = [] \<longleftrightarrow> new = [] \<and> fs = []"
  using append_findings_set [of new fs] by (metis Un_empty set_empty)

lemma fromkeys_Nil [simp]: "fromkeys xs = [] \<longleftrightarrow> xs = []"
  by (cases xs) auto

lemma all_allowed: "all_allow ds = Inr True \<Longrightarrow> d \<in> set ds \<Longrightarrow> receipt_allows d = Inr True"
  by (induction ds) (auto elim!: res_bind_InrE split: if_splits)

lemma res_map_each: "res_map f xs = Inr ys \<Longrightarrow> x \<in> set xs \<Longrightarrow> \<exists>y \<in> set ys. f x = Inr y"
  by (induction xs arbitrary: ys) (auto elim!: res_bind_InrE)

lemma exposure_of_right:
  "exposure_of ps qs ts y = Inr (Some f) \<Longrightarrow> ef_symbol f = y \<and> (\<exists>q t p. ef_effect f = delta_effect (fmul q p) t
     \<and> finite_nonnegative (vd_get (case dict_get ps y of Some (VDict d) \<Rightarrow> d | _ \<Rightarrow> []) ''quantity'') = Inr (Some q)
     \<and> finite_nonnegative (dict_get_default ts y (VFloat (Fin 0))) = Inr (Some t)
     \<and> finite_nonnegative (vd_get qs y) = Inr (Some p) \<and> \<not> fle p (Fin 0))"
  by (auto simp: exposure_of_def Let_def elim!: res_bind_InrE split: option.splits if_splits)

lemma res_map_map_filter:
  "res_map f xs = Inr ys \<Longrightarrow> None \<notin> set ys \<Longrightarrow> (\<And>x y. f x = Inr (Some y) \<Longrightarrow> g y = x) \<Longrightarrow> List.map g (List.map_filter id ys) = xs"
proof (induction xs arbitrary: ys)
  case (Cons x xs)
  then obtain y zs where y: "f x = Inr y" "res_map f xs = Inr zs" "ys = y # zs" by (auto elim!: res_bind_InrE)
  with Cons.prems(2) obtain u where "y = Some u" by (cases y) auto
  with Cons y show ?case by (auto simp: List.map_filter_simps)
qed (simp add: List.map_filter_simps)

text \<open>Nothing is unclear about any symbol: each has its fact, in order.\<close>

lemma exposure_facts_cover:
  assumes "exposure_facts positions prices targets = Inr (facts, [])"
  shows "List.map ef_symbol facts = exposure_symbols (normal_keys (filter (\<lambda>(k, v). is_mapping v) positions)) (normal_keys targets)"
proof -
  let ?ps = "normal_keys (filter (\<lambda>(k, v). is_mapping v) positions)" and ?ts = "normal_keys targets"
  from assms obtain fs where fs: "res_map (exposure_of ?ps (normal_keys prices) ?ts) (exposure_symbols ?ps ?ts) = Inr fs"
    "facts = List.map_filter id fs" "None \<notin> set fs"
    by (auto simp: exposure_facts_def Let_def elim!: res_bind_InrE split: if_splits)
  from res_map_map_filter [OF fs(1,3), of ef_symbol] exposure_of_right fs(2) show ?thesis by blast
qed

text \<open>
  What the tests of the gate document: with an integrity finding it admits no increase of exposure.
\<close>

definition gate_fails_closed :: "admission_lib \<Rightarrow> bool" where
  "gate_fails_closed al \<longleftrightarrow> (\<forall>c session fs d. fs \<noteq> [] \<longrightarrow> al_gate al INCREASES c session fs = Inr d \<longrightarrow> receipt_allows d \<noteq> Inr True)"

text \<open>
  C16.  No paper order increases exposure without a clean command.  If the admission allows the
  broker write and some target increases exposure, then there is a command, it was issued for this
  platform, paper mode, strategy, account and session, its own checks found nothing, there are no
  option intents, every symbol held or targeted has a known quantity, target and positive price,
  and the gate was asked about the exposure effect of each of them, with no finding withheld, and
  allowed it.
\<close>

theorem increase_needs_clean_command:
  assumes gate: "gate_fails_closed al"
    and r: "evaluate_admission al metadata profile scope positions prices targets option_intents = Inr rep"
    and allowed: "ar_write_allowed rep" and inc: "INCREASES \<in> ef_effect ` set (ar_facts rep)"
  shows "option_intents = [] \<and> ar_findings rep = []
    \<and> (\<exists>c v. load_command al metadata = Inr (Some c, []) \<and> cm_platform c = ''ibkr'' \<and> cm_execution_mode c = ''paper''
        \<and> cm_strategy_profile c = lower (v_text profile) \<and> cm_account_scope c = lower (v_text scope)
        \<and> admission_session metadata = Some (cm_effective_date c) \<and> al_evaluate al c = Inr v \<and> av_findings v = []
        \<and> (\<forall>f \<in> set (ar_facts rep). \<exists>d. al_gate al (ef_effect f) (Some c) (admission_session metadata) [] = Inr d \<and> receipt_allows d = Inr True))
    \<and> List.map ef_symbol (ar_facts rep) = exposure_symbols (normal_keys (filter (\<lambda>(k, v). is_mapping v) positions)) (normal_keys targets)"
proof -
  obtain command fs0 where l: "load_command al metadata = Inr (command, fs0)"
    using r by (auto simp: evaluate_admission_def elim!: res_bind_InrE)
  define session where "session = admission_session metadata"
  from r l obtain receipt verdict facts unclear receipts ok fs where k: "command_checks al command = Inr (receipt, verdict)"
    and e: "exposure_facts positions prices targets = Inr (facts, unclear)"
    and fs: "fs = append_findings unclear (let fs = append_findings (case verdict of None \<Rightarrow> [] | Some v \<Rightarrow> av_findings v)
          (append_findings (contract_findings command profile scope session) fs0)
        in if option_intents \<noteq> [] then append_finding ''durable_event_history_invalid'' fs else fs)"
    and g: "gate_receipts al command session fs facts = Inr receipts" and a: "all_allow receipts = Inr ok"
    and rep: "ar_facts rep = facts" "ar_findings rep = fromkeys fs" "ar_write_allowed rep \<longleftrightarrow> receipts \<noteq> [] \<and> ok"
    by (auto simp: evaluate_admission_def Let_def session_def elim!: res_bind_InrE)
  have asked: "\<exists>d. al_gate al (ef_effect f) command session fs = Inr d \<and> receipt_allows d = Inr True" if "f \<in> set facts" for f
  proof -
    have "ef_effect f \<in> set (if facts = [] then [NEUTRAL] else List.map ef_effect facts)" using that by auto
    from res_map_each [OF g [unfolded gate_receipts_def] this] obtain d where "d \<in> set receipts" "al_gate al (ef_effect f) command session fs = Inr d" by auto
    with all_allowed [of receipts d] a rep(3) allowed show ?thesis by auto
  qed
  from inc rep(1) obtain f where f: "f \<in> set facts" "ef_effect f = INCREASES" by auto
  from asked [OF f(1)] f(2) gate have none: "fs = []" by (auto simp: gate_fails_closed_def)
  then have n: "unclear = []" "option_intents = []" "fs0 = []" "contract_findings command profile scope session = []"
    "(case verdict of None \<Rightarrow> [] | Some v \<Rightarrow> av_findings v) = []"
    unfolding fs by (auto simp: Let_def append_findings_Nil append_finding_def split: if_splits)
  from l n(3) obtain c where c: "command = Some c"
    by (auto simp: load_command_def split: pyval.splits sum.splits if_splits)
  from k c obtain v where v: "verdict = Some v" "al_evaluate al c = Inr v" by (auto simp: command_checks_def elim!: res_bind_InrE)
  from n(4) c have contract: "cm_platform c = ''ibkr''" "cm_execution_mode c = ''paper''" "cm_strategy_profile c = lower (v_text profile)"
    "cm_account_scope c = lower (v_text scope)" "session = Some (cm_effective_date c)"
    by (auto simp: contract_findings_def append_findings_Nil split: if_splits)
  have "List.map ef_symbol facts = exposure_symbols (normal_keys (filter (\<lambda>(k, v). is_mapping v) positions)) (normal_keys targets)"
    using exposure_facts_cover e n(1) by blast
  with asked none l n c v contract rep show ?thesis unfolding session_def by auto
qed

text \<open>One holding to be doubled, a gate that admits what has no findings.\<close>

definition sample_command :: paper_command where
  "sample_command = \<lparr>cm_platform = ''ibkr'', cm_execution_mode = ''paper'', cm_strategy_profile = ''alpha'', cm_account_scope = ''paper'',
     cm_effective_date = ''2026-11-03'', cm_command_id = ''c1'', cm_decision_digest = ''f'', cm_intent = []\<rparr>"

definition sample_lib :: admission_lib where
  "sample_lib = \<lparr>al_command = (\<lambda>_. Inr sample_command), al_receipt_field = ''receipt'', al_receipt = Inr,
     al_evaluate = (\<lambda>_. Inr \<lparr>av_findings = [], av_receipt_sha256 = VStr ''a'', av_disposition = ''allow_new_risk''\<rparr>),
     al_gate = (\<lambda>effect c t fs. Inr [(''broker_write_allowed'', VBool (fs = [] \<or> effect = REDUCES))])\<rparr>"

theorem increase_needs_clean_command_witness:
  "\<exists>rep. evaluate_admission sample_lib [(''effective_date'', VStr ''2026-11-03''), (''paper_execution_command'', VDict [(''id'', VInt 1)])]
      (VStr ''Alpha'') (VStr ''paper'') [(''SOXL'', VDict [(''quantity'', VInt 1)])] [(''soxl'', VInt 100)] [(''SOXL'', VInt 200)] [] = Inr rep
    \<and> ar_write_allowed rep \<and> List.map ef_effect (ar_facts rep) = [INCREASES] \<and> ar_findings rep = []"
proof -
  let ?run = "evaluate_admission sample_lib [(''effective_date'', VStr ''2026-11-03''), (''paper_execution_command'', VDict [(''id'', VInt 1)])]
      (VStr ''Alpha'') (VStr ''paper'') [(''SOXL'', VDict [(''quantity'', VInt 1)])] [(''soxl'', VInt 100)] [(''SOXL'', VInt 200)] []"
  have "map_sum id (\<lambda>rep. (ar_write_allowed rep, List.map ef_effect (ar_facts rep))) ?run = Inr (True, [INCREASES])" by code_simp
  then obtain rep where rep: "?run = Inr rep" "ar_write_allowed rep" "List.map ef_effect (ar_facts rep) = [INCREASES]"
    by (cases ?run) auto
  have g: "gate_fails_closed sample_lib" by (auto simp: gate_fails_closed_def sample_lib_def receipt_allows_def)
  have "INCREASES \<in> ef_effect ` set (ar_facts rep)" using rep(3) by (metis list.set_intros(1) set_map)
  from increase_needs_clean_command [OF g rep(1,2) this] have "ar_findings rep = []" by (elim conjE)
  with rep show ?thesis by (intro exI [of _ rep]) (simp only: simp_thms)
qed

end
