(* ===== verification/PeriodReturn.thy ===== *)
theory PeriodReturn
  imports Dates PyValue
begin

text \<open>
  The native return of an account over a statement period
  (\<open>application/ibkr_period_return.py\<close>): the broker's own percentage is checked against the ratio
  beside it, exactly and without floats, and the change in net asset value is derived from the
  broker's components as a decimal text of full precision.  The constant texts of the published
  object (schema, method, source, units) are left out of the record, and the observation is kept as
  the instant rather than its ISO text.
\<close>

section \<open>Exact decimals\<close>

text \<open>\<open>-?(?:0|[1-9][0-9]*)(?:\.[0-9]+)?\<close>: sign, whole part and fraction.\<close>

definition whole_ok :: "string \<Rightarrow> bool" where
  "whole_ok t \<longleftrightarrow> t \<noteq> [] \<and> list_all is_digit t \<and> (t = ''0'' \<or> hd t \<noteq> CHR ''0'')"

definition plain_parts :: "string \<Rightarrow> (bool \<times> string \<times> string) option" where
  "plain_parts t =
     (let neg = (t \<noteq> [] \<and> hd t = CHR ''-''); b = (if neg then tl t else t);
          whole = takeWhile (\<lambda>c. c \<noteq> CHR ''.'') b; rest = drop (length whole) b in
      if whole_ok whole \<and> (rest = [] \<or> (tl rest \<noteq> [] \<and> list_all is_digit (tl rest))) then Some (neg, whole, tl rest) else None)"

definition plain_value :: "bool \<times> string \<times> string \<Rightarrow> rat" where
  "plain_value p = (case p of (neg, whole, dec) \<Rightarrow>
     (if neg then -1 else 1) * of_int (digits_value (whole @ dec)) / 10 ^ length dec)"

definition native_invalid :: pyexn where "native_invalid = ValueError ''native_value_invalid''"

definition native_number :: "pyval \<Rightarrow> rat res" where
  "native_number v = (case v of
     VStr t \<Rightarrow> if 64 < length t then Inl native_invalid
       else (case plain_parts t of None \<Rightarrow> Inl native_invalid | Some p \<Rightarrow> Inr (plain_value p))
   | _ \<Rightarrow> Inl native_invalid)"

section \<open>Change in net asset value\<close>

definition component_fields :: "string list" where
  "component_fields = [''startingValue'', ''endingValue'', ''depositsWithdrawals'', ''internalCashTransfers'', ''assetTransfers'', ''linkingAdjustments'']"

text \<open>\<open>len(text.partition(".")[2])\<close>\<close>

definition fraction_length :: "pyval \<Rightarrow> nat" where
  "fraction_length v = (case v of VStr t \<Rightarrow> length (drop 1 (dropWhile (\<lambda>c. c \<noteq> CHR ''.'') t)) | _ \<Rightarrow> 0)"

text \<open>A rational with at most \<open>scale\<close> decimals, written out.\<close>

definition exact_text :: "rat \<Rightarrow> nat \<Rightarrow> string" where
  "exact_text amount scale =
     (let ds = pad_left (scale + 1) (int_text \<bar>fst (quotient_of (amount * 10 ^ scale))\<bar>) in
      (if amount < 0 then ''-'' else [])
      @ (if scale = 0 then ds else take (length ds - scale) ds @ ''.'' @ drop (length ds - scale) ds))"

record nav_change =
  nc_components :: "(string \<times> pyval) list"
  nc_amount :: string

definition nav_scope_ok :: "(string \<times> pyval) list \<Rightarrow> string \<Rightarrow> string \<Rightarrow> string \<Rightarrow> string \<Rightarrow> bool" where
  "nav_scope_ok d account currency start end_day \<longleftrightarrow>
     vd_get d ''source'' = VStr ''ChangeInNAV'' \<and> vd_get d ''account_id'' = VStr account \<and> vd_get d ''model'' = VStr []
     \<and> (vd_get d ''currency'' = VStr currency \<or> vd_get d ''currency'' = VStr ''BASE_SUMMARY'')
     \<and> v_eq (vd_get d ''period'') (VDict [(''from'', VStr start), (''to'', VStr end_day)])"

definition nav_amount :: "(string \<times> pyval) list \<Rightarrow> rat list \<Rightarrow> nav_change option" where
  "nav_amount components values =
     (case values of
        [start, final, deposits, cash, assets, linking] \<Rightarrow>
          if cash \<noteq> 0 \<or> assets \<noteq> 0 \<or> linking \<noteq> 0 then None
          else let scale = Max (set (List.map (\<lambda>k. fraction_length (vd_get components k)) component_fields));
                   text = exact_text (final - start - deposits) scale in
            if 64 < length text then None
            else Some \<lparr>nc_components = List.map (\<lambda>k. (k, vd_get components k)) component_fields, nc_amount = text\<rparr>
      | _ \<Rightarrow> None)"

definition optional_nav_change :: "pyval \<Rightarrow> string \<Rightarrow> string \<Rightarrow> string \<Rightarrow> string \<Rightarrow> nav_change option" where
  "optional_nav_change raw account currency start end_day =
     (case raw of
        VDict d \<Rightarrow>
          if \<not> nav_scope_ok d account currency start end_day then None
          else (case vd_get d ''components'' of
            VDict components \<Rightarrow>
              if set (dict_keys components) \<noteq> set component_fields then None
              else (case res_map (\<lambda>k. native_number (vd_get components k)) component_fields of
                 Inl _ \<Rightarrow> None
               | Inr values \<Rightarrow> nav_amount components values)
          | _ \<Rightarrow> None)
      | _ \<Rightarrow> None)"

section \<open>The period return\<close>

definition lower_or_digit :: "char \<Rightarrow> bool" where
  "lower_or_digit c \<longleftrightarrow> is_digit c \<or> c \<in> set ''abcdefghijklmnopqrstuvwxyz''"

definition upper_letter :: "char \<Rightarrow> bool" where
  "upper_letter c \<longleftrightarrow> c \<in> set ''ABCDEFGHIJKLMNOPQRSTUVWXYZ''"

definition target_ok :: "string \<Rightarrow> bool" where
  "target_ok t \<longleftrightarrow> 1 \<le> length t \<and> length t \<le> 64 \<and> lower_or_digit (hd t) \<and> lower_or_digit (last t)
     \<and> list_all (\<lambda>c. lower_or_digit c \<or> c = CHR ''-'') t"

definition binding_ok :: "string \<Rightarrow> bool" where
  "binding_ok t \<longleftrightarrow> length t = 64 \<and> list_all (\<lambda>c. c \<in> set ''0123456789abcdef'') t"

definition scope_char :: "char \<Rightarrow> bool" where
  "scope_char c \<longleftrightarrow> lower_or_digit c \<or> upper_letter c"

definition scope_ok :: "string \<Rightarrow> bool" where
  "scope_ok t \<longleftrightarrow> 1 \<le> length t \<and> length t \<le> 128 \<and> scope_char (hd t) \<and> list_all (\<lambda>c. scope_char c \<or> c \<in> set ''._:-'') (tl t)"

definition account_ok :: "string \<Rightarrow> bool" where
  "account_ok t \<longleftrightarrow> (let n = (if startswith t ''DU'' then drop 2 t else if startswith t ''U'' then drop 1 t else []) in n \<noteq> [] \<and> list_all is_digit n)"

definition validate_period_return_scope :: "string \<Rightarrow> string \<Rightarrow> string \<Rightarrow> string list \<Rightarrow> unit res" where
  "validate_period_return_scope target binding account_scope accounts =
     (if target_ok target \<and> binding_ok binding \<and> scope_ok account_scope \<and> length accounts = 1 \<and> account_ok (hd accounts) then Inr ()
      else Inl (ValueError ''scope_invalid''))"

definition period_invalid :: pyexn where "period_invalid = ValueError ''period_invalid''"

definition period_day :: "pyval \<Rightarrow> string res" where
  "period_day v = (case v of
     VStr t \<Rightarrow> (case parse_iso_date t of Some d \<Rightarrow> if iso_date d = t then Inr t else Inl period_invalid | None \<Rightarrow> Inl period_invalid)
   | _ \<Rightarrow> Inl period_invalid)"

record period_return =
  pe_target :: string
  pe_binding :: string
  pe_account_scope :: string
  pe_account :: string
  pe_observed_at :: instant
  pe_currency :: string
  pe_from :: string
  pe_to :: string
  pe_source_value :: pyval
  pe_value :: pyval
  pe_nav_change :: "nav_change option"

definition account_currency :: "(string \<times> pyval) list \<Rightarrow> string res" where
  "account_currency ledger = (case vd_get ledger ''account_base_currency'' of
     VStr t \<Rightarrow> if length t = 3 \<and> list_all upper_letter t then Inr t else Inl (ValueError ''currency_invalid'')
   | _ \<Rightarrow> Inl (ValueError ''currency_invalid''))"

definition native_method_ok :: "(string \<times> pyval) list \<Rightarrow> (string \<times> pyval) list \<Rightarrow> bool" where
  "native_method_ok native assessment \<longleftrightarrow> vd_get native ''unit'' = VStr ''percent'' \<and> vd_get native ''source'' = VStr ''ChangeInNAV.twr''
     \<and> vd_get assessment ''method'' = VStr ''native_ibkr_twr'' \<and> vd_get assessment ''source'' = VStr ''ChangeInNAV.twr''
     \<and> vd_get assessment ''unit'' = VStr ''ratio''"

text \<open>The interval of the ledger, which must be the one of the broker's value.\<close>

definition native_period :: "(string \<times> pyval) list \<Rightarrow> (string \<times> pyval) list \<Rightarrow> (string \<times> string) res" where
  "native_period ledger native = (case vd_get ledger ''period'' of
     VDict p \<Rightarrow> res_bind (period_day (vd_get p ''from'')) (\<lambda>start. res_bind (period_day (vd_get p ''to'')) (\<lambda>end_day.
       if end_day < start \<or> vd_get native ''from'' \<noteq> VStr start \<or> vd_get native ''to'' \<noteq> VStr end_day then Inl period_invalid
       else Inr (start, end_day)))
   | _ \<Rightarrow> Inl period_invalid)"

definition observed_instant :: "instant \<times> int option \<Rightarrow> string \<Rightarrow> instant res" where
  "observed_instant observed_at end_day = (case instant_of observed_at of
     None \<Rightarrow> Inl (ValueError ''observation_invalid'')
   | Some t \<Rightarrow> if iso_date (utc_date t) < end_day then Inl (ValueError ''observation_invalid'') else Inr t)"

definition checked_ratio :: "pyval \<Rightarrow> pyval \<Rightarrow> unit res" where
  "checked_ratio percent ratio = res_bind (native_number percent) (\<lambda>p. res_bind (native_number ratio) (\<lambda>r.
     if r * 100 \<noteq> p \<or> r < -1 then Inl native_invalid else Inr ()))"

definition build_ibkr_period_return ::
    "(string \<times> pyval) list \<Rightarrow> string \<Rightarrow> string \<Rightarrow> string \<Rightarrow> string list \<Rightarrow> instant \<times> int option \<Rightarrow> period_return res" where
  "build_ibkr_period_return ledger target binding account_scope accounts observed_at =
     res_bind (validate_period_return_scope target binding account_scope accounts) (\<lambda>_.
     if vd_get ledger ''schema_version'' \<noteq> VStr ''ibkr_flex_ledger.v1'' \<or> \<not> v_eq (vd_get ledger ''account_ids'') (VList (List.map VStr accounts))
     then Inl (ValueError ''identity_mismatch'')
     else (case (vd_get ledger ''native_returns'', vd_get ledger ''return_assessment'') of
        (VDict native, VDict assessment) \<Rightarrow>
          if native = [] \<or> vd_get assessment ''computable'' \<noteq> VBool True then Inl (ValueError ''native_twr_unavailable'')
          else if \<not> native_method_ok native assessment then Inl (ValueError ''native_method_invalid'')
          else res_bind (native_period ledger native) (\<lambda>(start, end_day).
            res_bind (observed_instant observed_at end_day) (\<lambda>observed.
            res_bind (account_currency ledger) (\<lambda>currency.
            res_bind (checked_ratio (vd_get native ''twr'') (vd_get assessment ''value'')) (\<lambda>_.
              Inr \<lparr>pe_target = target, pe_binding = binding, pe_account_scope = account_scope, pe_account = hd accounts,
                pe_observed_at = observed, pe_currency = currency, pe_from = start, pe_to = end_day,
                pe_source_value = vd_get native ''twr'', pe_value = vd_get assessment ''value'',
                pe_nav_change = optional_nav_change (vd_get ledger ''native_nav_change'') (hd accounts) currency start end_day\<rparr>))))
      | _ \<Rightarrow> Inl (ValueError ''native_twr_unavailable'')))"

section \<open>Decimal texts\<close>

lemma digits_value_append: "digits_value (a @ b) = digits_value a * 10 ^ length b + digits_value b"
  by (induction b rule: rev_induct) (simp_all add: digits_value_snoc append_assoc [symmetric] algebra_simps del: append_assoc, simp add: digits_value_def)

lemma digits_value_zeros: "digits_value (replicate n (CHR ''0'')) = 0"
  by (induction n) (simp_all add: digits_value_def digit_value_def)

lemma digits_value_pad: "digits_value (pad_left n s) = digits_value s"
  by (simp add: pad_left_def digits_value_append digits_value_zeros)

lemma dec_text_head: "0 < n \<Longrightarrow> hd (dec_text n) \<noteq> CHR ''0''"
proof (induction n rule: dec_text.induct)
  case (1 n)
  show ?case
  proof (cases "n < 10")
    case True
    have "(of_char (char_of (48 + n) :: char) :: int) = 48 + n" using 1(2) True by (simp add: of_char_digit)
    then have "char_of (48 + n) \<noteq> CHR ''0''" using 1(2) by fastforce
    with True show ?thesis by (subst dec_text.simps) simp
  next
    case False
    then have "hd (dec_text (n div 10)) \<noteq> CHR ''0''" using 1 by simp
    moreover have "dec_text (n div 10) \<noteq> []" by (subst dec_text.simps) simp
    ultimately show ?thesis using False by (subst dec_text.simps) simp
  qed
qed

lemma dec_text_nonempty: "dec_text n \<noteq> []"
  by (subst dec_text.simps) simp

text \<open>A padded number, split at its decimals, has a whole part in normal form.\<close>

lemma padded_whole:
  assumes n: "0 \<le> n" and ds: "ds = pad_left (scale + 1) (dec_text n)"
  shows "whole_ok (take (length ds - scale) ds)" and "scale < length ds" and "list_all is_digit ds"
proof -
  let ?t = "dec_text n"
  have t: "\<And>c. c \<in> set ?t \<Longrightarrow> is_digit c" by (rule dec_text_digits [OF n])
  have zero: "is_digit (CHR ''0'')" by (simp add: is_digit_def)
  show digits: "list_all is_digit ds"
    unfolding ds pad_left_def list_all_iff using t zero by auto
  show longer: "scale < length ds" by (simp add: ds pad_left_def)
  show "whole_ok (take (length ds - scale) ds)"
  proof (cases "length ?t \<le> scale")
    case True
    then have "ds = CHR ''0'' # replicate (scale - length ?t) (CHR ''0'') @ ?t"
      by (simp add: ds pad_left_def Suc_diff_le)
    moreover have "length ds = Suc scale" using True by (simp add: ds pad_left_def)
    ultimately have "take (length ds - scale) ds = ''0''" by simp
    then show ?thesis using zero by (simp add: whole_ok_def)
  next
    case False
    then have same: "ds = ?t" by (simp add: ds pad_left_def)
    have digits2: "list_all is_digit (take (length ds - scale) ds)"
      using digits by (auto simp: list_all_iff dest: in_set_takeD)
    show ?thesis
    proof (cases "n = 0")
      case True
      have "dec_text 0 = ''0''" by code_simp
      then have "ds = ''0''" unfolding same True .
      then show ?thesis using False zero same by (simp add: whole_ok_def)
    next
      case nz: False
      then have "hd ds \<noteq> CHR ''0''" using n same dec_text_head [of n] by simp
      then show ?thesis using digits2 longer by (cases ds) (auto simp: whole_ok_def hd_take)
    qed
  qed
qed

lemma digits_no_point: "list_all is_digit s \<Longrightarrow> takeWhile (\<lambda>c. c \<noteq> CHR ''.'') (s @ r) = s @ takeWhile (\<lambda>c. c \<noteq> CHR ''.'') r"
  by (rule takeWhile_append2) (auto simp: list_all_iff is_digit_def)

lemma digits_no_sign: "list_all is_digit s \<Longrightarrow> s \<noteq> [] \<Longrightarrow> hd s \<noteq> CHR ''-''"
  by (cases s) (auto simp: is_digit_def)

lemma plain_parts_written:
  assumes w: "whole_ok whole" and f: "list_all is_digit dec"
  shows "plain_parts ((if neg then ''-'' else []) @ whole @ (if dec = [] then [] else ''.'' @ dec)) = Some (neg, whole, dec)"
proof -
  have d: "list_all is_digit whole" "whole \<noteq> []" using w by (auto simp: whole_ok_def)
  have all: "takeWhile (\<lambda>c. c \<noteq> CHR ''.'') whole = whole" using digits_no_point [OF d(1), of "[]"] by simp
  show ?thesis
    using d w f digits_no_sign [OF d] by (cases neg; cases dec) (simp_all add: plain_parts_def Let_def digits_no_point all)
qed

text \<open>A rational with at most \<open>scale\<close> decimals survives being written out.\<close>

lemma exact_text_parts:
  assumes whole: "amount * 10 ^ scale = of_int k"
  shows "\<exists>p. plain_parts (exact_text amount scale) = Some p \<and> plain_value p = amount"
proof -
  let ?ds = "pad_left (scale + 1) (dec_text \<bar>k\<bar>)"
  let ?w = "take (length ?ds - scale) ?ds" and ?f = "drop (length ?ds - scale) ?ds"
  note p = padded_whole [of "\<bar>k\<bar>" ?ds scale, OF abs_ge_zero refl]
  have fd: "list_all is_digit ?f" using p(3) by (auto simp: list_all_iff dest: in_set_dropD)
  have fl: "length ?f = scale" using p(2) by simp
  have written: "exact_text amount scale = (if amount < 0 then ''-'' else []) @ ?w @ (if ?f = [] then [] else ''.'' @ ?f)"
  proof -
    have q: "fst (quotient_of (amount * 10 ^ scale)) = k" by (simp add: whole quotient_of_int)
    have "exact_text amount scale = (if amount < 0 then ''-'' else [])
        @ (if scale = 0 then ?ds else ?w @ ''.'' @ ?f)"
      unfolding exact_text_def q by (simp add: int_text_def Let_def)
    then show ?thesis using fl by (cases "scale = 0") auto
  qed
  have parts: "plain_parts (exact_text amount scale) = Some (amount < 0, ?w, ?f)"
    unfolding written by (rule plain_parts_written [OF p(1) fd])
  have "digits_value (?w @ ?f) = \<bar>k\<bar>" by (simp add: digits_value_pad dec_text_roundtrip)
  moreover have "(of_int \<bar>k\<bar> :: rat) = \<bar>amount\<bar> * 10 ^ scale" using whole by (simp add: abs_mult of_int_abs [symmetric] flip: whole)
  ultimately have "plain_value (amount < 0, ?w, ?f) = amount" using fl by (simp add: plain_value_def)
  with parts show ?thesis by blast
qed

lemma native_numberE:
  assumes "native_number v = Inr x"
  obtains t p where "v = VStr t" "plain_parts t = Some p" "x = plain_value p" "length t \<le> 64"
  using assms by (auto simp: native_number_def split: pyval.splits if_splits option.splits)

lemma plain_parts_fraction: "plain_parts t = Some (neg, whole, dec) \<Longrightarrow> length dec = fraction_length (VStr t)"
  by (cases "t \<noteq> [] \<and> hd t = CHR ''-''")
    (auto simp: plain_parts_def fraction_length_def Let_def dropWhile_eq_drop [symmetric] neq_Nil_conv drop_Suc tl_drop split: if_splits)

lemma native_scaled:
  assumes v: "native_number v = Inr x" and s: "fraction_length v \<le> scale"
  shows "\<exists>k. x * 10 ^ scale = of_int k"
proof -
  obtain t neg whole dec where t: "v = VStr t" "plain_parts t = Some (neg, whole, dec)" "x = plain_value (neg, whole, dec)"
    using v by (elim native_numberE) (metis prod_cases3)
  have "length dec \<le> scale" using plain_parts_fraction [OF t(2)] s t(1) by simp
  then obtain m where m: "scale = length dec + m" using le_Suc_ex by blast
  have "x * 10 ^ scale = of_int ((if neg then -1 else 1) * digits_value (whole @ dec) * 10 ^ m)"
    by (simp add: t(3) plain_value_def m power_add)
  then show ?thesis by blast
qed

lemma native_number_of_text: "length t \<le> 64 \<Longrightarrow> plain_parts t = Some p \<Longrightarrow> native_number (VStr t) = Inr (plain_value p)"
  by (simp add: native_number_def)

definition nav_reconciles :: "nav_change \<Rightarrow> bool" where
  "nav_reconciles c \<longleftrightarrow> (\<exists>start final deposits.
     native_number (vd_get (nc_components c) ''startingValue'') = Inr start
     \<and> native_number (vd_get (nc_components c) ''endingValue'') = Inr final
     \<and> native_number (vd_get (nc_components c) ''depositsWithdrawals'') = Inr deposits
     \<and> native_number (vd_get (nc_components c) ''internalCashTransfers'') = Inr 0
     \<and> native_number (vd_get (nc_components c) ''assetTransfers'') = Inr 0
     \<and> native_number (vd_get (nc_components c) ''linkingAdjustments'') = Inr 0
     \<and> native_number (VStr (nc_amount c)) = Inr (final - start - deposits))"

lemma optional_nav_change_reconciles:
  assumes "optional_nav_change raw account currency start end_day = Some c"
  shows "nav_reconciles c"
proof -
  obtain d comps vals where d: "raw = VDict d" "vd_get d ''components'' = VDict comps"
    and v: "res_map (\<lambda>k. native_number (vd_get comps k)) component_fields = Inr vals"
    and n: "nav_amount comps vals = Some c"
    using assms by (auto simp: optional_nav_change_def split: pyval.splits if_splits sum.splits)
  obtain s f dep ca a l where vs: "vals = [s, f, dep, ca, a, l]"
    and num: "native_number (vd_get comps ''startingValue'') = Inr s" "native_number (vd_get comps ''endingValue'') = Inr f"
      "native_number (vd_get comps ''depositsWithdrawals'') = Inr dep" "native_number (vd_get comps ''internalCashTransfers'') = Inr ca"
      "native_number (vd_get comps ''assetTransfers'') = Inr a" "native_number (vd_get comps ''linkingAdjustments'') = Inr l"
    using v by (auto simp: component_fields_def res_bind_Inr_iff)
  let ?scale = "Max (set (List.map (\<lambda>k. fraction_length (vd_get comps k)) component_fields))"
  have le: "fraction_length (vd_get comps k) \<le> ?scale" if "k \<in> set component_fields" for k
    using that by simp
  have mem: "''startingValue'' \<in> set component_fields" "''endingValue'' \<in> set component_fields" "''depositsWithdrawals'' \<in> set component_fields"
    by (simp_all add: component_fields_def)
  obtain ks kf kd where k: "s * 10 ^ ?scale = of_int ks" "f * 10 ^ ?scale = of_int kf" "dep * 10 ^ ?scale = of_int kd"
    using native_scaled [OF num(1) le [OF mem(1)]] native_scaled [OF num(2) le [OF mem(2)]] native_scaled [OF num(3) le [OF mem(3)]]
    by blast
  have "(f - s - dep) * 10 ^ ?scale = of_int (kf - ks - kd)" unfolding left_diff_distrib k of_int_diff ..
  then obtain p where p: "plain_parts (exact_text (f - s - dep) ?scale) = Some p" "plain_value p = f - s - dep"
    using exact_text_parts by blast
  have zero: "ca = 0" "a = 0" "l = 0" and len: "length (exact_text (f - s - dep) ?scale) \<le> 64"
    and c: "c = \<lparr>nc_components = List.map (\<lambda>k. (k, vd_get comps k)) component_fields, nc_amount = exact_text (f - s - dep) ?scale\<rparr>"
    using n by (simp_all add: nav_amount_def vs Let_def split: if_splits)
  have "native_number (VStr (nc_amount c)) = Inr (f - s - dep)"
    using native_number_of_text [OF len p(1)] p(2) by (simp add: c)
  moreover have "vd_get (nc_components c) k = vd_get comps k" if "k \<in> set component_fields" for k
    using that by (auto simp: c component_fields_def vd_get_def dict_get_default_def)
  moreover have "''internalCashTransfers'' \<in> set component_fields" "''assetTransfers'' \<in> set component_fields" "''linkingAdjustments'' \<in> set component_fields"
    by (simp_all add: component_fields_def)
  ultimately show ?thesis
    unfolding nav_reconciles_def using mem num by (intro exI [of _ s] exI [of _ f] exI [of _ dep]) (simp add: zero)
qed

text \<open>
  C28. A period return that is built is exact: it names the one expected account, its interval ends
  no later than the day it was observed, the ratio published is precisely a hundredth of the broker's
  percentage and not below a total loss, and the change in net asset value, when there is one, is a
  readable number equal, to the last decimal, to the ending value less the starting value and the
  deposits, the ambiguous transfers being nil.
\<close>

theorem period_return_exact:
  assumes "build_ibkr_period_return ledger target binding account_scope accounts observed_at = Inr r"
  shows "accounts = [pe_account r] \<and> account_ok (pe_account r)
    \<and> pe_from r \<le> pe_to r \<and> pe_to r \<le> iso_date (utc_date (pe_observed_at r))
    \<and> (\<exists>percent ratio. native_number (pe_source_value r) = Inr percent \<and> native_number (pe_value r) = Inr ratio
        \<and> percent = 100 * ratio \<and> -1 \<le> ratio)
    \<and> (case pe_nav_change r of None \<Rightarrow> True | Some c \<Rightarrow> nav_reconciles c)"
proof -
  obtain native assessment start final observed currency where
    scope: "validate_period_return_scope target binding account_scope accounts = Inr ()"
    and per: "native_period ledger native = Inr (start, final)"
    and obs: "observed_instant observed_at final = Inr observed"
    and ratio: "checked_ratio (vd_get native ''twr'') (vd_get assessment ''value'') = Inr ()"
    and r: "pe_account r = hd accounts" "pe_from r = start" "pe_to r = final" "pe_observed_at r = observed"
      "pe_source_value r = vd_get native ''twr''" "pe_value r = vd_get assessment ''value''"
      "pe_nav_change r = optional_nav_change (vd_get ledger ''native_nav_change'') (hd accounts) currency start final"
    using assms by (auto simp: build_ibkr_period_return_def res_bind_Inr_iff split: if_split_asm pyval.split_asm)
  have a: "accounts = [hd accounts] \<and> account_ok (hd accounts)"
    using scope by (cases accounts) (auto simp: validate_period_return_scope_def split: if_splits)
  have p: "start \<le> final"
    using per by (auto simp: native_period_def res_bind_Inr_iff not_less split: pyval.splits if_splits)
  have o: "final \<le> iso_date (utc_date observed)"
    using obs by (auto simp: observed_instant_def not_less split: option.splits if_splits)
  have n: "case pe_nav_change r of None \<Rightarrow> True | Some c \<Rightarrow> nav_reconciles c"
    using r(7) optional_nav_change_reconciles by (auto split: option.splits)
  have q: "\<exists>percent ratio. native_number (pe_source_value r) = Inr percent \<and> native_number (pe_value r) = Inr ratio
      \<and> percent = 100 * ratio \<and> -1 \<le> ratio"
    using ratio r(5,6) by (auto simp: checked_ratio_def res_bind_Inr_iff not_less split: if_splits)
  show ?thesis using a p o n q r by simp
qed

definition sample_nav :: pyval where
  "sample_nav = VDict [(''source'', VStr ''ChangeInNAV''), (''account_id'', VStr ''DU0000000''), (''model'', VStr []),
     (''currency'', VStr ''EUR''), (''period'', VDict [(''from'', VStr ''2026-01-01''), (''to'', VStr ''2026-01-31'')]),
     (''components'', VDict [(''startingValue'', VStr ''100.5''), (''endingValue'', VStr ''99''), (''depositsWithdrawals'', VStr ''-0.125''),
       (''internalCashTransfers'', VStr ''0''), (''assetTransfers'', VStr ''0.00''), (''linkingAdjustments'', VStr ''-0'')])]"

definition sample_ledger :: "(string \<times> pyval) list" where
  "sample_ledger = [(''schema_version'', VStr ''ibkr_flex_ledger.v1''), (''account_ids'', VList [VStr ''DU0000000'']),
     (''account_base_currency'', VStr ''EUR''),
     (''period'', VDict [(''from'', VStr ''2026-01-01''), (''to'', VStr ''2026-01-31''), (''period'', VStr ''alias'')]),
     (''native_returns'', VDict [(''twr'', VStr ''-1.25''), (''unit'', VStr ''percent''), (''from'', VStr ''2026-01-01''),
       (''to'', VStr ''2026-01-31''), (''source'', VStr ''ChangeInNAV.twr'')]),
     (''return_assessment'', VDict [(''computable'', VBool True), (''method'', VStr ''native_ibkr_twr''), (''value'', VStr ''-0.0125''),
       (''unit'', VStr ''ratio''), (''source'', VStr ''ChangeInNAV.twr'')]),
     (''native_nav_change'', sample_nav)]"

definition sample_return :: "period_return res" where
  "sample_return = build_ibkr_period_return sample_ledger ''synthetic-target'' (replicate 64 (CHR ''a'')) ''synthetic-live''
     [''DU0000000''] (63927050400000000, Some 0)"

lemma sample_return_built:
  "case sample_return of Inr r \<Rightarrow> map_option nc_amount (pe_nav_change r) = Some ''-1.375'' | Inl e \<Rightarrow> False"
  by code_simp

theorem period_return_exact_witness:
  "\<exists>r c. sample_return = Inr r \<and> [''DU0000000''] = [pe_account r] \<and> pe_from r \<le> pe_to r
     \<and> pe_nav_change r = Some c \<and> nc_amount c = ''-1.375'' \<and> nav_reconciles c"
proof -
  obtain r c where r: "sample_return = Inr r" and c: "pe_nav_change r = Some c" "nc_amount c = ''-1.375''"
    using sample_return_built by (auto split: sum.splits)
  have "[''DU0000000''] = [pe_account r] \<and> pe_from r \<le> pe_to r \<and> (case pe_nav_change r of None \<Rightarrow> True | Some c \<Rightarrow> nav_reconciles c)"
    using period_return_exact [OF r [unfolded sample_return_def]] by blast
  then show ?thesis using r c by auto
qed

end
