(* ===== verification/Spec2Isabelle.thy ===== *)
theory Spec2Isabelle
  imports Prelude PyFloat PyValue Dates Orders Accounts SettledCash Sizing SettledGuard
    BrokerReads RiskAuthority Options Json ExecutionLock RiskGate Effects RebalancePlan RebalanceRun RebalanceOutcome
    FlexState Xml FlexStore FlexReport FlexForward FlexRunner FlexAnchors FlexWatch
    Settlement SettlementHistory SettlementSafety SettlementReports SettlementEffects SettlementReturns
    SettlementSubmit SettlementRoute PaperCommands PaperAdmission PeriodReturn
begin

text \<open>
  A verification development of the Interactive Brokers trading platform.

  The platform runs strategies whose targets come from other packages: it reads the account from
  the broker, asks the risk layer what is permitted, turns target weights into orders, settles
  and reports them, and every day collects the broker's own Flex statements.  This development
  models four parts of it, each from the Python sources under \<open>application/\<close>: the execution of a
  rebalance, the settlement of its orders, the commands and the gate of paper execution, and the
  daily Flex collector with the period return derived from its ledger.

  \<^bold>\<open>The language.\<close>  \<open>Prelude\<close> has Python's exceptions as values (\<open>pyexn\<close>), computations that may
  raise (\<open>'a res\<close>), computations that also read and change the outside world (\<open>('w, 'a) io\<close>, where
  an exception keeps the changes made before it), insertion-ordered dictionaries, and text
  operations.  \<open>PyFloat\<close> is binary64 with correct rounding, infinities and NaN (the two zeros are
  identified); \<open>PyValue\<close> the values of unknown type the sources take from metadata and JSON with
  the built-ins applied to them; \<open>Dates\<close> the calendar, ISO texts and instants in microseconds;
  \<open>Json\<close> the texts that are hashed and stored; \<open>Xml\<close> element trees, \<open>Decimal\<close> and \<open>strptime\<close>.
  Texts are lists of characters, texts that are not ASCII are held as their UTF-8 bytes.  Two
  locales state interfaces of this layer: \<open>keyed_store\<close> (what a lookup returns after an update,
  on the dictionaries) and \<open>rounding\<close> (what sizing uses of rounding, on \<open>round_double\<close>); a third,
  \<open>effects\<close>, collects the composition rules for what a computation may do to the world, used for
  "hands out only orders that satisfy P" and for "hands out no order".

  \<^bold>\<open>Execution of a rebalance\<close> (\<open>execution_service.py\<close>, with \<open>account_new_risk_gate_support.py\<close> and
  the broker readers of \<open>broker_reconciliation.py\<close>).  \<open>Orders\<close>: reports and the execution summary;
  \<open>Accounts\<close>: account selection and cash; \<open>SettledCash\<close> and \<open>SettledGuard\<close>: the bounded refresh of
  settled cash, with the settings it changes and restores (C5), and the connection wrapper that lets
  one buy through within it; \<open>Sizing\<close>:
  quantities and prices; \<open>BrokerReads\<close>: open orders and fills of all clients; \<open>RiskAuthority\<close>:
  targets against the approval of the risk engine; \<open>RiskGate\<close>: the account gate, its persistent
  breaker and the scaling of targets; \<open>Options\<close>: option intents; \<open>ExecutionLock\<close>: the daily lock
  file, on a disk that may fail.  \<open>RebalancePlan\<close> and \<open>RebalanceRun\<close> compose them as \<open>execute_rebalance\<close> does: its local
  variables are the record \<open>run\<close>, what it is given is the record \<open>env\<close>, each block is a stage that
  goes on, returns early or raises.  \<open>Effects\<close>, \<open>RebalanceFacts\<close>, \<open>RebalanceSafety\<close> and
  \<open>RebalanceOutcome\<close> prove what a whole run does: which orders it can hand out and with
  what authority, plainly or under the settled-cash guard (C18 to C21), the lock
  (C22), what its report says (C23, and that no deferred buy goes unreported).

  \<^bold>\<open>Settlement\<close> (\<open>order_settlement.py\<close>, \<open>settlement_reporting.py\<close>, \<open>settlement_route.py\<close>).  \<open>Settlement\<close> models the
  store of write-once markers (pending record, broker id, numbered observations), the reading back
  and validation of whole histories, observing, the summary and \<open>settle_pending\<close>;
  \<open>SettlementHistory\<close> what a well-kept store holds as a map; \<open>SettlementSafety\<close> the interleaving of
  any number of observers, submitters and crashes as a step relation, with the invariant that every
  reachable store reads back into valid histories (C3) which only grow up to a terminal observation
  (C13); \<open>SettlementReports\<close> the summary (C2), the notices that are sent at most once (C1) and the
  merging of candidates (C27).  \<open>SettlementEffects\<close> has the composition rules for what the store and
  the clock may do; \<open>SettlementReturns\<close> shows that \<open>settle_pending\<close> returns once its clock runs (C24);
  \<open>SettlementSubmit\<close> is \<open>track_submission\<close>: the broker is only called after the submission is on
  record, and the record stays whatever the call does (C4).  \<open>SettlementRoute\<close> is the endpoint:
  authentication, the receipt, the projection of rows into candidates, and that every path out of
  it releases the lock and the connection it took (C15).

  \<^bold>\<open>Paper execution\<close> (\<open>paper_execution_command_consumer.py\<close>, \<open>paper_execution_admission.py\<close>).
  \<open>PaperCommands\<close> is the reconciliation of a command with the account, which without findings
  accounts for the whole account and proposes exactly what is off target (C9); \<open>PaperAdmission\<close> is
  the decision on one write, which may raise the exposure only under a command issued for exactly
  this runtime, with no finding and with the gate asked about every exposure (C16).

  \<^bold>\<open>The Flex collector\<close> (\<open>flex_daily/\<close>).  \<open>FlexState\<close> is \<open>state.py\<close>: which days and monthly
  controls are complete, which windows come next, backing off, the published summary (C25, C26,
  C29).  \<open>FlexStore\<close> is \<open>storage.py\<close>: generation-matched objects, write-once objects and the
  lease, which refines an abstract lock under every interleaving (C30 to C33).  \<open>FlexReport\<close> is
  \<open>checks.py\<close>: the inspection of a report and the comparison of a month with its days (C34 to
  C37).  \<open>FlexForward\<close> is \<open>forward.py\<close>, \<open>FlexRunner\<close> is \<open>runner.py\<close> with \<open>pull_outcome\<close> of
  \<open>__main__.py\<close> (C39), \<open>FlexAnchors\<close> what the two select together: events after the anchor of the latest
  earlier day and unseen by it (C38), with the run in which a day that comes late selects an event
  again; \<open>FlexWatch\<close> is \<open>watch.py\<close> (C7, C40).  \<open>PeriodReturn\<close> is
  \<open>ibkr_period_return.py\<close>, which publishes the broker's return over an interval of the ledger and
  derives the change in net asset value without any rounding (C28).

  \<^bold>\<open>Bounds.\<close>  The constants are the code's: 30 windows a run, eight rounds of \<open>observe\<close> (after
  which it raises, as the code does), a lease of 31 minutes, a listing of at most 10000 markers,
  which keeps sequence numbers below the 10^8 at which eight padded digits would stop sorting.
  There is no other fuel: recursion over lists is structural, \<open>windows\<close> is proved to terminate, and
  the two loops that wait for the outside world (\<open>settle_order\<close>, the pacing of broker requests) are
  written so that not returning is the value \<open>None\<close> or is bounded by the code's own list of delays.

  \<^bold>\<open>Parameters and hypotheses.\<close>  Code that is not in the repository is an argument: the broker
  connection, the risk library, the quantity library, the marker store, the Google Cloud Storage
  bucket, the clocks, SHA-256, the time zone database.  Where a theorem relies on documented
  behaviour of such code the hypothesis has a name: \<open>rounds_down\<close> (quantity steps),
  \<open>generation_matched\<close> (\<open>if_generation_match\<close>), \<open>markers_atomic\<close> (claiming writes an absent key once;
  listing is complete when not truncated), \<open>reads_quiet\<close> and \<open>notifier_ok\<close> (which parameters may not
  place orders or change markers), \<open>time_runs\<close> (a sleep takes at least the time asked for, nothing
  turns time back and the clock reads it), \<open>submission_env\<close>
  (the marker store and the clock leave the order book alone, and nothing loses a marker), \<open>route_ok\<close> (what the ports of the
  endpoint may do), \<open>gate_fails_closed\<close> (the imported gate allows nothing it has findings against).  Requests may always fail, also after they took effect.  Each
  such theorem has a witness on a concrete instance.

  \<^bold>\<open>Not modelled.\<close>  HTTP routes, command lines and the composition root (\<open>main.py\<close>,
  \<open>strategy_runtime.py\<close>, \<open>http_routes.py\<close>, \<open>runtime_*\<close>) wire the parts above to Flask, Cloud Run,
  secrets and the strategy packages; \<open>rebalance_service.py\<close> drives \<open>execute_rebalance\<close> through these
  ports and formats its messages; \<open>notifications/\<close> formats and redacts texts with an imported
  package; \<open>scripts/\<close> are deployment and diagnosis programs around cloud services.  Of
  \<open>broker_reconciliation.py\<close> the two readers shared with the execution are modelled, not the digest
  candidates built from them; of \<open>ibkr_flex_source.py\<close> only the XML entry point, not the HTTP
  exchange with the broker.  SDK objects are records of the attributes the code reads.
\<close>

end
